(* ===== verification/Prelude.thy ===== *)
theory Prelude
  imports Complex_Main "HOL-Library.Monad_Syntax"
begin

text \<open>
  The vocabulary shared by every component of the development: the Python exceptions the
  modelled code can raise, the result type \<open>py_error + 'a\<close> of code that can raise, the
  sequencing of such code, counted loops with an early exit, and the theorem collections
  the component theories add to.

  A Python function that can raise becomes a HOL function into \<open>'a py\<close>: \<open>Inl e\<close> is the
  raised exception and \<open>Inr x\<close> the returned value.  \<open>py_bind m f\<close> runs \<open>m\<close> and, unless it
  raised, continues with \<open>f\<close>.
\<close>

section \<open>Results of code that can raise\<close>

datatype py_error =
    ValueError
  | IndexError
  | ZeroDivisionError
  | OverflowError
  | StructError
  | AssertionError
  | ConnectionError
  | RecursionError
  | TypeError
  | TimeoutError
  | BrokenPipeError
  | OSError
  | StatisticsError
  | KeyError
  | CsvError

type_synonym 'a py = "py_error + 'a"

definition py_bind :: "'a py \<Rightarrow> ('a \<Rightarrow> 'b py) \<Rightarrow> 'b py" where
  "py_bind m f = (case m of Inl e \<Rightarrow> Inl e | Inr x \<Rightarrow> f x)"

definition returns :: "'a py \<Rightarrow> bool" where
  "returns m \<longleftrightarrow> (case m of Inl _ \<Rightarrow> False | Inr _ \<Rightarrow> True)"

lemma py_bind_simps [simp]:
  "py_bind (Inl e) f = Inl e"
  "py_bind (Inr x) f = f x"
  by (simp_all add: py_bind_def)

lemma py_bind_Inr_iff:
  "py_bind m f = Inr y \<longleftrightarrow> (\<exists>x. m = Inr x \<and> f x = Inr y)"
  by (cases m) auto

lemma py_bind_Inl_iff:
  "py_bind m f = Inl e \<longleftrightarrow> m = Inl e \<or> (\<exists>x. m = Inr x \<and> f x = Inl e)"
  by (cases m) auto

lemma py_bind_assoc: "py_bind (py_bind m f) g = py_bind m (\<lambda>x. py_bind (f x) g)"
  by (cases m) auto

lemma returns_simps [simp]: "returns (Inr x)" "\<not> returns (Inl e)"
  by (simp_all add: returns_def)

lemma returns_iff: "returns m \<longleftrightarrow> (\<exists>x. m = Inr x)"
  by (cases m) auto

lemma returns_bind: "returns (py_bind m f) \<longleftrightarrow> (\<exists>x. m = Inr x \<and> returns (f x))"
  by (cases m) auto

section \<open>Theorem collections\<close>

named_theorems float_bounds \<open>interval rules for the floating-point operations\<close>
named_theorems float_eval \<open>rules that evaluate floating-point operations on literals\<close>

section \<open>Generic lemmas on lists\<close>

lemma nth_append_right_drop: "drop (length xs) (xs @ ys) = ys"
  by simp

lemma take_drop_append_eq:
  assumes "n \<le> length xs"
  shows "take n (xs @ ys) = take n xs" "drop n (xs @ ys) = drop n xs @ ys"
  using assms by simp_all

lemma list_eq_take_drop: "length xs = m + n \<Longrightarrow> \<exists>ys zs. xs = ys @ zs \<and> length ys = m \<and> length zs = n"
  by (rule exI [of _ "take m xs"], rule exI [of _ "drop m xs"]) simp

end
