(* ===== verification/Floats.thy ===== *)
theory Floats
  imports Prelude
begin

text \<open>
  Python's \<open>float\<close> (IEEE-754 binary64) and the binary32 values that \<open>struct\<close> puts on the
  wire, as executable definitions on integers: a finite value is a sign, a significand and the
  exponent of its last bit, and every operation rounds the exact result to nearest, ties to
  even, with gradual underflow and overflow to infinity.  NaN is one value (its sign and payload
  are not modelled); zeros are signed.

  \<open>fval\<close> gives the rational value of a finite float, \<open>rnd\<close> is rounding as a function on
  rationals, and the lemmas \<open>fl_add_spec\<close> etc. say that each operation returns the rounded
  exact result.  \<open>fwithin lo hi x\<close> (a finite double between two bounds) is what the components
  reason with: its rules are collected in \<open>float_bounds\<close>.
\<close>

section \<open>Formats and representation\<close>


datatype fmt = B64 | B32

fun prec :: "fmt \<Rightarrow> nat" where
  "prec B64 = 53"
| "prec B32 = 24"

fun emin :: "fmt \<Rightarrow> int" where
  "emin B64 = -1074"
| "emin B32 = -149"

fun emax :: "fmt \<Rightarrow> int" where
  "emax B64 = 971"
| "emax B32 = 104"

fun nbits :: "int \<Rightarrow> int" where
  "nbits n = (if n \<le> 0 then 0 else 1 + nbits (n div 2))"

declare nbits.simps [simp del]

definition ilog2 :: "int \<Rightarrow> int \<Rightarrow> int" where
  "ilog2 n d = (let k = nbits n - nbits d
     in if d * 2 ^ nat k \<le> n * 2 ^ nat (- k) then k else k - 1)"

definition half_even :: "int \<Rightarrow> int \<Rightarrow> int" where
  "half_even n d = (let q = n div d; r = n mod d in
     if 2 * r < d then q else if d < 2 * r then q + 1 else if even q then q else q + 1)"

datatype pyfloat = NaN | Infin bool | Fin bool int int

definition fpack :: "fmt \<Rightarrow> bool \<Rightarrow> int \<Rightarrow> int \<Rightarrow> pyfloat" where
  "fpack f s m e = (if emax f < e then Infin s else Fin s m e)"

definition fround :: "fmt \<Rightarrow> bool \<Rightarrow> int \<Rightarrow> int \<Rightarrow> pyfloat" where
  "fround f s n d = (if n = 0 then Fin s 0 (emin f) else
     let e = max (ilog2 n d - int (prec f) + 1) (emin f);
         m = half_even (n * 2 ^ nat (- e)) (d * 2 ^ nat e)
     in if m = 2 ^ prec f then fpack f s (2 ^ (prec f - 1)) (e + 1) else fpack f s m e)"

section \<open>Powers of two\<close>

abbreviation p2 :: "int \<Rightarrow> rat" where "p2 e \<equiv> 2 powi e"

lemma p2_pos [simp]: "0 < p2 e" "p2 e \<noteq> 0" "0 \<le> p2 e"
  by (simp_all add: zero_less_power_int less_imp_le)

lemma p2_add: "p2 (a + b) = p2 a * p2 b"
  by (simp add: power_int_add)

lemma p2_diff: "p2 (a - b) = p2 a / p2 b"
  by (simp add: power_int_diff)

lemma p2_le_iff [simp]: "p2 a \<le> p2 b \<longleftrightarrow> a \<le> b"
  by (metis less_irrefl linorder_le_less_linear one_less_numeral_iff order.strict_trans2 power_int_strict_increasing power_int_increasing one_le_numeral semiring_norm(76))

lemma p2_less_iff [simp]: "p2 a < p2 b \<longleftrightarrow> a < b"
  by (meson linorder_not_less p2_le_iff)

lemma p2_nat: "0 \<le> e \<Longrightarrow> p2 e = of_int (2 ^ nat e)"
  by (simp add: power_int_def)

lemma p2_ratio: "of_int (2 ^ nat e) / of_int (2 ^ nat (- e)) = p2 e"
  by (simp add: power_int_def field_simps)

section \<open>Rounding a rational to an integer, ties to even\<close>

definition rhe :: "rat \<Rightarrow> int" where
  "rhe x = (let f = \<lfloor>x\<rfloor>; r = x - of_int f in
     if r < 1/2 then f else if 1/2 < r then f + 1 else if even f then f else f + 1)"

lemma rhe_of_int [simp]: "rhe (of_int k) = k"
  by (simp add: rhe_def)

lemma rhe_bounds: "\<lfloor>x\<rfloor> \<le> rhe x" "rhe x \<le> \<lfloor>x\<rfloor> + 1"
  by (auto simp: rhe_def Let_def)

lemma rhe_close: "\<bar>of_int (rhe x) - x\<bar> \<le> 1/2"
proof -
  have "of_int \<lfloor>x\<rfloor> \<le> x" "x < of_int \<lfloor>x\<rfloor> + 1" by linarith+
  then show ?thesis by (auto simp: rhe_def Let_def)
qed

lemma rhe_mono: assumes "x \<le> y" shows "rhe x \<le> rhe y"
proof (cases "\<lfloor>x\<rfloor> = \<lfloor>y\<rfloor>")
  case True
  with assms show ?thesis by (auto simp: rhe_def Let_def)
next
  case False
  with assms have "\<lfloor>x\<rfloor> + 1 \<le> \<lfloor>y\<rfloor>" by (simp add: floor_mono order_less_le zless_imp_add1_zle)
  with rhe_bounds [of x] rhe_bounds [of y] show ?thesis by linarith
qed

lemma rhe_nonneg: "0 \<le> x \<Longrightarrow> 0 \<le> rhe x"
  using rhe_mono [of 0 x] rhe_of_int [of 0] by simp

lemma rhe_le_int: "x \<le> of_int k \<Longrightarrow> rhe x \<le> k"
  using rhe_mono [of x "of_int k"] by simp

lemma rhe_ge_int: "of_int k \<le> x \<Longrightarrow> k \<le> rhe x"
  using rhe_mono [of "of_int k" x] by simp

lemma half_even_rhe:
  assumes "0 < d"
  shows "half_even n d = rhe (of_int n / of_int d)"
proof -
  have fl: "\<lfloor>(of_int n :: rat) / of_int d\<rfloor> = n div d" by (rule floor_divide_of_int_eq)
  have r: "of_int n / of_int d - of_int (n div d) = (of_int (n mod d) :: rat) / of_int d"
  proof -
    have "(of_int n :: rat) = of_int (n div d) * of_int d + of_int (n mod d)"
      by (metis div_mult_mod_eq of_int_add of_int_mult)
    with assms show ?thesis by (simp add: field_simps)
  qed
  have lt: "(of_int (n mod d) :: rat) / of_int d < 1/2 \<longleftrightarrow> 2 * (n mod d) < d"
    using assms by (simp add: field_simps) (metis (mono_tags, opaque_lifting) mult.commute of_int_less_iff of_int_mult of_int_numeral)
  have gt: "1/2 < (of_int (n mod d) :: rat) / of_int d \<longleftrightarrow> d < 2 * (n mod d)"
    using assms by (simp add: field_simps) (metis (mono_tags, opaque_lifting) mult.commute of_int_less_iff of_int_mult of_int_numeral)
  show ?thesis
    unfolding half_even_def rhe_def Let_def fl r lt gt by simp
qed

section \<open>The binary logarithm\<close>

lemma nbits_bounds: "0 < n \<Longrightarrow> 2 powi (nbits n - 1) \<le> (of_int n :: rat) \<and> of_int n < p2 (nbits n)"
proof (induction n rule: nbits.induct)
  case (1 n)
  show ?case
  proof (cases "n = 1")
    case True
    then show ?thesis by (simp add: nbits.simps [of 1] nbits.simps [of 0])
  next
    case False
    with "1.prems" have pos: "0 < n div 2" by simp
    with "1.prems" "1.IH" have IH: "p2 (nbits (n div 2) - 1) \<le> (of_int (n div 2) :: rat)"
      "of_int (n div 2) < p2 (nbits (n div 2))" by auto
    have nb: "nbits n = nbits (n div 2) + 1"
      using "1.prems" by (simp add: nbits.simps [of n])
    have "(of_int n :: rat) = 2 * of_int (n div 2) + of_int (n mod 2)"
      by (metis mult_div_mod_eq of_int_add of_int_mult of_int_numeral)
    moreover have "(0 :: rat) \<le> of_int (n mod 2)" "(of_int (n mod 2) :: rat) \<le> 1" by auto
    moreover have "p2 (nbits n - 1) = 2 * p2 (nbits (n div 2) - 1)"
      unfolding nb by (simp add: p2_diff p2_add)
    moreover have "p2 (nbits n) = 2 * p2 (nbits (n div 2))"
      unfolding nb by (simp add: p2_add)
    moreover have "of_int (n div 2) + 1 \<le> p2 (nbits (n div 2))"
    proof -
      have "0 \<le> nbits (n div 2)"
        using IH(2) pos by (metis (no_types, opaque_lifting) dual_order.trans less_le_not_le linorder_not_less of_int_1_le_iff p2_le_iff p2_less_iff power_int_0_right zless_imp_add1_zle add_0)
      then obtain k where k: "p2 (nbits (n div 2)) = of_int k" using p2_nat by metis
      with IH(2) have "n div 2 + 1 \<le> k" by simp
      then show ?thesis unfolding k by (metis of_int_1 of_int_add of_int_le_iff)
    qed
    ultimately show ?thesis using IH by linarith
  qed
qed


lemma ilog2_bounds:
  assumes n: "0 < n" and d: "0 < d"
  shows "p2 (ilog2 n d) \<le> of_int n / of_int d \<and> of_int n / of_int d < p2 (ilog2 n d + 1)"
proof -
  let ?k = "nbits n - nbits d" and ?x = "(of_int n :: rat) / of_int d"
  note bn = nbits_bounds [OF n] and bd = nbits_bounds [OF d]
  have dpos: "(0 :: rat) < of_int d" using d by simp
  have up: "?x < p2 (?k + 1)"
  proof -
    have "of_int n < p2 (nbits n)" using bn by simp
    also have "\<dots> = p2 (?k + 1) * p2 (nbits d - 1)" by (simp flip: p2_add)
    also have "\<dots> \<le> p2 (?k + 1) * of_int d" using bd by simp
    finally show ?thesis using dpos by (simp add: field_simps)
  qed
  have lo: "p2 (?k - 1) \<le> ?x"
  proof -
    have "p2 (?k - 1) * of_int d \<le> p2 (?k - 1) * p2 (nbits d)" using bd by simp
    also have "\<dots> = p2 (nbits n - 1)" by (simp flip: p2_add)
    also have "\<dots> \<le> of_int n" using bn by simp
    finally show ?thesis using dpos by (simp add: field_simps)
  qed
  have test: "d * 2 ^ nat ?k \<le> n * 2 ^ nat (- ?k) \<longleftrightarrow> p2 ?k \<le> ?x"
  proof -
    have "d * 2 ^ nat ?k \<le> n * 2 ^ nat (- ?k) \<longleftrightarrow>
        (of_int (d * 2 ^ nat ?k) :: rat) \<le> of_int (n * 2 ^ nat (- ?k))"
      by (simp only: of_int_le_iff)
    also have "\<dots> \<longleftrightarrow> of_int (2 ^ nat ?k) / of_int (2 ^ nat (- ?k)) \<le> ?x"
      using dpos by (simp add: field_simps)
    finally show ?thesis unfolding p2_ratio .
  qed
  show ?thesis
    using up lo unfolding ilog2_def Let_def test by auto
qed

definition flog2 :: "rat \<Rightarrow> int" where
  "flog2 x = (case quotient_of x of (n, d) \<Rightarrow> ilog2 n d)"

lemma p2_bracket_unique:
  assumes "p2 k \<le> x" "x < p2 (k + 1)" "p2 l \<le> x" "x < p2 (l + 1)"
  shows "k = l"
proof -
  have "p2 k < p2 (l + 1)" "p2 l < p2 (k + 1)" using assms by linarith+
  then show ?thesis by simp
qed

lemma flog2_bounds: assumes "0 < x" shows "p2 (flog2 x) \<le> x" "x < p2 (flog2 x + 1)"
proof -
  obtain n d where q: "quotient_of x = (n, d)" by force
  then have x: "x = of_int n / of_int d" and d: "0 < d"
    by (auto dest: quotient_of_div quotient_of_denom_pos)
  with assms have "0 < n" by (simp add: zero_less_divide_iff)
  from ilog2_bounds [OF this d] show "p2 (flog2 x) \<le> x" "x < p2 (flog2 x + 1)"
    unfolding flog2_def q x [symmetric] by simp_all
qed

lemma flog2_unique: "p2 k \<le> x \<Longrightarrow> x < p2 (k + 1) \<Longrightarrow> flog2 x = k"
  using p2_bracket_unique flog2_bounds p2_pos(1) by (meson order.strict_trans2)

lemma flog2_ratio: "0 < n \<Longrightarrow> 0 < d \<Longrightarrow> flog2 (of_int n / of_int d) = ilog2 n d"
  using ilog2_bounds by (blast intro: flog2_unique)

lemma flog2_mono: assumes "0 < x" "x \<le> y" shows "flog2 x \<le> flog2 y"
proof -
  have "p2 (flog2 x) < p2 (flog2 y + 1)"
    using flog2_bounds [of x] flog2_bounds [of y] assms by linarith
  then show ?thesis by simp
qed

lemma flog2_less: "0 < x \<Longrightarrow> x < p2 k \<Longrightarrow> flog2 x < k"
  using flog2_bounds(1) [of x] by (meson le_less_trans p2_less_iff)

section \<open>Rounding to a binary format\<close>

text \<open>The exponent of the last significant bit of a value of magnitude \<open>x\<close>.\<close>

definition lsb :: "fmt \<Rightarrow> rat \<Rightarrow> int" where
  "lsb f x = max (flog2 x - int (prec f) + 1) (emin f)"

definition rndp :: "fmt \<Rightarrow> rat \<Rightarrow> rat" where
  "rndp f x = (if x = 0 then 0 else of_int (rhe (x / p2 (lsb f x))) * p2 (lsb f x))"

definition rnd :: "fmt \<Rightarrow> rat \<Rightarrow> rat" where
  "rnd f x = (if x < 0 then - rndp f (- x) else rndp f x)"

definition repr :: "fmt \<Rightarrow> rat \<Rightarrow> bool" where
  "repr f x \<longleftrightarrow> (\<exists>m e. x = of_int m * p2 e \<and> \<bar>m\<bar> < 2 ^ prec f \<and> emin f \<le> e)"

lemma prec_pos [simp]: "0 < prec f" "Suc (prec f - Suc 0) = prec f"
  by (cases f; simp)+

lemma p2_prec: "p2 (int (prec f)) = of_int (2 ^ prec f)" "p2 (int (prec f) - 1) = of_int (2 ^ (prec f - 1))"
  by (simp_all add: p2_nat Suc_leI nat_diff_distrib)

lemma rndp_zero [simp]: "rndp f 0 = 0" and rnd_zero [simp]: "rnd f 0 = 0"
  by (simp_all add: rndp_def rnd_def)

lemma rndp_nonneg: "0 \<le> x \<Longrightarrow> 0 \<le> rndp f x"
  by (simp add: rndp_def rhe_nonneg)

lemma lsb_mono: "0 < x \<Longrightarrow> x \<le> y \<Longrightarrow> lsb f x \<le> lsb f y"
  using flog2_mono [of x y] by (simp add: lsb_def)

lemma scaled_upper: "0 < x \<Longrightarrow> x / p2 (lsb f x) < of_int (2 ^ prec f)"
proof -
  assume x: "0 < x"
  have "flog2 x + 1 \<le> lsb f x + int (prec f)" using prec_pos(1)[of f] by (simp add: lsb_def)
  then have "p2 (flog2 x + 1) \<le> p2 (lsb f x + int (prec f))" by (simp only: p2_le_iff)
  then have "p2 (flog2 x + 1) \<le> p2 (lsb f x) * p2 (int (prec f))" by (simp only: p2_add)
  with flog2_bounds(2) [OF x] have "x < of_int (2 ^ prec f) * p2 (lsb f x)"
    unfolding p2_prec by (simp add: mult.commute)
  then show ?thesis by (simp add: field_simps)
qed

lemma scaled_lower:
  assumes "0 < x" "emin f < lsb f x"
  shows "of_int (2 ^ (prec f - 1)) \<le> x / p2 (lsb f x)"
proof -
  have eq: "flog2 x = lsb f x + (int (prec f) - 1)" using assms(2) by (simp add: lsb_def)
  have "p2 (flog2 x) = p2 (lsb f x) * p2 (int (prec f) - 1)" unfolding eq p2_add ..
  with flog2_bounds(1) [OF assms(1)] have "of_int (2 ^ (prec f - 1)) * p2 (lsb f x) \<le> x"
    unfolding p2_prec by (simp add: mult.commute)
  then show ?thesis by (simp add: field_simps)
qed

lemma rndp_mono: assumes "0 \<le> x" "x \<le> y" shows "rndp f x \<le> rndp f y"
proof (cases "x = 0")
  case True
  then show ?thesis using assms by (simp add: rndp_nonneg)
next
  case False
  with assms have x: "0 < x" and y: "0 < y" by auto
  have le: "lsb f x \<le> lsb f y" using x assms by (simp add: lsb_mono)
  show ?thesis
  proof (cases "lsb f x = lsb f y")
    case True
    have "rhe (x / p2 (lsb f y)) \<le> rhe (y / p2 (lsb f y))"
      using assms by (intro rhe_mono divide_right_mono) auto
    then show ?thesis using x y True by (simp add: rndp_def)
  next
    case neq: False
    with le have less: "lsb f x + 1 \<le> lsb f y" by simp
    moreover have "emin f \<le> lsb f x" by (simp add: lsb_def)
    ultimately have sub: "emin f < lsb f y" by simp
    have "rhe (x / p2 (lsb f x)) \<le> 2 ^ prec f"
      using scaled_upper [OF x, of f] by (intro rhe_le_int) simp
    then have "rndp f x \<le> of_int (2 ^ prec f) * p2 (lsb f x)"
      using x unfolding rndp_def by (simp del: of_int_power) 
    also have "\<dots> = p2 (lsb f x + 1) * p2 (int (prec f) - 1)"
      unfolding p2_prec(1) [symmetric] mult.commute [of "p2 (int (prec f))"] p2_add [symmetric]
      by (rule arg_cong) simp
    also have "\<dots> \<le> p2 (lsb f y) * p2 (int (prec f) - 1)" using less by simp
    also have "\<dots> \<le> rndp f y"
    proof -
      have "2 ^ (prec f - 1) \<le> rhe (y / p2 (lsb f y))"
        by (rule rhe_ge_int) (rule scaled_lower [OF y sub])
      then have "(of_int (2 ^ (prec f - 1)) :: rat) \<le> of_int (rhe (y / p2 (lsb f y)))"
        by (simp only: of_int_le_iff)
      then show ?thesis using y unfolding rndp_def p2_prec by (simp add: mult.commute)
    qed
    finally show ?thesis .
  qed
qed

lemma rndp_close: "0 \<le> x \<Longrightarrow> \<bar>rndp f x - x\<bar> \<le> p2 (lsb f x)"
proof (cases "x = 0")
  case False
  define u where "u = p2 (lsb f x)"
  define q where "q = x / u"
  have u: "0 < u" "x = q * u" by (simp_all add: u_def q_def)
  have "rndp f x = of_int (rhe q) * u" using False by (simp add: rndp_def q_def u_def)
  then have "rndp f x - x = (of_int (rhe q) - q) * u" using u(2) by (metis left_diff_distrib)
  then have "\<bar>rndp f x - x\<bar> = \<bar>of_int (rhe q) - q\<bar> * u" using u(1) by (simp add: abs_mult)
  also have "\<dots> \<le> 1 * u" by (rule mult_right_mono) (use rhe_close [of q] u(1) in auto)
  finally show ?thesis by (simp add: u_def)
qed simp

lemma rnd_mono: "x \<le> y \<Longrightarrow> rnd f x \<le> rnd f y"
  using rndp_mono [of x y f] rndp_mono [of "- y" "- x" f] rndp_nonneg [of "- x" f] rndp_nonneg [of y f]
  by (auto simp: rnd_def)

lemma rnd_minus: "rnd f (- x) = - rnd f x"
  by (auto simp: rnd_def)


lemma repr_0 [simp]: "repr f 0"
  unfolding repr_def by (rule exI [of _ 0], rule exI [of _ "emin f"]) simp

lemma repr_minusI: "repr f x \<Longrightarrow> repr f (- x)"
  unfolding repr_def by (metis abs_minus_cancel mult_minus_left of_int_minus)

lemma repr_minus [simp]: "repr f (- x) \<longleftrightarrow> repr f x"
  using repr_minusI [of f x] repr_minusI [of f "- x"] by auto

lemma repr_of_int: "\<bar>k\<bar> < 2 ^ prec f \<Longrightarrow> repr f (of_int k)"
  unfolding repr_def by (rule exI [of _ k], rule exI [of _ 0]) (cases f; simp)

lemma repr_dyadic: "\<bar>m\<bar> < 2 ^ prec f \<Longrightarrow> emin f \<le> e \<Longrightarrow> repr f (of_int m * p2 e)"
  unfolding repr_def by blast

lemma rndp_repr: assumes "repr f x" "0 \<le> x" shows "rndp f x = x"
proof (cases "x = 0")
  case False
  with assms(2) have x: "0 < x" by simp
  from assms(1) obtain m e where xe: "x = of_int m * p2 e" and m: "\<bar>m\<bar> < 2 ^ prec f" and e: "emin f \<le> e"
    by (auto simp: repr_def)
  have "x < p2 (int (prec f) + e)"
    unfolding p2_add p2_prec xe using m by (intro mult_strict_right_mono) auto
  with x have "flog2 x < int (prec f) + e" by (rule flog2_less)
  with e have le: "lsb f x \<le> e" by (simp add: lsb_def)
  have "x / p2 (lsb f x) = of_int m * p2 (e - lsb f x)" unfolding xe p2_diff by simp
  also have "\<dots> = of_int (m * 2 ^ nat (e - lsb f x))" using le by (simp add: p2_nat)
  finally have "x / p2 (lsb f x) = of_int (m * 2 ^ nat (e - lsb f x))" .
  moreover from this have "of_int (m * 2 ^ nat (e - lsb f x)) * p2 (lsb f x) = x"
    by (metis nonzero_divide_eq_eq p2_pos(2))
  ultimately show ?thesis using x by (simp add: rndp_def del: of_int_mult of_int_power)
qed simp

lemma rnd_repr: "repr f x \<Longrightarrow> rnd f x = x"
  using rndp_repr [of f x] rndp_repr [of f "- x"] by (auto simp: rnd_def)

lemma rnd_le: "x \<le> c \<Longrightarrow> repr f c \<Longrightarrow> rnd f x \<le> c"
  using rnd_mono [of x c f] by (simp add: rnd_repr)

lemma rnd_ge: "c \<le> x \<Longrightarrow> repr f c \<Longrightarrow> c \<le> rnd f x"
  using rnd_mono [of c x f] by (simp add: rnd_repr)

section \<open>Values\<close>

definition sgnr :: "bool \<Rightarrow> rat" where "sgnr s = (if s then - 1 else 1)"

fun fval :: "pyfloat \<Rightarrow> rat" where
  "fval (Fin s m e) = sgnr s * of_int m * p2 e"
| "fval _ = 0"

fun is_fin :: "pyfloat \<Rightarrow> bool" where
  "is_fin (Fin _ _ _) = True"
| "is_fin _ = False"

fun canon :: "fmt \<Rightarrow> pyfloat \<Rightarrow> bool" where
  "canon f (Fin s m e) \<longleftrightarrow> 0 \<le> m \<and> m < 2 ^ prec f \<and> emin f \<le> e \<and> e \<le> emax f \<and>
     (2 ^ (prec f - 1) \<le> m \<or> e = emin f)"
| "canon f _ \<longleftrightarrow> True"

lemma sgnr_simps [simp]: "sgnr True = -1" "sgnr False = 1"
  by (simp_all add: sgnr_def)

lemma canon_repr: "canon f x \<Longrightarrow> repr f (fval x)"
  by (cases x; cases "case x of Fin s _ _ \<Rightarrow> s | _ \<Rightarrow> False")
    (auto simp: repr_dyadic)

lemma fround_exponent:
  assumes "0 < n" "0 < d"
  shows "max (ilog2 n d - int (prec f) + 1) (emin f) = lsb f (of_int n / of_int d)"
  using assms by (simp add: lsb_def flog2_ratio)

lemma half_even_scaled:
  assumes "0 < d"
  shows "half_even (n * 2 ^ nat (- e)) (d * 2 ^ nat e) = rhe (of_int n / of_int d / p2 e)"
proof -
  have "(of_int (n * 2 ^ nat (- e)) :: rat) / of_int (d * 2 ^ nat e) = of_int n / of_int d / p2 e"
    unfolding p2_ratio [of e, symmetric] by simp
  with assms show ?thesis by (subst half_even_rhe) auto
qed

text \<open>
  What rounding returns: a canonical float whose value, when finite, is the correctly rounded
  value of the exact ratio.
\<close>

lemma fround_cases:
  assumes "0 \<le> n" "0 < d"
  shows "canon f (fround f s n d) \<and>
    (\<forall>s' m e. fround f s n d = Fin s' m e \<longrightarrow> s' = s \<and> of_int m * p2 e = rndp f (of_int n / of_int d))"
proof (cases "n = 0")
  case True
  then show ?thesis by (cases f; simp add: fround_def)
next
  case False
  with assms have n: "0 < n" by simp
  let ?x = "(of_int n :: rat) / of_int d"
  let ?e = "lsb f ?x" and ?m = "rhe (?x / p2 (lsb f ?x))"
  have x: "0 < ?x" using n assms by simp
  have fr: "fround f s n d = (if ?m = 2 ^ prec f then fpack f s (2 ^ (prec f - 1)) (?e + 1) else fpack f s ?m ?e)"
    using n assms by (simp add: fround_def Let_def fround_exponent half_even_scaled)
  have m0: "0 \<le> ?m" by (rule rhe_nonneg, rule divide_nonneg_pos, rule less_imp_le, rule x, simp)
  have m1: "?m \<le> 2 ^ prec f" using scaled_upper [OF x, of f] by (intro rhe_le_int) simp
  have m2: "2 ^ (prec f - 1) \<le> ?m \<or> ?e = emin f"
  proof (cases "?e = emin f")
    case False
    then have "emin f < ?e" by (simp add: lsb_def)
    from scaled_lower [OF x this] show ?thesis by (intro disjI1 rhe_ge_int)
  qed simp
  have e: "emin f \<le> ?e" by (simp add: lsb_def)
  have "?x \<noteq> 0" using x by (rule less_imp_neq [THEN not_sym])
  then have val: "rndp f ?x = of_int ?m * p2 ?e" by (simp only: rndp_def if_False)
  show ?thesis
  proof (cases "?m = 2 ^ prec f")
    case True
    have "(2::rat) ^ prec f = 2 ^ (prec f - 1) * 2" by (cases f) simp_all
    then have "(of_int (2 ^ (prec f - 1)) :: rat) * p2 (?e + 1) = of_int ?m * p2 ?e"
      unfolding True p2_add by simp
    moreover have "(2::int) ^ (prec f - 1) < 2 ^ prec f" by (cases f) simp_all
    ultimately show ?thesis
      using True e val by (auto simp: fr fpack_def)
  next
    case False
    with m1 have "?m < 2 ^ prec f" by simp
    with False m0 m2 e val show ?thesis by (auto simp: fr fpack_def)
  qed
qed

lemma fround_fin:
  assumes "0 \<le> n" "0 < d" "of_int n / of_int d \<le> of_int (2 ^ prec f - 1) * p2 (emax f)"
  shows "is_fin (fround f s n d)"
proof (cases "n = 0")
  case True
  then show ?thesis by (simp add: fround_def)
next
  case False
  with assms have n: "0 < n" by simp
  let ?x = "(of_int n :: rat) / of_int d" and ?M = "(2 ^ prec f - 1) :: int"
  let ?e = "lsb f ?x" and ?m = "rhe (?x / p2 (lsb f ?x))"
  have x: "0 < ?x" using n assms by simp
  have fr: "fround f s n d = (if ?m = 2 ^ prec f then fpack f s (2 ^ (prec f - 1)) (?e + 1) else fpack f s ?m ?e)"
    using n assms by (simp add: fround_def Let_def fround_exponent half_even_scaled)
  have "?x < p2 (int (prec f)) * p2 (emax f)"
    by (rule le_less_trans [OF assms(3)], unfold p2_prec, rule mult_strict_right_mono) (simp_all only: of_int_less_iff p2_pos)
  then have "p2 (flog2 ?x) < p2 (int (prec f) + emax f)"
    unfolding p2_add using flog2_bounds(1) [OF x] by linarith
  then have "flog2 ?x < int (prec f) + emax f" by (simp only: p2_less_iff)
  then have e: "?e \<le> emax f" by (cases f) (simp_all add: lsb_def)
  have "?m \<noteq> 2 ^ prec f" if "?e = emax f"
  proof -
    have "?x / p2 ?e \<le> of_int ?M * p2 (emax f) / p2 ?e" by (rule divide_right_mono [OF assms(3)]) simp
    also have "\<dots> = of_int ?M" using that by simp
    finally have "?m \<le> ?M" by (rule rhe_le_int)
    then show ?thesis by simp
  qed
  with e show ?thesis by (auto simp: fr fpack_def)
qed

definition fround_exp :: "fmt \<Rightarrow> bool \<Rightarrow> int \<Rightarrow> int \<Rightarrow> pyfloat" where
  "fround_exp f s m e = fround f s (m * 2 ^ nat e) (2 ^ nat (- e))"

definition sgi :: "bool \<Rightarrow> int \<Rightarrow> int" where
  "sgi s m = (if s then - m else m)"

fun fneg :: "pyfloat \<Rightarrow> pyfloat" where
  "fneg NaN = NaN"
| "fneg (Infin s) = Infin (\<not> s)"
| "fneg (Fin s m e) = Fin (\<not> s) m e"

fun fabs :: "pyfloat \<Rightarrow> pyfloat" where
  "fabs NaN = NaN"
| "fabs (Infin s) = Infin False"
| "fabs (Fin s m e) = Fin False m e"

fun fl_add :: "fmt \<Rightarrow> pyfloat \<Rightarrow> pyfloat \<Rightarrow> pyfloat" where
  "fl_add f (Fin s m e) (Fin s' m' e') =
     (let e0 = min e e';
          c = sgi s m * 2 ^ nat (e - e0) + sgi s' m' * 2 ^ nat (e' - e0)
      in if c = 0 then Fin (s \<and> s') 0 (emin f) else fround_exp f (c < 0) \<bar>c\<bar> e0)"
| "fl_add f NaN y = NaN"
| "fl_add f x NaN = NaN"
| "fl_add f (Infin s) (Infin s') = (if s = s' then Infin s else NaN)"
| "fl_add f (Infin s) y = Infin s"
| "fl_add f x (Infin s) = Infin s"

definition fl_sub :: "fmt \<Rightarrow> pyfloat \<Rightarrow> pyfloat \<Rightarrow> pyfloat" where
  "fl_sub f x y = fl_add f x (fneg y)"

fun fl_mul :: "fmt \<Rightarrow> pyfloat \<Rightarrow> pyfloat \<Rightarrow> pyfloat" where
  "fl_mul f (Fin s m e) (Fin s' m' e') = fround_exp f (s \<noteq> s') (m * m') (e + e')"
| "fl_mul f NaN y = NaN"
| "fl_mul f x NaN = NaN"
| "fl_mul f (Infin s) (Infin s') = Infin (s \<noteq> s')"
| "fl_mul f (Infin s) (Fin s' m e) = (if m = 0 then NaN else Infin (s \<noteq> s'))"
| "fl_mul f (Fin s m e) (Infin s') = (if m = 0 then NaN else Infin (s \<noteq> s'))"

fun fl_div :: "fmt \<Rightarrow> pyfloat \<Rightarrow> pyfloat \<Rightarrow> pyfloat" where
  "fl_div f (Fin s m e) (Fin s' m' e') =
     (if m' = 0 then (if m = 0 then NaN else Infin (s \<noteq> s'))
      else fround f (s \<noteq> s') (m * 2 ^ nat (e - e')) (m' * 2 ^ nat (e' - e)))"
| "fl_div f NaN y = NaN"
| "fl_div f x NaN = NaN"
| "fl_div f (Infin s) (Infin s') = NaN"
| "fl_div f (Infin s) (Fin s' m e) = Infin (s \<noteq> s')"
| "fl_div f (Fin s m e) (Infin s') = Fin (s \<noteq> s') 0 (emin f)"

fun flt :: "pyfloat \<Rightarrow> pyfloat \<Rightarrow> bool" where
  "flt (Fin s m e) (Fin s' m' e') =
     (let e0 = min e e' in sgi s m * 2 ^ nat (e - e0) < sgi s' m' * 2 ^ nat (e' - e0))"
| "flt (Infin s) (Infin s') = (s \<and> \<not> s')"
| "flt (Infin s) (Fin _ _ _) = s"
| "flt (Fin _ _ _) (Infin s) = (\<not> s)"
| "flt _ _ = False"

fun feq :: "pyfloat \<Rightarrow> pyfloat \<Rightarrow> bool" where
  "feq (Fin s m e) (Fin s' m' e') =
     (let e0 = min e e' in sgi s m * 2 ^ nat (e - e0) = sgi s' m' * 2 ^ nat (e' - e0))"
| "feq (Infin s) (Infin s') = (s = s')"
| "feq _ _ = False"

definition fle :: "pyfloat \<Rightarrow> pyfloat \<Rightarrow> bool" where
  "fle x y \<longleftrightarrow> flt x y \<or> feq x y"

fun fzero :: "pyfloat \<Rightarrow> bool" where
  "fzero (Fin s m e) = (m = 0)"
| "fzero _ = False"

text \<open>The largest finite value.\<close>

definition flim :: "fmt \<Rightarrow> rat" where "flim f = of_int (2 ^ prec f - 1) * p2 (emax f)"

fun wff :: "pyfloat \<Rightarrow> bool" where
  "wff (Fin s m e) \<longleftrightarrow> 0 \<le> m"
| "wff _ \<longleftrightarrow> False"

lemma canon_wff: "canon f x \<Longrightarrow> is_fin x \<Longrightarrow> wff x"
  by (cases x) auto

lemma rnd_sgn: "0 \<le> x \<Longrightarrow> rnd f (sgnr s * x) = sgnr s * rndp f x"
  by (cases s) (auto simp: rnd_def order_less_le)

lemma fround_spec:
  assumes "0 \<le> n" "0 < d" "of_int n / of_int d \<le> flim f"
  shows "canon f (fround f s n d) \<and> is_fin (fround f s n d) \<and>
    fval (fround f s n d) = rnd f (sgnr s * (of_int n / of_int d))"
proof -
  have fin: "is_fin (fround f s n d)" by (rule fround_fin) (use assms in \<open>auto simp: flim_def\<close>)
  then obtain s' m e where r: "fround f s n d = Fin s' m e" by (cases "fround f s n d") auto
  with fround_cases [OF assms(1,2), of f s] have "s' = s" "of_int m * p2 e = rndp f (of_int n / of_int d)"
    by auto
  moreover have "(0::rat) \<le> of_int n / of_int d" using assms by simp
  ultimately show ?thesis
    using fround_cases [OF assms(1,2), of f s] fin
    by (simp add: r mult.assoc rnd_sgn del: times_divide_eq_right)
qed

lemma fround_exp_ratio: "(of_int (m * 2 ^ nat e) :: rat) / of_int (2 ^ nat (- e)) = of_int m * p2 e"
  unfolding p2_ratio [of e, symmetric] by simp

lemma fround_exp_spec:
  assumes "0 \<le> m" "of_int m * p2 e \<le> flim f"
  shows "canon f (fround_exp f s m e) \<and> is_fin (fround_exp f s m e) \<and>
    fval (fround_exp f s m e) = rnd f (sgnr s * (of_int m * p2 e))"
  unfolding fround_exp_def fround_exp_ratio [symmetric]
  by (rule fround_spec) (use assms in \<open>simp_all add: fround_exp_ratio del: of_int_mult of_int_power\<close>)

lemma sgi_val: "(of_int (sgi s m) :: rat) = sgnr s * of_int m"
  by (simp add: sgi_def)

lemma scaled_val:
  "e0 \<le> e \<Longrightarrow> of_int (sgi s m * 2 ^ nat (e - e0)) * p2 e0 = fval (Fin s m e)"
proof -
  assume "e0 \<le> e"
  then have "p2 (e - e0) = of_int (2 ^ nat (e - e0))" by (intro p2_nat) simp
  then have "(of_int (2 ^ nat (e - e0)) :: rat) * p2 e0 = p2 e"
    by (metis diff_add_cancel p2_add)
  then show ?thesis by (simp add: sgi_val mult.assoc)
qed

lemma scaled_iff:
  "(of_int a :: rat) * p2 e < of_int b * p2 e \<longleftrightarrow> a < b"
  "(of_int a :: rat) * p2 e = of_int b * p2 e \<longleftrightarrow> a = b"
  by simp_all

lemma fl_add_spec:
  assumes "is_fin x" "is_fin y" "\<bar>fval x + fval y\<bar> \<le> flim f"
  shows "canon f (fl_add f x y) \<and> is_fin (fl_add f x y) \<and> fval (fl_add f x y) = rnd f (fval x + fval y)"
proof -
  obtain s m e s' m' e' where xy: "x = Fin s m e" "y = Fin s' m' e'"
    using assms by (cases x; cases y) auto
  let ?e0 = "min e e'"
  let ?c = "sgi s m * 2 ^ nat (e - ?e0) + sgi s' m' * 2 ^ nat (e' - ?e0)"
  have val: "of_int ?c * p2 ?e0 = fval x + fval y"
    unfolding of_int_add distrib_right xy by (simp only: scaled_val min.cobounded1 min.cobounded2)
  show ?thesis
  proof (cases "?c = 0")
    case True
    with val have "fval x + fval y = 0" by simp
    with True show ?thesis by (cases f) (auto simp: xy)
  next
    case False
    have abs: "sgnr (?c < 0) * (of_int \<bar>?c\<bar> * p2 ?e0) = fval x + fval y"
      unfolding val [symmetric] by (simp add: sgnr_def abs_if)
    have "of_int \<bar>?c\<bar> * p2 ?e0 = \<bar>fval x + fval y\<bar>"
      unfolding val [symmetric] by (simp add: abs_mult)
    with assms(3) have "of_int \<bar>?c\<bar> * p2 ?e0 \<le> flim f" by simp
    from fround_exp_spec [OF _ this, of "?c < 0"] show ?thesis
      unfolding abs using False by (simp add: xy Let_def)
  qed
qed

lemma fneg_spec [simp]:
  "is_fin (fneg x) = is_fin x" "canon f (fneg x) = canon f x" "fval (fneg x) = - fval x" "wff (fneg x) = wff x"
  by (cases x; simp add: sgnr_def)+

lemma fabs_spec:
  "is_fin (fabs x) = is_fin x" "canon f (fabs x) = canon f x" "wff (fabs x) = wff x"
  "wff x \<Longrightarrow> fval (fabs x) = \<bar>fval x\<bar>"
  by (cases x; simp add: sgnr_def abs_mult)+

lemma fl_sub_spec:
  assumes "is_fin x" "is_fin y" "\<bar>fval x - fval y\<bar> \<le> flim f"
  shows "canon f (fl_sub f x y) \<and> is_fin (fl_sub f x y) \<and> fval (fl_sub f x y) = rnd f (fval x - fval y)"
  using fl_add_spec [of x "fneg y" f] assms by (simp add: fl_sub_def)

lemma sgnr_neq: "sgnr (s \<noteq> s') = sgnr s * sgnr s'"
  by (cases s; cases s') auto

lemma fl_mul_spec:
  assumes "wff x" "wff y" "\<bar>fval x * fval y\<bar> \<le> flim f"
  shows "canon f (fl_mul f x y) \<and> is_fin (fl_mul f x y) \<and> fval (fl_mul f x y) = rnd f (fval x * fval y)"
proof -
  obtain s m e s' m' e' where xy: "x = Fin s m e" "y = Fin s' m' e'"
    using assms by (cases x; cases y) auto
  have m: "0 \<le> m" "0 \<le> m'" using assms by (auto simp: xy)
  have val: "sgnr (s \<noteq> s') * (of_int (m * m') * p2 (e + e')) = fval x * fval y"
    unfolding sgnr_neq by (simp add: xy p2_add)
  have "of_int (m * m') * p2 (e + e') = \<bar>fval x * fval y\<bar>"
    using m by (simp add: xy p2_add abs_mult sgnr_def)
  with assms(3) have "of_int (m * m') * p2 (e + e') \<le> flim f" by simp
  from fround_exp_spec [OF _ this, of "s \<noteq> s'"] m show ?thesis
    unfolding val by (simp add: xy)
qed

lemma fl_div_spec:
  assumes "wff x" "wff y" "fval y \<noteq> 0" "\<bar>fval x / fval y\<bar> \<le> flim f"
  shows "canon f (fl_div f x y) \<and> is_fin (fl_div f x y) \<and> fval (fl_div f x y) = rnd f (fval x / fval y)"
proof -
  obtain s m e s' m' e' where xy: "x = Fin s m e" "y = Fin s' m' e'"
    using assms by (cases x; cases y) auto
  have m: "0 \<le> m" "0 < m'" using assms by (auto simp: xy order_less_le)
  let ?n = "m * 2 ^ nat (e - e')" and ?d = "m' * 2 ^ nat (e' - e)"
  have q: "(of_int ?n :: rat) / of_int ?d = of_int m / of_int m' * p2 (e - e')"
    unfolding p2_ratio [of "e - e'", symmetric] by simp
  have val: "sgnr (s \<noteq> s') * (of_int ?n / of_int ?d) = fval x / fval y"
    unfolding q sgnr_neq by (simp add: xy p2_diff sgnr_def)
  have "of_int ?n / of_int ?d = \<bar>fval x / fval y\<bar>"
    unfolding q using m by (simp add: xy p2_diff abs_mult sgnr_def)
  with assms(4) have "of_int ?n / of_int ?d \<le> flim f" by simp
  from fround_spec [OF _ _ this, of "s \<noteq> s'"] m show ?thesis
    unfolding val by (simp add: xy)
qed

lemma scaled_cmp:
  fixes e e' s s' m m'
  defines "e0 \<equiv> min e e'"
  shows "sgi s m * 2 ^ nat (e - e0) < sgi s' m' * 2 ^ nat (e' - e0) \<longleftrightarrow> fval (Fin s m e) < fval (Fin s' m' e')"
    and "sgi s m * 2 ^ nat (e - e0) = sgi s' m' * 2 ^ nat (e' - e0) \<longleftrightarrow> fval (Fin s m e) = fval (Fin s' m' e')"
proof -
  have le: "e0 \<le> e" "e0 \<le> e'" by (auto simp: e0_def)
  show "sgi s m * 2 ^ nat (e - e0) < sgi s' m' * 2 ^ nat (e' - e0) \<longleftrightarrow> fval (Fin s m e) < fval (Fin s' m' e')"
    unfolding scaled_val [OF le(1), symmetric] scaled_val [OF le(2), symmetric] scaled_iff ..
  show "sgi s m * 2 ^ nat (e - e0) = sgi s' m' * 2 ^ nat (e' - e0) \<longleftrightarrow> fval (Fin s m e) = fval (Fin s' m' e')"
    unfolding scaled_val [OF le(1), symmetric] scaled_val [OF le(2), symmetric] scaled_iff ..
qed

lemma flt_Inf [simp]: "is_fin x \<Longrightarrow> flt (Infin s) x = s" "is_fin x \<Longrightarrow> flt x (Infin s) = (\<not> s)"
  by (cases x; simp)+

lemma flt_NaN [simp]: "\<not> flt NaN x" "\<not> flt x NaN"
  by (cases x; simp)+

lemma flt_fin: "is_fin x \<Longrightarrow> is_fin y \<Longrightarrow> flt x y \<longleftrightarrow> fval x < fval y"
  by (cases x; cases y) (simp_all only: flt.simps Let_def scaled_cmp is_fin.simps)

lemma feq_fin: "is_fin x \<Longrightarrow> is_fin y \<Longrightarrow> feq x y \<longleftrightarrow> fval x = fval y"
  by (cases x; cases y) (simp_all only: feq.simps Let_def scaled_cmp is_fin.simps)

lemma flt_trans: "flt x y \<Longrightarrow> flt y z \<Longrightarrow> flt x z"
proof (cases "is_fin x \<and> is_fin y \<and> is_fin z")
  case True
  then show "flt x y \<Longrightarrow> flt y z \<Longrightarrow> flt x z" by (simp add: flt_fin)
qed (cases x; cases y; cases z; simp del: flt.simps(1))

lemma not_flt_trans: "\<not> flt x y \<Longrightarrow> \<not> flt y z \<Longrightarrow> y \<noteq> NaN \<Longrightarrow> \<not> flt x z"
proof (cases "is_fin x \<and> is_fin y \<and> is_fin z")
  case True
  then show "\<not> flt x y \<Longrightarrow> \<not> flt y z \<Longrightarrow> y \<noteq> NaN \<Longrightarrow> \<not> flt x z" by (simp add: flt_fin)
qed (cases x; cases y; cases z; simp del: flt.simps(1) add: flt_fin)

lemma fle_fin: "is_fin x \<Longrightarrow> is_fin y \<Longrightarrow> fle x y \<longleftrightarrow> fval x \<le> fval y"
  by (auto simp: fle_def flt_fin feq_fin)

lemma fzero_fval: "wff x \<Longrightarrow> fzero x \<longleftrightarrow> fval x = 0"
  by (cases x) (auto simp: sgnr_def)



section \<open>The laws of a rounding function\<close>

text \<open>
  What the rest of the development relies on: rounding is monotone, odd, and leaves the values
  of the format unchanged.  Everything below the locale (bounds by values of the format) is
  proved from these laws once, for both formats.
\<close>

locale rounding =
  fixes rd :: "rat \<Rightarrow> rat" and rep :: "rat \<Rightarrow> bool"
  assumes rd_mono: "x \<le> y \<Longrightarrow> rd x \<le> rd y"
    and rd_rep: "rep c \<Longrightarrow> rd c = c"
    and rd_odd: "rd (- x) = - rd x"
    and rep_zero: "rep 0"
begin

lemma rd_le: "x \<le> c \<Longrightarrow> rep c \<Longrightarrow> rd x \<le> c"
  using rd_mono [of x c] by (simp add: rd_rep)

lemma rd_ge: "c \<le> x \<Longrightarrow> rep c \<Longrightarrow> c \<le> rd x"
  using rd_mono [of c x] by (simp add: rd_rep)

lemma rd_zero: "rd 0 = 0"
  by (simp add: rd_rep rep_zero)

lemma rd_nonneg: "0 \<le> x \<Longrightarrow> 0 \<le> rd x"
  by (rule rd_ge) (simp_all add: rep_zero)

lemma rd_nonpos: "x \<le> 0 \<Longrightarrow> rd x \<le> 0"
  by (rule rd_le) (simp_all add: rep_zero)

lemma rd_add_le: "rep c \<Longrightarrow> d \<le> 0 \<Longrightarrow> rd (c + d) \<le> c"
  by (rule rd_le) simp_all

lemma rd_add_ge: "rep c \<Longrightarrow> 0 \<le> d \<Longrightarrow> c \<le> rd (c + d)"
  by (rule rd_ge) simp_all

lemma rd_sandwich: "lo \<le> x \<Longrightarrow> x \<le> hi \<Longrightarrow> rep lo \<Longrightarrow> rep hi \<Longrightarrow> lo \<le> rd x \<and> rd x \<le> hi"
  using rd_le rd_ge by blast

end

interpretation b64: rounding "rnd B64" "repr B64"
  by unfold_locales (auto simp: rnd_mono rnd_repr rnd_minus)

interpretation b32: rounding "rnd B32" "repr B32"
  by unfold_locales (auto simp: rnd_mono rnd_repr rnd_minus)

section \<open>Python's float operations\<close>

abbreviation fadd :: "pyfloat \<Rightarrow> pyfloat \<Rightarrow> pyfloat" where "fadd \<equiv> fl_add B64"
abbreviation fsub :: "pyfloat \<Rightarrow> pyfloat \<Rightarrow> pyfloat" where "fsub \<equiv> fl_sub B64"
abbreviation fmul :: "pyfloat \<Rightarrow> pyfloat \<Rightarrow> pyfloat" where "fmul \<equiv> fl_mul B64"

text \<open>\<open>x / y\<close> raises on a zero divisor, whatever \<open>x\<close> is.\<close>

definition fdiv :: "pyfloat \<Rightarrow> pyfloat \<Rightarrow> pyfloat py" where
  "fdiv x y = (if fzero y then Inl ZeroDivisionError else Inr (fl_div B64 x y))"

text \<open>The literal with decimal value \<open>n / d\<close>, and \<open>i / j\<close> on two integers: both correctly rounded.\<close>

definition flit :: "int \<Rightarrow> int \<Rightarrow> pyfloat" where
  "flit n d = fround B64 (n < 0) \<bar>n\<bar> d"

definition int_truediv :: "int \<Rightarrow> int \<Rightarrow> pyfloat py" where
  "int_truediv i j = (if j = 0 then Inl ZeroDivisionError
     else Inr (fround B64 ((i < 0) \<noteq> (j < 0)) \<bar>i\<bar> \<bar>j\<bar>))"

text \<open>\<open>int(round(x))\<close>: to the nearest integer, ties to even; raises on infinities and NaN.\<close>

fun py_int_round :: "pyfloat \<Rightarrow> int py" where
  "py_int_round (Fin s m e) = Inr (sgi s (half_even (m * 2 ^ nat e) (2 ^ nat (- e))))"
| "py_int_round (Infin s) = Inl OverflowError"
| "py_int_round NaN = Inl ValueError"

text \<open>\<open>min(x, y)\<close> and \<open>max(x, y)\<close> keep the first argument unless the second is strictly better.\<close>

definition fmin2 :: "pyfloat \<Rightarrow> pyfloat \<Rightarrow> pyfloat" where
  "fmin2 x y = (if flt y x then y else x)"

definition fmax2 :: "pyfloat \<Rightarrow> pyfloat \<Rightarrow> pyfloat" where
  "fmax2 x y = (if flt x y then y else x)"

abbreviation f0 :: pyfloat where "f0 \<equiv> Fin False 0 (- 1074)"

instantiation pyfloat :: uminus
begin
definition uminus_pyfloat :: "pyfloat \<Rightarrow> pyfloat" where "uminus_pyfloat x = fneg x"
instance ..
end

section \<open>Intervals\<close>

definition fwithin :: "rat \<Rightarrow> rat \<Rightarrow> pyfloat \<Rightarrow> bool" where
  "fwithin lo hi x \<longleftrightarrow> canon B64 x \<and> is_fin x \<and> lo \<le> fval x \<and> fval x \<le> hi"

text \<open>A bound the rules can round to: a double of moderate size.\<close>

definition bnd :: "rat \<Rightarrow> bool" where
  "bnd c \<longleftrightarrow> repr B64 c \<and> \<bar>c\<bar> \<le> p2 1000"

lemma bnd_lim: "bnd c \<Longrightarrow> \<bar>c\<bar> \<le> flim B64"
proof -
  assume "bnd c"
  then have "\<bar>c\<bar> \<le> p2 1000" by (simp add: bnd_def)
  also have "p2 1000 \<le> flim B64"
  proof -
    have "p2 1000 = 1 * p2 1000" by simp
    also have "\<dots> \<le> 2 ^ 29 * p2 971" using p2_add [of 29 971] by (simp add: p2_nat)
    also have "\<dots> \<le> flim B64" unfolding flim_def emax.simps prec.simps by (rule mult_right_mono) simp_all
    finally show ?thesis .
  qed
  finally show ?thesis .
qed

lemma bnd_simps [simp]: "bnd 0" "bnd 1" "bnd (- c) \<longleftrightarrow> bnd c"
proof -
  show "bnd 0" by (simp add: bnd_def)
  have "p2 0 \<le> p2 1000" by (subst p2_le_iff) simp
  then show "bnd 1" using repr_of_int [of 1 B64] by (simp add: bnd_def)
  show "bnd (- c) \<longleftrightarrow> bnd c" by (simp add: bnd_def)
qed

lemma bnd_of_int: "\<bar>k\<bar> < 2 ^ 53 \<Longrightarrow> bnd (of_int k)"
proof -
  assume k: "\<bar>k\<bar> < 2 ^ 53"
  then have "\<bar>of_int k :: rat\<bar> \<le> of_int (2 ^ 53)" by linarith
  also have "\<dots> = p2 53" by (subst p2_nat) simp_all
  also have "\<dots> \<le> p2 1000" by (subst p2_le_iff) simp
  finally show ?thesis using k by (simp add: bnd_def repr_of_int)
qed

lemma bnd_numeral [simp]: "(numeral w :: int) < 2 ^ 53 \<Longrightarrow> bnd (numeral w)"
  using bnd_of_int [of "numeral w"] by simp

lemma bnd_dyadic: assumes "\<bar>m\<bar> < 2 ^ 53" "k \<le> 1000" shows "bnd (of_int m / 2 ^ k)"
proof -
  have eq: "(of_int m :: rat) / 2 ^ k = of_int m * p2 (- int k)"
    by (simp add: power_int_minus field_simps)
  have "repr B64 (of_int m * p2 (- int k))" using assms by (intro repr_dyadic) simp_all
  moreover have "\<bar>of_int m / 2 ^ k :: rat\<bar> \<le> p2 1000"
  proof -
    have "\<bar>of_int m / 2 ^ k :: rat\<bar> \<le> \<bar>of_int m\<bar>" using mult_left_mono [of 1 "2 ^ k" "\<bar>of_int m :: rat\<bar>"]
      by (simp add: abs_divide divide_le_eq)
    also have "\<dots> \<le> p2 1000" using bnd_of_int [OF assms(1)] by (simp add: bnd_def)
    finally show ?thesis .
  qed
  ultimately show ?thesis by (simp add: bnd_def eq)
qed

lemma bnd_fractions [simp]:
  "bnd (1/2)" "bnd (3/2)" "bnd (53/32)" "bnd (1/4)" "bnd (1/16)" "bnd (1/64)" "bnd (1/1024)"
  "bnd (1/4096)" "bnd (101/64)" "bnd (3/8)" "bnd (5/4)" "bnd (9/8)"
  using bnd_dyadic [of 1 1] bnd_dyadic [of 3 1] bnd_dyadic [of 53 5] bnd_dyadic [of 1 2]
    bnd_dyadic [of 1 4] bnd_dyadic [of 1 6] bnd_dyadic [of 1 10] bnd_dyadic [of 1 12]
    bnd_dyadic [of 101 6] bnd_dyadic [of 3 3] bnd_dyadic [of 5 2] bnd_dyadic [of 9 3]
  by simp_all

lemma fwithinD:
  assumes "fwithin lo hi x"
  shows "is_fin x" "wff x" "canon B64 x" "lo \<le> fval x" "fval x \<le> hi" "repr B64 (fval x)"
  using assms canon_wff canon_repr by (auto simp: fwithin_def)

lemma fwithin_weaken: "fwithin a b x \<Longrightarrow> lo \<le> a \<Longrightarrow> b \<le> hi \<Longrightarrow> fwithin lo hi x"
  by (auto simp: fwithin_def)

lemma fwithin_rndI:
  assumes "canon B64 r" "is_fin r" "fval r = rnd B64 v" "lo \<le> v" "v \<le> hi" "bnd lo" "bnd hi"
  shows "fwithin lo hi r"
  using assms b64.rd_sandwich [of lo v hi] by (auto simp: fwithin_def bnd_def)

lemma bnd_sandwich_lim:
  assumes "lo \<le> v" "v \<le> hi" "bnd lo" "bnd hi"
  shows "\<bar>v\<bar> \<le> flim B64"
  using assms bnd_lim [of lo] bnd_lim [of hi] by linarith

lemma fwithin_fadd [float_bounds]:
  assumes x: "fwithin a b x" and y: "fwithin c d y" and "lo \<le> a + c" "b + d \<le> hi" "bnd lo" "bnd hi"
  shows "fwithin lo hi (fadd x y)"
proof -
  have v: "lo \<le> fval x + fval y" "fval x + fval y \<le> hi"
    using fwithinD [OF x] fwithinD [OF y] assms(3,4) by linarith+
  then show ?thesis
    using fl_add_spec [of x y B64] bnd_sandwich_lim [OF v] fwithinD [OF x] fwithinD [OF y] assms(5,6)
    by (intro fwithin_rndI) auto
qed

lemma fwithin_fsub [float_bounds]:
  assumes x: "fwithin a b x" and y: "fwithin c d y" and "lo \<le> a - d" "b - c \<le> hi" "bnd lo" "bnd hi"
  shows "fwithin lo hi (fsub x y)"
proof -
  have v: "lo \<le> fval x - fval y" "fval x - fval y \<le> hi"
    using fwithinD [OF x] fwithinD [OF y] assms(3,4) by linarith+
  then show ?thesis
    using fl_sub_spec [of x y B64] bnd_sandwich_lim [OF v] fwithinD [OF x] fwithinD [OF y] assms(5,6)
    by (intro fwithin_rndI) auto
qed

text \<open>A product with a nonnegative factor.\<close>

lemma fwithin_fmul [float_bounds]:
  assumes x: "fwithin a b x" and y: "fwithin c d y" and "0 \<le> c"
    and "lo \<le> a * c" "lo \<le> a * d" "b * c \<le> hi" "b * d \<le> hi" "bnd lo" "bnd hi"
  shows "fwithin lo hi (fmul x y)"
proof -
  let ?u = "fval x" and ?v = "fval y"
  have u: "a \<le> ?u" "?u \<le> b" and v: "c \<le> ?v" "?v \<le> d" "0 \<le> ?v"
    using fwithinD [OF x] fwithinD [OF y] assms(3) by linarith+
  have "lo \<le> a * ?v"
  proof (cases "0 \<le> a")
    case True
    then have "a * c \<le> a * ?v" using v by (intro mult_left_mono) auto
    with assms(4) show ?thesis by linarith
  next
    case False
    then have "a * d \<le> a * ?v" using v by (intro mult_left_mono_neg) auto
    with assms(5) show ?thesis by linarith
  qed
  moreover have "b * ?v \<le> hi"
  proof (cases "0 \<le> b")
    case True
    then have "b * ?v \<le> b * d" using v by (intro mult_left_mono) auto
    with assms(7) show ?thesis by linarith
  next
    case False
    then have "b * ?v \<le> b * c" using v by (intro mult_left_mono_neg) auto
    with assms(6) show ?thesis by linarith
  qed
  moreover have "a * ?v \<le> ?u * ?v" "?u * ?v \<le> b * ?v" using u v by (auto intro: mult_right_mono)
  ultimately have p: "lo \<le> ?u * ?v" "?u * ?v \<le> hi" by linarith+
  then show ?thesis
    using fl_mul_spec [of x y B64] bnd_sandwich_lim [OF p] fwithinD [OF x] fwithinD [OF y] assms(8,9)
    by (intro fwithin_rndI) auto
qed

text \<open>A quotient by a positive divisor.\<close>

lemma fwithin_fl_div [float_bounds]:
  assumes x: "fwithin a b x" and y: "fwithin c d y" and "0 < c"
    and "lo \<le> a / c" "lo \<le> a / d" "b / c \<le> hi" "b / d \<le> hi" "bnd lo" "bnd hi"
  shows "fwithin lo hi (fl_div B64 x y)"
proof -
  let ?u = "fval x" and ?v = "fval y"
  have u: "a \<le> ?u" "?u \<le> b" and v: "c \<le> ?v" "?v \<le> d" "0 < ?v"
    using fwithinD [OF x] fwithinD [OF y] assms(3) by linarith+
  have "lo \<le> a / ?v"
  proof (cases "0 \<le> a")
    case True
    then have "a / d \<le> a / ?v" using v by (intro divide_left_mono) auto
    with assms(5) show ?thesis by linarith
  next
    case False
    then have "a / c \<le> a / ?v" using v assms(3) by (intro divide_left_mono_neg) auto
    with assms(4) show ?thesis by linarith
  qed
  moreover have "b / ?v \<le> hi"
  proof (cases "0 \<le> b")
    case True
    then have "b / ?v \<le> b / c" using v assms(3) by (intro divide_left_mono) auto
    with assms(6) show ?thesis by linarith
  next
    case False
    then have "b / ?v \<le> b / d" using v by (intro divide_left_mono_neg) auto
    with assms(7) show ?thesis by linarith
  qed
  moreover have "a / ?v \<le> ?u / ?v" "?u / ?v \<le> b / ?v" using u v by (auto intro: divide_right_mono)
  ultimately have p: "lo \<le> ?u / ?v" "?u / ?v \<le> hi" by linarith+
  then show ?thesis
    using fl_div_spec [of x y B64] bnd_sandwich_lim [OF p] fwithinD [OF x] fwithinD [OF y] v assms(8,9)
    by (intro fwithin_rndI) auto
qed

lemma fwithin_fdiv [float_bounds]:
  assumes "fwithin a b x" "fwithin c d y" "0 < c"
    "lo \<le> a / c" "lo \<le> a / d" "b / c \<le> hi" "b / d \<le> hi" "bnd lo" "bnd hi"
  shows "\<exists>q. fdiv x y = Inr q \<and> fwithin lo hi q \<and> fval q = rnd B64 (fval x / fval y)"
proof -
  have "0 < fval y" using fwithinD(4) [OF assms(2)] assms(3) by linarith
  moreover have "\<bar>fval x / fval y\<bar> \<le> flim B64 \<longrightarrow> fval (fl_div B64 x y) = rnd B64 (fval x / fval y)"
    using fl_div_spec [of x y B64] fwithinD [OF assms(1)] fwithinD [OF assms(2)] calculation by auto
  moreover have "\<bar>fval x / fval y\<bar> \<le> flim B64"
  proof -
    let ?u = "fval x" and ?v = "fval y"
    have u: "a \<le> ?u" "?u \<le> b" and v: "c \<le> ?v" "?v \<le> d" "0 < ?v"
      using fwithinD [OF assms(1)] fwithinD [OF assms(2)] assms(3) by linarith+
    have "a / ?v \<le> ?u / ?v" "?u / ?v \<le> b / ?v" using u v by (auto intro: divide_right_mono)
    moreover have "lo \<le> a / ?v"
      using v assms(3,4,5) divide_left_mono [of ?v d a] divide_left_mono_neg [of c ?v a]
      by (cases "0 \<le> a") fastforce+
    moreover have "b / ?v \<le> hi"
      using v assms(3,6,7) divide_left_mono [of c ?v b] divide_left_mono_neg [of ?v d b]
      by (cases "0 \<le> b") fastforce+
    ultimately show ?thesis by (intro bnd_sandwich_lim [OF _ _ assms(8,9)]) linarith+
  qed
  ultimately show ?thesis
    using fwithin_fl_div [OF assms] fwithinD(2) [OF assms(2)] by (auto simp: fdiv_def fzero_fval)
qed

lemma fwithin_fneg [float_bounds]: "fwithin a b x \<Longrightarrow> fwithin (- b) (- a) (fneg x)"
  by (auto simp: fwithin_def)

lemma fwithin_flit:
  assumes "0 < d" "lo * of_int d \<le> of_int n" "of_int n \<le> hi * of_int d" "bnd lo" "bnd hi"
  shows "fwithin lo hi (flit n d)"
proof -
  let ?v = "(of_int n :: rat) / of_int d"
  have d: "(0::rat) < of_int d" using assms(1) by simp
  have v: "lo \<le> ?v" "?v \<le> hi" using assms d by (simp_all add: field_simps)
  have abs: "(of_int \<bar>n\<bar> :: rat) / of_int d = \<bar>?v\<bar>" using d by (simp add: abs_divide)
  have sg: "sgnr (n < 0) * \<bar>?v\<bar> = ?v" unfolding abs [symmetric] by (simp add: sgnr_def abs_if)
  show ?thesis
    unfolding flit_def
    using fround_spec [of "\<bar>n\<bar>" d B64 "n < 0"] bnd_sandwich_lim [OF v assms(4,5)] assms v
    by (intro fwithin_rndI [of _ ?v]) (simp_all only: abs sg abs_ge_zero)
qed

lemma fwithin_f0 [simp]: "fwithin 0 0 f0"
  by (simp add: fwithin_def)

lemma fval_f0 [simp]: "fval f0 = 0"
  by simp

lemma fwithin_flt: "fwithin a b x \<Longrightarrow> fwithin c d y \<Longrightarrow> flt x y \<longleftrightarrow> fval x < fval y"
  by (simp add: flt_fin fwithinD)

lemma fwithin_fval: "fwithin a b x \<Longrightarrow> fwithin (fval x) (fval x) x"
  by (simp add: fwithin_def)

lemma fwithin_bnd: "fwithin a b x \<Longrightarrow> bnd a \<Longrightarrow> bnd b \<Longrightarrow> bnd (fval x)"
  using fwithinD [of a b x] unfolding bnd_def by linarith

text \<open>Clamping any double, NaN included, into an interval.\<close>

definition fclamp :: "pyfloat \<Rightarrow> pyfloat \<Rightarrow> pyfloat \<Rightarrow> pyfloat" where
  "fclamp lo hi x = fmax2 lo (fmin2 hi x)"

lemma fclamp_within:
  assumes lo: "fwithin a a lo" and hi: "fwithin b b hi" and "a \<le> b" and x: "canon B64 x"
  shows "fwithin a b (fclamp lo hi x)"
proof (cases "is_fin x")
  case True
  then show ?thesis
    using assms fwithinD [OF lo] fwithinD [OF hi]
    by (auto simp: fclamp_def fmax2_def fmin2_def flt_fin fwithin_def)
next
  case False
  obtain s m e s' m' e' where "lo = Fin s m e" "hi = Fin s' m' e'"
    using fwithinD [OF lo] fwithinD [OF hi] by (cases lo; cases hi) auto
  with False show ?thesis
    using assms by (cases x) (auto simp: fclamp_def fmax2_def fmin2_def fwithin_def flt_fin simp del: flt.simps(1))
qed

text \<open>Closed float terms are evaluated with these equations.\<close>

lemmas float_evals [float_eval] =
  flit_def fdiv_def int_truediv_def fround_def fround_exp_def fpack_def half_even_def ilog2_def
  Let_def sgi_def fl_sub_def fmin2_def fmax2_def fle_def


section \<open>Canonical floats are determined by sign and value\<close>

lemma canon_exponent_le:
  assumes "canon f (Fin s m e)" "canon f (Fin s' m' e')" "of_int m * p2 e = of_int m' * p2 e'"
  shows "e' \<le> e"
proof (rule ccontr)
  assume "\<not> e' \<le> e"
  then have less: "e + 1 \<le> e'" by simp
  with assms(1,2) have m': "2 ^ (prec f - 1) \<le> m'" by auto
  have "(of_int (2 ^ prec f) :: rat) * p2 e = of_int (2 ^ (prec f - 1)) * p2 (e + 1)"
    by (cases f) (simp_all add: p2_add)
  also have "\<dots> \<le> of_int m' * p2 e'"
  proof (rule mult_mono)
    show "(of_int (2 ^ (prec f - 1)) :: rat) \<le> of_int m'" using m' by (simp only: of_int_le_iff)
    show "(0 :: rat) \<le> of_int m'" using assms(2) by simp
  qed (use less in simp_all)
  finally have "(of_int (2 ^ prec f) :: rat) * p2 e \<le> of_int m * p2 e" using assms(3) by simp
  then have "2 ^ prec f \<le> m" by (simp only: mult_le_cancel_right_pos p2_pos of_int_le_iff)
  with assms(1) show False by simp
qed

lemma canon_unique:
  assumes "canon f (Fin s m e)" "canon f (Fin s m' e')" "fval (Fin s m e) = fval (Fin s m' e')"
  shows "m = m' \<and> e = e'"
proof -
  have eq: "of_int m * p2 e = of_int m' * p2 e'" using assms(3) by (simp add: sgnr_def split: if_splits)
  then have "e = e'" using canon_exponent_le [OF assms(1,2)] canon_exponent_le [OF assms(2,1)] by simp
  with eq show ?thesis by simp
qed

section \<open>Every operation returns a double\<close>

text \<open>The predicate \<open>canon B64\<close> picks the doubles out of the representation type.\<close>

abbreviation pyf :: "pyfloat \<Rightarrow> bool" where "pyf \<equiv> canon B64"

lemma canon_fround: "0 \<le> n \<Longrightarrow> 0 < d \<Longrightarrow> canon f (fround f s n d)"
  using fround_cases by blast

lemma canon_fround_exp: "0 \<le> m \<Longrightarrow> canon f (fround_exp f s m e)"
  by (simp add: fround_exp_def canon_fround)

lemma canon_zero [simp]: "canon f (Fin s 0 (emin f))"
  by (cases f; simp)

lemma canon_fl_add [intro]: "canon f x \<Longrightarrow> canon f y \<Longrightarrow> canon f (fl_add f x y)"
  by (cases "(f, x, y)" rule: fl_add.cases) (auto simp: Let_def canon_fround_exp simp del: canon.simps(1))

lemma canon_fl_sub [intro]: "canon f x \<Longrightarrow> canon f y \<Longrightarrow> canon f (fl_sub f x y)"
  by (auto simp: fl_sub_def)

lemma canon_fl_mul [intro]: "canon f x \<Longrightarrow> canon f y \<Longrightarrow> canon f (fl_mul f x y)"
  by (cases "(f, x, y)" rule: fl_mul.cases) (auto simp: canon_fround_exp)

lemma canon_significand: "canon f (Fin s m e) \<Longrightarrow> 0 \<le> m"
  by simp

lemma canon_fl_div [intro]: "canon f x \<Longrightarrow> canon f y \<Longrightarrow> canon f (fl_div f x y)"
  by (cases "(f, x, y)" rule: fl_div.cases)
    (auto simp: order_less_le simp del: canon.simps(1) intro!: canon_fround mult_pos_pos
      dest: canon_significand)

lemma canon_flit [intro]: "0 < d \<Longrightarrow> pyf (flit n d)"
  by (simp add: flit_def canon_fround)

lemma canon_f0 [simp]: "pyf f0"
  by simp

lemma flit_int_val [simp]:
  "\<bar>k\<bar> < 2 ^ 53 \<Longrightarrow> is_fin (flit k 1) \<and> fval (flit k 1) = of_int k \<and> pyf (flit k 1)"
  using fwithin_flit [of 1 "of_int k" k "of_int k"] bnd_of_int [of k]
  by (auto simp: fwithin_def)

lemma fwithin_int: "\<bar>k\<bar> < 2 ^ 53 \<Longrightarrow> fwithin (of_int k) (of_int k) (flit k 1)"
  by (simp add: fwithin_def)

end
