(* ===== verification/Crc.thy ===== *)
theory Crc
  imports Floats "HOL-Library.Word"
begin

unbundle bit_operations_syntax

text \<open>
  \<^verbatim>\<open>crc16_ccitt\<close> of \<^verbatim>\<open>plant/protocol.py\<close> on Python integers and of
  \<^verbatim>\<open>controller/src/drivers/crc.c\<close> on \<^verbatim>\<open>uint16_t\<close>: the two compute the same value, and no change
  of a single byte leaves it unchanged.  A \<open>bytes\<close> object is a list of 8-bit words.
\<close>

type_synonym byte = "8 word"
type_synonym bytes = "byte list"

section \<open>The two routines\<close>

text \<open>The Python routine, on unbounded integers masked to 16 bits.\<close>

definition crc_bit :: "int \<Rightarrow> int" where
  "crc_bit crc = (if crc AND 0x8000 \<noteq> 0 then (push_bit 1 crc XOR 0x1021) AND 0xFFFF
     else push_bit 1 crc AND 0xFFFF)"

definition crc_byte :: "int \<Rightarrow> byte \<Rightarrow> int" where
  "crc_byte crc b = (crc_bit ^^ 8) (crc XOR push_bit 8 (uint b))"

definition crc16_ccitt :: "bytes \<Rightarrow> int" where
  "crc16_ccitt data = foldl crc_byte 0xFFFF data"

text \<open>The C routine, on \<open>uint16_t\<close>.\<close>

definition c_crc_bit :: "16 word \<Rightarrow> 16 word" where
  "c_crc_bit crc = (if crc AND 0x8000 \<noteq> 0 then push_bit 1 crc XOR 0x1021 else push_bit 1 crc)"

definition c_crc_byte :: "16 word \<Rightarrow> byte \<Rightarrow> 16 word" where
  "c_crc_byte crc b = (c_crc_bit ^^ 8) (crc XOR push_bit 8 (ucast b))"

definition c_crc16_ccitt :: "bytes \<Rightarrow> 16 word" where
  "c_crc16_ccitt data = foldl c_crc_byte 0xFFFF data"

section \<open>Checksums by an injective step\<close>

text \<open>
  A checksum that folds a step over the bytes, where the step is injective in the state and in the
  byte, distinguishes any two messages that differ in exactly one byte.
\<close>

locale checksum =
  fixes step :: "'s \<Rightarrow> 'b \<Rightarrow> 's"
  assumes step_state: "step s b = step t b \<Longrightarrow> s = t"
    and step_byte: "step s b = step s c \<Longrightarrow> b = c"
begin

lemma fold_inj: "foldl step s q = foldl step t q \<Longrightarrow> s = t"
  by (induction q arbitrary: s t) (auto dest: step_state)

lemma one_byte_detected:
  assumes "b \<noteq> c"
  shows "foldl step s (p @ b # q) \<noteq> foldl step s (p @ c # q)"
  using assms fold_inj step_byte by fastforce

end

section \<open>The C step is injective\<close>

lemma c_crc_bit_bits:
  "bit (c_crc_bit x) 0 = bit x 15"
  "n < 15 \<Longrightarrow> bit (c_crc_bit x) (Suc n) = (bit x n \<noteq> (bit x 15 \<and> bit (0x1021 :: 16 word) (Suc n)))"
proof -
  have m: "x AND 0x8000 \<noteq> 0 \<longleftrightarrow> bit x 15"
    using and_exp_eq_0_iff_not_bit [of x 15] by simp
  show "bit (c_crc_bit x) 0 = bit x 15"
    by (simp add: c_crc_bit_def m bit_simps del: push_bit_Suc One_nat_def)
  show "n < 15 \<Longrightarrow> bit (c_crc_bit x) (Suc n) = (bit x n \<noteq> (bit x 15 \<and> bit (0x1021 :: 16 word) (Suc n)))"
    by (auto simp add: c_crc_bit_def m bit_simps simp del: bit_numeral_simps push_bit_Suc One_nat_def)
qed

lemma c_crc_bit_inj: "c_crc_bit x = c_crc_bit y \<Longrightarrow> x = y"
proof (rule bit_word_eqI)
  fix n
  assume eq: "c_crc_bit x = c_crc_bit y" and n: "n < LENGTH(16)"
  have top: "bit x 15 = bit y 15" using c_crc_bit_bits(1) eq by metis
  show "bit x n = bit y n"
  proof (cases "n = 15")
    case False
    with n have "n < 15" by simp
    from c_crc_bit_bits(2) [OF this, of x] c_crc_bit_bits(2) [OF this, of y] eq top
    show ?thesis by auto
  qed (simp add: top)
qed

lemma funpow_inj: "(\<And>x y. f x = f y \<Longrightarrow> x = y) \<Longrightarrow> (f ^^ n) x = (f ^^ n) y \<Longrightarrow> x = y"
  for f :: "'a \<Rightarrow> 'a"
  by (induction n) auto

lemma xor_cancel_left: "s XOR a = s XOR b \<Longrightarrow> a = (b :: 'a::len word)"
  by (metis bit.xor_left_self)

lemma xor_cancel_right: "a XOR s = b XOR s \<Longrightarrow> a = (b :: 'a::len word)"
  by (metis xor.commute xor_cancel_left)

lemma push8_ucast_inj: "push_bit 8 (ucast b :: 16 word) = push_bit 8 (ucast c) \<Longrightarrow> b = (c :: byte)"
proof (rule bit_word_eqI)
  fix n
  assume eq: "push_bit 8 (ucast b :: 16 word) = push_bit 8 (ucast c)" and n: "n < LENGTH(8)"
  then have "bit (push_bit 8 (ucast b :: 16 word)) (n + 8) = bit (push_bit 8 (ucast c :: 16 word)) (n + 8)"
    by simp
  with n show "bit b n = bit c n" by (simp add: bit_simps)
qed

interpretation c_crc: checksum c_crc_byte
proof
  fix s t :: "16 word" and b c :: byte
  show "c_crc_byte s b = c_crc_byte t b \<Longrightarrow> s = t"
    unfolding c_crc_byte_def using funpow_inj [of c_crc_bit] c_crc_bit_inj xor_cancel_right by blast
  show "c_crc_byte s b = c_crc_byte s c \<Longrightarrow> b = c"
    unfolding c_crc_byte_def using funpow_inj [of c_crc_bit] c_crc_bit_inj xor_cancel_left push8_ucast_inj by blast
qed

section \<open>Python and C agree\<close>

lemma and_mask16: "x AND 0xFFFF = x mod 65536" for x :: int
  using take_bit_eq_mask [of 16 x] by (simp add: mask_eq_exp_minus_1 take_bit_eq_mod)

lemma and_mask32: "x AND 0xFFFFFFFF = x mod 4294967296" for x :: int
  using take_bit_eq_mask [of 32 x] by (simp add: mask_eq_exp_minus_1 take_bit_eq_mod)

lemma uint_push1: "uint (push_bit 1 x) = push_bit 1 (uint x) AND 0xFFFF" for x :: "16 word"
  using take_bit_eq_mask [of 16 "push_bit 1 (uint x)"]
  by (simp add: unsigned_push_bit_eq mask_eq_exp_minus_1 del: push_bit_Suc One_nat_def)

lemma crc_bit_uint: "crc_bit (uint x) = uint (c_crc_bit x)"
proof -
  have "uint x AND 0x8000 = uint (x AND 0x8000)" by (simp add: uint_and)
  then have c: "uint x AND 0x8000 \<noteq> 0 \<longleftrightarrow> x AND 0x8000 \<noteq> 0" by (simp add: uint_0_iff)
  have "(push_bit 1 (uint x) XOR 0x1021) AND 0xFFFF = uint (push_bit 1 x XOR 0x1021)"
    unfolding unsigned_xor_eq uint_push1 by (simp add: bit.conj_xor_distrib2 del: push_bit_Suc One_nat_def)
  then show ?thesis unfolding crc_bit_def c_crc_bit_def c
    by (simp add: uint_push1 del: push_bit_Suc One_nat_def)
qed

lemma funpow_uint: "(\<And>x. f (uint x) = uint (g x)) \<Longrightarrow> (f ^^ n) (uint x) = uint ((g ^^ n) x)"
  for f :: "int \<Rightarrow> int" and g :: "16 word \<Rightarrow> 16 word"
  by (induction n) auto

lemma crc_byte_uint: "crc_byte (uint x) b = uint (c_crc_byte x b)"
proof -
  have "push_bit 8 (uint b) = uint (push_bit 8 (ucast b :: 16 word))"
  proof -
    have "uint b < 256" using uint_lt2p [of b] by simp
    then have "take_bit 16 (push_bit 8 (uint b)) = push_bit 8 (uint b)"
      by (simp add: take_bit_int_eq_self_iff push_bit_eq_mult)
    moreover have "take_bit 16 (uint b) = uint b"
      using \<open>uint b < 256\<close> by (simp add: take_bit_int_eq_self_iff)
    ultimately show ?thesis by (simp add: unsigned_push_bit_eq unsigned_ucast_eq)
  qed
  then have "uint x XOR push_bit 8 (uint b) = uint (x XOR push_bit 8 (ucast b))"
    by (simp add: uint_xor)
  then show ?thesis
    unfolding crc_byte_def c_crc_byte_def using funpow_uint [of crc_bit c_crc_bit] crc_bit_uint by simp
qed

lemma crc_fold_uint: "foldl crc_byte (uint x) bs = uint (foldl c_crc_byte x bs)"
  by (induction bs arbitrary: x) (simp_all add: crc_byte_uint)

lemma crc16_range: "0 \<le> crc16_ccitt bs" "crc16_ccitt bs < 65536"
  using crc_fold_uint [of "0xFFFF" bs] uint_lt2p [of "foldl c_crc_byte 0xFFFF bs"]
  by (simp_all add: crc16_ccitt_def)

lemma crc_one_byte:
  "b \<noteq> c \<Longrightarrow> foldl crc_byte (uint x) (p @ b # q) \<noteq> foldl crc_byte (uint x) (p @ c # q)" for x :: "16 word"
  using c_crc.one_byte_detected [of b c x p q] unfolding crc_fold_uint word_uint_eq_iff by simp

section \<open>Properties\<close>

text \<open>C25: The two ends of the link agree: on every byte string the Python CRC is
  the unsigned value of the C CRC, so it also fits in the two bytes of the envelope.\<close>

theorem crc_python_eq_c: "crc16_ccitt bs = uint (c_crc16_ccitt bs)"
  using crc_fold_uint [of "0xFFFF" bs] by (simp add: crc16_ccitt_def c_crc16_ccitt_def)

text \<open>Every corruption of one byte is detected: two byte strings that differ in
  exactly one byte have different CRCs.\<close>

theorem crc_detects_one_byte:
  assumes "b \<noteq> c"
  shows "crc16_ccitt (p @ b # q) \<noteq> crc16_ccitt (p @ c # q)"
  using crc_one_byte [of b c "0xFFFF" p q] assms by (simp add: crc16_ccitt_def)

theorem crc_detects_one_byte_witness: "crc16_ccitt ([1] @ 2 # [3]) \<noteq> crc16_ccitt ([1] @ 253 # [3])"
  by (rule crc_detects_one_byte) simp

text \<open>The check vector of CRC-16/CCITT-FALSE, and the vectors pinned by the
  unit tests of both languages.\<close>

theorem crc_check_vectors:
  "crc16_ccitt (map (\<lambda>c. of_nat (of_char c)) ''123456789'') = 0x29B1 \<and> crc16_ccitt [] = 0xFFFF \<and>
   crc16_ccitt [0x00] = 0xE1F0 \<and> crc16_ccitt [0xFF] = 0xFF00"
  by code_simp

end
