(* ===== verification/Protocol.thy ===== *)
theory Protocol
  imports Crc
begin

unbundle bit_operations_syntax

text \<open>
  \<^verbatim>\<open>plant/protocol.py\<close>: constants, the packed payloads (with what \<^verbatim>\<open>struct\<close> does to
  integers and floats) and the framing envelope, with the round trips of both payloads.
\<close>

section \<open>Constants\<close>

definition MAGIC :: int where "MAGIC = 0xAA55"
definition TYPE_SENSOR :: int where "TYPE_SENSOR = 0x01"
definition TYPE_ACTUATOR :: int where "TYPE_ACTUATOR = 0x02"
definition MAX_PAYLOAD :: nat where "MAX_PAYLOAD = 64"
definition HEADER_SIZE :: nat where "HEADER_SIZE = 5"
definition CRC_SIZE :: nat where "CRC_SIZE = 2"
definition OVERHEAD :: nat where "OVERHEAD = HEADER_SIZE + CRC_SIZE"

definition FF_INJECTED_STUCK :: int where "FF_INJECTED_STUCK = push_bit 0 1"
definition FF_INJECTED_NOISE :: int where "FF_INJECTED_NOISE = push_bit 1 1"
definition FF_INJECTED_RANGE :: int where "FF_INJECTED_RANGE = push_bit 2 1"
definition FF_INJECTED_ICE :: int where "FF_INJECTED_ICE = push_bit 3 1"

definition ECU_INIT :: int where "ECU_INIT = 0"
definition ECU_STANDBY :: int where "ECU_STANDBY = 1"
definition ECU_MONITOR :: int where "ECU_MONITOR = 2"
definition ECU_ACTIVE :: int where "ECU_ACTIVE = 3"
definition ECU_FAULT_DEGRADED :: int where "ECU_FAULT_DEGRADED = 4"
definition ECU_FAULT_LATCHED :: int where "ECU_FAULT_LATCHED = 5"

definition DTC_NONE :: int where "DTC_NONE = 0"
definition DTC_SENSOR_STUCK :: int where "DTC_SENSOR_STUCK = push_bit 0 1"
definition DTC_SENSOR_NOISE :: int where "DTC_SENSOR_NOISE = push_bit 1 1"
definition DTC_COMM_TIMEOUT :: int where "DTC_COMM_TIMEOUT = push_bit 2 1"
definition DTC_COMM_CRC :: int where "DTC_COMM_CRC = push_bit 3 1"
definition DTC_SENSOR_RANGE :: int where "DTC_SENSOR_RANGE = push_bit 4 1"
definition DTC_PLAUSIBILITY :: int where "DTC_PLAUSIBILITY = push_bit 5 1"

definition SENSOR_SIZE :: nat where "SENSOR_SIZE = 18"
definition ACTUATOR_SIZE :: nat where "ACTUATOR_SIZE = 12"

lemmas protocol_consts = MAGIC_def TYPE_SENSOR_def TYPE_ACTUATOR_def MAX_PAYLOAD_def HEADER_SIZE_def
  CRC_SIZE_def OVERHEAD_def SENSOR_SIZE_def ACTUATOR_SIZE_def

section \<open>What struct does\<close>

text \<open>Little-endian integers of \<open>k\<close> bytes.\<close>

fun le_bytes :: "nat \<Rightarrow> int \<Rightarrow> bytes" where
  "le_bytes 0 n = []"
| "le_bytes (Suc k) n = word_of_int (n mod 256) # le_bytes k (n div 256)"

fun le_int :: "bytes \<Rightarrow> int" where
  "le_int [] = 0"
| "le_int (b # bs) = uint b + 256 * le_int bs"

text \<open>Format \<open>f\<close>: rounding to binary32 (an overflow raises), then the IEEE bit pattern.\<close>

fun to_f32 :: "pyfloat \<Rightarrow> pyfloat py" where
  "to_f32 (Fin s m e) = (case fround_exp B32 s m e of Infin _ \<Rightarrow> Inl OverflowError | y \<Rightarrow> Inr y)"
| "to_f32 x = Inr x"

fun f32_bits :: "pyfloat \<Rightarrow> int" where
  "f32_bits NaN = 0x7FC00000"
| "f32_bits (Infin s) = (if s then 2 ^ 31 else 0) + 255 * 2 ^ 23"
| "f32_bits (Fin s m e) = (if s then 2 ^ 31 else 0) +
     (if m < 2 ^ 23 then m else (e + 150) * 2 ^ 23 + (m - 2 ^ 23))"

definition bits_f32 :: "int \<Rightarrow> pyfloat" where
  "bits_f32 n = (let s = (n div 2 ^ 31 \<noteq> 0); ex = n div 2 ^ 23 mod 256; fr = n mod 2 ^ 23 in
     if ex = 255 then (if fr = 0 then Infin s else NaN)
     else if ex = 0 then Fin s fr (- 149) else Fin s (fr + 2 ^ 23) (ex - 150))"

text \<open>The double with the value of a binary32.\<close>

fun widen :: "pyfloat \<Rightarrow> pyfloat" where
  "widen (Fin s m e) = fround_exp B64 s m e"
| "widen x = x"

definition pack_f :: "pyfloat \<Rightarrow> bytes py" where
  "pack_f x = py_bind (to_f32 x) (\<lambda>y. Inr (le_bytes 4 (f32_bits y)))"

definition unpack_f :: "bytes \<Rightarrow> pyfloat" where
  "unpack_f bs = widen (bits_f32 (le_int bs))"

section \<open>Payloads\<close>

record sensor_frame =
  sf_timestamp_ms :: int
  sf_v_vehicle :: pyfloat
  sf_omega_wheel :: pyfloat
  sf_brake_pressure :: pyfloat
  sf_fault_flags :: int

definition sensor_pack :: "sensor_frame \<Rightarrow> bytes py" where
  "sensor_pack f =
     py_bind (pack_f (sf_v_vehicle f)) (\<lambda>v.
     py_bind (pack_f (sf_omega_wheel f)) (\<lambda>w.
     py_bind (pack_f (sf_brake_pressure f)) (\<lambda>bp.
     Inr (le_bytes 4 (sf_timestamp_ms f AND 0xFFFFFFFF) @ v @ w @ bp @
          le_bytes 2 (sf_fault_flags f AND 0xFFFF)))))"

definition sensor_unpack :: "bytes \<Rightarrow> sensor_frame py" where
  "sensor_unpack data = (if length data \<noteq> SENSOR_SIZE then Inl ValueError else
     Inr \<lparr>sf_timestamp_ms = le_int (take 4 data),
          sf_v_vehicle = unpack_f (take 4 (drop 4 data)),
          sf_omega_wheel = unpack_f (take 4 (drop 8 data)),
          sf_brake_pressure = unpack_f (take 4 (drop 12 data)),
          sf_fault_flags = le_int (drop 16 data)\<rparr>)"

record actuator_frame =
  af_timestamp_ms :: int
  af_brake_command :: pyfloat
  af_ecu_status :: int
  af_dtc_code :: int

definition actuator_pack :: "actuator_frame \<Rightarrow> bytes py" where
  "actuator_pack f =
     py_bind (pack_f (af_brake_command f)) (\<lambda>bc.
     Inr (le_bytes 4 (af_timestamp_ms f AND 0xFFFFFFFF) @ bc @
          le_bytes 2 (af_ecu_status f AND 0xFFFF) @ le_bytes 2 (af_dtc_code f AND 0xFFFF)))"

definition actuator_unpack :: "bytes \<Rightarrow> actuator_frame py" where
  "actuator_unpack data = (if length data \<noteq> ACTUATOR_SIZE then Inl ValueError else
     Inr \<lparr>af_timestamp_ms = le_int (take 4 data),
          af_brake_command = unpack_f (take 4 (drop 4 data)),
          af_ecu_status = le_int (take 2 (drop 8 data)),
          af_dtc_code = le_int (drop 10 data)\<rparr>)"

section \<open>Framing\<close>

definition encode_frame :: "int \<Rightarrow> bytes \<Rightarrow> bytes py" where
  "encode_frame frame_type payload =
    (if MAX_PAYLOAD < length payload then Inl ValueError
     else if frame_type \<notin> {TYPE_SENSOR, TYPE_ACTUATOR} then Inl ValueError
     else let header = le_bytes 2 MAGIC @ le_bytes 1 frame_type @ le_bytes 2 (int (length payload));
              crc = crc16_ccitt (drop 2 header @ payload)
          in Inr (header @ payload @ le_bytes 2 crc))"

section \<open>Little-endian integers\<close>

lemma length_le_bytes [simp]: "length (le_bytes k n) = k"
  by (induction k arbitrary: n) auto

lemma le_int_le_bytes: "0 \<le> n \<Longrightarrow> n < 256 ^ k \<Longrightarrow> le_int (le_bytes k n) = n"
proof (induction k arbitrary: n)
  case (Suc k)
  have "n div 256 < 256 ^ k" using Suc.prems by (simp add: div_less_iff_less_mult)
  then have "le_int (le_bytes k (n div 256)) = n div 256" using Suc by simp
  then show ?case by (simp add: uint_word_of_int)
qed simp

lemma le_int_bounds: "0 \<le> le_int bs \<and> le_int bs < 256 ^ length bs"
proof (induction bs)
  case (Cons b bs)
  have "uint b < 256" using uint_lt2p [of b] by simp
  with Cons show ?case by auto
qed simp

lemma le_bytes_le_int: "le_bytes (length bs) (le_int bs) = bs"
proof (induction bs)
  case (Cons b bs)
  have b: "uint b < 256" using uint_lt2p [of b] by simp
  then have "(uint b + 256 * le_int bs) div 256 = le_int bs" by simp
  moreover have "(uint b + 256 * le_int bs) mod 256 = uint b" using b by simp
  ultimately show ?case using Cons by simp
qed simp

section \<open>binary32 on the wire\<close>

lemma fround_exp_sign:
  "0 \<le> m \<Longrightarrow> is_fin (fround_exp f s m e) \<Longrightarrow> \<exists>m' e'. fround_exp f s m e = Fin s m' e'"
  using fround_cases [of "m * 2 ^ nat e" "2 ^ nat (- e)" f s]
  by (cases "fround_exp f s m e") (auto simp: fround_exp_def)

lemma to_f32_canon: "wff x \<or> \<not> is_fin x \<Longrightarrow> to_f32 x = Inr y \<Longrightarrow> canon B32 y"
  by (cases x) (auto split: pyfloat.splits dest: canon_fround_exp [of _ B32])

lemma canon32_bound: "canon B32 (Fin s m e) \<Longrightarrow> of_int m * p2 e \<le> flim B32"
  unfolding flim_def
proof (rule mult_mono)
  assume c: "canon B32 (Fin s m e)"
  then show "(of_int m :: rat) \<le> of_int (2 ^ prec B32 - 1)" by (subst of_int_le_iff) simp
  show "p2 e \<le> p2 (emax B32)" using c by (subst p2_le_iff) simp
qed simp_all

lemma flim_le: "flim B32 \<le> flim B64"
  unfolding flim_def
proof (rule mult_mono)
  show "p2 (emax B32) \<le> p2 (emax B64)" by (subst p2_le_iff) simp
qed simp_all

lemma widen_Fin:
  assumes "canon B32 (Fin s m e)"
  shows "\<exists>m' e'. widen (Fin s m e) = Fin s m' e' \<and> canon B64 (Fin s m' e') \<and>
    fval (Fin s m' e') = fval (Fin s m e)"
proof -
  have m: "0 \<le> m" "m < 2 ^ 24" "- 149 \<le> e" using assms by auto
  have "repr B64 (sgnr s * (of_int m * p2 e))"
    using repr_dyadic [of m B64 e] m by (cases s) simp_all
  then show ?thesis
    using fround_exp_spec [OF m(1) order_trans [OF canon32_bound [OF assms] flim_le], of s]
      fround_exp_sign [OF m(1), of B64 s e] by (auto simp: rnd_repr mult.assoc)
qed

text \<open>A double that came from a binary32 converts back to it.\<close>

lemma to_f32_widen: "canon B32 y \<Longrightarrow> to_f32 (widen y) = Inr y"
proof (cases y)
  case (Fin s m e)
  assume c: "canon B32 y"
  obtain m' e' where w: "widen y = Fin s m' e'" "canon B64 (Fin s m' e')" "fval (Fin s m' e') = fval y"
    using widen_Fin c Fin by metis
  have m': "0 \<le> m'" using w(2) by simp
  have val: "of_int m' * p2 e' = of_int m * p2 e"
    using w(3) by (simp add: Fin sgnr_def split: if_splits)
  have "of_int m' * p2 e' \<le> flim B32" using canon32_bound c unfolding Fin val by blast
  from fround_exp_spec [OF m' this, of s]
  have r: "canon B32 (fround_exp B32 s m' e')" "is_fin (fround_exp B32 s m' e')"
    "fval (fround_exp B32 s m' e') = rnd B32 (sgnr s * (of_int m' * p2 e'))" by auto
  obtain m2 e2 where f: "fround_exp B32 s m' e' = Fin s m2 e2"
    using fround_exp_sign [OF m' r(2)] by blast
  have "sgnr s * (of_int m' * p2 e') = fval y" by (simp add: val Fin)
  then have "fval (Fin s m2 e2) = fval (Fin s m e)"
    using r(3) rnd_repr [OF canon_repr [OF c]] by (simp only: f Fin)
  then have "m2 = m \<and> e2 = e" using canon_unique r(1) c unfolding f Fin by blast
  then show ?thesis unfolding w(1) by (simp add: f Fin)
qed simp_all

lemma f32_bits_range: "canon B32 y \<Longrightarrow> 0 \<le> f32_bits y \<and> f32_bits y < 2 ^ 32"
  by (cases y) (auto simp: not_less)

lemma bits_f32_f32_bits: "canon B32 y \<Longrightarrow> bits_f32 (f32_bits y) = y"
proof (cases y)
  case (Fin s m e)
  assume c: "canon B32 y"
  let ?b = "if s then (1::int) else 0"
  define ex where "ex = (if m < 2 ^ 23 then 0 else e + 150)"
  define fr where "fr = (if m < 2 ^ 23 then m else m - 2 ^ 23)"
  have ex: "0 \<le> ex" "ex < 255" and fr: "0 \<le> fr" "fr < 2 ^ 23"
    using c by (auto simp: Fin ex_def fr_def)
  have n: "f32_bits y = fr + 2 ^ 23 * (ex + 256 * ?b)"
    by (simp add: Fin ex_def fr_def)
  have d: "f32_bits y div 2 ^ 23 = ex + 256 * ?b" "f32_bits y mod 2 ^ 23 = fr"
    unfolding n using fr by (simp_all only: mod_mult_self2 div_mult_self2 zero_neq_numeral power_not_zero
        div_pos_pos_trivial mod_pos_pos_trivial) simp_all
  have "f32_bits y div 2 ^ 31 = f32_bits y div 2 ^ 23 div 256"
    by (simp add: zdiv_zmult2_eq [symmetric])
  then have "f32_bits y div 2 ^ 31 = ?b" unfolding d using ex by simp
  moreover have "(ex + 256 * ?b) mod 256 = ex" using ex by simp
  ultimately have "bits_f32 (f32_bits y) =
      (if ex = 255 then (if fr = 0 then Infin s else NaN)
       else if ex = 0 then Fin s fr (- 149) else Fin s (fr + 2 ^ 23) (ex - 150))"
    unfolding bits_f32_def Let_def d by simp
  then show ?thesis using c ex by (auto simp: Fin ex_def fr_def)
qed (auto simp: bits_f32_def)

section \<open>What a float field keeps\<close>

text \<open>The double the receiver reads for the double \<open>x\<close> that was packed.\<close>

definition f32_round :: "pyfloat \<Rightarrow> pyfloat" where
  "f32_round x = (case to_f32 x of Inl _ \<Rightarrow> x | Inr y \<Rightarrow> widen y)"

lemma pyf_ok: "pyf x \<Longrightarrow> wff x \<or> \<not> is_fin x"
  using canon_wff by blast

lemma unpack_f_bits: "canon B32 y \<Longrightarrow> unpack_f (le_bytes 4 (f32_bits y)) = widen y"
  using f32_bits_range [of y] le_int_le_bytes [of "f32_bits y" 4]
  by (simp add: unpack_f_def bits_f32_f32_bits)

lemma pack_f_D:
  assumes "pack_f x = Inr bs" "pyf x"
  shows "length bs = 4" "unpack_f bs = f32_round x" "pack_f (f32_round x) = Inr bs"
proof -
  obtain y where y: "to_f32 x = Inr y" and bs: "bs = le_bytes 4 (f32_bits y)"
    using assms(1) by (auto simp: pack_f_def py_bind_Inr_iff)
  have c: "canon B32 y" using to_f32_canon [OF pyf_ok [OF assms(2)] y] .
  show "length bs = 4" by (simp add: bs)
  show "unpack_f bs = f32_round x" using c by (simp add: bs f32_round_def y unpack_f_bits)
  show "pack_f (f32_round x) = Inr bs" using c by (simp add: bs f32_round_def y pack_f_def to_f32_widen)
qed

lemma canon_widen: "canon B32 y \<Longrightarrow> pyf (widen y)"
proof (cases y)
  case (Fin s m e)
  then show "canon B32 y \<Longrightarrow> pyf (widen y)" using widen_Fin [of s m e] by metis
qed simp_all

lemma pyf_f32_round: "pyf x \<Longrightarrow> pyf (f32_round x)"
  using to_f32_canon [OF pyf_ok] by (auto simp: f32_round_def canon_widen split: sum.splits)

lemma pack_f_error: "pack_f x = Inl e \<Longrightarrow> e = OverflowError"
  by (cases x) (auto simp: pack_f_def py_bind_Inl_iff split: pyfloat.splits)

text \<open>Finite doubles in the range of binary32 are packed, and keep their rounded value.\<close>

lemma pack_f_finite:
  assumes "is_fin x" "wff x" "\<bar>fval x\<bar> \<le> flim B32"
  shows "\<exists>bs. pack_f x = Inr bs" "is_fin (f32_round x) \<and> fval (f32_round x) = rnd B32 (fval x)"
proof -
  obtain s m e where x: "x = Fin s m e" using assms(1) by (cases x) auto
  have m: "0 \<le> m" using assms(2) by (simp add: x)
  have le: "of_int m * p2 e \<le> flim B32"
    using assms(3) m by (simp add: x sgnr_def abs_mult split: if_splits)
  have f: "is_fin (fround_exp B32 s m e)" "canon B32 (fround_exp B32 s m e)"
    "fval (fround_exp B32 s m e) = rnd B32 (fval x)"
    using fround_exp_spec [OF m le, of s] by (auto simp: x mult.assoc)
  obtain m' e' where r: "fround_exp B32 s m e = Fin s m' e'"
    using fround_exp_sign [OF m f(1)] by blast
  show "\<exists>bs. pack_f x = Inr bs" by (simp add: x pack_f_def r)
  show "is_fin (f32_round x) \<and> fval (f32_round x) = rnd B32 (fval x)"
    using widen_Fin [of s m' e'] f unfolding r
    by (auto simp: x f32_round_def r simp del: canon.simps fval.simps)
qed

lemma f32_round_idem: "pyf x \<Longrightarrow> pack_f x = Inr bs \<Longrightarrow> f32_round (f32_round x) = f32_round x"
  using pack_f_D pyf_f32_round by metis

lemma pack_f_special:
  "f32_round NaN = NaN" "f32_round (Infin s) = Infin s"
  "\<exists>bs. pack_f NaN = Inr bs" "\<exists>bs. pack_f (Infin s) = Inr bs"
  by (simp_all add: f32_round_def pack_f_def)

section \<open>Bytes to a double and back\<close>

lemma bits_f32_canon:
  assumes "0 \<le> n" "n < 2 ^ 32"
  shows "canon B32 (bits_f32 n)" "bits_f32 n \<noteq> NaN \<Longrightarrow> f32_bits (bits_f32 n) = n"
proof -
  define s where "s = n div 2 ^ 31"
  define ex where "ex = n div 2 ^ 23 mod 256"
  define fr where "fr = n mod 2 ^ 23"
  have s: "s = 0 \<or> s = 1" using assms by (auto simp: s_def)
  have r: "0 \<le> ex" "ex < 256" "0 \<le> fr" "fr < 2 ^ 23" by (simp_all add: ex_def fr_def)
  have "n div 2 ^ 23 div 256 = s" by (simp add: s_def flip: zdiv_zmult2_eq)
  then have "ex + 256 * s = n div 2 ^ 23"
    using mult_div_mod_eq [of 256 "n div 2 ^ 23"] unfolding ex_def by linarith
  then have n: "n = fr + 2 ^ 23 * (ex + 256 * s)" by (simp add: fr_def)
  have b: "bits_f32 n = (if ex = 255 then (if fr = 0 then Infin (s \<noteq> 0) else NaN)
     else if ex = 0 then Fin (s \<noteq> 0) fr (- 149) else Fin (s \<noteq> 0) (fr + 2 ^ 23) (ex - 150))"
    by (simp add: bits_f32_def Let_def s_def ex_def fr_def)
  show "canon B32 (bits_f32 n)" using r unfolding b by auto
  show "bits_f32 n \<noteq> NaN \<Longrightarrow> f32_bits (bits_f32 n) = n" using s r n unfolding b by auto
qed

lemma pack_unpack_f:
  assumes "length bs = 4"
  shows "pyf (unpack_f bs)" "unpack_f bs \<noteq> NaN \<Longrightarrow> pack_f (unpack_f bs) = Inr bs"
proof -
  have n: "0 \<le> le_int bs" "le_int bs < 2 ^ 32" using le_int_bounds [of bs] assms by simp_all
  note c = bits_f32_canon(1) [OF n]
  show "pyf (unpack_f bs)" using c by (simp add: unpack_f_def canon_widen)
  assume "unpack_f bs \<noteq> NaN"
  then have "bits_f32 (le_int bs) \<noteq> NaN" by (auto simp: unpack_f_def)
  then have "f32_bits (bits_f32 (le_int bs)) = le_int bs" using bits_f32_canon(2) [OF n] by simp
  then show "pack_f (unpack_f bs) = Inr bs"
    using c assms le_bytes_le_int [of bs] by (simp add: pack_f_def unpack_f_def to_f32_widen)
qed

end
