(* ===== verification/Codec.thy ===== *)
theory Codec
  imports Protocol
begin

unbundle bit_operations_syntax

text \<open>
  The round trips of the two payloads of \<^verbatim>\<open>plant/protocol.py\<close>.  The interface \<open>codec\<close> is what
  the link relies on: a packed payload has a fixed size, unpacking gives what the wire can carry
  of the frame (\<open>norm\<close>), and a payload of another size is refused.  It is interpreted for
  \<open>SensorFrame\<close> and \<open>ActuatorFrame\<close>.
\<close>

section \<open>The interface\<close>

locale codec =
  fixes pack :: "'a \<Rightarrow> bytes py" and unpack :: "bytes \<Rightarrow> 'a py" and norm :: "'a \<Rightarrow> 'a"
    and size :: nat and ok :: "'a \<Rightarrow> bool"
  assumes pack_size: "ok x \<Longrightarrow> pack x = Inr bs \<Longrightarrow> length bs = size"
    and unpack_pack: "ok x \<Longrightarrow> pack x = Inr bs \<Longrightarrow> unpack bs = Inr (norm x)"
    and pack_norm: "ok x \<Longrightarrow> pack x = Inr bs \<Longrightarrow> pack (norm x) = Inr bs"
    and norm_ok: "ok x \<Longrightarrow> ok (norm x)"
    and unpack_size: "unpack bs = Inl e \<longleftrightarrow> length bs \<noteq> size \<and> e = ValueError"
begin

lemma norm_idem: assumes "ok x" "pack x = Inr bs" shows "norm (norm x) = norm x"
  using unpack_pack [OF assms] unpack_pack [OF norm_ok [OF assms(1)] pack_norm [OF assms]] by simp

lemma same_bytes: "ok x \<Longrightarrow> ok y \<Longrightarrow> pack x = Inr bs \<Longrightarrow> pack y = Inr bs \<Longrightarrow> norm x = norm y"
  using unpack_pack by (metis Inr_inject)

lemma forward: "ok x \<Longrightarrow> pack x = Inr bs \<Longrightarrow> \<exists>y. unpack bs = Inr y \<and> pack y = Inr bs"
  using unpack_pack pack_norm by blast

lemma unpack_total: "returns (unpack bs) \<longleftrightarrow> length bs = size"
  using unpack_size [of bs ValueError] unpack_size [of bs] by (cases "unpack bs") force+

end

section \<open>SensorFrame\<close>

definition sensor_ok :: "sensor_frame \<Rightarrow> bool" where
  "sensor_ok f \<longleftrightarrow> pyf (sf_v_vehicle f) \<and> pyf (sf_omega_wheel f) \<and> pyf (sf_brake_pressure f)"

definition sensor_wire :: "sensor_frame \<Rightarrow> sensor_frame" where
  "sensor_wire f =
     \<lparr>sf_timestamp_ms = sf_timestamp_ms f mod 2 ^ 32,
      sf_v_vehicle = f32_round (sf_v_vehicle f),
      sf_omega_wheel = f32_round (sf_omega_wheel f),
      sf_brake_pressure = f32_round (sf_brake_pressure f),
      sf_fault_flags = sf_fault_flags f mod 2 ^ 16\<rparr>"

lemma le_int_masked:
  "le_int (le_bytes 4 (n mod 4294967296)) = n mod 4294967296"
  "le_int (le_bytes 2 (n mod 65536)) = n mod 65536"
  by (rule le_int_le_bytes; simp)+

lemma and_masks: "(n :: int) AND 0xFFFFFFFF = n mod 4294967296" "(n :: int) AND 0xFFFF = n mod 65536"
  using and_mask32 [of n] and_mask16 [of n] by simp_all

lemma sensor_pack_D:
  assumes "sensor_pack f = Inr bs"
  obtains v w bp where "pack_f (sf_v_vehicle f) = Inr v" "pack_f (sf_omega_wheel f) = Inr w"
    "pack_f (sf_brake_pressure f) = Inr bp"
    "bs = le_bytes 4 (sf_timestamp_ms f mod 4294967296) @ v @ w @ bp @ le_bytes 2 (sf_fault_flags f mod 65536)"
  using assms unfolding sensor_pack_def py_bind_Inr_iff and_masks by blast

lemma sensor_pack_size: "sensor_ok f \<Longrightarrow> sensor_pack f = Inr bs \<Longrightarrow> length bs = SENSOR_SIZE"
  by (auto elim!: sensor_pack_D dest!: pack_f_D(1) simp: sensor_ok_def SENSOR_SIZE_def)

lemma sensor_unpack_pack:
  assumes "sensor_ok f" "sensor_pack f = Inr bs"
  shows "sensor_unpack bs = Inr (sensor_wire f)"
  using assms(2)
proof (rule sensor_pack_D)
  fix v w bp
  assume p: "pack_f (sf_v_vehicle f) = Inr v" "pack_f (sf_omega_wheel f) = Inr w"
    "pack_f (sf_brake_pressure f) = Inr bp"
    and bs: "bs = le_bytes 4 (sf_timestamp_ms f mod 4294967296) @ v @ w @ bp @ le_bytes 2 (sf_fault_flags f mod 65536)"
  note l = p [THEN pack_f_D(1)] and u = p [THEN pack_f_D(2)]
  show ?thesis
    using assms(1) l u unfolding sensor_ok_def sensor_unpack_def sensor_wire_def bs
    by (simp add: SENSOR_SIZE_def le_int_masked del: le_bytes.simps le_int.simps)
qed

lemma sensor_pack_norm:
  assumes "sensor_ok f" "sensor_pack f = Inr bs"
  shows "sensor_pack (sensor_wire f) = Inr bs"
  using assms(2)
  by (rule sensor_pack_D)
    (use assms(1) pack_f_D(3) in \<open>simp add: sensor_pack_def sensor_wire_def sensor_ok_def and_masks
       del: le_bytes.simps\<close>)

interpretation sensor: codec sensor_pack sensor_unpack sensor_wire SENSOR_SIZE sensor_ok
proof
  show "length bs = SENSOR_SIZE" if "sensor_ok x" "sensor_pack x = Inr bs" for x bs
    using sensor_pack_size that .
  show "sensor_unpack bs = Inr (sensor_wire x)" if "sensor_ok x" "sensor_pack x = Inr bs" for x bs
    using sensor_unpack_pack that .
  show "sensor_pack (sensor_wire x) = Inr bs" if "sensor_ok x" "sensor_pack x = Inr bs" for x bs
    using sensor_pack_norm that .
  show "sensor_ok (sensor_wire x)" if "sensor_ok x" for x
    using that by (simp add: sensor_ok_def sensor_wire_def pyf_f32_round)
  show "sensor_unpack bs = Inl e \<longleftrightarrow> length bs \<noteq> SENSOR_SIZE \<and> e = ValueError" for bs e
    by (auto simp: sensor_unpack_def)
qed

section \<open>ActuatorFrame\<close>

definition actuator_ok :: "actuator_frame \<Rightarrow> bool" where
  "actuator_ok f \<longleftrightarrow> pyf (af_brake_command f)"

definition actuator_wire :: "actuator_frame \<Rightarrow> actuator_frame" where
  "actuator_wire f =
     \<lparr>af_timestamp_ms = af_timestamp_ms f mod 2 ^ 32,
      af_brake_command = f32_round (af_brake_command f),
      af_ecu_status = af_ecu_status f mod 2 ^ 16,
      af_dtc_code = af_dtc_code f mod 2 ^ 16\<rparr>"

lemma actuator_pack_D:
  assumes "actuator_pack f = Inr bs"
  obtains bc where "pack_f (af_brake_command f) = Inr bc"
    "bs = le_bytes 4 (af_timestamp_ms f mod 4294967296) @ bc @
       le_bytes 2 (af_ecu_status f mod 65536) @ le_bytes 2 (af_dtc_code f mod 65536)"
  using assms unfolding actuator_pack_def py_bind_Inr_iff and_masks by blast

interpretation actuator: codec actuator_pack actuator_unpack actuator_wire ACTUATOR_SIZE actuator_ok
proof
  show "length bs = ACTUATOR_SIZE" if "actuator_ok x" "actuator_pack x = Inr bs" for x bs
    using that by (auto elim!: actuator_pack_D dest!: pack_f_D(1) simp: actuator_ok_def ACTUATOR_SIZE_def)
  show "actuator_unpack bs = Inr (actuator_wire x)" if "actuator_ok x" "actuator_pack x = Inr bs" for x bs
    using that(2)
    by (rule actuator_pack_D)
      (use that(1) pack_f_D in \<open>simp add: actuator_ok_def actuator_unpack_def actuator_wire_def
         ACTUATOR_SIZE_def le_int_masked del: le_bytes.simps le_int.simps\<close>)
  show "actuator_pack (actuator_wire x) = Inr bs" if "actuator_ok x" "actuator_pack x = Inr bs" for x bs
    using that(2)
    by (rule actuator_pack_D)
      (use that(1) pack_f_D(3) in \<open>simp add: actuator_pack_def actuator_wire_def actuator_ok_def and_masks
         del: le_bytes.simps\<close>)
  show "actuator_ok (actuator_wire x)" if "actuator_ok x" for x
    using that by (simp add: actuator_ok_def actuator_wire_def pyf_f32_round)
  show "actuator_unpack bs = Inl e \<longleftrightarrow> length bs \<noteq> ACTUATOR_SIZE \<and> e = ValueError" for bs e
    by (auto simp: actuator_unpack_def)
qed

section \<open>Properties\<close>

lemma take_drop_join: "k + n \<le> length xs \<Longrightarrow> take n (drop k xs) @ drop (k + n) xs = drop k xs"
  by (metis add.commute append_take_drop_id drop_drop)

text \<open>C30: A sensor frame whose floats are in binary32 range is packed into 18 bytes, and
  unpacking gives the timestamp modulo 2^32, the flags modulo 2^16 and each float rounded to
  binary32; sending the received frame on gives the same bytes.\<close>

theorem sensor_roundtrip:
  assumes "sensor_ok f"
    and "\<forall>x \<in> {sf_v_vehicle f, sf_omega_wheel f, sf_brake_pressure f}. is_fin x \<and> \<bar>fval x\<bar> \<le> flim B32"
  shows "\<exists>bs g. sensor_pack f = Inr bs \<and> length bs = 18 \<and> sensor_unpack bs = Inr g \<and>
    sf_timestamp_ms g = sf_timestamp_ms f mod 2 ^ 32 \<and>
    sf_fault_flags g = sf_fault_flags f mod 2 ^ 16 \<and>
    fval (sf_v_vehicle g) = rnd B32 (fval (sf_v_vehicle f)) \<and>
    fval (sf_omega_wheel g) = rnd B32 (fval (sf_omega_wheel f)) \<and>
    fval (sf_brake_pressure g) = rnd B32 (fval (sf_brake_pressure f)) \<and>
    sensor_pack g = Inr bs"
proof -
  have w: "wff x" if "x \<in> {sf_v_vehicle f, sf_omega_wheel f, sf_brake_pressure f}" for x
    using assms that canon_wff unfolding sensor_ok_def by blast
  note fin = pack_f_finite [OF _ w]
  have "\<exists>bs. pack_f x = Inr bs" if "x \<in> {sf_v_vehicle f, sf_omega_wheel f, sf_brake_pressure f}" for x
    using fin(1) [OF _ that] assms(2) that by blast
  from this [of "sf_v_vehicle f"] this [of "sf_omega_wheel f"] this [of "sf_brake_pressure f"]
  obtain u v x where "pack_f (sf_v_vehicle f) = Inr u" "pack_f (sf_omega_wheel f) = Inr v"
    "pack_f (sf_brake_pressure f) = Inr x" by auto
  then obtain bs where bs: "sensor_pack f = Inr bs" by (simp add: sensor_pack_def)
  show ?thesis
    using bs sensor.pack_size [OF assms(1) bs] sensor.unpack_pack [OF assms(1) bs]
      sensor.pack_norm [OF assms(1) bs] fin(2) assms(2)
    by (intro exI [of _ bs] exI [of _ "sensor_wire f"]) (simp add: sensor_wire_def SENSOR_SIZE_def)
qed

text \<open>Moderate values always pack.\<close>

lemma pack_f_within:
  assumes "fwithin (- 65536) 65536 x"
  shows "\<exists>bs. pack_f x = Inr bs"
proof -
  have "(65536 :: rat) \<le> of_int (2 ^ prec B32 - 1) * 1" by simp
  also have "\<dots> \<le> flim B32" unfolding flim_def
    by (rule mult_left_mono) (use p2_le_iff [of 0 "emax B32"] in simp_all)
  finally have "\<bar>fval x\<bar> \<le> flim B32" using fwithinD(4,5) [OF assms] by linarith
  then show ?thesis using pack_f_finite(1) fwithinD(1,2) [OF assms] by blast
qed

lemma sensor_pack_within:
  assumes "fwithin (- 65536) 65536 (sf_v_vehicle f)" "fwithin (- 65536) 65536 (sf_omega_wheel f)"
    and "fwithin (- 65536) 65536 (sf_brake_pressure f)"
  shows "\<exists>bs. sensor_pack f = Inr bs \<and> length bs = 18"
proof -
  obtain bs where "sensor_pack f = Inr bs"
    using assms [THEN pack_f_within] by (auto simp: sensor_pack_def)
  moreover have "sensor_ok f" using assms [THEN fwithinD(3)] by (simp add: sensor_ok_def)
  ultimately show ?thesis using sensor.pack_size by (auto simp: SENSOR_SIZE_def)
qed

lemma flit_in_f32: "\<bar>k\<bar> < 2 ^ 24 \<Longrightarrow> is_fin (flit k 1) \<and> pyf (flit k 1) \<and> \<bar>fval (flit k 1)\<bar> \<le> flim B32"
proof -
  assume k: "\<bar>k\<bar> < 2 ^ 24"
  then have "is_fin (flit k 1) \<and> pyf (flit k 1) \<and> fval (flit k 1) = of_int k"
    by (intro conjI; simp)
  moreover have "\<bar>of_int k :: rat\<bar> \<le> flim B32"
  proof -
    have "\<bar>of_int k :: rat\<bar> \<le> of_int (2 ^ prec B32 - 1) * 1" using k by (simp flip: of_int_abs)
    also have "\<dots> \<le> flim B32" unfolding flim_def
      by (rule mult_left_mono) (use p2_le_iff [of 0 "emax B32"] in simp_all)
    finally show ?thesis .
  qed
  ultimately show ?thesis by simp
qed

theorem sensor_roundtrip_witness:
  "\<exists>bs g. sensor_pack \<lparr>sf_timestamp_ms = 2 ^ 32 + 7, sf_v_vehicle = flit 22 1, sf_omega_wheel = flit 80 1,
      sf_brake_pressure = flit 100 1, sf_fault_flags = 9\<rparr> = Inr bs \<and> sensor_unpack bs = Inr g \<and>
    sf_timestamp_ms g = 7"
  using sensor_roundtrip [of "\<lparr>sf_timestamp_ms = 2 ^ 32 + 7, sf_v_vehicle = flit 22 1,
      sf_omega_wheel = flit 80 1, sf_brake_pressure = flit 100 1, sf_fault_flags = 9\<rparr>"]
    flit_in_f32 [of 22] flit_in_f32 [of 80] flit_in_f32 [of 100]
  by (auto simp: sensor_ok_def)

text \<open>The wire determines the frame: 18 bytes whose floats are not NaN unpack to a frame that
  packs to the same 18 bytes.\<close>

theorem sensor_bytes_roundtrip:
  assumes "sensor_unpack bs = Inr f" "NaN \<notin> {sf_v_vehicle f, sf_omega_wheel f, sf_brake_pressure f}"
  shows "sensor_pack f = Inr bs"
proof -
  have l: "length bs = 18" using assms(1) by (auto simp: sensor_unpack_def SENSOR_SIZE_def split: if_splits)
  have f: "f = \<lparr>sf_timestamp_ms = le_int (take 4 bs), sf_v_vehicle = unpack_f (take 4 (drop 4 bs)),
      sf_omega_wheel = unpack_f (take 4 (drop 8 bs)), sf_brake_pressure = unpack_f (take 4 (drop 12 bs)),
      sf_fault_flags = le_int (drop 16 bs)\<rparr>"
    using assms(1) by (auto simp: sensor_unpack_def split: if_splits)
  have p: "pack_f (unpack_f (take 4 (drop k bs))) = Inr (take 4 (drop k bs))" if "k \<in> {4, 8, 12}" for k
    using that assms(2) l by (intro pack_unpack_f(2)) (auto simp: f)
  have i: "le_bytes 4 (le_int (take 4 bs) mod 4294967296) = take 4 bs"
    "le_bytes 2 (le_int (drop 16 bs) mod 65536) = drop 16 bs"
    using le_bytes_le_int [of "take 4 bs"] le_bytes_le_int [of "drop 16 bs"] l
      le_int_bounds [of "take 4 bs"] le_int_bounds [of "drop 16 bs"]
    by (simp_all del: le_bytes.simps)
  have "take 4 bs @ take 4 (drop 4 bs) @ take 4 (drop 8 bs) @ take 4 (drop 12 bs) @ drop 16 bs = bs"
    using take_drop_join [of 12 4 bs] take_drop_join [of 8 4 bs] take_drop_join [of 4 4 bs] l by simp
  then show ?thesis
    using p i by (simp add: f sensor_pack_def and_masks del: le_bytes.simps)
qed

theorem sensor_bytes_roundtrip_witness:
  "\<exists>f. sensor_unpack (replicate 18 0) = Inr f \<and> sensor_pack f = Inr (replicate 18 0)"
proof -
  obtain f where f: "sensor_unpack (replicate 18 0) = Inr f"
    by (cases "sensor_unpack (replicate 18 0)") (auto simp: sensor_unpack_def SENSOR_SIZE_def)
  have "unpack_f (take 4 (drop k (replicate 18 0))) \<noteq> NaN" if "k \<le> 12" for k
  proof -
    have "take 4 (drop k (replicate 18 (0 :: byte))) = replicate 4 0"
      using that by (simp add: take_replicate)
    moreover have "unpack_f (replicate 4 0) = Fin False 0 (- 1074)"
      by (simp add: unpack_f_def bits_f32_def eval_nat_numeral fround_exp_def fround_def)
    ultimately show ?thesis by simp
  qed
  then have "NaN \<notin> {sf_v_vehicle f, sf_omega_wheel f, sf_brake_pressure f}"
    using f by (auto simp: sensor_unpack_def eq_commute [of NaN] simp del: drop_replicate split: if_splits)
  then show ?thesis using sensor_bytes_roundtrip [OF f] f by blast
qed

text \<open>The actuator payload carries the timestamp modulo 2^32, the brake command rounded to
  binary32 and status and DTC modulo 2^16, in 12 bytes; only the brake command can make packing
  fail, with OverflowError, and only payloads of another size are refused by unpacking.\<close>

theorem actuator_roundtrip:
  assumes "actuator_ok f"
  shows "case actuator_pack f of
      Inl e \<Rightarrow> e = OverflowError \<and> is_fin (af_brake_command f) \<and> flim B32 < \<bar>fval (af_brake_command f)\<bar>
    | Inr bs \<Rightarrow> length bs = 12 \<and> actuator_unpack bs =
        Inr \<lparr>af_timestamp_ms = af_timestamp_ms f mod 2 ^ 32,
             af_brake_command = f32_round (af_brake_command f),
             af_ecu_status = af_ecu_status f mod 2 ^ 16,
             af_dtc_code = af_dtc_code f mod 2 ^ 16\<rparr> \<and>
        (\<forall>extra. extra \<noteq> [] \<longrightarrow> actuator_unpack (bs @ extra) = Inl ValueError)"
proof (cases "actuator_pack f")
  case (Inl e)
  then have e: "pack_f (af_brake_command f) = Inl e"
    by (auto simp: actuator_pack_def py_bind_Inl_iff)
  have p: "pyf (af_brake_command f)" using assms by (simp add: actuator_ok_def)
  have "is_fin (af_brake_command f)"
    using e pack_f_special(3) pack_f_special(4) by (cases "af_brake_command f") (fastforce | metis Inl_Inr_False)+
  then show ?thesis
    using e p pack_f_error [OF e] pack_f_finite(1) [of "af_brake_command f"] canon_wff [OF p]
    by (fastforce simp: Inl)
next
  case (Inr bs)
  note l = actuator.pack_size [OF assms Inr] and u = actuator.unpack_pack [OF assms Inr]
  have "actuator_unpack (bs @ extra) = Inl ValueError" if "extra \<noteq> []" for extra
    using that l actuator.unpack_size [of "bs @ extra" ValueError] by simp
  then show ?thesis using l u by (simp add: Inr actuator_wire_def ACTUATOR_SIZE_def)
qed

theorem actuator_roundtrip_witness:
  "\<exists>bs. actuator_pack \<lparr>af_timestamp_ms = -1, af_brake_command = NaN, af_ecu_status = 3, af_dtc_code = 65537\<rparr> = Inr bs \<and>
    actuator_unpack bs = Inr \<lparr>af_timestamp_ms = 4294967295, af_brake_command = NaN, af_ecu_status = 3, af_dtc_code = 1\<rparr>"
  using actuator_roundtrip [of "\<lparr>af_timestamp_ms = -1, af_brake_command = NaN, af_ecu_status = 3, af_dtc_code = 65537\<rparr>"]
    pack_f_special
  by (auto simp: actuator_ok_def actuator_pack_def)

end
