(* ===== verification/Decoder.thy ===== *)
theory Decoder
  imports Codec
begin

unbundle bit_operations_syntax

text \<open>
  \<^verbatim>\<open>FrameDecoder\<close> of \<^verbatim>\<open>plant/protocol.py\<close>: the stream decoder that finds the magic, checks length,
  type and CRC, and resynchronises after a bad frame.  \<open>try_step\<close> is one activation of
  \<^verbatim>\<open>_try_one\<close> (its first result is \<open>None\<close> where the method calls itself); \<open>try_one\<close> follows the
  recursion to its end and \<open>try_one_stack\<close> does so with a bounded number of Python stack frames.
\<close>

section \<open>The decoder\<close>

record decoded_frame =
  fr_frame_type :: int
  fr_payload :: bytes

record decoder =
  dc_buf :: bytes
  dc_errors_crc :: nat
  dc_errors_size :: nat
  dc_errors_type :: nat
  dc_bytes_dropped :: nat

definition FrameDecoder :: decoder where
  "FrameDecoder = \<lparr>dc_buf = [], dc_errors_crc = 0, dc_errors_size = 0, dc_errors_type = 0,
     dc_bytes_dropped = 0\<rparr>"

definition feed :: "bytes \<Rightarrow> decoder \<Rightarrow> decoder" where
  "feed data d = d\<lparr>dc_buf := dc_buf d @ data\<rparr>"

text \<open>Two bytes as the code reads a little-endian u16.\<close>

definition le16 :: "byte \<Rightarrow> byte \<Rightarrow> int" where
  "le16 lo hi = uint lo OR push_bit 8 (uint hi)"

text \<open>The scan for the magic pair, from index \<open>i\<close>.\<close>

fun find_magic :: "nat \<Rightarrow> bytes \<Rightarrow> nat option" where
  "find_magic i (x # y # bs) =
     (if uint x = MAGIC AND 0xFF \<and> uint y = drop_bit 8 MAGIC AND 0xFF then Some i
      else find_magic (i + 1) (y # bs))"
| "find_magic i _ = None"

text \<open>From the magic on: header, length, type and CRC checks.\<close>

definition try_frame :: "decoder \<Rightarrow> decoded_frame option option \<times> decoder" where
  "try_frame d = (let b = dc_buf d in
     if length b < HEADER_SIZE + CRC_SIZE then (Some None, d)
     else let frame_type = uint (b ! 2); len = nat (le16 (b ! 3) (b ! 4)) in
     if MAX_PAYLOAD < len
       then (None, d\<lparr>dc_errors_size := dc_errors_size d + 1, dc_buf := drop 2 b\<rparr>)
     else if frame_type \<notin> {TYPE_SENSOR, TYPE_ACTUATOR}
       then (None, d\<lparr>dc_errors_type := dc_errors_type d + 1, dc_buf := drop 2 b\<rparr>)
     else let total = HEADER_SIZE + len + CRC_SIZE in
     if length b < total then (Some None, d)
     else let payload = take len (drop HEADER_SIZE b);
              crc_recv = le16 (b ! (HEADER_SIZE + len)) (b ! (HEADER_SIZE + len + 1));
              crc_calc = crc16_ccitt (take (HEADER_SIZE + len - 2) (drop 2 b)) in
     if crc_recv \<noteq> crc_calc
       then (None, d\<lparr>dc_errors_crc := dc_errors_crc d + 1, dc_buf := drop 2 b\<rparr>)
     else (Some (Some \<lparr>fr_frame_type = frame_type, fr_payload = payload\<rparr>), d\<lparr>dc_buf := drop total b\<rparr>))"

definition try_step :: "decoder \<Rightarrow> decoded_frame option option \<times> decoder" where
  "try_step d = (let b = dc_buf d in case find_magic 0 b of
     None \<Rightarrow> (Some None,
       if 0 < length b
         then d\<lparr>dc_bytes_dropped := dc_bytes_dropped d + (length b - (if 1 \<le> length b then 1 else 0)),
                dc_buf := drop (length b - 1) b\<rparr>
         else d)
   | Some i \<Rightarrow> try_frame (if 0 < i
         then d\<lparr>dc_bytes_dropped := dc_bytes_dropped d + i, dc_buf := drop i b\<rparr> else d))"

lemma find_magic_Some:
  "find_magic i b = Some j \<Longrightarrow> i \<le> j \<and> j - i + 2 \<le> length b \<and> b ! (j - i) = 0x55 \<and>
    b ! (j - i + 1) = 0xAA \<and> find_magic 0 (drop (j - i) b) = Some 0"
proof (induction i b rule: find_magic.induct)
  case (1 i x y bs)
  have m: "uint (x :: byte) = 85 \<longleftrightarrow> x = 0x55" "uint (y :: byte) = 170 \<longleftrightarrow> y = 0xAA"
    by (simp_all add: word_uint_eq_iff)
  show ?case
  proof (cases "x = 0x55 \<and> y = 0xAA")
    case True
    then show ?thesis using 1 by (auto simp: MAGIC_def)
  next
    case False
    then have no: "\<not> (uint x = MAGIC AND 0xFF \<and> uint y = drop_bit 8 MAGIC AND 0xFF)"
      using m by (auto simp: MAGIC_def)
    with 1 have "find_magic (i + 1) (y # bs) = Some j" by simp
    with 1(1) [OF no] have "i + 1 \<le> j" "j - (i + 1) + 2 \<le> length (y # bs)"
      "(y # bs) ! (j - (i + 1)) = 0x55" "(y # bs) ! (j - (i + 1) + 1) = 0xAA"
      "find_magic 0 (drop (j - (i + 1)) (y # bs)) = Some 0" by blast+
    moreover from this(1) have "j - i = Suc (j - (i + 1))" by simp
    ultimately show ?thesis by simp
  qed
qed simp_all

text \<open>What the buffer holds where \<open>try_frame\<close> starts.\<close>

definition aligned :: "decoder \<Rightarrow> bool" where
  "aligned d \<longleftrightarrow> find_magic 0 (dc_buf d) = Some 0"

definition skip_to :: "nat \<Rightarrow> decoder \<Rightarrow> decoder" where
  "skip_to i d = d\<lparr>dc_bytes_dropped := dc_bytes_dropped d + i, dc_buf := drop i (dc_buf d)\<rparr>"

lemma skip_to_0 [simp]: "skip_to 0 d = d"
  by (simp add: skip_to_def)

lemma skip_to_buf [simp]: "dc_buf (skip_to i d) = drop i (dc_buf d)"
  by (simp add: skip_to_def)

lemma feed_buf [simp]: "dc_buf (feed ys d) = dc_buf d @ ys"
  by (simp add: feed_def)

lemma feed_Nil [simp]: "feed [] d = d"
  by (simp add: feed_def)

lemma feed_feed: "feed ys (feed xs d) = feed (xs @ ys) d"
  by (simp add: feed_def)

lemma feed_skip_to: "i \<le> length (dc_buf d) \<Longrightarrow> skip_to i (feed ys d) = feed ys (skip_to i d)"
  by (simp add: skip_to_def feed_def)

lemma try_step_alt:
  "try_step d = (case find_magic 0 (dc_buf d) of
     None \<Rightarrow> (Some None, skip_to (length (dc_buf d) - 1) d)
   | Some i \<Rightarrow> try_frame (skip_to i d))"
  by (auto simp: try_step_def skip_to_def Let_def Suc_le_eq split: option.split)

lemma try_step_aligned: "aligned d \<Longrightarrow> try_step d = try_frame d"
  by (simp add: try_step_alt aligned_def)

lemma aligned_skip: "find_magic 0 (dc_buf d) = Some i \<Longrightarrow> aligned (skip_to i d) \<and> i + 2 \<le> length (dc_buf d)"
  using find_magic_Some [of 0 "dc_buf d" i] by (simp add: aligned_def)

lemma aligned_length: "aligned d \<Longrightarrow> 2 \<le> length (dc_buf d)"
  using find_magic_Some [of 0 "dc_buf d" 0] by (simp add: aligned_def)

lemma try_frame_length:
  "aligned d \<Longrightarrow> try_frame d = (r, d') \<Longrightarrow> r \<noteq> Some None \<Longrightarrow> length (dc_buf d') + 2 \<le> length (dc_buf d)"
  using aligned_length [of d]
  by (auto simp: try_frame_def Let_def protocol_consts split: if_splits)

lemma try_step_length:
  assumes "try_step d = (r, d')" "r \<noteq> Some None"
  shows "length (dc_buf d') + 2 \<le> length (dc_buf d)"
proof (cases "find_magic 0 (dc_buf d)")
  case None
  with assms show ?thesis by (simp add: try_step_alt)
next
  case (Some i)
  with assms have "try_frame (skip_to i d) = (r, d')" by (simp add: try_step_alt)
  from try_frame_length [OF _ this assms(2)] aligned_skip [OF Some] show ?thesis by simp
qed

text \<open>The recursion of \<^verbatim>\<open>_try_one\<close> and the loop of \<^verbatim>\<open>drain\<close>: each round shortens the buffer.\<close>

function try_one :: "decoder \<Rightarrow> decoded_frame option \<times> decoder" where
  "try_one d = (case try_step d of (Some r, d') \<Rightarrow> (r, d') | (None, d') \<Rightarrow> try_one d')"
  by pat_completeness auto
termination
  by (relation "measure (\<lambda>d. length (dc_buf d))") (auto dest!: sym [of "(None, _)"] try_step_length)

declare try_one.simps [simp del]

lemma try_one_length:
  "try_one d = (Some f, d') \<Longrightarrow> length (dc_buf d') + 2 \<le> length (dc_buf d)"
proof (induction d rule: try_one.induct)
  case (1 d)
  obtain r d1 where s: "try_step d = (r, d1)" by force
  show ?case
  proof (cases r)
    case None
    then have "length (dc_buf d') + 2 \<le> length (dc_buf d1)"
      using 1 s by (simp add: try_one.simps [of d])
    with try_step_length [OF s] None show ?thesis by simp
  next
    case (Some x)
    with 1(2) s have "x = Some f" "d1 = d'" by (simp_all add: try_one.simps [of d])
    with try_step_length [OF s] Some show ?thesis by simp
  qed
qed

function drain :: "decoder \<Rightarrow> decoded_frame list \<times> decoder" where
  "drain d = (case try_one d of
     (None, d') \<Rightarrow> ([], d')
   | (Some frame, d') \<Rightarrow> (case drain d' of (out, d'') \<Rightarrow> (frame # out, d'')))"
  by pat_completeness auto
termination
  by (relation "measure (\<lambda>d. length (dc_buf d))") (auto dest!: sym [of "(Some _, _)"] try_one_length)

declare drain.simps [simp del]

text \<open>\<^verbatim>\<open>_try_one\<close> with \<open>n\<close> stack frames left: one more call raises.\<close>

fun try_one_stack :: "nat \<Rightarrow> decoder \<Rightarrow> decoded_frame option py \<times> decoder" where
  "try_one_stack 0 d = (Inl RecursionError, d)"
| "try_one_stack (Suc n) d = (case try_step d of
     (Some r, d') \<Rightarrow> (Inr r, d') | (None, d') \<Rightarrow> try_one_stack n d')"

definition decode_one :: "bytes \<Rightarrow> decoded_frame option \<times> int" where
  "decode_one buf = (let (frames, dec) = drain (feed buf FrameDecoder) in
     case frames of
       [] \<Rightarrow> (None, 0)
     | frame # _ \<Rightarrow>
         (Some frame, int (length buf) - int (length (dc_buf dec)) - int (dc_bytes_dropped dec)))"

end
