(* ===== verification/Stream_Decoding.thy ===== *)
theory Stream_Decoding
  imports Decoder
begin

unbundle bit_operations_syntax

text \<open>
  What \<^verbatim>\<open>FrameDecoder\<close> guarantees about a byte stream, with its recursion followed to the end: the frames and counters
  do not depend on how the stream is cut into chunks, encoded frames come out unchanged, garbage before a frame and
  corrupted frames are skipped and counted, the buffer stays small.  What the limit of Python's recursion
  changes is in \<open>Decoder_Accounting\<close>.
\<close>

section \<open>Chunks\<close>

lemma find_magic_shift: "find_magic (i + k) b = map_option ((+) k) (find_magic i b)"
  by (induction i b rule: find_magic.induct) simp_all

lemma find_magic_append_Some: "find_magic i b = Some j \<Longrightarrow> find_magic i (b @ ys) = Some j"
  by (induction i b rule: find_magic.induct) (auto split: if_splits)

lemma find_magic_append_None:
  "find_magic i b = None \<Longrightarrow> b \<noteq> [] \<Longrightarrow> find_magic i (b @ ys) = find_magic (i + length b - 1) (last b # ys)"
  by (induction i b rule: find_magic.induct) (auto split: if_splits)

lemma try_frame_wait: "try_frame d = (Some None, d') \<Longrightarrow> d' = d"
  by (auto simp: try_frame_def Let_def split: if_splits)

lemma try_frame_feed:
  assumes "try_frame d = (r, d')" "r \<noteq> Some None"
  shows "try_frame (feed ys d) = (r, feed ys d')"
proof -
  define b where "b = dc_buf d"
  define len where "len = nat (le16 (b ! 3) (b ! 4))"
  have l: "7 \<le> length b"
    using assms by (cases "length (dc_buf d) < 7") (simp_all add: try_frame_def b_def protocol_consts Let_def)
  have n: "dc_buf (feed ys d) = b @ ys" "(b @ ys) ! 2 = b ! 2" "(b @ ys) ! 3 = b ! 3"
    "(b @ ys) ! 4 = b ! 4" "\<not> length b < 7" "\<not> length (b @ ys) < 7" "drop 2 (b @ ys) = drop 2 b @ ys"
    using l by (simp_all add: b_def nth_append)
  show ?thesis
  proof (cases "MAX_PAYLOAD < len \<or> uint (b ! 2) \<notin> {TYPE_SENSOR, TYPE_ACTUATOR}")
    case True
    then show ?thesis
      using assms unfolding try_frame_def Let_def n b_def [symmetric] len_def [symmetric]
        HEADER_SIZE_def CRC_SIZE_def
      by (auto simp: n feed_def simp del: length_append split: if_splits)
  next
    case False
    have t: "len + 7 \<le> length b"
      using assms False l unfolding try_frame_def Let_def b_def [symmetric] len_def [symmetric]
        HEADER_SIZE_def CRC_SIZE_def
      by (auto split: if_splits)
    then have m: "(b @ ys) ! (5 + len) = b ! (5 + len)" "(b @ ys) ! (5 + len + 1) = b ! (5 + len + 1)"
      "take len (drop 5 (b @ ys)) = take len (drop 5 b)" "drop (5 + len + 2) (b @ ys) = drop (5 + len + 2) b @ ys"
      "take (5 + len - 2) (drop 2 b @ ys) = take (5 + len - 2) (drop 2 b)"
      "\<not> length b < 5 + len + 2" "\<not> length (b @ ys) < 7 + len"
      by (simp_all add: nth_append)
    show ?thesis
      using assms False
      unfolding try_frame_def Let_def n b_def [symmetric] len_def [symmetric] HEADER_SIZE_def CRC_SIZE_def
      unfolding n m by (auto simp: m n feed_def simp del: length_append split: if_splits)
  qed
qed

lemma drop_last: "b \<noteq> [] \<Longrightarrow> drop (length b - 1) b = [last b]"
  by (cases b rule: rev_cases) simp_all

lemma try_step_feed:
  assumes "try_step d = (r, d')"
  shows "if r = Some None then try_step (feed ys d') = try_step (feed ys d)
    else try_step (feed ys d) = (r, feed ys d')"
proof (cases "find_magic 0 (dc_buf d)")
  case (Some i)
  note al = aligned_skip [OF Some]
  have t: "try_frame (skip_to i d) = (r, d')" using assms Some by (simp add: try_step_alt)
  have s: "try_step (feed ys d) = try_frame (feed ys (skip_to i d))"
    using al by (simp add: try_step_alt find_magic_append_Some [OF Some] feed_skip_to)
  have "aligned (feed ys (skip_to i d))" using al by (simp add: aligned_def find_magic_append_Some)
  from try_step_aligned [OF this] show ?thesis
    using try_frame_wait [of "skip_to i d" d'] try_frame_feed [OF t] t s by auto
next
  case None
  let ?b = "dc_buf d"
  have r: "r = Some None" "d' = skip_to (length ?b - 1) d" using assms None by (simp_all add: try_step_alt)
  show ?thesis
  proof (cases "?b = []")
    case False
    have f: "find_magic 0 (?b @ ys) = map_option ((+) (length ?b - 1)) (find_magic 0 (last ?b # ys))"
      using find_magic_append_None [OF None False, of ys] find_magic_shift [of 0 "length ?b - 1"] by simp
    have "skip_to k (feed ys (skip_to (length ?b - 1) d)) = skip_to (length ?b - 1 + k) (feed ys d)" for k
      using False by (simp add: skip_to_def feed_def add.commute)
    moreover have "length ?b - 1 + length ys = length (?b @ ys) - 1" using False by (cases ?b) simp_all
    ultimately show ?thesis
      using False unfolding r
      by (simp add: try_step_alt f drop_last del: One_nat_def length_append split: option.split)
  qed (simp add: r)
qed

lemma try_one_feed_None: "try_one d = (None, d') \<Longrightarrow> try_one (feed ys d') = try_one (feed ys d)"
proof (induction d rule: try_one.induct)
  case (1 d)
  obtain r d1 where s: "try_step d = (r, d1)" by force
  then show ?case
    using 1 try_step_feed [OF s, of ys]
    by (cases r) (auto simp: try_one.simps [of d] try_one.simps [of "feed ys d"] try_one.simps [of "feed ys d'"])
qed

lemma try_one_feed_Some: "try_one d = (Some f, d') \<Longrightarrow> try_one (feed ys d) = (Some f, feed ys d')"
proof (induction d rule: try_one.induct)
  case (1 d)
  obtain r d1 where s: "try_step d = (r, d1)" by force
  then show ?case
    using 1 try_step_feed [OF s, of ys]
    by (cases r) (auto simp: try_one.simps [of d] try_one.simps [of "feed ys d"])
qed

lemma drain_feed:
  "drain d = (fs, d') \<Longrightarrow> drain (feed ys d) = map_prod ((@) fs) id (drain (feed ys d'))"
proof (induction d arbitrary: fs rule: drain.induct)
  case (1 d)
  obtain r d1 where s: "try_one d = (r, d1)" by force
  show ?case
  proof (cases r)
    case None
    with 1(2) s have "fs = []" "d' = d1" by (simp_all add: drain.simps [of d])
    with try_one_feed_None [of d d1 ys] s None show ?thesis
      by (simp add: drain.simps [of "feed ys d"] drain.simps [of "feed ys d1"] prod.map_id0
          split: prod.split option.split)
  next
    case (Some f)
    with 1(2) s obtain out where out: "drain d1 = (out, d')" "fs = f # out"
      by (auto simp: drain.simps [of d] split: prod.splits)
    from 1(1) [OF s [symmetric] Some out(1)] show ?thesis
      using try_one_feed_Some s Some out(2)
      by (cases "drain (feed ys d')") (auto simp: drain.simps [of "feed ys d"])
  qed
qed

text \<open>Feeding chunk after chunk, draining after each.\<close>

fun run_chunks :: "bytes list \<Rightarrow> decoder \<Rightarrow> decoded_frame list \<times> decoder" where
  "run_chunks [] d = ([], d)"
| "run_chunks (c # cs) d =
     (case drain (feed c d) of (out, d') \<Rightarrow> map_prod ((@) out) id (run_chunks cs d'))"

lemma run_chunks_drain:
  "run_chunks cs (snd (drain d)) = (fs, d') \<Longrightarrow> drain (feed (concat cs) d) = (fst (drain d) @ fs, d')"
proof (induction cs arbitrary: d fs d')
  case Nil
  then show ?case by (simp add: prod_eq_iff)
next
  case (Cons c cs)
  obtain f0 d0 where d0: "drain d = (f0, d0)" by force
  obtain out d1 where c: "drain (feed c d0) = (out, d1)" by force
  have dc: "drain (feed c d) = (f0 @ out, d1)" using drain_feed [OF d0, of c] c by simp
  obtain gs where gs: "run_chunks cs d1 = (gs, d')" "fs = out @ gs"
    using Cons.prems c d0 by (cases "run_chunks cs d1") auto
  from Cons.IH [of "feed c d" gs d'] gs dc show ?case by (simp add: feed_feed d0)
qed

section \<open>Encoded frames\<close>

definition frame_bytes :: "int \<Rightarrow> bytes \<Rightarrow> bytes" where
  "frame_bytes t p = [0x55, 0xAA, word_of_int t, of_nat (length p), 0] @ p @
     le_bytes 2 (crc16_ccitt ([word_of_int t, of_nat (length p), 0] @ p))"

lemma encode_frame_eq:
  "encode_frame t p =
    (if 64 < length p \<or> t \<notin> {1, 2} then Inl ValueError else Inr (frame_bytes t p))"
proof -
  have n: "int (length p) div 256 = 0" "int (length p) mod 256 = int (length p)" if "length p \<le> 64"
    using that by simp_all
  have w: "(word_of_int (int k) :: byte) = of_nat k" for k by simp
  show ?thesis
    by (auto simp: encode_frame_def frame_bytes_def Let_def protocol_consts numeral_2_eq_2 n w)
qed

lemma frame_bytes_length [simp]: "length (frame_bytes t p) = length p + 7"
  by (simp add: frame_bytes_def)

lemma le16_le_int: "le16 x y = le_int [x, y]"
proof -
  have "uint x AND push_bit 8 (uint y) = 0"
  proof (rule bit_eqI)
    fix n
    have "\<not> bit (uint x) n" if "8 \<le> n"
      using that by (simp add: bit_uint_iff)
    then show "bit (uint x AND push_bit 8 (uint y)) n = bit (0 :: int) n"
      by (auto simp: bit_and_iff bit_push_bit_iff)
  qed
  then have "le16 x y = uint x + push_bit 8 (uint y)"
    unfolding le16_def by (rule disjunctive_add_eq_or [symmetric])
  then show ?thesis by (simp add: push_bit_eq_mult)
qed

lemma le_bytes_2: "le_bytes 2 n = [word_of_int (n mod 256), word_of_int (n div 256 mod 256)]"
  by (simp add: numeral_2_eq_2)

lemma byte_code:
  "uint (0x55 :: byte) = 85" "uint (0xAA :: byte) = 170" "uint (0 :: byte) = 0"
  by simp_all

lemma find_magic_head: "find_magic i (0x55 # 0xAA # bs) = Some i"
  by (simp add: MAGIC_def)

lemma try_frame_whole:
  assumes "dc_buf d = x # y # t # l0 # l1 # p @ c0 # c1 # rest"
    and "int (length p) = le16 l0 l1" "length p \<le> 64" "uint t \<in> {1, 2}"
  shows "try_frame d = (if le16 c0 c1 \<noteq> crc16_ccitt (t # l0 # l1 # p)
    then (None, d\<lparr>dc_errors_crc := dc_errors_crc d + 1, dc_buf := t # l0 # l1 # p @ c0 # c1 # rest\<rparr>)
    else (Some (Some \<lparr>fr_frame_type = uint t, fr_payload = p\<rparr>), d\<lparr>dc_buf := rest\<rparr>))"
proof -
  have l: "nat (le16 l0 l1) = length p" using assms(2) by simp
  let ?b = "x # y # t # l0 # l1 # p @ c0 # c1 # rest"
  have n: "?b ! 2 = t" "?b ! 3 = l0" "?b ! 4 = l1" "?b ! (5 + length p) = c0" "?b ! (5 + length p + 1) = c1"
    "take (length p) (drop 5 ?b) = p" "take (5 + length p - 2) (drop 2 ?b) = t # l0 # l1 # p"
    "drop 2 ?b = t # l0 # l1 # p @ c0 # c1 # rest" "drop (5 + length p + 2) ?b = rest"
    by (simp_all add: eval_nat_numeral nth_append)
  have t: "uint t \<noteq> 1 \<Longrightarrow> uint t = 2"
    "take (3 + length p) (t # l0 # l1 # p @ c0 # c1 # rest) = t # l0 # l1 # p"
    using assms(4) by (simp_all add: numeral_3_eq_3)
  show ?thesis
    unfolding try_frame_def Let_def assms(1) protocol_consts n l using assms(3,4)
    by (simp add: t)
qed

lemma try_frame_bad_crc:
  assumes "dc_buf d = x # y # t # l0 # l1 # p @ c0 # c1 # rest"
    and "int (length p) = le16 l0 l1" "length p \<le> 64" "uint t \<in> {1, 2}"
    and "le16 c0 c1 \<noteq> crc16_ccitt (t # l0 # l1 # p)"
  shows "try_frame d =
    (None, d\<lparr>dc_errors_crc := dc_errors_crc d + 1, dc_buf := t # l0 # l1 # p @ c0 # c1 # rest\<rparr>)"
  using try_frame_whole [OF assms(1-4)] assms(5) by (simp only: if_True not_False_eq_True simp_thms)

lemma frame_bytes_crc:
  "le16 (word_of_int (crc16_ccitt bs mod 256)) (word_of_int (crc16_ccitt bs div 256 mod 256)) = crc16_ccitt bs"
  using crc16_range [of bs] le_int_le_bytes [of "crc16_ccitt bs" 2] by (simp add: le16_le_int le_bytes_2)

lemma try_frame_accept:
  assumes "t \<in> {1, 2}" "length p \<le> 64" "dc_buf d = frame_bytes t p @ rest"
  shows "try_frame d = (Some (Some \<lparr>fr_frame_type = t, fr_payload = p\<rparr>), d\<lparr>dc_buf := rest\<rparr>)"
proof -
  let ?l = "of_nat (length p) :: byte"
  let ?c = "crc16_ccitt (word_of_int t # ?l # 0 # p)"
  have u: "uint (word_of_int t :: byte) = t" using assms(1) by auto
  have "dc_buf d = 0x55 # 0xAA # word_of_int t # ?l # 0 # p @
      word_of_int (?c mod 256) # word_of_int (?c div 256 mod 256) # rest"
    by (simp add: assms(3) frame_bytes_def le_bytes_2)
  moreover have "int (length p) = le16 ?l 0"
    using assms(2) by (simp add: le16_le_int uint_nat unat_of_nat)
  ultimately show ?thesis
    using try_frame_whole [of d _ _ "word_of_int t" ?l 0 p] assms(1,2) frame_bytes_crc u by simp
qed

definition magic_free :: "bytes \<Rightarrow> bool" where
  "magic_free g \<longleftrightarrow> (\<forall>i < length g - 1. \<not> (g ! i = 0x55 \<and> g ! (i + 1) = 0xAA))"

lemma magic_free_simps [simp]:
  "magic_free []" "magic_free [x]"
  "magic_free (x # y # bs) \<longleftrightarrow> \<not> (x = 0x55 \<and> y = 0xAA) \<and> magic_free (y # bs)"
  by (auto simp: magic_free_def nth_Cons split: nat.splits)

lemma magic_free_find: assumes "magic_free g" shows "find_magic 0 g = None"
proof (cases "find_magic 0 g")
  case (Some j)
  from find_magic_Some [OF this] assms show ?thesis by (auto simp: magic_free_def)
qed

lemma find_magic_garbage:
  assumes "magic_free g" shows "find_magic 0 (g @ 0x55 # 0xAA # bs) = Some (length g)"
proof (cases "g = []")
  case False
  have "find_magic 0 (g @ 0x55 # 0xAA # bs) = find_magic (length g - 1) (last g # 0x55 # 0xAA # bs)"
    using find_magic_append_None [OF magic_free_find [OF assms] False] by simp
  also have "\<dots> = Some (length g - 1 + 1)" by (simp add: MAGIC_def)
  finally show ?thesis using False by (cases g) simp_all
qed (simp add: MAGIC_def)

lemma try_one_garbage:
  assumes "t \<in> {1, 2}" "length p \<le> 64" "magic_free g" "dc_buf d = []"
  shows "try_one (feed (g @ frame_bytes t p @ rest) d) =
    (Some \<lparr>fr_frame_type = t, fr_payload = p\<rparr>, feed rest (skip_to (length g) d))"
proof -
  let ?d = "feed (g @ frame_bytes t p @ rest) d"
  have "find_magic 0 (dc_buf ?d) = Some (length g)"
    using find_magic_garbage [OF assms(3)] by (simp add: assms(4) frame_bytes_def)
  then have "try_step ?d = try_frame (skip_to (length g) ?d)" by (simp add: try_step_alt)
  also have "\<dots> = (Some (Some \<lparr>fr_frame_type = t, fr_payload = p\<rparr>), (skip_to (length g) ?d)\<lparr>dc_buf := rest\<rparr>)"
    by (rule try_frame_accept [OF assms(1,2)]) (simp add: assms(4))
  finally have "try_one ?d = (Some \<lparr>fr_frame_type = t, fr_payload = p\<rparr>, (skip_to (length g) ?d)\<lparr>dc_buf := rest\<rparr>)"
    by (simp add: try_one.simps [of ?d])
  then show ?thesis by (simp add: skip_to_def feed_def assms(4))
qed

lemma drain_frame:
  assumes "t \<in> {1, 2}" "length p \<le> 64" "dc_buf d = []"
  shows "drain (feed (frame_bytes t p @ rest) d) =
    map_prod ((#) \<lparr>fr_frame_type = t, fr_payload = p\<rparr>) id (drain (feed rest d))"
  using try_one_garbage [OF assms(1,2) _ assms(3), of "[]" rest]
  by (simp add: drain.simps [of "feed (frame_bytes t p @ rest) d"] map_prod_def split: prod.split)

lemma drain_no_bytes: "dc_buf d = [] \<Longrightarrow> drain d = ([], d)"
  by (simp add: drain.simps try_one.simps try_step_def)

text \<open>C6: Frames encoded by \<^verbatim>\<open>encode_frame\<close> and sent one after the other, each preceded by garbage that
  contains no magic pair, are all decoded, in order and unchanged; nothing else is decoded, no error
  is counted, and exactly the garbage is counted as dropped.\<close>

theorem stream_roundtrip:
  assumes "\<forall>(g, t, p, w) \<in> set items. encode_frame t p = Inr w \<and> magic_free g" and "dc_buf d = []"
  shows "drain (feed (concat (map (\<lambda>(g, t, p, w). g @ w) items)) d) =
    (map (\<lambda>(g, t, p, w). \<lparr>fr_frame_type = t, fr_payload = p\<rparr>) items,
     d\<lparr>dc_bytes_dropped := dc_bytes_dropped d + (\<Sum>(g, t, p, w) \<leftarrow> items. length g)\<rparr>)"
  using assms
proof (induction items arbitrary: d)
  case Nil
  then show ?case by (simp add: drain.simps try_one.simps try_step_def)
next
  case (Cons x items)
  obtain g t p w where x: "x = (g, t, p, w)" by (cases x) auto
  have e: "t \<in> {1, 2}" "length p \<le> 64" "w = frame_bytes t p" and g: "magic_free g"
    using Cons.prems by (auto simp: x encode_frame_eq split: if_splits)
  note one = try_one_garbage [OF e(1,2) g Cons.prems(2)]
  show ?case
    using Cons.IH [of "skip_to (length g) d"] Cons.prems
    by (simp add: x e(3) drain.simps [of "feed _ d"] one skip_to_def add.assoc)
qed

theorem stream_roundtrip_witness:
  "\<exists>w. encode_frame 1 [7, 8] = Inr w \<and>
    fst (drain (feed ([0x55, 0, 0xAA, 0x55] @ w @ w) FrameDecoder)) =
      [\<lparr>fr_frame_type = 1, fr_payload = [7, 8]\<rparr>, \<lparr>fr_frame_type = 1, fr_payload = [7, 8]\<rparr>]"
  using stream_roundtrip [of "[([0x55, 0, 0xAA, 0x55], 1, [7, 8], frame_bytes 1 [7, 8]),
      ([], 1, [7, 8], frame_bytes 1 [7, 8])]" FrameDecoder]
  by (simp add: encode_frame_eq magic_free_def FrameDecoder_def less_Suc_eq numeral_3_eq_3)

section \<open>Corrupted frames\<close>

lemma crc16_one_byte: "b \<noteq> c \<Longrightarrow> crc16_ccitt (p @ b # q) \<noteq> crc16_ccitt (p @ c # q)"
  using crc_one_byte [of b c "0xFFFF" p q] by (simp add: crc16_ccitt_def)

lemma list_update_split: "k < length xs \<Longrightarrow> xs = take k xs @ xs ! k # drop (Suc k) xs"
  by (rule id_take_nth_drop)

lemma crc_after_update:
  assumes "k < length p" "b \<noteq> p ! k"
  shows "crc16_ccitt (h @ p[k := b]) \<noteq> crc16_ccitt (h @ p)"
proof -
  have "p[k := b] = take k p @ b # drop (Suc k) p" using assms by (simp add: upd_conv_take_nth_drop)
  moreover have "p = take k p @ p ! k # drop (Suc k) p" using assms by (simp add: id_take_nth_drop)
  ultimately show ?thesis
    using crc16_one_byte [OF assms(2), of "h @ take k p" "drop (Suc k) p"] by simp
qed

lemma le16_inject: "le16 a b = le16 c d \<longleftrightarrow> a = c \<and> b = d"
  using le_bytes_le_int [of "[a, b]"] le_bytes_le_int [of "[c, d]"]
  by (metis le16_le_int length_Cons list.inject)

lemma try_step_corrupted:
  assumes t: "t \<in> {1, 2}" "length p \<le> 64" and k: "5 \<le> k" "k < length p + 7"
    and b: "b \<noteq> frame_bytes t p ! k" and d: "dc_buf d = []"
  shows "try_step (feed ((frame_bytes t p)[k := b] @ rest) d) =
    (None, d\<lparr>dc_errors_crc := dc_errors_crc d + 1, dc_buf := drop 2 ((frame_bytes t p)[k := b]) @ rest\<rparr>)"
proof -
  let ?l = "of_nat (length p) :: byte" and ?h = "[word_of_int t, of_nat (length p), 0 :: byte]"
  let ?c = "crc16_ccitt (?h @ p)"
  let ?lo = "word_of_int (?c mod 256) :: byte" and ?hi = "word_of_int (?c div 256 mod 256) :: byte"
  have w: "frame_bytes t p = 0x55 # 0xAA # word_of_int t # ?l # 0 # p @ ?lo # ?hi # []"
    by (simp add: frame_bytes_def le_bytes_2)
  have "\<exists>p' c0 c1. (frame_bytes t p)[k := b] = 0x55 # 0xAA # word_of_int t # ?l # 0 # p' @ c0 # c1 # [] \<and>
    length p' = length p \<and> le16 c0 c1 \<noteq> crc16_ccitt (?h @ p')"
  proof (cases "k < 5 + length p")
    case True
    then obtain j where j: "k = 5 + j" "j < length p" using k by (metis add_less_cancel_left le_Suc_ex)
    have "b \<noteq> p ! j" using b j unfolding w by (simp add: nth_append)
    from crc_after_update [OF j(2) this, of ?h] show ?thesis
      using j frame_bytes_crc [of "?h @ p"] unfolding w
      by (intro exI [of _ "p[j := b]"] exI [of _ ?lo] exI [of _ ?hi])
        (simp add: list_update_append eval_nat_numeral del: append_Cons)
  next
    case False
    then have "k = 5 + length p \<or> k = 6 + length p" using k by linarith
    then show ?thesis
    proof
      assume k: "k = 5 + length p"
      then have "b \<noteq> ?lo" using b unfolding w by (simp add: nth_append)
      then have "le16 b ?hi \<noteq> ?c" using le16_inject frame_bytes_crc [of "?h @ p"] by metis
      then show ?thesis unfolding w k
        by (intro exI [of _ p] exI [of _ b] exI [of _ ?hi]) (simp add: list_update_append eval_nat_numeral)
    next
      assume k: "k = 6 + length p"
      then have "b \<noteq> ?hi" using b unfolding w by (simp add: nth_append)
      then have "le16 ?lo b \<noteq> ?c" using le16_inject frame_bytes_crc [of "?h @ p"] by metis
      then show ?thesis unfolding w k
        by (intro exI [of _ p] exI [of _ ?lo] exI [of _ b]) (simp add: list_update_append eval_nat_numeral)
    qed
  qed
  then obtain p' c0 c1 where u: "(frame_bytes t p)[k := b] = 0x55 # 0xAA # word_of_int t # ?l # 0 # p' @ c0 # c1 # []"
    and p': "length p' = length p" "le16 c0 c1 \<noteq> crc16_ccitt (?h @ p')" by blast
  let ?d = "feed ((frame_bytes t p)[k := b] @ rest) d"
  have buf: "dc_buf ?d = 0x55 # 0xAA # word_of_int t # ?l # 0 # p' @ c0 # c1 # rest"
    by (simp add: u d)
  have "aligned ?d" unfolding aligned_def buf by (rule find_magic_head)
  then have "try_step ?d = try_frame ?d" by (rule try_step_aligned)
  moreover have "try_frame ?d = (None, ?d\<lparr>dc_errors_crc := dc_errors_crc ?d + 1,
      dc_buf := word_of_int t # ?l # 0 # p' @ c0 # c1 # rest\<rparr>)"
  proof (rule try_frame_bad_crc [OF buf])
    show "int (length p') = le16 ?l 0" using t(2) p'(1) by (simp add: le16_le_int uint_nat unat_of_nat)
    show "uint (word_of_int t :: byte) \<in> {1, 2}" using t by auto
    show "length p' \<le> 64" using t(2) p'(1) by simp
    show "le16 c0 c1 \<noteq> crc16_ccitt (word_of_int t # ?l # 0 # p')" using p'(2) by simp
  qed
  ultimately show ?thesis by (simp add: u feed_def d)
qed

text \<open>C26: A frame of which one payload or CRC byte was altered costs only itself, if its bytes after the magic, as
  received, hold no further magic pair (nor end in the first byte of one) and the decoder's buffer was empty: it is not delivered, one CRC error is counted, the decoder
  resynchronises, counting the rest of the damaged frame as dropped, and delivers the next frame.  With a magic pair in the payload the decoder
  would take the bytes behind it for a header and could swallow the next frame or wait for more.\<close>

theorem corrupted_frame_skipped:
  assumes "encode_frame t p = Inr w" "5 \<le> k" "k < length w" "b \<noteq> w ! k"
    and "magic_free (drop 2 (w[k := b]))" and "encode_frame t' p' = Inr w'" "dc_buf d = []"
  shows "drain (feed (w[k := b] @ w') d) =
    ([\<lparr>fr_frame_type = t', fr_payload = p'\<rparr>],
     d\<lparr>dc_errors_crc := dc_errors_crc d + 1, dc_bytes_dropped := dc_bytes_dropped d + (length w - 2)\<rparr>)"
proof -
  have e: "t \<in> {1, 2}" "length p \<le> 64" "w = frame_bytes t p"
    and e2: "t' \<in> {1, 2}" "length p' \<le> 64" "w' = frame_bytes t' p'"
    using assms(1,6) by (auto simp: encode_frame_eq split: if_splits)
  let ?g = "drop 2 (w[k := b])" and ?d = "d\<lparr>dc_errors_crc := dc_errors_crc d + 1\<rparr>"
  have "try_step (feed (w[k := b] @ w') d) = (None, feed (?g @ frame_bytes t' p' @ []) ?d)"
    using try_step_corrupted [OF e(1,2) assms(2) _ _ assms(7), of b w'] assms(3,4,7)
    unfolding e(3) e2(3) by (simp add: feed_def)
  then have "try_one (feed (w[k := b] @ w') d) = try_one (feed (?g @ frame_bytes t' p' @ []) ?d)"
    by (simp add: try_one.simps [of "feed (w[k := b] @ w') d"])
  also have "\<dots> = (Some \<lparr>fr_frame_type = t', fr_payload = p'\<rparr>, feed [] (skip_to (length ?g) ?d))"
    by (rule try_one_garbage [OF e2(1,2) assms(5)]) (simp add: assms(7))
  moreover have "drain (skip_to (length ?g) ?d) = ([], skip_to (length ?g) ?d)"
    by (simp add: drain.simps try_one.simps try_step_def skip_to_def assms(7))
  ultimately show ?thesis
    by (simp add: drain.simps [of "feed _ d"] skip_to_def assms(7))
qed

theorem corrupted_frame_skipped_witness:
  "drain (feed ((frame_bytes 2 [1, 2, 3, 4])[7 := 0xFC] @ frame_bytes 1 [9]) FrameDecoder) =
    ([\<lparr>fr_frame_type = 1, fr_payload = [9]\<rparr>], FrameDecoder\<lparr>dc_errors_crc := 1, dc_bytes_dropped := 9\<rparr>)"
proof -
  have f: "frame_bytes 2 [1, 2, 3, 4] = [0x55, 0xAA, 2, 4, 0, 1, 2, 3, 4, 0x8F, 0x9A]"
    by code_simp
  have u: "(frame_bytes 2 [1, 2, 3, 4])[7 := 0xFC] = [0x55, 0xAA, 2, 4, 0, 1, 2, 0xFC, 4, 0x8F, 0x9A]"
    unfolding f by code_simp
  have n: "(0xFC :: byte) \<noteq> frame_bytes 2 [1, 2, 3, 4] ! 7"
    unfolding f by code_simp
  have m: "magic_free (drop 2 ((frame_bytes 2 [1, 2, 3, 4])[7 := 0xFC]))" unfolding u by simp
  show ?thesis
    using corrupted_frame_skipped [OF _ _ _ n m, of 2 "[1, 2, 3, 4]" 1 "[9]" "frame_bytes 1 [9]" FrameDecoder]
    by (simp add: encode_frame_eq FrameDecoder_def)
qed

end
