(* ===== verification/Decoder_Accounting.thy ===== *)
theory Decoder_Accounting
  imports Stream_Decoding
begin

unbundle bit_operations_syntax

text \<open>
  Bookkeeping of \<^verbatim>\<open>FrameDecoder\<close>: every byte fed is in a delivered frame, in the buffer, counted as
  dropped, or one of the two magic bytes of a counted error; whatever is delivered was on the wire
  as a well-formed frame; the buffer is bounded; and the depth of the recursion of \<^verbatim>\<open>_try_one\<close>,
  with what it means for streams that are cut into chunks.
\<close>

section \<open>One activation of \<open>_try_one\<close>\<close>

definition errors :: "decoder \<Rightarrow> nat" where
  "errors d = dc_errors_crc d + dc_errors_size d + dc_errors_type d"

definition skipped :: "decoder \<Rightarrow> nat" where
  "skipped d = dc_bytes_dropped d + 2 * errors d"

definition frame_wire :: "decoded_frame \<Rightarrow> bytes" where
  "frame_wire f = frame_bytes (fr_frame_type f) (fr_payload f)"

definition frame_ok :: "decoded_frame \<Rightarrow> bool" where
  "frame_ok f \<longleftrightarrow> fr_frame_type f \<in> {1, 2} \<and> length (fr_payload f) \<le> 64"

lemma skipped_skip_to [simp]: "skipped (skip_to i d) = skipped d + i"
  by (simp add: skipped_def errors_def skip_to_def)

lemma le16_small: "le16 l0 l1 < 256 \<Longrightarrow> [l0, l1] = [of_nat (nat (le16 l0 l1)), 0]"
proof -
  assume l: "le16 l0 l1 < 256"
  have e: "le16 l0 l1 = uint l0 + 256 * uint l1" by (simp add: le16_le_int)
  with l have "uint l1 = 0" by (smt (verit) uint_ge_0)
  then have "l1 = 0" "le16 l0 l1 = uint l0" using e by (simp_all add: uint_0_iff)
  then show ?thesis by simp
qed

lemma list_7_split:
  assumes "n + 7 \<le> length b"
  obtains x y t l0 l1 p c0 c1 rest where "b = x # y # t # l0 # l1 # p @ c0 # c1 # rest" "length p = n"
proof -
  obtain b1 where b: "b = b ! 0 # b ! 1 # b ! 2 # b ! 3 # b ! 4 # b1" "n + 2 \<le> length b1"
  proof (rule that [of "drop 5 b"])
    show "b = b ! 0 # b ! 1 # b ! 2 # b ! 3 # b ! 4 # drop 5 b"
    proof -
      have d: "drop i b = b ! i # drop (Suc i) b" if "i < 7" for i
        using assms that by (simp add: Cons_nth_drop_Suc)
      have "b = drop 0 b" by simp
      then show ?thesis using d [of 0] d [of 1] d [of 2] d [of 3] d [of 4]
        by (simp add: eval_nat_numeral)
    qed
  qed (use assms in simp)
  then obtain c0 c1 rest where "drop n b1 = c0 # c1 # rest"
    using length_drop [of n b1] by (cases "drop n b1"; cases "tl (drop n b1)") auto
  then have "b1 = take n b1 @ c0 # c1 # rest" by (metis append_take_drop_id)
  with b that [of "b ! 0" "b ! 1" "b ! 2" "b ! 3" "b ! 4" "take n b1" c0 c1 rest] show thesis by simp
qed

lemma try_frame_effect:
  assumes "aligned d" "try_frame d = (r, d')"
  shows "case r of
      None \<Rightarrow> dc_buf d' = drop 2 (dc_buf d) \<and> skipped d' = skipped d + 2
    | Some None \<Rightarrow> d' = d \<and> length (dc_buf d) < 71
    | Some (Some f) \<Rightarrow> dc_buf d = frame_wire f @ dc_buf d' \<and> frame_ok f \<and> skipped d' = skipped d"
proof (cases r)
  case None
  with assms(2) show ?thesis
    by (auto simp: try_frame_def Let_def skipped_def errors_def split: if_splits)
next
  case (Some r')
  show ?thesis
  proof (cases r')
    case None
    then show ?thesis
      using Some assms(2) by (auto simp: try_frame_def Let_def protocol_consts split: if_splits)
  next
    case f: (Some f)
    define b where "b = dc_buf d"
    define n where "n = nat (le16 (b ! 3) (b ! 4))"
    have l: "n + 7 \<le> length b" "n \<le> 64"
      using assms(2) Some f unfolding try_frame_def Let_def b_def [symmetric] n_def [symmetric]
      by (auto simp: protocol_consts split: if_splits)
    obtain x y t l0 l1 p c0 c1 rest
      where b: "b = x # y # t # l0 # l1 # p @ c0 # c1 # rest" "length p = n"
      using list_7_split [OF l(1)] by blast
    have n: "n = nat (le16 l0 l1)" by (simp add: n_def b(1))
    have nn: "0 \<le> le16 l0 l1" by (simp add: le16_le_int)
    have t: "uint t \<in> {1, 2}"
      using assms(2) Some f unfolding try_frame_def Let_def b_def [symmetric]
      by (auto simp: protocol_consts b(1) split: if_splits)
    have "try_frame d = (if le16 c0 c1 \<noteq> crc16_ccitt (t # l0 # l1 # p)
      then (None, d\<lparr>dc_errors_crc := dc_errors_crc d + 1, dc_buf := t # l0 # l1 # p @ c0 # c1 # rest\<rparr>)
      else (Some (Some \<lparr>fr_frame_type = uint t, fr_payload = p\<rparr>), d\<lparr>dc_buf := rest\<rparr>))"
      using b l n nn t by (intro try_frame_whole [OF b(1) [unfolded b_def]]) simp_all
    then have c: "le16 c0 c1 = crc16_ccitt (t # l0 # l1 # p)"
      and f': "f = \<lparr>fr_frame_type = uint t, fr_payload = p\<rparr>" "d' = d\<lparr>dc_buf := rest\<rparr>"
      using assms(2) Some f by (auto split: if_splits)
    have xy: "x = 0x55" "y = 0xAA"
      using find_magic_Some [of 0 "dc_buf d" 0] assms(1) b(1)
      by (simp_all add: aligned_def b_def [symmetric])
    have l01: "l0 = of_nat (length p)" "l1 = 0"
      using le16_small [of l0 l1] l(2) n nn b(2) by auto
    have "[c0, c1] = le_bytes 2 (le16 c0 c1)"
      using le_bytes_le_int [of "[c0, c1]"] by (simp only: le16_le_int) (simp add: numeral_2_eq_2)
    note this [unfolded c]
    then have "b = frame_wire f @ rest"
      unfolding b(1) f' frame_wire_def frame_bytes_def xy l01 by simp
    then show ?thesis
      using Some f f' t l b by (simp add: b_def frame_ok_def skipped_def errors_def)
  qed
qed

lemma try_step_effect:
  assumes "try_step d = (r, d')"
  shows "case r of
      None \<Rightarrow> \<exists>g. dc_buf d = g @ dc_buf d' \<and> skipped d' = skipped d + length g
    | Some r' \<Rightarrow> \<exists>g. dc_buf d = g @ (case r' of None \<Rightarrow> [] | Some f \<Rightarrow> frame_wire f) @ dc_buf d' \<and>
        skipped d' = skipped d + length g \<and> (\<forall>f. r' = Some f \<longrightarrow> frame_ok f) \<and>
        (r' = None \<longrightarrow> length (dc_buf d') < 71)"
proof (cases "find_magic 0 (dc_buf d)")
  case None
  with assms have r: "r = Some None" "d' = skip_to (length (dc_buf d) - 1) d"
    by (simp_all add: try_step_alt)
  show ?thesis
    unfolding r
    by (simp, intro exI [of _ "take (length (dc_buf d) - 1) (dc_buf d)"]) simp
next
  case (Some i)
  have t: "try_frame (skip_to i d) = (r, d')" using assms Some by (simp add: try_step_alt)
  have a: "aligned (skip_to i d)" "i + 2 \<le> length (dc_buf d)" using aligned_skip [OF Some] by simp_all
  note e = try_frame_effect [OF a(1) t]
  show ?thesis
  proof (cases r)
    case None
    with e a(2) show ?thesis
      by (simp, intro exI [of _ "take (i + 2) (dc_buf d)"]) (simp add: add.commute)
  next
    case (Some r')
    obtain g where g: "g @ drop i (dc_buf d) = dc_buf d" "length g = i"
      using a(2) by (metis append_take_drop_id add_leE length_take min.absorb2)
    show ?thesis
    proof (cases r')
      case None
      with e a(2) Some show ?thesis by (simp, intro exI [of _ "take i (dc_buf d)"]) simp
    next
      case f: (Some f)
      with e Some have "drop i (dc_buf d) = frame_wire f @ dc_buf d'" "frame_ok f" "skipped d' = skipped d + i"
        by simp_all
      with g Some f show ?thesis by (simp, intro exI [of _ g]) simp
    qed
  qed
qed

lemma try_one_effect:
  "try_one d = (r, d') \<Longrightarrow> \<exists>g. dc_buf d = g @ (case r of None \<Rightarrow> [] | Some f \<Rightarrow> frame_wire f) @ dc_buf d' \<and>
    skipped d' = skipped d + length g \<and> (\<forall>f. r = Some f \<longrightarrow> frame_ok f) \<and>
    (r = None \<longrightarrow> length (dc_buf d') < 71)"
proof (induction d rule: try_one.induct)
  case (1 d)
  obtain q d1 where s: "try_step d = (q, d1)" by force
  note e = try_step_effect [OF s]
  show ?case
  proof (cases q)
    case None
    with 1(2) s have "try_one d1 = (r, d')" by (simp add: try_one.simps [of d])
    from 1(1) [OF s [symmetric] None this] obtain g where
      g: "dc_buf d1 = g @ (case r of None \<Rightarrow> [] | Some f \<Rightarrow> frame_wire f) @ dc_buf d'"
        "skipped d' = skipped d1 + length g" "\<forall>f. r = Some f \<longrightarrow> frame_ok f"
        "r = None \<longrightarrow> length (dc_buf d') < 71" by blast
    obtain h where "dc_buf d = h @ dc_buf d1" "skipped d1 = skipped d + length h" using e None by auto
    with g show ?thesis by (intro exI [of _ "h @ g"]) simp
  next
    case (Some q')
    with 1(2) s have "q' = r" "d1 = d'" by (simp_all add: try_one.simps [of d])
    with e Some show ?thesis by simp
  qed
qed

lemma drain_leftover:
  "drain d = (fs, d') \<Longrightarrow> length (dc_buf d') < 71"
proof (induction d arbitrary: fs rule: drain.induct)
  case (1 d)
  obtain r d1 where s: "try_one d = (r, d1)" by force
  with 1 try_one_effect [OF s] show ?case
    by (cases r) (auto simp: drain.simps [of d] split: prod.splits)
qed

text \<open>The buffer is bounded: after a drain at most 70 bytes wait for more input, whatever was fed.\<close>

theorem drain_bounded: "length (dc_buf (snd (drain d))) \<le> 70"
  using drain_leftover [of d "fst (drain d)" "snd (drain d)"] by simp

text \<open>C27: Nothing is invented or lost: the bytes in the buffer are, in order, skipped bytes and the
  wire form of the delivered frames, then what stays in the buffer; every delivered frame has a known
  type and a payload of at most 64 bytes, and every skipped byte is in \<open>bytes_dropped\<close> or is one of
  the two magic bytes of a counted error.\<close>

theorem drain_accounts:
  "drain d = (fs, d') \<Longrightarrow> \<exists>items rest. fs = map snd items \<and>
    dc_buf d = concat (map (\<lambda>(g, f). g @ frame_bytes (fr_frame_type f) (fr_payload f)) items) @ rest @ dc_buf d' \<and>
    (\<forall>f \<in> set fs. fr_frame_type f \<in> {1, 2} \<and> length (fr_payload f) \<le> 64) \<and>
    dc_bytes_dropped d' + 2 * errors d' =
      dc_bytes_dropped d + 2 * errors d + (\<Sum>(g, f) \<leftarrow> items. length g) + length rest"
proof (induction d arbitrary: fs rule: drain.induct)
  case (1 d)
  obtain r d1 where s: "try_one d = (r, d1)" by force
  obtain g where g: "dc_buf d = g @ (case r of None \<Rightarrow> [] | Some f \<Rightarrow> frame_wire f) @ dc_buf d1"
    "skipped d1 = skipped d + length g" "\<forall>f. r = Some f \<longrightarrow> frame_ok f" using try_one_effect [OF s] by blast
  show ?case
  proof (cases r)
    case None
    with 1(2) s g show ?thesis
      by (intro exI [of _ "[]"] exI [of _ g]) (simp add: drain.simps [of d] skipped_def)
  next
    case (Some f)
    with 1(2) s obtain out where out: "drain d1 = (out, d')" "fs = f # out"
      by (auto simp: drain.simps [of d] split: prod.splits)
    from 1(1) [OF s [symmetric] Some out(1)] obtain items rest where
      i: "out = map snd items"
        "dc_buf d1 = concat (map (\<lambda>(g, f). g @ frame_bytes (fr_frame_type f) (fr_payload f)) items) @ rest @ dc_buf d'"
        "\<forall>f \<in> set out. fr_frame_type f \<in> {1, 2} \<and> length (fr_payload f) \<le> 64"
        "dc_bytes_dropped d' + 2 * errors d' =
          dc_bytes_dropped d1 + 2 * errors d1 + (\<Sum>(g, f) \<leftarrow> items. length g) + length rest" by blast
    with g Some out show ?thesis
      by (intro exI [of _ "(g, f) # items"] exI [of _ rest])
        (simp add: frame_wire_def frame_ok_def skipped_def)
  qed
qed

theorem drain_accounts_witness:
  "\<exists>items rest. fst (drain (feed [1, 2, 3] FrameDecoder)) = map snd items \<and>
    [1, 2, 3] = concat (map (\<lambda>(g, f). g @ frame_bytes (fr_frame_type f) (fr_payload f)) items) @ rest @
      dc_buf (snd (drain (feed [1, 2, 3] FrameDecoder)))"
  using drain_accounts [of "feed [1, 2, 3] FrameDecoder" "fst (drain (feed [1, 2, 3] FrameDecoder))"
      "snd (drain (feed [1, 2, 3] FrameDecoder))"]
  by (auto simp: FrameDecoder_def)

section \<open>The depth of the recursion\<close>

lemma try_one_stack_enough:
  "length (dc_buf d) < 2 * n \<Longrightarrow> try_one_stack n d = map_prod Inr id (try_one d)"
proof (induction n arbitrary: d)
  case (Suc n)
  obtain r d1 where s: "try_step d = (r, d1)" by force
  show ?case
  proof (cases r)
    case None
    with try_step_length [OF s] Suc.prems have "length (dc_buf d1) < 2 * n" by simp
    from Suc.IH [OF this] show ?thesis by (simp add: s None try_one.simps [of d])
  qed (simp add: s try_one.simps [of d])
qed simp

text \<open>\<^verbatim>\<open>drain\<close> with \<open>n\<close> stack frames left below it: an exception of \<^verbatim>\<open>_try_one\<close> ends it, and the frames
  collected so far are lost.  (The frame that \<^verbatim>\<open>crc16_ccitt\<close> needs for a moment is not counted.)\<close>

lemma try_one_stack_Inr: "try_one_stack n d = (Inr r, d') \<Longrightarrow> try_one d = (r, d')"
proof (induction n d rule: try_one_stack.induct)
  case (2 n d)
  obtain q d1 where "try_step d = (q, d1)" by force
  with 2 show ?case by (cases q) (simp_all add: try_one.simps [of d])
qed simp

function drain_stack :: "nat \<Rightarrow> decoder \<Rightarrow> decoded_frame list py \<times> decoder" where
  "drain_stack n d = (case try_one_stack n d of
     (Inl e, d') \<Rightarrow> (Inl e, d')
   | (Inr None, d') \<Rightarrow> (Inr [], d')
   | (Inr (Some frame), d') \<Rightarrow> (case drain_stack n d' of
       (Inl e, d'') \<Rightarrow> (Inl e, d'')
     | (Inr out, d'') \<Rightarrow> (Inr (frame # out), d'')))"
  by pat_completeness auto
termination
  by (relation "measure (\<lambda>(n, d). length (dc_buf d))")
    (auto dest!: sym [of "(Inr (Some _), _)"] try_one_stack_Inr try_one_length)

declare drain_stack.simps [simp del]

text \<open>Reading a stream chunk by chunk.\<close>

fun run_chunks_stack :: "nat \<Rightarrow> bytes list \<Rightarrow> decoder \<Rightarrow> decoded_frame list py \<times> decoder" where
  "run_chunks_stack n [] d = (Inr [], d)"
| "run_chunks_stack n (c # cs) d = (case drain_stack n (feed c d) of
     (Inl e, d') \<Rightarrow> (Inl e, d')
   | (Inr fs, d') \<Rightarrow> (case run_chunks_stack n cs d' of
       (Inl e, d'') \<Rightarrow> (Inl e, d'')
     | (Inr fs', d'') \<Rightarrow> (Inr (fs @ fs'), d'')))"

lemma try_one_stack_more: "try_one_stack n d = (Inr r, d') \<Longrightarrow> n \<le> m \<Longrightarrow> try_one_stack m d = (Inr r, d')"
proof (induction n d arbitrary: m rule: try_one_stack.induct)
  case (2 n d)
  obtain k where m: "m = Suc k" using 2(3) by (cases m) auto
  obtain q d1 where s: "try_step d = (q, d1)" by force
  show ?case
  proof (cases q)
    case None
    then have "try_one_stack n d1 = (Inr r, d')" "n \<le> k" using 2(2,3) s m by simp_all
    from 2(1) [OF s [symmetric] None this] show ?thesis using s None by (simp add: m)
  qed (use 2(2) s m in simp)
qed simp

text \<open>Bytes that come later do not deepen the recursion on those that are there.\<close>

lemma try_one_stack_feed:
  "try_one_stack n (feed ys d) = (Inr r, e) \<Longrightarrow> \<exists>r' d'. try_one_stack n d = (Inr r', d') \<and>
    (if r' = None then try_one_stack n (feed ys d') = (Inr r, e) else r = r' \<and> e = feed ys d')"
proof (induction n d rule: try_one_stack.induct)
  case (2 n d)
  obtain q d1 where s: "try_step d = (q, d1)" by force
  note f = try_step_feed [OF s, of ys]
  show ?case
  proof (cases q)
    case None
    then have "try_one_stack n (feed ys d1) = (Inr r, e)" using 2(2) f by simp
    from 2(1) [OF s [symmetric] None this] obtain r' d' where i: "try_one_stack n d1 = (Inr r', d')"
      "if r' = None then try_one_stack n (feed ys d') = (Inr r, e) else r = r' \<and> e = feed ys d'" by blast
    have "try_one_stack (Suc n) (feed ys d') = (Inr r, e)" if "r' = None"
      using i(2) that try_one_stack_more [of n "feed ys d'" r e "Suc n"] by simp
    then show ?thesis using i s None by (intro exI [of _ r'] exI [of _ d']) auto
  next
    case (Some r')
    then show ?thesis using 2(2) f s
      by (cases r') (auto intro!: exI [of _ r'] exI [of _ d1])
  qed
qed simp

lemma drain_stack_feed:
  "drain_stack n (feed ys d) = (Inr all, e) \<Longrightarrow> \<exists>fs d' fs'. drain_stack n d = (Inr fs, d') \<and>
    drain_stack n (feed ys d') = (Inr fs', e) \<and> all = fs @ fs'"
proof (induction n d arbitrary: all rule: drain_stack.induct)
  case (1 n d)
  obtain m e1 where m: "try_one_stack n (feed ys d) = (Inr m, e1)"
    using 1(2) by (auto simp: drain_stack.simps [of n "feed ys d"] split: prod.splits sum.splits)
  from try_one_stack_feed [OF this] obtain r' d1 where r: "try_one_stack n d = (Inr r', d1)"
    "if r' = None then try_one_stack n (feed ys d1) = (Inr m, e1) else m = r' \<and> e1 = feed ys d1" by blast
  show ?case
  proof (cases r')
    case None
    then have "drain_stack n (feed ys d1) = drain_stack n (feed ys d)" using r(2) m by (simp add: drain_stack.simps)
    then show ?thesis using r(1) None 1(2) by (simp add: drain_stack.simps [of n d])
  next
    case (Some f)
    then have "m = Some f" "e1 = feed ys d1" using r(2) by simp_all
    then obtain out where out: "drain_stack n (feed ys d1) = (Inr out, e)" "all = f # out"
      using 1(2) m by (auto simp: drain_stack.simps [of n "feed ys d"] split: prod.splits sum.splits)
    from 1(1) [OF r(1) [symmetric] refl Some out(1)] obtain fs d' fs' where
      "drain_stack n d1 = (Inr fs, d')" "drain_stack n (feed ys d') = (Inr fs', e)" "out = fs @ fs'" by blast
    then show ?thesis using r(1) Some out(2)
      by (intro exI [of _ "f # fs"] exI [of _ d'] exI [of _ fs']) (simp add: drain_stack.simps [of n d])
  qed
qed

lemma run_chunks_stack_feed:
  "drain_stack n (feed (concat cs) d) = (Inr all, e) \<Longrightarrow> \<exists>fs d' fs'. drain_stack n d = (Inr fs, d') \<and>
    run_chunks_stack n cs d' = (Inr fs', e) \<and> all = fs @ fs'"
proof (induction cs arbitrary: d all)
  case (Cons c cs)
  have "drain_stack n (feed (concat cs) (feed c d)) = (Inr all, e)" using Cons.prems by (simp add: feed_feed)
  from Cons.IH [OF this] obtain fs1 d1 fs2 where 1: "drain_stack n (feed c d) = (Inr fs1, d1)"
    "run_chunks_stack n cs d1 = (Inr fs2, e)" "all = fs1 @ fs2" by blast
  from drain_stack_feed [OF 1(1)] obtain fs d' fs' where "drain_stack n d = (Inr fs, d')"
    "drain_stack n (feed c d') = (Inr fs', d1)" "fs1 = fs @ fs'" by blast
  then show ?case using 1 by auto
qed simp

text \<open>With enough stack for the buffer, \<open>drain_stack\<close> is \<open>drain\<close>; read in small chunks the buffer stays small.\<close>

lemma drain_stack_enough:
  "length (dc_buf d) < 2 * n \<Longrightarrow> drain_stack n d = map_prod Inr id (drain d)"
proof (induction d rule: drain.induct)
  case (1 d)
  obtain r d1 where s: "try_one d = (r, d1)" by force
  have t: "try_one_stack n d = (Inr r, d1)" using try_one_stack_enough [OF 1(2)] s by simp
  show ?case
  proof (cases r)
    case (Some f)
    then have "length (dc_buf d1) < 2 * n" using try_one_length [of d f d1] s 1(2) by simp
    from 1(1) [OF s [symmetric] Some this] show ?thesis
      using s t Some by (cases "drain d1") (simp add: drain_stack.simps [of n d] drain.simps [of d])
  qed (simp add: s t drain_stack.simps [of n d] drain.simps [of d])
qed

lemma run_chunks_stack_enough:
  "\<forall>c \<in> set cs. length c + 70 < 2 * n \<Longrightarrow> length (dc_buf d) \<le> 70 \<Longrightarrow>
    run_chunks_stack n cs d = map_prod Inr id (run_chunks cs d)"
proof (induction cs arbitrary: d)
  case (Cons c cs)
  obtain fs d1 where f: "drain (feed c d) = (fs, d1)" by force
  have "length (dc_buf (feed c d)) < 2 * n" using Cons.prems by simp
  from drain_stack_enough [OF this] have s: "drain_stack n (feed c d) = (Inr fs, d1)" by (simp add: f)
  have "\<forall>c \<in> set cs. length c + 70 < 2 * n" "length (dc_buf d1) \<le> 70"
    using drain_leftover [OF f] Cons.prems(1) by simp_all
  note Cons.IH [OF this]
  moreover obtain fs' e where "run_chunks cs d1 = (fs', e)" by force
  ultimately show ?case using f s by simp
qed simp

text \<open>C17: The cuts of a stream do not matter, as far as Python's stack lets the decoder run: if feeding the whole
  stream at once and draining it does not exceed \<open>n\<close> levels of recursion, then feeding it chunk by chunk, draining after
  each, does not either and gives the same frames, counters and buffer.  And in chunks of at most \<open>2 n - 71\<close> bytes
  (256, as \<^verbatim>\<open>recv_actuator\<close> reads, with 164 levels) it never does, whatever the stream holds.\<close>

theorem chunking_irrelevant:
  "(drain_stack n (feed (concat cs) d) = (Inr all, d') \<longrightarrow>
     (\<exists>fs d0 fs'. drain_stack n d = (Inr fs, d0) \<and> run_chunks_stack n cs d0 = (Inr fs', d') \<and> all = fs @ fs')) \<and>
   (length (dc_buf d) \<le> 70 \<and> (\<forall>c \<in> set cs. length c + 70 < 2 * n) \<longrightarrow>
     run_chunks_stack n cs d = map_prod Inr id (run_chunks cs d))"
  using run_chunks_stack_feed [of n cs d all d'] run_chunks_stack_enough [of cs n d] by blast

theorem chunking_irrelevant_witness:
  "run_chunks_stack 5 [[0x55], [0xAA, 9, 0], [0, 1, 2, 3]] FrameDecoder =
     drain_stack 5 (feed [0x55, 0xAA, 9, 0, 0, 1, 2, 3] FrameDecoder)"
proof -
  have d: "drain_stack 5 FrameDecoder = (Inr [], FrameDecoder)"
    using drain_stack_enough [of FrameDecoder 5] drain_no_bytes [of FrameDecoder] by (simp add: FrameDecoder_def)
  obtain fs e where "drain (feed [0x55, 0xAA, 9, 0, 0, 1, 2, 3] FrameDecoder) = (fs, e)" by force
  then have w: "drain_stack 5 (feed [0x55, 0xAA, 9, 0, 0, 1, 2, 3] FrameDecoder) = (Inr fs, e)"
    using drain_stack_enough [of "feed [0x55, 0xAA, 9, 0, 0, 1, 2, 3] FrameDecoder" 5] by (simp add: FrameDecoder_def)
  have "concat [[0x55], [0xAA, 9, 0], [0, 1, 2, 3]] = [0x55, 0xAA, 9, 0, 0, 1, 2, 3 :: byte]" by simp
  then show ?thesis
    using chunking_irrelevant [of 5 "[[0x55], [0xAA, 9, 0], [0, 1, 2, 3]]" FrameDecoder fs e] d w by auto
qed

fun magic_flood :: "nat \<Rightarrow> bytes" where
  "magic_flood 0 = []"
| "magic_flood (Suc k) = 0x55 # 0xAA # magic_flood k"

lemma try_step_flood:
  assumes "dc_buf d = magic_flood (k + 4)"
  shows "try_step d = (None, d\<lparr>dc_errors_size := dc_errors_size d + 1, dc_buf := magic_flood (k + 3)\<rparr>)"
proof -
  have f: "magic_flood (k + 4) = 0x55 # 0xAA # 0x55 # 0xAA # 0x55 # 0xAA # 0x55 # 0xAA # magic_flood k"
    "magic_flood (k + 3) = 0x55 # 0xAA # 0x55 # 0xAA # 0x55 # 0xAA # magic_flood k"
    by (simp_all add: eval_nat_numeral)
  have "aligned d" unfolding aligned_def assms f by (rule find_magic_head)
  then have "try_step d = try_frame d" by (rule try_step_aligned)
  then show ?thesis
    by (simp add: try_frame_def Let_def assms f protocol_consts le16_le_int)
qed

text \<open>The recursion of \<^verbatim>\<open>_try_one\<close> is as deep as the input has bad magics: with \<open>n\<close> Python frames
  left it never raises on fewer than \<open>2 n\<close> buffered bytes (so never on what a drained decoder
  holds and one 256-byte read, with 164 frames), but a stream of \<open>k \<ge> n + 3\<close> magic pairs fed at
  once raises RecursionError, where the documentation promises chunks of any size.\<close>

theorem recursion_depth:
  "(length (dc_buf d) < 2 * n \<longrightarrow> try_one_stack n d = map_prod Inr id (try_one d)) \<and>
   (length chunk \<le> 256 \<longrightarrow> returns (fst (try_one_stack 164 (feed chunk (snd (drain d)))))) \<and>
   (dc_buf e = magic_flood k \<and> n + 3 \<le> k \<longrightarrow> fst (try_one_stack n e) = Inl RecursionError)"
proof (intro conjI impI)
  show "length (dc_buf d) < 2 * n \<Longrightarrow> try_one_stack n d = map_prod Inr id (try_one d)"
    by (rule try_one_stack_enough)
  assume "length chunk \<le> 256"
  then have "length (dc_buf (feed chunk (snd (drain d)))) < 2 * 164"
    using drain_leftover [of d "fst (drain d)" "snd (drain d)"] by simp
  from try_one_stack_enough [OF this] show "returns (fst (try_one_stack 164 (feed chunk (snd (drain d)))))"
    by (cases "try_one (feed chunk (snd (drain d)))") (simp add: returns_def)
next
  assume "dc_buf e = magic_flood k \<and> n + 3 \<le> k"
  then show "fst (try_one_stack n e) = Inl RecursionError"
  proof (induction n arbitrary: k e)
    case (Suc n)
    then have "4 \<le> k" by simp
    then have j: "k = (k - 4) + 4" by simp
    then obtain j where j: "k = j + 4" by blast
    have "try_step e = (None, e\<lparr>dc_errors_size := dc_errors_size e + 1, dc_buf := magic_flood (j + 3)\<rparr>)"
      using Suc.prems by (intro try_step_flood) (simp add: j)
    with Suc.IH [of "e\<lparr>dc_errors_size := dc_errors_size e + 1, dc_buf := magic_flood (j + 3)\<rparr>" "j + 3"] Suc.prems
    show ?case by (simp add: j)
  qed simp
qed

theorem recursion_depth_witness:
  "fst (try_one_stack 1000 (feed (magic_flood 1003) FrameDecoder)) = Inl RecursionError"
  using recursion_depth [of FrameDecoder 1000 "[]" "feed (magic_flood 1003) FrameDecoder" 1003]
  by (simp add: FrameDecoder_def del: magic_flood.simps)

end
