(* ===== verification/Tire.thy ===== *)
theory Tire
  imports Floats
begin

text \<open>
  \<^verbatim>\<open>plant/tire.py\<close>: the simplified Pacejka tire, its surface presets and the slip ratio.

  \<open>math.sin\<close> and \<open>math.atan\<close> are the platform's C library: their results are implementation
  defined, so they are a parameter \<open>libm\<close> of the model.  What Python adds to them (\<open>math.sin\<close>
  raises on an infinite argument) is modelled; \<open>libm_ok\<close> states the documented ranges the code
  relies on, and \<open>bhaskara\<close> is an executable instance of it.
\<close>

section \<open>The C library's sine and arctangent\<close>

record libm =
  lm_sin :: "pyfloat \<Rightarrow> pyfloat"
  lm_atan :: "pyfloat \<Rightarrow> pyfloat"

definition math_sin :: "libm \<Rightarrow> pyfloat \<Rightarrow> pyfloat py" where
  "math_sin lm x = (case x of Infin _ \<Rightarrow> Inl ValueError | _ \<Rightarrow> Inr (lm_sin lm x))"

definition math_atan :: "libm \<Rightarrow> pyfloat \<Rightarrow> pyfloat py" where
  "math_atan lm x = Inr (lm_atan lm x)"

text \<open>
  The ranges that the documentation of the two functions promises: the results are doubles,
  zeros are mapped to themselves, \<open>atan\<close> maps nonnegative arguments into \<open>[0, pi/2]\<close>, and \<open>sin\<close> is in \<open>[0, 1]\<close> on
  \<open>[0, 3]\<close>, which lies inside \<open>[0, pi]\<close>.
\<close>

definition libm_ok :: "libm \<Rightarrow> bool" where
  "libm_ok lm \<longleftrightarrow>
     (\<forall>x. pyf x \<longrightarrow> pyf (lm_sin lm x) \<and> pyf (lm_atan lm x)) \<and>
     (\<forall>x. fwithin 0 (fval x) x \<longrightarrow> fwithin 0 (1571/1000) (lm_atan lm x)) \<and>
     (\<forall>x. fwithin 0 3 x \<longrightarrow> fwithin 0 1 (lm_sin lm x)) \<and>
     (\<forall>x. fzero x \<longrightarrow> lm_sin lm x = x \<and> lm_atan lm x = x)"

section \<open>Surfaces\<close>

record tire_params =
  tpB :: pyfloat
  tpC :: pyfloat
  tpD :: pyfloat

definition SURFACES :: "(string \<times> tire_params) list" where
  "SURFACES =
    [(''dry_asphalt'', \<lparr>tpB = flit 10 1, tpC = flit 165 100, tpD = flit 1 1\<rparr>),
     (''wet_asphalt'', \<lparr>tpB = flit 12 1, tpC = flit 165 100, tpD = flit 7 10\<rparr>),
     (''packed_snow'', \<lparr>tpB = flit 5 1, tpC = flit 165 100, tpD = flit 3 10\<rparr>),
     (''ice'', \<lparr>tpB = flit 4 1, tpC = flit 165 100, tpD = flit 1 10\<rparr>)]"

section \<open>The tire\<close>

record pacejka_tire =
  t_surface :: string
  t_params :: tire_params

definition PacejkaTire :: "string \<Rightarrow> pacejka_tire py" where
  "PacejkaTire surface = (case map_of SURFACES surface of
     None \<Rightarrow> Inl ValueError
   | Some p \<Rightarrow> Inr \<lparr>t_surface = surface, t_params = p\<rparr>)"

definition set_surface :: "pacejka_tire \<Rightarrow> string \<Rightarrow> pacejka_tire py" where
  "set_surface t surface = (case map_of SURFACES surface of
     None \<Rightarrow> Inl ValueError
   | Some p \<Rightarrow> Inr (t\<lparr>t_surface := surface, t_params := p\<rparr>))"

definition tire_mu :: "libm \<Rightarrow> pacejka_tire \<Rightarrow> pyfloat \<Rightarrow> pyfloat py" where
  "tire_mu lm t slip = (let p = t_params t in
     py_bind (math_atan lm (fmul (tpB p) slip)) (\<lambda>a.
     py_bind (math_sin lm (fmul (tpC p) a)) (\<lambda>sn.
     Inr (fmul (tpD p) sn))))"

text \<open>The sampling loop of \<open>peak_slip\<close>, over the sample numbers that are left.\<close>

fun peak_loop :: "libm \<Rightarrow> pacejka_tire \<Rightarrow> int \<Rightarrow> int list \<Rightarrow> pyfloat \<Rightarrow> pyfloat \<Rightarrow> pyfloat py" where
  "peak_loop lm t res [] best_s best_mu = Inr best_s"
| "peak_loop lm t res (i # is) best_s best_mu =
     py_bind (int_truediv i res) (\<lambda>s.
     py_bind (tire_mu lm t s) (\<lambda>m.
     if flt best_mu m then peak_loop lm t res is s m
     else peak_loop lm t res is best_s best_mu))"

definition peak_slip :: "libm \<Rightarrow> pacejka_tire \<Rightarrow> int \<Rightarrow> pyfloat py" where
  "peak_slip lm t resolution = peak_loop lm t resolution [1..resolution] f0 f0"

section \<open>The slip ratio\<close>

definition f1 :: pyfloat where "f1 = flit 1 1"

definition compute_slip :: "pyfloat \<Rightarrow> pyfloat \<Rightarrow> pyfloat \<Rightarrow> pyfloat \<Rightarrow> pyfloat py" where
  "compute_slip v_vehicle omega_wheel wheel_radius v_min =
     (if flt (fabs v_vehicle) v_min then Inr f0
      else py_bind (fdiv (fsub v_vehicle (fmul omega_wheel wheel_radius)) v_vehicle) (\<lambda>s.
        if flt s f0 then Inr f0 else if flt f1 s then Inr f1 else Inr s))"

section \<open>Presets and tires\<close>

definition params_ok :: "tire_params \<Rightarrow> bool" where
  "params_ok p \<longleftrightarrow> fwithin 4 12 (tpB p) \<and> fwithin (3/2) (53/32) (tpC p) \<and> fwithin 0 1 (tpD p)"

definition tire_ok :: "pacejka_tire \<Rightarrow> bool" where
  "tire_ok t \<longleftrightarrow> map_of SURFACES (t_surface t) = Some (t_params t)"

lemma f1_within [simp]: "fwithin 1 1 f1" "is_fin f1" "fval f1 = 1" "pyf f1"
  using flit_int_val [of 1] by (simp_all add: f1_def fwithin_def)


lemma SURFACES_ok: "map_of SURFACES s = Some p \<Longrightarrow> params_ok p"
  unfolding SURFACES_def params_ok_def
  by (auto split: if_splits intro!: fwithin_flit)


lemma SURFACES_canon: "map_of SURFACES s = Some p \<Longrightarrow> bnd (fval (tpD p))"
  using SURFACES_ok [of s p] fwithin_bnd [of 0 1 "tpD p"] by (simp add: params_ok_def)

lemma tire_ok_params: "tire_ok t \<Longrightarrow> params_ok (t_params t)"
  by (simp add: tire_ok_def SURFACES_ok)

lemma PacejkaTire_ok: "PacejkaTire s = Inr t \<Longrightarrow> tire_ok t \<and> t_surface t = s"
  by (auto simp: PacejkaTire_def tire_ok_def split: option.splits)

lemma PacejkaTire_dry: "\<exists>t. PacejkaTire ''dry_asphalt'' = Inr t"
  by (simp add: PacejkaTire_def SURFACES_def)

section \<open>Friction\<close>

lemma libm_okD:
  assumes "libm_ok lm"
  shows "pyf x \<Longrightarrow> pyf (lm_sin lm x)" "pyf x \<Longrightarrow> pyf (lm_atan lm x)"
    and "fwithin 0 b x \<Longrightarrow> fwithin 0 (1571/1000) (lm_atan lm x)"
    and "fwithin 0 3 x \<Longrightarrow> fwithin 0 1 (lm_sin lm x)"
    and "fzero x \<Longrightarrow> lm_sin lm x = x" "fzero x \<Longrightarrow> lm_atan lm x = x"
  using assms by (auto simp: libm_ok_def fwithin_def)

lemma math_sin_fin [simp]: "is_fin x \<Longrightarrow> math_sin lm x = Inr (lm_sin lm x)"
  by (cases x) (simp_all add: math_sin_def)

lemma tire_mu_within:
  assumes lm: "libm_ok lm" and t: "params_ok (t_params t)" and s: "fwithin 0 1 slip"
  shows "\<exists>m. tire_mu lm t slip = Inr m \<and> fwithin 0 (fval (tpD (t_params t))) m"
proof -
  let ?p = "t_params t"
  have p: "fwithin 4 12 (tpB ?p)" "fwithin (3/2) (53/32) (tpC ?p)" "fwithin 0 1 (tpD ?p)"
    using t by (auto simp: params_ok_def)
  have "fwithin 0 12 (fmul (tpB ?p) slip)"
    by (rule fwithin_fmul [OF p(1) s]) simp_all
  then have a: "fwithin 0 (1571/1000) (lm_atan lm (fmul (tpB ?p) slip))"
    by (rule libm_okD(3) [OF lm])
  have arg: "fwithin 0 3 (fmul (tpC ?p) (lm_atan lm (fmul (tpB ?p) slip)))"
    by (rule fwithin_fmul [OF p(2) a]) simp_all
  have sn: "fwithin 0 1 (lm_sin lm (fmul (tpC ?p) (lm_atan lm (fmul (tpB ?p) slip))))"
    using arg by (rule libm_okD(4) [OF lm])
  have "fwithin 0 (fval (tpD ?p)) (fmul (tpD ?p) (lm_sin lm (fmul (tpC ?p) (lm_atan lm (fmul (tpB ?p) slip)))))"
    by (rule fwithin_fmul [OF fwithin_fval [OF p(3)] sn])
      (use fwithinD [OF p(3)] fwithin_bnd [OF p(3)] in auto)
  then show ?thesis
    using fwithinD(1) [OF arg] by (simp add: tire_mu_def math_atan_def Let_def)
qed

text \<open>Without slip there is no friction.\<close>

lemma fzero_fmul: "fzero x \<Longrightarrow> is_fin y \<Longrightarrow> fzero (fl_mul f y x)"
  by (cases x; cases y) (simp_all add: fround_exp_def fround_def)

lemma tire_mu_zero:
  assumes lm: "libm_ok lm" and t: "params_ok (t_params t)" and s: "fzero slip"
  shows "\<exists>m. tire_mu lm t slip = Inr m \<and> fzero m"
proof -
  let ?p = "t_params t"
  have p: "is_fin (tpB ?p)" "is_fin (tpC ?p)" "is_fin (tpD ?p)"
    using t fwithinD(1) by (auto simp: params_ok_def)
  have z: "fzero (fmul (tpB ?p) slip)" using fzero_fmul [OF s p(1)] .
  then have a: "fzero (fmul (tpC ?p) (fmul (tpB ?p) slip))" using fzero_fmul p(2) by blast
  moreover from this have "is_fin (fmul (tpC ?p) (fmul (tpB ?p) slip))"
    by (cases "fmul (tpC ?p) (fmul (tpB ?p) slip)") auto
  ultimately show ?thesis
    using libm_okD(5,6) [OF lm] z fzero_fmul [OF a p(3)]
    by (simp add: tire_mu_def math_atan_def Let_def)
qed

section \<open>Slip\<close>

text \<open>Whatever the arguments are, the ratio is in \<open>[0, 1]\<close> unless it is NaN.\<close>

lemma compute_slip_cases:
  assumes "compute_slip v w r vm = Inr s"
  shows "s = NaN \<or> is_fin s \<and> 0 \<le> fval s \<and> fval s \<le> 1"
proof -
  consider "s = f0" | "s = f1" | "\<not> flt s f0" "\<not> flt f1 s"
    using assms by (auto simp: compute_slip_def py_bind_Inr_iff split: if_splits)
  then show ?thesis
  proof cases
    case 3
    show ?thesis
    proof (cases s)
      case (Fin s'' m e)
      then have "is_fin s" by simp
      with 3 show ?thesis by (simp add: flt_fin)
    qed (use 3 f1_within(2) in auto)
  qed auto
qed

lemma compute_slip_canon: "pyf v \<Longrightarrow> pyf w \<Longrightarrow> pyf r \<Longrightarrow> compute_slip v w r vm = Inr s \<Longrightarrow> pyf s"
  by (auto simp: compute_slip_def py_bind_Inr_iff fdiv_def split: if_splits
      intro!: canon_fl_div canon_fl_sub canon_fl_mul simp del: canon.simps)

text \<open>A positive threshold excludes the division by zero.\<close>

lemma compute_slip_returns:
  assumes "flt f0 vm"
  shows "returns (compute_slip v w r vm)"
proof (cases "fzero v")
  case True
  then obtain s e where v: "v = Fin s 0 e" by (cases v) auto
  have "flt (fabs v) vm"
    using assms by (cases vm) (auto simp: v flt_fin simp del: flt.simps)
  then show ?thesis by (simp add: compute_slip_def)
next
  case False
  then show ?thesis by (simp add: compute_slip_def fdiv_def)
qed

text \<open>Below the threshold the ratio is zero, above it a number.\<close>

lemma compute_slip_within:
  assumes v: "fwithin 0 V v" and w: "fwithin 0 W w" and r: "fwithin 0 R r" and vm: "fwithin 1 M vm"
    and b: "V + W * R \<le> U" "bnd U" "0 \<le> W" "0 \<le> R" "0 \<le> V"
  shows "\<exists>s. compute_slip v w r vm = Inr s \<and> fwithin 0 1 s"
proof (cases "flt (fabs v) vm")
  case True
  then show ?thesis by (auto simp: compute_slip_def intro: fwithin_weaken [OF fwithin_f0])
next
  case False
  have wr0: "0 \<le> W * R" using b by simp
  have U: "0 \<le> U" using add_nonneg_nonneg [OF b(5) wr0] b(1) by linarith
  have WU: "W * R \<le> U" "V - 0 \<le> U" "- U \<le> 0 - U" using wr0 b by linarith+
  have v1: "1 \<le> fval v"
    using False fwithinD [OF v] fwithinD [OF vm] by (simp add: flt_fin fabs_spec)
  then have v': "fwithin 1 V v" using v by (simp add: fwithin_def)
  then have V: "1 \<le> V" using fwithinD [OF v'] by linarith
  have wr: "fwithin 0 U (fmul w r)"
    by (rule fwithin_fmul [OF w r]) (simp_all add: b U WU)
  have num: "fwithin (- U) U (fsub v (fmul w r))"
    by (rule fwithin_fsub [OF v wr WU(3,2)]) (simp_all add: b)
  have le: "U / V \<le> U" using V mult_left_mono [of 1 V U] U by (simp add: divide_le_eq)
  obtain q where q: "fdiv (fsub v (fmul w r)) v = Inr q" "fwithin (- U) U q"
    using fwithin_fdiv [OF num v', of "- U" U] le b U V by auto
  have "\<exists>s. compute_slip v w r vm = Inr s \<and> is_fin s"
    using False q fwithinD(1) [OF q(2)] by (simp add: compute_slip_def)
  then obtain s where s: "compute_slip v w r vm = Inr s" "is_fin s" by blast
  then show ?thesis
    using compute_slip_cases [OF s(1)] compute_slip_canon [OF _ _ _ s(1)]
      fwithinD(3) [OF v] fwithinD(3) [OF w] fwithinD(3) [OF r] by (auto simp: fwithin_def)
qed


section \<open>The sampled peak\<close>

text \<open>
  The loop returns the sample (or the initial value) whose friction no sample exceeds.
\<close>

lemma peak_loop_max:
  assumes "peak_loop lm t res is bs bm = Inr s" "bm \<noteq> NaN"
  shows "\<exists>bm'. (s = bs \<and> bm' = bm \<or> (\<exists>i\<in>set is. int_truediv i res = Inr s \<and> tire_mu lm t s = Inr bm')) \<and>
    \<not> flt bm' bm \<and>
    (\<forall>i\<in>set is. \<exists>s' m. int_truediv i res = Inr s' \<and> tire_mu lm t s' = Inr m \<and> \<not> flt bm' m)"
  using assms
proof (induction "is" arbitrary: bs bm)
  case Nil
  have "\<not> flt bm bm"
    by (cases bm) (auto simp: flt_fin simp del: flt.simps(1))
  with Nil show ?case by auto
next
  case (Cons i js)
  from Cons.prems obtain s1 m where s1: "int_truediv i res = Inr s1" "tire_mu lm t s1 = Inr m"
    and loop: "(if flt bm m then peak_loop lm t res js s1 m else peak_loop lm t res js bs bm) = Inr s"
    by (auto simp: py_bind_Inr_iff)
  show ?case
  proof (cases "flt bm m")
    case True
    then have "m \<noteq> NaN" by auto
    with True loop Cons.IH [of s1 m] obtain bm' where
      "s = s1 \<and> bm' = m \<or> (\<exists>i\<in>set js. int_truediv i res = Inr s \<and> tire_mu lm t s = Inr bm')"
      "\<not> flt bm' m"
      "\<forall>i\<in>set js. \<exists>s' m. int_truediv i res = Inr s' \<and> tire_mu lm t s' = Inr m \<and> \<not> flt bm' m"
      by auto
    with s1 flt_trans [of bm' bm m] True show ?thesis by (intro exI [of _ bm']) auto
  next
    case False
    with loop Cons.IH [of bs bm] Cons.prems(2) obtain bm' where
      b: "s = bs \<and> bm' = bm \<or> (\<exists>i\<in>set js. int_truediv i res = Inr s \<and> tire_mu lm t s = Inr bm')"
      "\<not> flt bm' bm"
      "\<forall>i\<in>set js. \<exists>s' m. int_truediv i res = Inr s' \<and> tire_mu lm t s' = Inr m \<and> \<not> flt bm' m"
      by auto
    have "\<not> flt bm' m" using b(2) False Cons.prems(2) not_flt_trans by blast
    with b s1 show ?thesis by (intro exI [of _ bm']) auto
  qed
qed

section \<open>An executable instance of the C library\<close>

text \<open>
  Rational approximations (Bhaskara's sine on \<open>[0, pi]\<close> and a second-order arctangent), clamped
  to the documented ranges.
\<close>

definition fpi :: pyfloat where "fpi = flit 3141592653589793 1000000000000000"

definition bh_sin_pos :: "pyfloat \<Rightarrow> pyfloat" where
  "bh_sin_pos x = (let y = fmul x (fsub fpi x)
     in fl_div B64 (fmul (flit 16 1) y) (fsub (fmul (flit 5 1) (fmul fpi fpi)) (fmul (flit 4 1) y)))"

definition bh_atan_pos :: "pyfloat \<Rightarrow> pyfloat" where
  "bh_atan_pos x = (if flt f1 x
     then fsub (fl_div B64 fpi (flit 2 1)) (fl_div B64 x (fadd (fmul x x) (flit 28 100)))
     else fl_div B64 x (fadd f1 (fmul (flit 28 100) (fmul x x))))"

definition bhaskara :: libm where
  "bhaskara = \<lparr>
     lm_sin = (\<lambda>x. if fzero x \<or> x = NaN then x else if flt x f0 then fneg (fclamp f0 f1 (bh_sin_pos (fneg x))) else fclamp f0 f1 (bh_sin_pos x)),
     lm_atan = (\<lambda>x. if fzero x \<or> x = NaN then x else if flt x f0 then fneg (fclamp f0 (flit 157 100) (bh_atan_pos (fneg x)))
                     else fclamp f0 (flit 157 100) (bh_atan_pos x))\<rparr>"

lemma pyf_bh: "pyf x \<Longrightarrow> pyf (bh_sin_pos x)" "pyf x \<Longrightarrow> pyf (bh_atan_pos x)"
  unfolding bh_sin_pos_def bh_atan_pos_def fpi_def Let_def
  by (auto intro!: canon_fl_div canon_fl_mul canon_fl_sub canon_fl_add canon_flit simp del: canon.simps)

lemma bhaskara_ok: "libm_ok bhaskara"
proof -
  let ?h = "flit 157 100"
  have h: "fwithin (3/2) (201/128) ?h"
    by (rule fwithin_flit) (use bnd_dyadic [of 201 7] in simp_all)
  then have h': "fwithin (fval ?h) (fval ?h) ?h" "0 \<le> fval ?h" "fval ?h \<le> 1571/1000"
    using fwithinD(4,5) [OF h] by (auto simp: fwithin_fval)
  have at: "fwithin 0 (fval ?h) (fclamp f0 ?h y)" if "pyf y" for y
    by (rule fclamp_within [OF fwithin_f0 h'(1,2) that])
  have sn: "fwithin 0 1 (fclamp f0 f1 y)" if "pyf y" for y
    by (rule fclamp_within [OF fwithin_f0 _ _ that]) simp_all
  have z: "fzero x \<Longrightarrow> pyf x \<Longrightarrow> 0 \<le> b \<Longrightarrow> fwithin 0 b x" for x b
    using fzero_fval [of x] canon_wff [of B64 x] by (cases x) (auto simp: fwithin_def)
  have neg: "flt x f0 \<Longrightarrow> \<not> fwithin 0 b x" for x b
    using fwithinD(1,4) [of 0 b x] by (auto simp: flt_fin)
  show ?thesis
    unfolding libm_ok_def
  proof (intro conjI allI impI)
    fix x :: pyfloat assume "fwithin 0 (fval x) x"
    then show "fwithin 0 (1571/1000) (lm_atan bhaskara x)"
      using neg z [of x "1571/1000"] at [OF pyf_bh(2), of x] h'(3) by (auto simp: bhaskara_def fwithin_def)
  next
    fix x assume "fwithin 0 3 x"
    then show "fwithin 0 1 (lm_sin bhaskara x)"
      using neg z [of x 1] sn [OF pyf_bh(1), of x] by (auto simp: bhaskara_def fwithin_def)
  qed (use at [OF pyf_bh(2)] sn [OF pyf_bh(1)] in \<open>auto simp: bhaskara_def fwithin_def\<close>)
qed


text \<open>A positive slip means that the wheel's rim is slower than the car.\<close>

lemma slip_pos_rim:
  assumes s: "compute_slip v w r vm = Inr s" "0 < fval s"
    and v: "fwithin 0 V v" and wr: "fwithin 0 U (fmul w r)" and vm: "fwithin 1 M vm"
    and b: "V \<le> U" "bnd U"
  shows "fval (fmul w r) < fval v"
proof (rule ccontr)
  assume "\<not> ?thesis"
  then have le: "fval v - fval (fmul w r) \<le> 0" by simp
  have nlt: "\<not> flt (fabs v) vm"
    using s by (auto simp: compute_slip_def)
  then have v1: "1 \<le> fval v"
    using fwithinD [OF v] fwithinD [OF vm] by (simp add: flt_fin fabs_spec)
  have num: "fwithin (- U) 0 (fsub v (fmul w r))"
  proof -
    have spec: "pyf (fsub v (fmul w r)) \<and> is_fin (fsub v (fmul w r)) \<and>
        fval (fsub v (fmul w r)) = rnd B64 (fval v - fval (fmul w r))"
    proof (rule fl_sub_spec)
      have "- U \<le> fval v - fval (fmul w r)" "fval v - fval (fmul w r) \<le> U"
        using fwithinD [OF v] fwithinD [OF wr] b by linarith+
      then show "\<bar>fval v - fval (fmul w r)\<bar> \<le> flim B64"
        by (rule bnd_sandwich_lim) (use b in simp_all)
    qed (use fwithinD [OF v] fwithinD [OF wr] in auto)
    then show ?thesis
      using fwithinD [OF v] fwithinD [OF wr] le b by (intro fwithin_rndI) auto
  qed
  have v': "fwithin 1 V v" using v v1 by (simp add: fwithin_def)
  have V: "1 \<le> V" using fwithinD [OF v'] by linarith
  have "0 \<le> U" using V b by linarith
  then have "U / V \<le> U" using V mult_left_mono [of 1 V U] by (simp add: divide_le_eq)
  then obtain q where q: "fdiv (fsub v (fmul w r)) v = Inr q" "fwithin (- U) 0 q"
    using fwithin_fdiv [OF num v', of "- U" 0] b V \<open>0 \<le> U\<close> by auto
  have "fval s \<le> 0"
    using s(1) nlt q fwithinD [OF q(2)]
    by (auto simp: compute_slip_def flt_fin split: if_splits)
  with s(2) show False by simp
qed


section \<open>Properties\<close>

text \<open>The slip ratio: with a positive threshold \<open>v_min\<close> the function never raises,
  whatever the floats are, and its result is NaN or in \<open>[0, 1]\<close>.\<close>

theorem compute_slip_total:
  assumes "flt f0 v_min"
  shows "\<exists>s. compute_slip v omega r v_min = Inr s \<and> (s = NaN \<or> (is_fin s \<and> 0 \<le> fval s \<and> fval s \<le> 1))"
proof -
  obtain s where "compute_slip v omega r v_min = Inr s"
    using compute_slip_returns [OF assms, of v omega r] by (auto simp: returns_iff)
  then show ?thesis using compute_slip_cases by blast
qed

theorem compute_slip_total_witness:
  "\<exists>s. compute_slip (flit 20 1) (flit 30 1) (flit 30 100) (flit 1 1) = Inr s \<and>
     (s = NaN \<or> (is_fin s \<and> 0 \<le> fval s \<and> fval s \<le> 1))"
  by (rule compute_slip_total) (simp add: flt_fin)

text \<open>Friction: for a tire on any preset surface and a slip in \<open>[0, 1]\<close>, \<open>mu\<close> returns
  a value between 0 and the peak coefficient \<open>D\<close> of the surface.\<close>

theorem tire_mu_range:
  assumes "libm_ok lm" and "PacejkaTire surface = Inr t" and "fwithin 0 1 slip"
  shows "\<exists>m. tire_mu lm t slip = Inr m \<and> fwithin 0 (fval (tpD (t_params t))) m"
  using tire_mu_within assms PacejkaTire_ok tire_ok_params by blast

theorem tire_mu_range_witness:
  "\<exists>t m. PacejkaTire ''ice'' = Inr t \<and> tire_mu bhaskara t f1 = Inr m \<and> fwithin 0 (fval (tpD (t_params t))) m"
proof -
  obtain t where t: "PacejkaTire ''ice'' = Inr t" by (simp add: PacejkaTire_def SURFACES_def)
  have "fwithin 0 1 f1" by (rule fwithin_weaken [OF f1_within(1)]) simp_all
  from tire_mu_range [OF bhaskara_ok t this] t show ?thesis by blast
qed

text \<open>The sampled peak: the slip that \<open>peak_slip\<close> returns is 0 or one of the
  samples \<open>i / resolution\<close>, and no sample has a larger friction than it (none is positive when
  the result is 0 by default).\<close>

theorem peak_slip_is_peak:
  assumes "peak_slip lm t n = Inr s"
  shows "\<exists>best. (s = f0 \<and> best = f0 \<or>
      (\<exists>i. 1 \<le> i \<and> i \<le> n \<and> int_truediv i n = Inr s \<and> tire_mu lm t s = Inr best)) \<and>
    (\<forall>i. 1 \<le> i \<and> i \<le> n \<longrightarrow>
      (\<exists>s' m. int_truediv i n = Inr s' \<and> tire_mu lm t s' = Inr m \<and> \<not> flt best m))"
proof -
  obtain best where "s = f0 \<and> best = f0 \<or> (\<exists>i\<in>set [1..n]. int_truediv i n = Inr s \<and> tire_mu lm t s = Inr best)"
    "\<forall>i\<in>set [1..n]. \<exists>s' m. int_truediv i n = Inr s' \<and> tire_mu lm t s' = Inr m \<and> \<not> flt best m"
    using peak_loop_max [OF assms [unfolded peak_slip_def]] by blast
  then show ?thesis by (intro exI [of _ best]) auto
qed

theorem peak_slip_is_peak_witness:
  "\<exists>t s best. PacejkaTire ''dry_asphalt'' = Inr t \<and> peak_slip bhaskara t 2 = Inr s \<and>
    (s = f0 \<and> best = f0 \<or>
      (\<exists>i. 1 \<le> i \<and> i \<le> 2 \<and> int_truediv i 2 = Inr s \<and> tire_mu bhaskara t s = Inr best))"
proof -
  obtain t where t: "PacejkaTire ''dry_asphalt'' = Inr t" using PacejkaTire_dry by blast
  have ok: "params_ok (t_params t)" using t PacejkaTire_ok tire_ok_params by blast
  have s: "fwithin 0 1 (fround B64 False 1 2)" "fwithin 0 1 (fround B64 False 2 2)"
    using fwithin_flit [of 2 0 1 1] fwithin_flit [of 2 0 2 1] by (simp_all add: flit_def)
  obtain m1 m2 where "tire_mu bhaskara t (fround B64 False 1 2) = Inr m1"
      "tire_mu bhaskara t (fround B64 False 2 2) = Inr m2"
    using tire_mu_within [OF bhaskara_ok ok s(1)] tire_mu_within [OF bhaskara_ok ok s(2)] by blast
  moreover have "[1..2] = [1, 2::int]" by (simp add: upto.simps)
  ultimately obtain r where r: "peak_slip bhaskara t 2 = Inr r"
    by (cases "peak_slip bhaskara t 2") (auto simp: peak_slip_def int_truediv_def split: if_splits)
  from peak_slip_is_peak [OF this] t r show ?thesis by blast
qed

end
