(* ===== verification/Vehicle.thy ===== *)
theory Vehicle
  imports Tire
begin

text \<open>
  \<^verbatim>\<open>plant/vehicle.py\<close>: the quarter-car plant.  \<open>vehicle_step\<close> is \<^verbatim>\<open>Vehicle.step\<close> with its
  float operations in the order the code evaluates them; every division can raise, and all of
  them come before the first assignment to the state, so an exception leaves the state as it was.
\<close>

section \<open>Data\<close>

definition G :: pyfloat where "G = flit 981 100"

definition V_STATIC_FREEZE :: pyfloat where "V_STATIC_FREEZE = flit 1 1"

record vehicle_params =
  mass_quarter :: pyfloat
  wheel_radius :: pyfloat
  wheel_inertia :: pyfloat
  brake_gain :: pyfloat
  max_brake_pressure :: pyfloat

definition VehicleParams :: vehicle_params where
  "VehicleParams = \<lparr>mass_quarter = flit 400 1, wheel_radius = flit 30 100,
     wheel_inertia = flit 12 10, brake_gain = flit 25 1, max_brake_pressure = flit 150 1\<rparr>"

record vehicle_state =
  vs_v :: pyfloat
  vs_omega :: pyfloat
  vs_x :: pyfloat
  vs_t :: pyfloat

record step_outputs =
  so_slip :: pyfloat
  so_mu :: pyfloat
  so_brake_torque :: pyfloat
  so_brake_pressure :: pyfloat

record vehicle =
  vh_params :: vehicle_params
  vh_tire :: pacejka_tire
  vh_state :: vehicle_state

section \<open>Operations\<close>

definition Vehicle :: "vehicle_params \<Rightarrow> pacejka_tire \<Rightarrow> pyfloat \<Rightarrow> vehicle py" where
  "Vehicle params tire initial_speed =
     py_bind (fdiv initial_speed (wheel_radius params)) (\<lambda>om.
     Inr \<lparr>vh_params = params, vh_tire = tire,
          vh_state = \<lparr>vs_v = initial_speed, vs_omega = om, vs_x = f0, vs_t = f0\<rparr>\<rparr>)"

definition vehicle_reset :: "vehicle \<Rightarrow> pyfloat \<Rightarrow> vehicle py" where
  "vehicle_reset veh initial_speed =
     py_bind (fdiv initial_speed (wheel_radius (vh_params veh))) (\<lambda>om.
     Inr (veh\<lparr>vh_state := \<lparr>vs_v = initial_speed, vs_omega = om, vs_x = f0, vs_t = f0\<rparr>\<rparr>))"

definition saturate :: "vehicle_params \<Rightarrow> pyfloat \<Rightarrow> pyfloat" where
  "saturate p bp = (if flt bp f0 then f0
     else if flt (max_brake_pressure p) bp then max_brake_pressure p else bp)"

definition vehicle_step :: "libm \<Rightarrow> vehicle \<Rightarrow> pyfloat \<Rightarrow> pyfloat \<Rightarrow> (step_outputs \<times> vehicle) py" where
  "vehicle_step lm veh brake_pressure dt =
    (let p = vh_params veh; s = vh_state veh; bp = saturate p brake_pressure in
     py_bind (compute_slip (vs_v s) (vs_omega s) (wheel_radius p) (flit 1 1)) (\<lambda>slip.
     py_bind (tire_mu lm (vh_tire veh) slip) (\<lambda>mu.
     let F = fmul (fmul mu (mass_quarter p)) G;
         brake_torque = fmul (brake_gain p) bp in
     py_bind (fdiv F (mass_quarter p)) (\<lambda>decel.
     let dv = fmul (fneg decel) dt in
     py_bind (fdiv (fsub (fmul F (wheel_radius p)) brake_torque) (wheel_inertia p)) (\<lambda>alpha.
     let domega = fmul alpha dt;
         v1 = fadd (vs_v s) dv;
         w1 = fadd (vs_omega s) domega;
         x1 = fadd (vs_x s) (fadd (fmul v1 dt) (fmul (fmul (flit 1 2) dv) dt));
         t1 = fadd (vs_t s) dt;
         v2 = (if flt v1 f0 then f0 else v1);
         w2 = (if flt w1 f0 then f0 else w1);
         freeze = (flt v2 V_STATIC_FREEZE \<and> flt (flit 1 1) bp);
         v3 = (if freeze then f0 else v2);
         w3 = (if freeze then f0 else w2)
     in Inr (\<lparr>so_slip = slip, so_mu = mu, so_brake_torque = brake_torque, so_brake_pressure = bp\<rparr>,
             veh\<lparr>vh_state := \<lparr>vs_v = v3, vs_omega = w3, vs_x = x1, vs_t = t1\<rparr>\<rparr>))))))"

definition stopped :: "vehicle \<Rightarrow> bool" where
  "stopped veh = flt (vs_v (vh_state veh)) (flit 1 1000)"

section \<open>Invariant\<close>

definition vparams_ok :: "vehicle_params \<Rightarrow> bool" where
  "vparams_ok p \<longleftrightarrow> fwithin 64 4096 (mass_quarter p) \<and> fwithin (1/4) 1 (wheel_radius p) \<and>
     fwithin 1 64 (wheel_inertia p) \<and> fwithin 0 64 (brake_gain p) \<and>
     fwithin 0 512 (max_brake_pressure p)"

definition vehicle_ok :: "vehicle \<Rightarrow> bool" where
  "vehicle_ok veh \<longleftrightarrow> vparams_ok (vh_params veh) \<and> params_ok (t_params (vh_tire veh)) \<and>
     fwithin 0 128 (vs_v (vh_state veh)) \<and> fwithin 0 4096 (vs_omega (vh_state veh)) \<and>
     pyf (vs_x (vh_state veh)) \<and> pyf (vs_t (vh_state veh))"

lemma VehicleParams_ok: "vparams_ok VehicleParams"
  unfolding vparams_ok_def VehicleParams_def
  by (auto intro!: fwithin_flit)

lemma G_within: "fwithin 9 10 G"
  unfolding G_def by (rule fwithin_flit) simp_all

lemma half_within: "fwithin (1/2) (1/2) (flit 1 2)"
  by (rule fwithin_flit) simp_all

lemma saturate_within:
  assumes m: "fwithin 0 M (max_brake_pressure p)" and bp: "pyf bp" "bp \<noteq> NaN"
  shows "fwithin 0 (fval (max_brake_pressure p)) (saturate p bp)"
proof (cases "is_fin bp")
  case True
  then show ?thesis using fwithinD [OF m] bp by (auto simp: saturate_def fwithin_def flt_fin)
next
  case False
  with bp(2) obtain s where "bp = Infin s" by (cases bp) auto
  then show ?thesis using fwithinD [OF m] by (auto simp: saturate_def fwithin_def)
qed

lemma clamp0_within:
  assumes "fwithin a b x" "a \<le> 0" "0 \<le> b"
  shows "fwithin 0 b (if flt x f0 then f0 else x)"
  using fwithinD [OF assms(1)] assms(2,3) by (auto simp: fwithin_def flt_fin)


section \<open>One step\<close>

text \<open>
  The time step is between 0 and 1/64 s (the program uses 1 ms).  The intermediate quantities of
  a step stay in these ranges.
\<close>

lemma step_signals:
  assumes lm: "libm_ok lm" and ok: "vehicle_ok veh" and dt: "fwithin 0 (1/64) dt"
    and bp: "pyf bp" "bp \<noteq> NaN"
  defines "p \<equiv> vh_params veh" and "s \<equiv> vh_state veh"
  obtains slip mu decel alpha where
    "compute_slip (vs_v s) (vs_omega s) (wheel_radius p) (flit 1 1) = Inr slip" "fwithin 0 1 slip"
    "tire_mu lm (vh_tire veh) slip = Inr mu" "fwithin 0 (fval (tpD (t_params (vh_tire veh)))) mu"
    "fdiv (fmul (fmul mu (mass_quarter p)) G) (mass_quarter p) = Inr decel" "fwithin 0 1024 decel"
    "fdiv (fsub (fmul (fmul (fmul mu (mass_quarter p)) G) (wheel_radius p))
       (fmul (brake_gain p) (saturate p bp))) (wheel_inertia p) = Inr alpha"
    "fwithin (- 32768) 65536 alpha"
    "fval mu = 0 \<Longrightarrow> fwithin (- 32768) 0 alpha \<and> fval decel = 0"
    "fval (vs_omega s) \<le> 1024 \<or> fval mu = 0"
proof -
  have p: "fwithin 64 4096 (mass_quarter p)" "fwithin (1/4) 1 (wheel_radius p)"
      "fwithin 1 64 (wheel_inertia p)" "fwithin 0 64 (brake_gain p)" "fwithin 0 512 (max_brake_pressure p)"
    and st: "fwithin 0 128 (vs_v s)" "fwithin 0 4096 (vs_omega s)" and tr: "params_ok (t_params (vh_tire veh))"
    using ok by (auto simp: vehicle_ok_def vparams_ok_def p_def s_def)
  have one: "fwithin 1 1 (flit 1 1)" using fwithin_int [of 1] by simp
  have rad: "fwithin 0 1 (wheel_radius p)" by (rule fwithin_weaken [OF p(2)]) simp_all
  have wr: "fwithin 0 4224 (fmul (vs_omega s) (wheel_radius p))"
    by (rule fwithin_fmul [OF st(2) rad]) simp_all
  obtain slip where slip: "compute_slip (vs_v s) (vs_omega s) (wheel_radius p) (flit 1 1) = Inr slip"
      "fwithin 0 1 slip"
    using compute_slip_within [OF st rad one, of 4224] by auto
  obtain mu where mu: "tire_mu lm (vh_tire veh) slip = Inr mu"
      "fwithin 0 (fval (tpD (t_params (vh_tire veh)))) mu"
    using tire_mu_within [OF lm tr slip(2)] by auto
  have mu1: "fwithin 0 1 mu"
    using fwithin_weaken [OF mu(2), of 0 1] tr fwithinD(5) by (auto simp: params_ok_def)
  have mm: "fwithin 0 4096 (fmul mu (mass_quarter p))"
    by (rule fwithin_fmul [OF mu1 p(1)]) simp_all
  have F: "fwithin 0 40960 (fmul (fmul mu (mass_quarter p)) G)"
    by (rule fwithin_fmul [OF mm G_within]) simp_all
  let ?F = "fmul (fmul mu (mass_quarter p)) G"
  obtain decel where decel: "fdiv ?F (mass_quarter p) = Inr decel" "fwithin 0 1024 decel"
      "fval decel = rnd B64 (fval ?F / fval (mass_quarter p))"
    using fwithin_fdiv [OF F p(1), of 0 1024] by auto
  have sat: "fwithin 0 512 (saturate p bp)"
    using fwithin_weaken [OF saturate_within [OF p(5) bp]] fwithinD(5) [OF p(5)] by auto
  have T: "fwithin 0 32768 (fmul (brake_gain p) (saturate p bp))"
    by (rule fwithin_fmul [OF p(4) sat]) simp_all
  have Fr: "fwithin 0 65536 (fmul ?F (wheel_radius p))"
    by (rule fwithin_fmul [OF F rad]) simp_all
  have net: "fwithin (- 32768) 65536 (fsub (fmul ?F (wheel_radius p)) (fmul (brake_gain p) (saturate p bp)))"
    by (rule fwithin_fsub [OF Fr T]) simp_all
  obtain alpha where alpha: "fdiv (fsub (fmul ?F (wheel_radius p)) (fmul (brake_gain p) (saturate p bp)))
      (wheel_inertia p) = Inr alpha" "fwithin (- 32768) 65536 alpha"
    using fwithin_fdiv [OF net p(3), of "- 32768" 65536] by auto
  show ?thesis
  proof (rule that [OF slip mu decel(1,2) alpha])
    assume z: "fval mu = 0"
    then have mu0: "fwithin 0 0 mu" using mu1 by (simp add: fwithin_def)
    have "fwithin 0 0 (fmul mu (mass_quarter p))" by (rule fwithin_fmul [OF mu0 p(1)]) simp_all
    then have F0: "fwithin 0 0 ?F" by (rule fwithin_fmul [OF _ G_within]) simp_all
    then have "fwithin 0 0 (fmul ?F (wheel_radius p))" by (rule fwithin_fmul [OF _ rad]) simp_all
    then have "fwithin (- 32768) 0 (fsub (fmul ?F (wheel_radius p)) (fmul (brake_gain p) (saturate p bp)))"
      by (rule fwithin_fsub [OF _ T]) simp_all
    then have "fwithin (- 32768) 0 alpha"
      using fwithin_fdiv [OF _ p(3), of _ _ _ "- 32768" 0] alpha(1) by fastforce
    moreover have "fval decel = 0" using decel(3) fwithinD(4,5) [OF F0] by simp
    ultimately show "fwithin (- 32768) 0 alpha \<and> fval decel = 0" by simp
  next
    show "fval (vs_omega s) \<le> 1024 \<or> fval mu = 0"
    proof (cases "fval slip = 0")
      case True
      then have "fzero slip" using fzero_fval fwithinD(2) [OF slip(2)] by blast
      then obtain m where m: "tire_mu lm (vh_tire veh) slip = Inr m" "fzero m"
        using tire_mu_zero [OF lm tr] by blast
      then have "fval m = 0" by (cases m) auto
      with m(1) mu(1) show ?thesis by simp
    next
      case False
      then have "0 < fval slip" using fwithinD(4) [OF slip(2)] by simp
      from slip_pos_rim [OF slip(1) this st(1) wr one]
      have lt: "fval (fmul (vs_omega s) (wheel_radius p)) < 128"
        using fwithinD(5) [OF st(1)] by simp
      show ?thesis
      proof (rule ccontr)
        assume "\<not> ?thesis"
        then have "fwithin 1024 4096 (vs_omega s)" using st(2) by (simp add: fwithin_def)
        then have "fwithin 256 4224 (fmul (vs_omega s) (wheel_radius p))"
          by (rule fwithin_fmul [OF _ p(2)]) simp_all
        with lt fwithinD(4) show False by fastforce
      qed
    qed
  qed
qed

text \<open>What a step returns, for every state of the invariant and every pressure but NaN.\<close>

lemma vehicle_step_run:
  assumes lm: "libm_ok lm" and ok: "vehicle_ok veh" and dt: "fwithin 0 (1/64) dt"
    and bp: "pyf bp" "bp \<noteq> NaN"
  obtains out veh' where
    "vehicle_step lm veh bp dt = Inr (out, veh')" "vehicle_ok veh'"
    "vh_params veh' = vh_params veh" "vh_tire veh' = vh_tire veh"
    "fval (vs_v (vh_state veh')) \<le> fval (vs_v (vh_state veh))"
    "fwithin 0 1 (so_slip out)" "fwithin 0 (fval (tpD (t_params (vh_tire veh)))) (so_mu out)"
    "so_brake_pressure out = saturate (vh_params veh) bp"
    "vs_t (vh_state veh') = fadd (vs_t (vh_state veh)) dt"
proof -
  let ?p = "vh_params veh" and ?s = "vh_state veh"
  have st: "fwithin 0 128 (vs_v ?s)" "fwithin 0 4096 (vs_omega ?s)" "pyf (vs_x ?s)" "pyf (vs_t ?s)"
    using ok by (auto simp: vehicle_ok_def)
  obtain slip mu decel alpha where sig:
    "compute_slip (vs_v ?s) (vs_omega ?s) (wheel_radius ?p) (flit 1 1) = Inr slip" "fwithin 0 1 slip"
    "tire_mu lm (vh_tire veh) slip = Inr mu" "fwithin 0 (fval (tpD (t_params (vh_tire veh)))) mu"
    "fdiv (fmul (fmul mu (mass_quarter ?p)) G) (mass_quarter ?p) = Inr decel" "fwithin 0 1024 decel"
    "fdiv (fsub (fmul (fmul (fmul mu (mass_quarter ?p)) G) (wheel_radius ?p))
       (fmul (brake_gain ?p) (saturate ?p bp))) (wheel_inertia ?p) = Inr alpha"
    "fwithin (- 32768) 65536 alpha"
    "fval mu = 0 \<Longrightarrow> fwithin (- 32768) 0 alpha \<and> fval decel = 0"
    "fval (vs_omega ?s) \<le> 1024 \<or> fval mu = 0"
    using step_signals [OF lm ok dt bp] by metis
  let ?dv = "fmul (fneg decel) dt" and ?dw = "fmul alpha dt"
  let ?v1 = "fadd (vs_v ?s) ?dv" and ?w1 = "fadd (vs_omega ?s) ?dw"
  have dv: "fwithin (- 16) 0 ?dv"
    by (rule fwithin_fmul [OF fwithin_fneg [OF sig(6)] dt]) simp_all
  have v1: "fwithin (- 16) (fval (vs_v ?s)) ?v1"
    by (rule fwithin_fadd [OF fwithin_fval [OF st(1)] dv])
      (use fwithinD [OF st(1)] fwithin_bnd [OF st(1)] in auto)
  have w1: "fwithin (- 512) 4096 ?w1"
  proof (cases "fval mu = 0")
    case True
    then have "fwithin (- 512) 0 ?dw" using sig(9) by (intro fwithin_fmul [OF _ dt]) auto
    then show ?thesis by (rule fwithin_fadd [OF st(2)]) simp_all
  next
    case False
    then have "fwithin 0 1024 (vs_omega ?s)" using sig(10) st(2) by (simp add: fwithin_def)
    moreover have "fwithin (- 512) 1024 ?dw" by (rule fwithin_fmul [OF sig(8) dt]) simp_all
    ultimately show ?thesis by (rule fwithin_fadd) simp_all
  qed
  have v2: "fwithin 0 (fval (vs_v ?s)) (if flt ?v1 f0 then f0 else ?v1)"
    by (rule clamp0_within [OF v1]) (use fwithinD(4) [OF st(1)] in auto)
  have w2: "fwithin 0 4096 (if flt ?w1 f0 then f0 else ?w1)"
    by (rule clamp0_within [OF w1]) simp_all
  have x1: "pyf (fadd (vs_x ?s) (fadd (fmul ?v1 dt) (fmul (fmul (flit 1 2) ?dv) dt)))"
    using fwithinD(3) [OF v1] fwithinD(3) [OF dv] fwithinD(3) [OF dt] fwithinD(3) [OF half_within] st(3)
    by (meson canon_fl_add canon_fl_mul)
  have t1: "pyf (fadd (vs_t ?s) dt)" using st(4) fwithinD(3) [OF dt] by (intro canon_fl_add)
  obtain out veh' where run: "vehicle_step lm veh bp dt = Inr (out, veh')"
    and out: "so_slip out = slip" "so_mu out = mu" "so_brake_pressure out = saturate ?p bp"
    and veh': "vh_params veh' = ?p" "vh_tire veh' = vh_tire veh"
      "vs_v (vh_state veh') = f0 \<or> vs_v (vh_state veh') = (if flt ?v1 f0 then f0 else ?v1)"
      "vs_omega (vh_state veh') = f0 \<or> vs_omega (vh_state veh') = (if flt ?w1 f0 then f0 else ?w1)"
      "vs_x (vh_state veh') = fadd (vs_x ?s) (fadd (fmul ?v1 dt) (fmul (fmul (flit 1 2) ?dv) dt))"
      "vs_t (vh_state veh') = fadd (vs_t ?s) dt"
    using sig(1,3,5,7) by (fastforce simp: vehicle_step_def Let_def)
  have v3: "fwithin 0 (fval (vs_v ?s)) (vs_v (vh_state veh'))"
    using veh'(3) v2 fwithinD(4) [OF st(1)] by (auto simp: fwithin_def)
  have w3: "fwithin 0 4096 (vs_omega (vh_state veh'))"
    using veh'(4) w2 by (auto simp: fwithin_def)
  have "vehicle_ok veh'"
    using ok fwithin_weaken [OF v3, of 0 128] fwithinD(5) [OF st(1)] w3 x1 t1 veh'(1,2,5,6)
    by (simp add: vehicle_ok_def)
  then show ?thesis
    using that [OF run] veh' out sig(2,4) fwithinD(5) [OF v3] by auto
qed


text \<open>How a step ends: the freeze is decided on the clamped speed and the saturated pressure.\<close>

lemma vehicle_step_speeds:
  assumes "vehicle_step lm veh bp dt = Inr (out, veh')"
  shows "\<exists>v2 w2. vs_v (vh_state veh') =
      (if flt v2 V_STATIC_FREEZE \<and> flt (flit 1 1) (so_brake_pressure out) then f0 else v2) \<and>
    vs_omega (vh_state veh') =
      (if flt v2 V_STATIC_FREEZE \<and> flt (flit 1 1) (so_brake_pressure out) then f0 else w2)"
  using assms unfolding vehicle_step_def Let_def
  by (clarsimp simp: py_bind_Inr_iff split del: if_split) (intro exI conjI; rule refl)

section \<open>Properties\<close>

text \<open>The vehicle the program builds: default parameters, a preset surface.\<close>

lemma Vehicle_ok:
  assumes t: "PacejkaTire surface = Inr tr" and v0: "fwithin 0 128 v0"
  shows "\<exists>veh. Vehicle VehicleParams tr v0 = Inr veh \<and> vehicle_ok veh \<and> vh_tire veh = tr \<and>
    vh_params veh = VehicleParams \<and> vs_v (vh_state veh) = v0 \<and> vs_x (vh_state veh) = f0"
proof -
  have r: "fwithin (1/4) 1 (wheel_radius VehicleParams)"
    using VehicleParams_ok by (simp add: vparams_ok_def)
  obtain w where w: "fdiv v0 (wheel_radius VehicleParams) = Inr w" "fwithin 0 4096 w"
    using fwithin_fdiv [OF v0 r, of 0 4096] by auto
  then show ?thesis
    using v0 VehicleParams_ok tire_ok_params PacejkaTire_ok [OF t]
    by (simp add: Vehicle_def vehicle_ok_def)
qed

lemma ms_within: "fwithin 0 (1/64) (flit 1 1000)"
  by (rule fwithin_flit) simp_all

lemma v0_within: "fwithin 27 28 (flit 2778 100)"
  by (rule fwithin_flit) simp_all

text \<open>No step of 1 ms takes more than 11/1024 m/s off the speed, on any surface and with any brake.\<close>

lemma ms_step_within: "fwithin 0 (33/32768) (flit 1 1000)"
  by (rule fwithin_flit) (use bnd_dyadic [of 33 15] in simp_all)

lemma step_decel:
  assumes lm: "libm_ok lm" and ok: "vehicle_ok veh" and p: "vh_params veh = VehicleParams" and bp: "pyf bp" "bp \<noteq> NaN"
    and a: "fwithin (of_int n / 1024) 128 (vs_v (vh_state veh))" "1035 \<le> n" "n < 2 ^ 53"
    and run: "vehicle_step lm veh bp (flit 1 1000) = Inr (out, veh')"
  shows "fwithin (of_int (n - 11) / 1024) 128 (vs_v (vh_state veh'))"
proof -
  let ?s = "vh_state veh" and ?dt = "flit 1 1000" and ?m = "mass_quarter VehicleParams"
  have D: "fwithin 0 1 (tpD (t_params (vh_tire veh)))"
    using ok by (simp add: vehicle_ok_def params_ok_def)
  obtain slip mu decel alpha where sig:
    "compute_slip (vs_v ?s) (vs_omega ?s) (wheel_radius VehicleParams) (flit 1 1) = Inr slip"
    "tire_mu lm (vh_tire veh) slip = Inr mu" "fwithin 0 (fval (tpD (t_params (vh_tire veh)))) mu"
    "fdiv (fmul (fmul mu ?m) G) ?m = Inr decel"
    "fdiv (fsub (fmul (fmul (fmul mu ?m) G) (wheel_radius VehicleParams))
       (fmul (brake_gain VehicleParams) (saturate VehicleParams bp))) (wheel_inertia VehicleParams) = Inr alpha"
    using step_signals [OF lm ok ms_within bp] unfolding p by metis
  have mu: "fwithin 0 1 mu" using fwithin_weaken [OF sig(3), of 0 1] fwithinD(5) [OF D] by simp
  have m: "fwithin 400 400 ?m" unfolding VehicleParams_def using fwithin_int [of 400] by simp
  have "fwithin 0 400 (fmul mu ?m)" by (rule fwithin_fmul [OF mu m]) simp_all
  then have "fwithin 0 4000 (fmul (fmul mu ?m) G)" by (rule fwithin_fmul [OF _ G_within]) simp_all
  from fwithin_fdiv [OF this m, of 0 10] sig(4) have d: "fwithin 0 10 decel" by auto
  have "fwithin (- 11/1024) 0 (fmul (fneg decel) ?dt)"
    by (rule fwithin_fmul [OF fwithin_fneg [OF d] ms_step_within]) (use bnd_dyadic [of 11 10] in simp_all)
  from fwithin_fadd [OF a(1) this, of "of_int (n - 11) / 1024" 128]
  have v1: "fwithin (of_int (n - 11) / 1024) 128 (fadd (vs_v ?s) (fmul (fneg decel) ?dt))" (is "fwithin _ _ ?v1")
    using bnd_dyadic [of "n - 11" 10] a(2,3) by (simp add: field_simps)
  have one: "fwithin 1 1 V_STATIC_FREEZE" unfolding V_STATIC_FREEZE_def using fwithin_int [of 1] by simp
  have ge: "1 \<le> fval ?v1" using fwithinD(4) [OF v1] a(2) by (simp add: field_simps)
  then have "\<not> flt ?v1 f0" "\<not> flt ?v1 V_STATIC_FREEZE"
    using fwithin_flt [OF v1 fwithin_f0] fwithin_flt [OF v1 one] fwithinD(4,5) [OF one] by auto
  then have "vs_v (vh_state veh') = ?v1"
    using run sig(1,2,4,5) unfolding vehicle_step_def Let_def p by auto
  with v1 show ?thesis by simp
qed

lemma bar100_within: "fwithin 100 100 (flit 100 1)"
  using fwithin_int [of 100] by simp

lemma not_NaN: "fwithin a b x \<Longrightarrow> x \<noteq> NaN"
  by (auto simp: fwithin_def)

text \<open>C15: One plant step: from a state of the invariant (speed in \<open>[0, 128]\<close>, wheel
  speed in \<open>[0, 4096]\<close>, tire and parameters in range), for any commanded pressure that is a number,
  infinite ones included, and any time step up to 1/64 s, the step does not raise, its result
  satisfies the invariant again (so neither speed becomes negative), the car does not accelerate,
  the wheel's slip and friction are in range and the pressure is saturated into the actuator's range.\<close>

theorem vehicle_step_safe:
  assumes "libm_ok lm" and "vehicle_ok veh" and "fwithin 0 (1/64) dt"
    and "pyf bp" and "bp \<noteq> NaN"
  shows "\<exists>out veh'. vehicle_step lm veh bp dt = Inr (out, veh') \<and> vehicle_ok veh' \<and>
    fval (vs_v (vh_state veh')) \<le> fval (vs_v (vh_state veh)) \<and>
    fwithin 0 1 (so_slip out) \<and> fwithin 0 1 (so_mu out) \<and>
    fwithin 0 (fval (max_brake_pressure (vh_params veh))) (so_brake_pressure out)"
proof -
  obtain out veh' where *: "vehicle_step lm veh bp dt = Inr (out, veh')" "vehicle_ok veh'"
    "fval (vs_v (vh_state veh')) \<le> fval (vs_v (vh_state veh))" "fwithin 0 1 (so_slip out)"
    "fwithin 0 (fval (tpD (t_params (vh_tire veh)))) (so_mu out)"
    "so_brake_pressure out = saturate (vh_params veh) bp"
    using vehicle_step_run [OF assms] by metis
  have "fval (tpD (t_params (vh_tire veh))) \<le> 1"
    using assms(2) fwithinD(5) by (auto simp: vehicle_ok_def params_ok_def)
  then have "fwithin 0 1 (so_mu out)" by (intro fwithin_weaken [OF *(5)]) simp_all
  moreover have "fwithin 0 512 (max_brake_pressure (vh_params veh))"
    using assms(2) by (simp add: vehicle_ok_def vparams_ok_def)
  ultimately show ?thesis using * saturate_within [OF _ assms(4,5)] by auto
qed

theorem vehicle_step_safe_witness:
  "\<exists>tr veh out veh'. PacejkaTire ''dry_asphalt'' = Inr tr \<and> Vehicle VehicleParams tr (flit 2778 100) = Inr veh \<and>
    vehicle_step bhaskara veh (flit 100 1) (flit 1 1000) = Inr (out, veh') \<and> vehicle_ok veh'"
proof -
  obtain tr where tr: "PacejkaTire ''dry_asphalt'' = Inr tr" using PacejkaTire_dry by blast
  have "fwithin 0 128 (flit 2778 100)" by (rule fwithin_weaken [OF v0_within]) simp_all
  then obtain veh where veh: "Vehicle VehicleParams tr (flit 2778 100) = Inr veh" "vehicle_ok veh"
    using Vehicle_ok [OF tr] by blast
  from vehicle_step_safe [OF bhaskara_ok veh(2) ms_within fwithinD(3) [OF bar100_within] not_NaN [OF bar100_within]]
  show ?thesis using tr veh by blast
qed

text \<open>Static friction: when the applied (saturated) pressure is above 1 bar, a step
  ends either at standstill, with both speeds zero, or at 1 m/s or more; it never ends in the band
  below \<open>V_STATIC_FREEZE\<close>.  This holds for every state and every floats.\<close>

theorem static_freeze:
  assumes "vehicle_step lm veh bp dt = Inr (out, veh')" and "flt (flit 1 1) (so_brake_pressure out)"
  shows "vs_v (vh_state veh') = f0 \<and> vs_omega (vh_state veh') = f0 \<or>
    \<not> flt (vs_v (vh_state veh')) V_STATIC_FREEZE"
  using vehicle_step_speeds [OF assms(1)] assms(2) by auto

theorem static_freeze_witness:
  "\<exists>tr veh out veh'. PacejkaTire ''ice'' = Inr tr \<and> Vehicle VehicleParams tr (flit 2 1) = Inr veh \<and>
    vehicle_step bhaskara veh (flit 100 1) (flit 1 1000) = Inr (out, veh') \<and>
    (vs_v (vh_state veh') = f0 \<and> vs_omega (vh_state veh') = f0 \<or>
      \<not> flt (vs_v (vh_state veh')) V_STATIC_FREEZE)"
proof -
  obtain tr where tr: "PacejkaTire ''ice'' = Inr tr" by (simp add: PacejkaTire_def SURFACES_def)
  have "fwithin 0 128 (flit 2 1)" by (rule fwithin_flit) simp_all
  then obtain veh where veh: "Vehicle VehicleParams tr (flit 2 1) = Inr veh" "vehicle_ok veh"
      "vh_params veh = VehicleParams"
    using Vehicle_ok [OF tr] by blast
  obtain out veh' where st: "vehicle_step bhaskara veh (flit 100 1) (flit 1 1000) = Inr (out, veh')"
      "so_brake_pressure out = saturate (vh_params veh) (flit 100 1)"
    using vehicle_step_run [OF bhaskara_ok veh(2) ms_within fwithinD(3) [OF bar100_within] not_NaN [OF bar100_within]]
    by metis
  have "saturate VehicleParams (flit 100 1) = flit 100 1"
    by (simp add: saturate_def VehicleParams_def flt_fin)
  then have "flt (flit 1 1) (so_brake_pressure out)" using st(2) veh(3) by (simp add: flt_fin)
  from static_freeze [OF st(1) this] show ?thesis using tr veh st(1) by blast
qed

text \<open>Standstill is absorbing: a car at speed zero stays at speed zero and does not
  move, whatever the pressure and the wheel speed are.\<close>

theorem parked_stays_parked:
  assumes "libm_ok lm" and "vehicle_ok veh" and "fwithin 0 (1/64) dt" and "pyf bp" and "bp \<noteq> NaN"
    and "fval (vs_v (vh_state veh)) = 0" and "is_fin (vs_x (vh_state veh))"
    and "vehicle_step lm veh bp dt = Inr (out, veh')"
    and "fval (vs_x (vh_state veh)) \<le> 1000000" and "0 \<le> fval (vs_x (vh_state veh))"
  shows "fval (vs_v (vh_state veh')) = 0 \<and> is_fin (vs_x (vh_state veh')) \<and>
    fval (vs_x (vh_state veh')) = fval (vs_x (vh_state veh))"
proof -
  let ?s = "vh_state veh" and ?p = "vh_params veh"
  obtain slip mu decel alpha where sig:
    "compute_slip (vs_v ?s) (vs_omega ?s) (wheel_radius ?p) (flit 1 1) = Inr slip"
    "tire_mu lm (vh_tire veh) slip = Inr mu"
    "fdiv (fmul (fmul mu (mass_quarter ?p)) G) (mass_quarter ?p) = Inr decel" "fwithin 0 1024 decel"
    "fdiv (fsub (fmul (fmul (fmul mu (mass_quarter ?p)) G) (wheel_radius ?p))
       (fmul (brake_gain ?p) (saturate ?p bp))) (wheel_inertia ?p) = Inr alpha"
    "fval mu = 0 \<Longrightarrow> fwithin (- 32768) 0 alpha \<and> fval decel = 0"
    using step_signals [OF assms(1-5)] by metis
  have v: "fwithin 0 0 (vs_v ?s)" using assms(2,6) by (simp add: vehicle_ok_def fwithin_def)
  have "flt (fabs (vs_v ?s)) (flit 1 1)" using fwithinD [OF v] assms(6) by (simp add: flt_fin fabs_spec)
  then have "slip = f0" using sig(1) by (simp add: compute_slip_def)
  moreover have "params_ok (t_params (vh_tire veh))" using assms(2) by (simp add: vehicle_ok_def)
  ultimately obtain m where "tire_mu lm (vh_tire veh) slip = Inr m" "fzero m"
    using tire_mu_zero [OF assms(1), of "vh_tire veh" slip] by auto
  then have "fval mu = 0" using sig(2) by (cases m) auto
  then have d: "fwithin 0 0 decel" using sig(4,6) by (simp add: fwithin_def)
  let ?dv = "fmul (fneg decel) dt"
  let ?v1 = "fadd (vs_v ?s) ?dv"
  have "fwithin 0 0 (fneg decel)" using fwithin_fneg [OF d] by simp
  then have dv: "fwithin 0 0 ?dv" by (rule fwithin_fmul [OF _ assms(3)]) simp_all
  have v1: "fwithin 0 0 ?v1" by (rule fwithin_fadd [OF v dv]) simp_all
  have "fwithin 0 0 (fmul (flit 1 2) ?dv)" by (rule fwithin_fmul [OF half_within dv]) simp_all
  then have "fwithin 0 0 (fmul (fmul (flit 1 2) ?dv) dt)" by (rule fwithin_fmul [OF _ assms(3)]) simp_all
  moreover have "fwithin 0 0 (fmul ?v1 dt)" by (rule fwithin_fmul [OF v1 assms(3)]) simp_all
  ultimately have inc: "fwithin 0 0 (fadd (fmul ?v1 dt) (fmul (fmul (flit 1 2) ?dv) dt))"
    by (auto intro: fwithin_fadd)
  let ?x = "fval (vs_x ?s)"
  have x: "fwithin ?x ?x (vs_x ?s)" "fwithin 0 1000000 (vs_x ?s)"
    using assms(2,7,9,10) by (auto simp: vehicle_ok_def fwithin_def)
  have "bnd ?x" by (rule fwithin_bnd [OF x(2)]) simp_all
  then have x1: "fwithin ?x ?x (fadd (vs_x ?s) (fadd (fmul ?v1 dt) (fmul (fmul (flit 1 2) ?dv) dt)))"
    by (intro fwithin_fadd [OF x(1) inc]) simp_all
  have "vs_x (vh_state veh') = fadd (vs_x ?s) (fadd (fmul ?v1 dt) (fmul (fmul (flit 1 2) ?dv) dt))"
    "vs_v (vh_state veh') = f0 \<or> vs_v (vh_state veh') = ?v1"
    using assms(8) sig(1,2,3,5) by (auto simp: vehicle_step_def Let_def split: if_splits)
  then show ?thesis using x1 v1 by (auto simp: fwithin_def)
qed

theorem parked_stays_parked_witness:
  "\<exists>tr veh out veh'. PacejkaTire ''ice'' = Inr tr \<and> Vehicle VehicleParams tr f0 = Inr veh \<and>
    vehicle_step bhaskara veh (flit 100 1) (flit 1 1000) = Inr (out, veh') \<and>
    fval (vs_v (vh_state veh')) = 0 \<and> fval (vs_x (vh_state veh')) = 0"
proof -
  obtain tr where tr: "PacejkaTire ''ice'' = Inr tr" by (simp add: PacejkaTire_def SURFACES_def)
  have "fwithin 0 128 f0" by (rule fwithin_weaken [OF fwithin_f0]) simp_all
  then obtain veh where veh: "Vehicle VehicleParams tr f0 = Inr veh" "vehicle_ok veh"
      "vs_v (vh_state veh) = f0" "vs_x (vh_state veh) = f0"
    using Vehicle_ok [OF tr] by blast
  note bp = fwithinD(3) [OF bar100_within] not_NaN [OF bar100_within]
  obtain out veh' where st: "vehicle_step bhaskara veh (flit 100 1) (flit 1 1000) = Inr (out, veh')"
    using vehicle_step_run [OF bhaskara_ok veh(2) ms_within bp] by metis
  from parked_stays_parked [OF bhaskara_ok veh(2) ms_within bp _ _ st] veh
  show ?thesis using tr st by auto
qed

end
