(* ===== verification/Faults.thy ===== *)
theory Faults
  imports Stream_Decoding Vehicle
begin

unbundle bit_operations_syntax

text \<open>
  \<^verbatim>\<open>plant/fault_injector.py\<close>: the faults of the FMEA and their composition.  A fault is its window,
  its name and its kind; the mutable attributes of a fault object (\<^verbatim>\<open>_frozen_omega\<close>, \<^verbatim>\<open>_counter\<close>,
  \<^verbatim>\<open>_restore\<close>, the generator) are arguments of the kind and the operations return the fault updated.
  The Gaussian generator is a parameter: \<open>gauss n sigma\<close> is the \<open>n\<close>-th draw of the seeded
  generator.  The faults of one injector are distinct objects.
\<close>

section \<open>Faults\<close>

datatype fault_kind =
    StuckSensorFault "pyfloat option"
  | NoisySensorFault pyfloat nat
  | RangeViolationFault pyfloat
  | CommLossFault
  | CrcCorruptionFault int int int
  | IcePatchFault string "string option"

record fault =
  ft_t_start_s :: pyfloat
  ft_t_end_s :: pyfloat
  ft_name :: string
  ft_kind :: fault_kind

type_synonym gauss = "nat \<Rightarrow> pyfloat \<Rightarrow> pyfloat"

definition is_active :: "fault \<Rightarrow> pyfloat \<Rightarrow> bool" where
  "is_active f t_s = (fle (ft_t_start_s f) t_s \<and> fle t_s (ft_t_end_s f))"

definition stuck_apply :: "fault \<Rightarrow> pyfloat option \<Rightarrow> sensor_frame \<Rightarrow> pyfloat \<Rightarrow> sensor_frame option \<times> fault" where
  "stuck_apply f frozen frame t_s =
    (if \<not> is_active f t_s then (Some frame, f\<lparr>ft_kind := StuckSensorFault None\<rparr>)
     else let w = (case frozen of None \<Rightarrow> sf_omega_wheel frame | Some w \<Rightarrow> w)
          in (Some \<lparr>sf_timestamp_ms = sf_timestamp_ms frame, sf_v_vehicle = sf_v_vehicle frame,
                    sf_omega_wheel = w, sf_brake_pressure = sf_brake_pressure frame,
                    sf_fault_flags = sf_fault_flags frame OR FF_INJECTED_STUCK\<rparr>,
              f\<lparr>ft_kind := StuckSensorFault (Some w)\<rparr>))"

definition noisy_apply :: "gauss \<Rightarrow> fault \<Rightarrow> pyfloat \<Rightarrow> nat \<Rightarrow> sensor_frame \<Rightarrow> pyfloat \<Rightarrow> sensor_frame option \<times> fault" where
  "noisy_apply gauss f sigma n frame t_s =
    (if \<not> is_active f t_s then (Some frame, f)
     else (Some \<lparr>sf_timestamp_ms = sf_timestamp_ms frame, sf_v_vehicle = sf_v_vehicle frame,
                 sf_omega_wheel = fadd (sf_omega_wheel frame) (gauss n sigma),
                 sf_brake_pressure = sf_brake_pressure frame,
                 sf_fault_flags = sf_fault_flags frame OR FF_INJECTED_NOISE\<rparr>,
           f\<lparr>ft_kind := NoisySensorFault sigma (Suc n)\<rparr>))"

definition range_apply :: "fault \<Rightarrow> pyfloat \<Rightarrow> sensor_frame \<Rightarrow> pyfloat \<Rightarrow> sensor_frame option \<times> fault" where
  "range_apply f bad_omega frame t_s =
    (if \<not> is_active f t_s then (Some frame, f)
     else (Some \<lparr>sf_timestamp_ms = sf_timestamp_ms frame, sf_v_vehicle = sf_v_vehicle frame,
                 sf_omega_wheel = bad_omega, sf_brake_pressure = sf_brake_pressure frame,
                 sf_fault_flags = sf_fault_flags frame OR FF_INJECTED_RANGE\<rparr>, f))"

definition comm_loss_apply :: "fault \<Rightarrow> sensor_frame \<Rightarrow> pyfloat \<Rightarrow> sensor_frame option \<times> fault" where
  "comm_loss_apply f frame t_s = (if is_active f t_s then (None, f) else (Some frame, f))"

definition apply_to_sensor :: "gauss \<Rightarrow> fault \<Rightarrow> sensor_frame \<Rightarrow> pyfloat \<Rightarrow> sensor_frame option \<times> fault" where
  "apply_to_sensor gauss f frame t_s = (case ft_kind f of
     StuckSensorFault frozen \<Rightarrow> stuck_apply f frozen frame t_s
   | NoisySensorFault sigma n \<Rightarrow> noisy_apply gauss f sigma n frame t_s
   | RangeViolationFault bad_omega \<Rightarrow> range_apply f bad_omega frame t_s
   | CommLossFault \<Rightarrow> comm_loss_apply f frame t_s
   | CrcCorruptionFault _ _ _ \<Rightarrow> (Some frame, f)
   | IcePatchFault _ _ \<Rightarrow> (Some frame, f))"

text \<open>Python's \<^verbatim>\<open>b[i] ^= 0xFF\<close> on a bytearray, with its negative indices.\<close>

definition flip_byte :: "bytes \<Rightarrow> int \<Rightarrow> bytes py" where
  "flip_byte b i = (let j = (if i < 0 then i + int (length b) else i) in
     if j < 0 \<or> int (length b) \<le> j then Inl IndexError
     else Inr (b[nat j := b ! nat j XOR 0xFF]))"

definition mutate_wire :: "fault \<Rightarrow> int \<Rightarrow> int \<Rightarrow> int \<Rightarrow> bytes \<Rightarrow> pyfloat \<Rightarrow> (bytes \<times> fault) py" where
  "mutate_wire f every_n flip_byte_offset counter wire t_s =
    (if \<not> is_active f t_s then Inr (wire, f)
     else let counter = counter + 1;
              f = f\<lparr>ft_kind := CrcCorruptionFault every_n flip_byte_offset counter\<rparr>
          in if every_n = 0 then Inl ZeroDivisionError
             else if counter mod every_n \<noteq> 0 then Inr (wire, f)
             else if int (length wire) - 2 \<le> flip_byte_offset then Inr (wire, f)
             else py_bind (flip_byte wire flip_byte_offset) (\<lambda>b. Inr (b, f)))"

definition apply_in_plant :: "fault \<Rightarrow> string \<Rightarrow> string option \<Rightarrow> pacejka_tire \<Rightarrow> pyfloat \<Rightarrow> (pacejka_tire \<times> fault) py" where
  "apply_in_plant f target_surface restore tire t_s =
    (if is_active f t_s
     then let restore = (case restore of None \<Rightarrow> Some (t_surface tire) | Some s \<Rightarrow> Some s);
              f = f\<lparr>ft_kind := IcePatchFault target_surface restore\<rparr>
          in if t_surface tire \<noteq> target_surface
             then py_bind (set_surface tire target_surface) (\<lambda>tire. Inr (tire, f))
             else Inr (tire, f)
     else (case restore of
         None \<Rightarrow> Inr (tire, f)
       | Some s \<Rightarrow> if t_surface tire \<noteq> s
           then py_bind (set_surface tire s) (\<lambda>tire.
             Inr (tire, f\<lparr>ft_kind := IcePatchFault target_surface None\<rparr>))
           else Inr (tire, f)))"

section \<open>Construction\<close>

text \<open>The dataclass constructors with the fields' defaults: the name of each class and its hidden state.\<close>

definition new_stuck :: "pyfloat \<Rightarrow> pyfloat \<Rightarrow> fault" where
  "new_stuck t0 t1 = \<lparr>ft_t_start_s = t0, ft_t_end_s = t1, ft_name = ''stuck_sensor'', ft_kind = StuckSensorFault None\<rparr>"

definition new_noisy :: "pyfloat \<Rightarrow> pyfloat \<Rightarrow> pyfloat \<Rightarrow> fault" where
  "new_noisy t0 t1 sigma = \<lparr>ft_t_start_s = t0, ft_t_end_s = t1, ft_name = ''noisy_sensor'',
     ft_kind = NoisySensorFault sigma 0\<rparr>"

definition new_range :: "pyfloat \<Rightarrow> pyfloat \<Rightarrow> pyfloat \<Rightarrow> fault" where
  "new_range t0 t1 bad_omega = \<lparr>ft_t_start_s = t0, ft_t_end_s = t1, ft_name = ''range_violation'',
     ft_kind = RangeViolationFault bad_omega\<rparr>"

definition new_comm_loss :: "pyfloat \<Rightarrow> pyfloat \<Rightarrow> fault" where
  "new_comm_loss t0 t1 = \<lparr>ft_t_start_s = t0, ft_t_end_s = t1, ft_name = ''comm_loss'', ft_kind = CommLossFault\<rparr>"

definition new_crc_corruption :: "pyfloat \<Rightarrow> pyfloat \<Rightarrow> int \<Rightarrow> int \<Rightarrow> fault" where
  "new_crc_corruption t0 t1 every_n flip_byte_offset = \<lparr>ft_t_start_s = t0, ft_t_end_s = t1,
     ft_name = ''crc_corruption'', ft_kind = CrcCorruptionFault every_n flip_byte_offset 0\<rparr>"

definition new_ice_patch :: "pyfloat \<Rightarrow> pyfloat \<Rightarrow> string \<Rightarrow> fault" where
  "new_ice_patch t0 t1 target_surface = \<lparr>ft_t_start_s = t0, ft_t_end_s = t1, ft_name = ''ice_patch'',
     ft_kind = IcePatchFault target_surface None\<rparr>"

section \<open>The injector\<close>

type_synonym fault_injector = "fault list"

definition injector_add :: "fault_injector \<Rightarrow> fault \<Rightarrow> fault_injector" where
  "injector_add faults f = faults @ [f]"

fun filter_sensor :: "gauss \<Rightarrow> pyfloat \<Rightarrow> fault_injector \<Rightarrow> sensor_frame option \<Rightarrow> sensor_frame option \<times> fault_injector" where
  "filter_sensor gauss t_s [] out = (out, [])"
| "filter_sensor gauss t_s (f # fs) None = (None, f # fs)"
| "filter_sensor gauss t_s (f # fs) (Some frame) =
     (let (out, f') = apply_to_sensor gauss f frame t_s;
          (out', fs') = filter_sensor gauss t_s fs out
      in (out', f' # fs'))"

fun filter_wire :: "pyfloat \<Rightarrow> fault_injector \<Rightarrow> bytes \<Rightarrow> (bytes \<times> fault_injector) py" where
  "filter_wire t_s [] wire = Inr (wire, [])"
| "filter_wire t_s (f # fs) wire =
     py_bind (case ft_kind f of
         CrcCorruptionFault every_n off counter \<Rightarrow> mutate_wire f every_n off counter wire t_s
       | _ \<Rightarrow> Inr (wire, f)) (\<lambda>(wire, f').
     py_bind (filter_wire t_s fs wire) (\<lambda>(wire, fs'). Inr (wire, f' # fs')))"

fun apply_environment :: "pyfloat \<Rightarrow> fault_injector \<Rightarrow> pacejka_tire \<Rightarrow> (pacejka_tire \<times> fault_injector) py" where
  "apply_environment t_s [] tire = Inr (tire, [])"
| "apply_environment t_s (f # fs) tire =
     py_bind (case ft_kind f of
         IcePatchFault target restore \<Rightarrow> apply_in_plant f target restore tire t_s
       | _ \<Rightarrow> Inr (tire, f)) (\<lambda>(tire, f').
     py_bind (apply_environment t_s fs tire) (\<lambda>(tire, fs'). Inr (tire, f' # fs')))"

definition active_names :: "fault_injector \<Rightarrow> pyfloat \<Rightarrow> string list" where
  "active_names faults t_s = map ft_name (filter (\<lambda>f. is_active f t_s) faults)"

end
