(* ===== verification/Fault_Properties.thy ===== *)
theory Fault_Properties
  imports Faults
begin

unbundle bit_operations_syntax

text \<open>
  What the faults of \<^verbatim>\<open>plant/fault_injector.py\<close> do over a run: inactive faults are transparent, a
  corrupted wire is always detected by the decoder, corruption is periodic, a stuck sensor freezes
  the first value of its window, a communication loss stops the chain, and an ice patch restores
  the surface it found (two overlapping ones need not).
\<close>

section \<open>Runs\<close>

fun sensor_run :: "gauss \<Rightarrow> fault_injector \<Rightarrow> (sensor_frame \<times> pyfloat) list \<Rightarrow> sensor_frame option list" where
  "sensor_run gauss fs [] = []"
| "sensor_run gauss fs ((frame, t) # xs) =
     (let (out, fs') = filter_sensor gauss t fs (Some frame) in out # sensor_run gauss fs' xs)"

fun wire_run :: "fault_injector \<Rightarrow> bytes \<Rightarrow> pyfloat list \<Rightarrow> bytes list py" where
  "wire_run fs wire [] = Inr []"
| "wire_run fs wire (t # ts) =
     py_bind (filter_wire t fs wire) (\<lambda>(w, fs'). py_bind (wire_run fs' wire ts) (\<lambda>ws. Inr (w # ws)))"

fun environment_run :: "fault_injector \<Rightarrow> pacejka_tire \<Rightarrow> pyfloat list \<Rightarrow> (pacejka_tire \<times> fault_injector) py" where
  "environment_run fs tire [] = Inr (tire, fs)"
| "environment_run fs tire (t # ts) =
     py_bind (apply_environment t fs tire) (\<lambda>(tire, fs'). environment_run fs' tire ts)"

section \<open>Inactive faults\<close>

lemma filter_sensor_inactive:
  "\<forall>f \<in> set fs. \<not> is_active f t \<Longrightarrow> fst (filter_sensor gauss t fs (Some frame)) = Some frame"
  by (induction fs)
    (auto simp: apply_to_sensor_def stuck_apply_def noisy_apply_def range_apply_def comm_loss_apply_def
      Let_def split: fault_kind.split prod.split)

lemma filter_wire_inactive:
  "\<forall>f \<in> set fs. \<not> is_active f t \<Longrightarrow> filter_wire t fs wire = Inr (wire, fs)"
  by (induction fs) (auto simp: mutate_wire_def split: fault_kind.split)

text \<open>Faults outside their window are transparent: the sensor frame and the wire bytes pass
  unchanged, and no fault is reported as active.\<close>

theorem inactive_transparent:
  assumes "\<forall>f \<in> set fs. \<not> is_active f t"
  shows "fst (filter_sensor gauss t fs (Some frame)) = Some frame \<and>
    filter_wire t fs wire = Inr (wire, fs) \<and> active_names fs t = []"
  using filter_sensor_inactive [OF assms] filter_wire_inactive [OF assms] assms
  by (auto simp: active_names_def filter_empty_conv)

theorem inactive_transparent_witness:
  "fst (filter_sensor (\<lambda>n s. f0) f0 [\<lparr>ft_t_start_s = flit 1 1, ft_t_end_s = flit 2 1, ft_name = ''comm_loss'',
      ft_kind = CommLossFault\<rparr>] (Some (sensor_frame.make 0 f0 f0 f0 0))) = Some (sensor_frame.make 0 f0 f0 f0 0)"
  using inactive_transparent [of "[\<lparr>ft_t_start_s = flit 1 1, ft_t_end_s = flit 2 1, ft_name = ''comm_loss'',
      ft_kind = CommLossFault\<rparr>]" f0] fwithin_flit [of 1 1 1 1]
  by (simp add: is_active_def fle_fin fwithin_def)

section \<open>Communication loss\<close>

text \<open>An active communication loss drops the frame whatever the other faults are, and the faults
  after it keep their state.\<close>

theorem comm_loss_drops:
  assumes "ft_kind f = CommLossFault" and "is_active f t"
  shows "fst (filter_sensor gauss t (fs @ f # gs) (Some frame)) = None \<and>
    (\<exists>fs'. length fs' = length fs \<and> snd (filter_sensor gauss t (fs @ f # gs) (Some frame)) = fs' @ f # gs)"
proof (induction fs arbitrary: frame)
  case Nil
  show ?case using assms by (cases gs) (simp_all add: apply_to_sensor_def comm_loss_apply_def)
next
  case (Cons h fs)
  obtain out h' where h: "apply_to_sensor gauss h frame t = (out, h')" by force
  show ?case
  proof (cases out)
    case None
    have "filter_sensor gauss t (fs @ f # gs) None = (None, fs @ f # gs)" by (cases fs) simp_all
    then show ?thesis using h None by (intro conjI exI [of _ "h' # fs"]) simp_all
  next
    case (Some fr)
    obtain o' fs1 where r: "filter_sensor gauss t (fs @ f # gs) (Some fr) = (o', fs1)" by force
    with Cons.IH [of fr] obtain fs' where "o' = None" "length fs' = length fs" "fs1 = fs' @ f # gs" by auto
    then show ?thesis using h Some r by (intro conjI exI [of _ "h' # fs'"]) simp_all
  qed
qed

theorem comm_loss_drops_witness:
  "fst (filter_sensor (\<lambda>n s. f0) f0 [\<lparr>ft_t_start_s = f0, ft_t_end_s = flit 2 1, ft_name = ''comm_loss'',
      ft_kind = CommLossFault\<rparr>] (Some (sensor_frame.make 0 f0 f0 f0 0))) = None"
  using comm_loss_drops [of "\<lparr>ft_t_start_s = f0, ft_t_end_s = flit 2 1, ft_name = ''comm_loss'',
      ft_kind = CommLossFault\<rparr>" f0 "\<lambda>n s. f0" "[]" "[]" "sensor_frame.make 0 f0 f0 f0 0"]
  by (simp add: is_active_def fle_fin)

section \<open>CRC corruption\<close>

lemma xor_ff_neq: "x XOR 0xFF \<noteq> x" for x :: byte
proof
  assume "x XOR 0xFF = x"
  then have "x XOR (x XOR 0xFF) = 0" by simp
  then have "(0xFF :: byte) = 0" by (simp only: xor.assoc [symmetric] xor_self_eq xor.left_neutral)
  then show False by simp
qed

lemma flip_byte_ok:
  "0 \<le> i \<Longrightarrow> i < int (length b) \<Longrightarrow> flip_byte b i = Inr (b[nat i := b ! nat i XOR 0xFF])"
  by (simp add: flip_byte_def)

lemma mutate_wire_active:
  assumes "is_active f t" "0 < n" "0 \<le> off" "off < int (length w) - 2"
  shows "mutate_wire f n off c w t =
    Inr (if n dvd c + 1 then w[nat off := w ! nat off XOR 0xFF] else w,
         f\<lparr>ft_kind := CrcCorruptionFault n off (c + 1)\<rparr>)"
  using assms flip_byte_ok [of off w] by (simp add: mutate_wire_def Let_def dvd_eq_mod_eq_0)

text \<open>When the CRC fault corrupts an encoded frame anywhere after its header, the bytes really
  change and the decoder detects it: it counts one CRC error and delivers nothing from the frame.\<close>

theorem crc_fault_detected:
  assumes "encode_frame t p = Inr w" and "is_active f ts" and "0 < n" and "n dvd c + 1"
    and "5 \<le> off" and "off < int (length w) - 2" and "dc_buf d = []"
  shows "\<exists>w'. mutate_wire f n off c w ts = Inr (w', f\<lparr>ft_kind := CrcCorruptionFault n off (c + 1)\<rparr>) \<and>
    w' \<noteq> w \<and> (\<forall>rest. try_step (feed (w' @ rest) d) =
      (None, d\<lparr>dc_errors_crc := dc_errors_crc d + 1, dc_buf := drop 2 w' @ rest\<rparr>))"
proof -
  have e: "t \<in> {1, 2}" "length p \<le> 64" "w = frame_bytes t p"
    using assms(1) by (auto simp: encode_frame_eq split: if_splits)
  let ?w = "w[nat off := w ! nat off XOR 0xFF]"
  have l: "5 \<le> nat off" "nat off < length p + 7" "nat off < length w" using assms(5,6) e(3) by simp_all
  have "w ! nat off XOR 0xFF \<noteq> w ! nat off" by (rule xor_ff_neq)
  then have "?w \<noteq> w" using l(3) by (metis nth_list_update_eq)
  moreover have "try_step (feed (?w @ rest) d) =
      (None, d\<lparr>dc_errors_crc := dc_errors_crc d + 1, dc_buf := drop 2 ?w @ rest\<rparr>)" for rest
    unfolding e(3) by (rule try_step_corrupted [OF e(1,2) l(1,2) _ assms(7)]) (rule xor_ff_neq)
  ultimately show ?thesis using mutate_wire_active [OF assms(2,3) _ assms(6), of c] assms(4,5) by simp
qed

theorem crc_fault_detected_witness:
  "\<exists>w' f'. mutate_wire \<lparr>ft_t_start_s = f0, ft_t_end_s = Infin False, ft_name = ''crc'', ft_kind = CrcCorruptionFault 1 7 0\<rparr>
      1 7 0 (frame_bytes 1 (replicate 18 0)) f0 = Inr (w', f') \<and> w' \<noteq> frame_bytes 1 (replicate 18 0)"
  using crc_fault_detected [of 1 "replicate 18 0" "frame_bytes 1 (replicate 18 0)"
      "\<lparr>ft_t_start_s = f0, ft_t_end_s = Infin False, ft_name = ''crc'', ft_kind = CrcCorruptionFault 1 7 0\<rparr>" f0 1 0 7 FrameDecoder]
  by (auto simp: encode_frame_eq is_active_def fle_def FrameDecoder_def)

lemma crc_run:
  assumes "ft_kind f = CrcCorruptionFault n off c" "0 < n" "0 \<le> off" "off < int (length w) - 2"
    and "\<forall>t \<in> set ts. is_active f t"
  shows "wire_run [f] w ts = Inr (map (\<lambda>i. if n dvd c + 1 + int i then w[nat off := w ! nat off XOR 0xFF] else w) [0..<length ts])"
  using assms(1,5)
proof (induction ts arbitrary: f c)
  case (Cons t ts)
  let ?f = "f\<lparr>ft_kind := CrcCorruptionFault n off (c + 1)\<rparr>"
  have "is_active ?f = is_active f" by (simp add: is_active_def fun_eq_iff)
  then have "wire_run [?f] w ts = Inr (map (\<lambda>i. if n dvd c + 1 + 1 + int i then w[nat off := w ! nat off XOR 0xFF] else w) [0..<length ts])"
    using Cons.IH [of ?f "c + 1"] Cons.prems by simp
  moreover have "[0..<length (t # ts)] = 0 # map Suc [0..<length ts]"
    by (simp add: upt_conv_Cons map_Suc_upt del: upt_Suc)
  ultimately show ?case
    using mutate_wire_active [of f t n off w c] Cons.prems assms(2-4)
    by (simp add: comp_def add.assoc del: upt_Suc)
qed simp

text \<open>The corruption is periodic: of the frames sent in the fault's window, with the counter at
  zero, exactly every \<open>every_n\<close>-th is altered.\<close>

theorem crc_fault_period:
  assumes "ft_kind f = CrcCorruptionFault n off 0" "0 < n" "0 \<le> off" "off < int (length w) - 2"
    and "\<forall>t \<in> set ts. is_active f t"
  shows "\<exists>ws. wire_run [f] w ts = Inr ws \<and> length ws = length ts \<and>
    (\<forall>i < length ts. ws ! i \<noteq> w \<longleftrightarrow> n dvd int (i + 1))"
proof -
  have "nat off < length w" using assms(3,4) by simp
  then have "w[nat off := w ! nat off XOR 0xFF] \<noteq> w" by (metis nth_list_update_eq xor_ff_neq)
  then show ?thesis using crc_run [OF assms] by (simp add: add.commute)
qed

theorem crc_fault_period_witness:
  "\<exists>ws. wire_run [\<lparr>ft_t_start_s = f0, ft_t_end_s = Infin False, ft_name = ''crc'', ft_kind = CrcCorruptionFault 2 7 0\<rparr>]
      (replicate 25 0) [f0, f0, f0] = Inr ws \<and> ws ! 0 = replicate 25 0 \<and> ws ! 1 \<noteq> replicate 25 0"
  using crc_fault_period [of "\<lparr>ft_t_start_s = f0, ft_t_end_s = Infin False, ft_name = ''crc'', ft_kind = CrcCorruptionFault 2 7 0\<rparr>"
      2 7 "replicate 25 0" "[f0, f0, f0]"]
  by (auto simp: is_active_def fle_def)

section \<open>Stuck sensor\<close>

lemma stuck_run_frozen:
  assumes "ft_kind f = StuckSensorFault (Some w)" "\<forall>(fr, t) \<in> set xs. is_active f t"
  shows "sensor_run gauss [f] xs = map (\<lambda>(fr, t). Some (fr\<lparr>sf_omega_wheel := w,
    sf_fault_flags := sf_fault_flags fr OR FF_INJECTED_STUCK\<rparr>)) xs"
  using assms
proof (induction xs arbitrary: f)
  case (Cons x xs)
  obtain fr t where x: "x = (fr, t)" by force
  have "is_active (f\<lparr>ft_kind := StuckSensorFault (Some w)\<rparr>) = is_active f"
    by (simp add: is_active_def fun_eq_iff)
  then show ?case
    using Cons.IH [of "f\<lparr>ft_kind := StuckSensorFault (Some w)\<rparr>"] Cons.prems
    by (simp add: x apply_to_sensor_def stuck_apply_def)
qed simp

text \<open>A stuck sensor freezes: from the first sample of its window on, the wheel speed sent is the one
  of that first sample, the flag is set, and nothing else of the frame changes; before the window
  the frames pass unchanged.\<close>

theorem stuck_sensor_freezes:
  assumes "ft_kind f = StuckSensorFault None"
    and "\<forall>(fr, t) \<in> set before. \<not> is_active f t"
    and "is_active f t0" and "\<forall>(fr, t) \<in> set during. is_active f t"
  shows "sensor_run gauss [f] (before @ (fr0, t0) # during) =
    map (\<lambda>(fr, t). Some fr) before @
    map (\<lambda>(fr, t). Some (fr\<lparr>sf_omega_wheel := sf_omega_wheel fr0,
      sf_fault_flags := sf_fault_flags fr OR FF_INJECTED_STUCK\<rparr>)) ((fr0, t0) # during)"
  using assms(2)
proof (induction before)
  case Nil
  let ?f = "f\<lparr>ft_kind := StuckSensorFault (Some (sf_omega_wheel fr0))\<rparr>"
  have "is_active ?f = is_active f" by (simp add: is_active_def fun_eq_iff)
  then have "sensor_run gauss [?f] during = map (\<lambda>(fr, t). Some (fr\<lparr>sf_omega_wheel := sf_omega_wheel fr0,
      sf_fault_flags := sf_fault_flags fr OR FF_INJECTED_STUCK\<rparr>)) during"
    using stuck_run_frozen [of ?f] assms(4) by simp
  then show ?case using assms(1,3) by (cases fr0) (simp add: apply_to_sensor_def stuck_apply_def Let_def)
next
  case (Cons x before)
  have k: "f\<lparr>ft_kind := StuckSensorFault None\<rparr> = f" using assms(1) by simp
  show ?case using Cons assms(1) by (auto simp: apply_to_sensor_def stuck_apply_def k)
qed

theorem stuck_sensor_freezes_witness:
  "sensor_run (\<lambda>n s. f0) [\<lparr>ft_t_start_s = f0, ft_t_end_s = Infin False, ft_name = ''stuck'', ft_kind = StuckSensorFault None\<rparr>]
     [(sensor_frame.make 0 f0 (flit 7 1) f0 0, f0), (sensor_frame.make 1 f0 (flit 9 1) f0 0, f0)] =
   [Some (sensor_frame.make 0 f0 (flit 7 1) f0 1), Some (sensor_frame.make 1 f0 (flit 7 1) f0 1)]"
  using stuck_sensor_freezes [of "\<lparr>ft_t_start_s = f0, ft_t_end_s = Infin False, ft_name = ''stuck'', ft_kind = StuckSensorFault None\<rparr>"
      "[]" f0 "[(sensor_frame.make 1 f0 (flit 9 1) f0 0, f0)]" "\<lambda>n s. f0" "sensor_frame.make 0 f0 (flit 7 1) f0 0"]
  by (simp add: is_active_def fle_def sensor_frame.make_def FF_INJECTED_STUCK_def)

section \<open>Ice patch\<close>

lemma set_surface_ok: "tire_ok t \<Longrightarrow> set_surface t s = PacejkaTire s"
  by (auto simp: set_surface_def PacejkaTire_def split: option.split)

lemma surface_tire: "tire_ok t \<Longrightarrow> PacejkaTire (t_surface t) = Inr t"
  by (simp add: PacejkaTire_def tire_ok_def)

text \<open>The two situations between calls: not on the patch (or on a patch with the road's own surface),
  and on the patch.\<close>

definition patch_state :: "pacejka_tire \<Rightarrow> pacejka_tire \<Rightarrow> pacejka_tire \<Rightarrow> string option \<Rightarrow> bool" where
  "patch_state road ice tire restore \<longleftrightarrow> tire = road \<and> (restore = None \<or> ice = road \<and> restore = Some (t_surface road)) \<or>
     tire = ice \<and> restore = Some (t_surface road)"

lemma patch_step:
  assumes "tire_ok road" "PacejkaTire target = Inr ice" "patch_state road ice tire restore"
    and that: "ft_kind f = IcePatchFault target restore"
  shows "\<exists>restore'. apply_in_plant f target restore tire t =
      Inr (if is_active f t then ice else road, f\<lparr>ft_kind := IcePatchFault target restore'\<rparr>) \<and>
    patch_state road ice (if is_active f t then ice else road) restore'"
proof -
  have i: "tire_ok ice" "t_surface ice = target" using PacejkaTire_ok assms(2) by auto
  have s: "t_surface road \<noteq> target \<Longrightarrow> road \<noteq> ice" "t_surface road = target \<Longrightarrow> road = ice"
    using i surface_tire [OF assms(1)] assms(2) by auto
  have r: "set_surface ice (t_surface road) = Inr road" "set_surface road target = Inr ice"
    using set_surface_ok [OF i(1)] set_surface_ok [OF assms(1)] surface_tire [OF assms(1)] assms(2) by simp_all
  have k: "f\<lparr>ft_kind := IcePatchFault target restore\<rparr> = f" using that by simp
  show ?thesis
    using assms(3) r s i(2) k unfolding patch_state_def apply_in_plant_def Let_def
    by (cases "t_surface road = target") (auto split: option.splits, metis+)
qed

lemma patch_run:
  assumes "tire_ok road" "PacejkaTire target = Inr ice" "patch_state road ice tire restore"
    and "ft_kind f = IcePatchFault target restore"
  shows "\<exists>f'. environment_run [f] tire ts =
    Inr (if ts = [] then tire else if is_active f (last ts) then ice else road, [f'])"
  using assms(3,4)
proof (induction ts arbitrary: tire restore f)
  case (Cons t ts)
  obtain restore' where r: "apply_in_plant f target restore tire t =
      Inr (if is_active f t then ice else road, f\<lparr>ft_kind := IcePatchFault target restore'\<rparr>)"
    "patch_state road ice (if is_active f t then ice else road) restore'"
    using patch_step [OF assms(1,2) Cons.prems] by blast
  have a: "is_active (f\<lparr>ft_kind := k\<rparr>) = is_active f" for k by (simp add: is_active_def fun_eq_iff)
  have "\<exists>f'. environment_run [f\<lparr>ft_kind := IcePatchFault target restore'\<rparr>] (if is_active f t then ice else road) ts =
      Inr (if ts = [] then if is_active f t then ice else road else if is_active f (last ts) then ice else road, [f'])"
    using Cons.IH [OF r(2), of "f\<lparr>ft_kind := IcePatchFault target restore'\<rparr>"] unfolding a by simp
  then show ?case using r(1) Cons.prems(2) by (cases "ts = []") auto
qed simp

text \<open>C32: The ice patch: whatever the times of the calls, after them the tire is on the patch's surface if
  the last call was in the window and otherwise has exactly its original surface and parameters.\<close>

theorem ice_patch_restores:
  assumes "tire_ok road" and "PacejkaTire target = Inr ice" and "ft_kind f = IcePatchFault target None"
  shows "\<exists>f'. environment_run [f] road ts =
    Inr (if ts \<noteq> [] \<and> is_active f (last ts) then ice else road, [f'])"
  using patch_run [OF assms(1,2) _ assms(3), of road ts] by (auto simp: patch_state_def split: if_splits)

theorem ice_patch_restores_witness:
  "\<exists>road ice f'. PacejkaTire ''dry_asphalt'' = Inr road \<and> PacejkaTire ''ice'' = Inr ice \<and> road \<noteq> ice \<and>
    environment_run [\<lparr>ft_t_start_s = f0, ft_t_end_s = Infin False, ft_name = ''ice_patch'', ft_kind = IcePatchFault ''ice'' None\<rparr>]
      road [f0] = Inr (ice, [f'])"
proof -
  obtain road ice where t: "PacejkaTire ''dry_asphalt'' = Inr road" "PacejkaTire ''ice'' = Inr ice"
    by (simp add: PacejkaTire_def SURFACES_def)
  then have "road \<noteq> ice" using PacejkaTire_ok [OF t(1)] PacejkaTire_ok [OF t(2)] by auto
  then show ?thesis
    using ice_patch_restores [of road "''ice''" ice "\<lparr>ft_t_start_s = f0, ft_t_end_s = Infin False,
        ft_name = ''ice_patch'', ft_kind = IcePatchFault ''ice'' None\<rparr>" "[f0]"] t PacejkaTire_ok [OF t(1)]
    by (auto simp: is_active_def fle_def)
qed

text \<open>Two patches with overlapping windows do not restore the road: with ice in \<open>[1, 3]\<close> and snow in
  \<open>[2, 4]\<close> the road is ice after both windows, although it was dry before.\<close>

theorem overlapping_patches_leak:
  "map_sum id (\<lambda>(tire, fs). t_surface tire)
     (py_bind (PacejkaTire ''dry_asphalt'') (\<lambda>road. environment_run
       [\<lparr>ft_t_start_s = flit 1 1, ft_t_end_s = flit 3 1, ft_name = ''ice_patch'', ft_kind = IcePatchFault ''ice'' None\<rparr>,
        \<lparr>ft_t_start_s = flit 2 1, ft_t_end_s = flit 4 1, ft_name = ''ice_patch'', ft_kind = IcePatchFault ''packed_snow'' None\<rparr>]
       road [f0, flit 1 1, flit 2 1, flit 3 1, flit 4 1, flit 5 1, flit 6 1])) = Inr ''ice''"
  by code_simp

end
