(* ===== verification/Link.thy ===== *)
theory Link
  imports Decoder_Accounting
begin

unbundle bit_operations_syntax

text \<open>
  \<^verbatim>\<open>plant/socket_server.py\<close>: the plant's end of the TCP link.  The sockets are outside the model;
  what they do is given by events: the outcomes of \<^verbatim>\<open>bind\<close> and \<^verbatim>\<open>accept\<close>, the outcome of \<^verbatim>\<open>sendall\<close> and the list
  of outcomes of the coming \<^verbatim>\<open>recv\<close> calls.  A \<^verbatim>\<open>recv\<close> with no event left does not return: then
  \<open>recv_loop\<close> is \<open>None\<close>.
\<close>

section \<open>State\<close>

record link_stats =
  ls_sensor_frames_sent :: nat
  ls_actuator_frames_received :: nat
  ls_errors_crc :: nat
  ls_errors_size :: nat
  ls_errors_type :: nat
  ls_bytes_dropped :: nat

definition LinkStats :: link_stats where
  "LinkStats = \<lparr>ls_sensor_frames_sent = 0, ls_actuator_frames_received = 0, ls_errors_crc = 0,
     ls_errors_size = 0, ls_errors_type = 0, ls_bytes_dropped = 0\<rparr>"

text \<open>\<open>pl_listener\<close> and \<open>pl_conn\<close> say whether the attribute holds a socket.\<close>

record plant_link =
  pl_host :: string
  pl_port :: int
  pl_listener :: bool
  pl_conn :: bool
  pl_decoder :: decoder
  pl_stats :: link_stats

datatype listen_event = Bound | BindFailed py_error

datatype accept_event = ClientConnected | AcceptTimeout

datatype send_event = Sent | SendFailed py_error

datatype recv_event = Chunk bytes | PeerClosed | RecvTimeout | RecvFailed py_error

section \<open>Lifecycle\<close>

definition PlantLink :: "string \<Rightarrow> int \<Rightarrow> plant_link" where
  "PlantLink host port = \<lparr>pl_host = host, pl_port = port, pl_listener = False, pl_conn = False,
     pl_decoder = FrameDecoder, pl_stats = LinkStats\<rparr>"

definition link_listen :: "listen_event \<Rightarrow> plant_link \<Rightarrow> plant_link py" where
  "link_listen ev l = (if pl_listener l then Inr l
     else case ev of BindFailed e \<Rightarrow> Inl e | Bound \<Rightarrow> Inr (l\<lparr>pl_listener := True\<rparr>))"

definition link_accept :: "accept_event \<Rightarrow> plant_link \<Rightarrow> plant_link py" where
  "link_accept ev l = (if \<not> pl_listener l then Inl AssertionError
     else case ev of
       AcceptTimeout \<Rightarrow> Inl TimeoutError
     | ClientConnected \<Rightarrow> Inr (l\<lparr>pl_conn := True, pl_decoder := FrameDecoder\<rparr>))"

definition link_close :: "plant_link \<Rightarrow> plant_link" where
  "link_close l = (let l = (if pl_conn l then l\<lparr>pl_conn := False\<rparr> else l)
     in if pl_listener l then l\<lparr>pl_listener := False\<rparr> else l)"

definition connected :: "plant_link \<Rightarrow> bool" where
  "connected l = pl_conn l"

section \<open>Send and receive\<close>

definition count_sent :: "plant_link \<Rightarrow> plant_link" where
  "count_sent l = l\<lparr>pl_stats := (pl_stats l)\<lparr>ls_sensor_frames_sent := ls_sensor_frames_sent (pl_stats l) + 1\<rparr>\<rparr>"

text \<open>\<^verbatim>\<open>sendall\<close> puts the wire bytes out or raises.\<close>

definition sendall :: "send_event \<Rightarrow> bytes \<Rightarrow> bytes py" where
  "sendall ev wire = (case ev of Sent \<Rightarrow> Inr wire | SendFailed e \<Rightarrow> Inl e)"

definition send_sensor :: "send_event \<Rightarrow> sensor_frame \<Rightarrow> plant_link \<Rightarrow> (bytes \<times> plant_link) py" where
  "send_sensor ev frame l = (if \<not> pl_conn l then Inl AssertionError
     else py_bind (sensor_pack frame) (\<lambda>payload.
          py_bind (encode_frame TYPE_SENSOR payload) (\<lambda>wire.
          py_bind (sendall ev wire) (\<lambda>out. Inr (out, count_sent l)))))"

definition merge_stats :: "plant_link \<Rightarrow> plant_link" where
  "merge_stats l = l\<lparr>pl_stats := (pl_stats l)\<lparr>
     ls_errors_crc := dc_errors_crc (pl_decoder l), ls_errors_size := dc_errors_size (pl_decoder l),
     ls_errors_type := dc_errors_type (pl_decoder l), ls_bytes_dropped := dc_bytes_dropped (pl_decoder l)\<rparr>\<rparr>"

definition count_received :: "plant_link \<Rightarrow> plant_link" where
  "count_received l =
     l\<lparr>pl_stats := (pl_stats l)\<lparr>ls_actuator_frames_received := ls_actuator_frames_received (pl_stats l) + 1\<rparr>\<rparr>"

fun first_actuator :: "decoded_frame list \<Rightarrow> decoded_frame option" where
  "first_actuator [] = None"
| "first_actuator (f # fs) = (if fr_frame_type f = TYPE_ACTUATOR then Some f else first_actuator fs)"

text \<open>The \<^verbatim>\<open>while True\<close> loop with its \<^verbatim>\<open>except\<close> and \<^verbatim>\<open>finally\<close>: the result, the link and the events left.\<close>

fun recv_loop :: "recv_event list \<Rightarrow> plant_link \<Rightarrow> (actuator_frame option py \<times> plant_link \<times> recv_event list) option" where
  "recv_loop [] l = None"
| "recv_loop (RecvTimeout # evs) l = Some (Inr None, merge_stats l, evs)"
| "recv_loop (PeerClosed # evs) l = Some (Inl ConnectionError, merge_stats l, evs)"
| "recv_loop (RecvFailed e # evs) l = (if e = TimeoutError then Some (Inr None, merge_stats l, evs)
     else Some (Inl e, merge_stats l, evs))"
| "recv_loop (Chunk chunk # evs) l =
     (let (frames, d) = drain (feed chunk (pl_decoder l)); l = l\<lparr>pl_decoder := d\<rparr> in
      case first_actuator frames of
        Some f \<Rightarrow> Some (map_sum id Some (actuator_unpack (fr_payload f)),
                     merge_stats (count_received (merge_stats l)), evs)
      | None \<Rightarrow> recv_loop evs l)"

definition recv_actuator :: "recv_event list \<Rightarrow> plant_link \<Rightarrow> (actuator_frame option py \<times> plant_link \<times> recv_event list) option" where
  "recv_actuator evs l = (if \<not> pl_conn l then Some (Inl AssertionError, l, evs)
     else let (frames, d) = drain (pl_decoder l); l = l\<lparr>pl_decoder := d\<rparr> in
      case first_actuator frames of
        Some f \<Rightarrow> Some (map_sum id Some (actuator_unpack (fr_payload f)), count_received l, evs)
      | None \<Rightarrow> recv_loop evs l)"

text \<open>\<^verbatim>\<open>now_ms\<close> on the monotonic clock's value in seconds.\<close>

fun py_int :: "pyfloat \<Rightarrow> int py" where
  "py_int (Fin s m e) = Inr (sgi s (m * 2 ^ nat e div 2 ^ nat (- e)))"
| "py_int (Infin s) = Inl OverflowError"
| "py_int NaN = Inl ValueError"

definition now_ms :: "pyfloat \<Rightarrow> int py" where
  "now_ms monotonic = py_bind (py_int (fmul monotonic (flit 1000 1))) (\<lambda>n. Inr (n AND 0xFFFFFFFF))"

section \<open>Lemmas\<close>

lemma drained_again: "drain (snd (drain d)) = ([], snd (drain d))"
proof -
  obtain fs d' where d: "drain d = (fs, d')" by force
  obtain gs d'' where e: "drain d' = (gs, d'')" by force
  show ?thesis using drain_feed [OF d, of "[]"] d e by simp
qed

text \<open>A decoder between reads: draining it again changes nothing.\<close>

definition quiet :: "decoder \<Rightarrow> bool" where
  "quiet d \<longleftrightarrow> drain d = ([], d)"

lemma quiet_drain: "drain d = (fs, d') \<Longrightarrow> quiet d'"
  using drained_again [of d] by (simp add: quiet_def)

lemma quiet_fresh: "dc_buf d = [] \<Longrightarrow> quiet d"
  by (simp add: quiet_def drain.simps try_one.simps try_step_def)

lemma recv_actuator_quiet:
  "pl_conn l \<Longrightarrow> quiet (pl_decoder l) \<Longrightarrow> recv_actuator evs l = recv_loop evs l"
  by (simp add: recv_actuator_def quiet_def)

lemma first_actuator_append:
  "first_actuator (xs @ ys) = (case first_actuator xs of Some f \<Rightarrow> Some f | None \<Rightarrow> first_actuator ys)"
  by (induction xs) auto

text \<open>Over a sequence of chunks the loop returns at the first actuator frame of the stream, or goes on
  with the decoder that saw them all.\<close>

lemma decoder_id: "l\<lparr>pl_decoder := pl_decoder l\<rparr> = l" for l :: plant_link
  by (cases l) simp

lemma recv_loop_chunks:
  "run_chunks cs (pl_decoder l) = (fs, d) \<Longrightarrow>
   (case first_actuator fs of
      None \<Rightarrow> recv_loop (map Chunk cs @ evs) l = recv_loop evs (l\<lparr>pl_decoder := d\<rparr>)
    | Some f \<Rightarrow> \<exists>k l'. k \<le> length cs \<and> recv_loop (map Chunk cs @ evs) l =
        Some (map_sum id Some (actuator_unpack (fr_payload f)), l', map Chunk (drop k cs) @ evs) \<and>
        pl_decoder l' = snd (run_chunks (take k cs) (pl_decoder l)) \<and>
        ls_actuator_frames_received (pl_stats l') = Suc (ls_actuator_frames_received (pl_stats l)))"
proof (induction cs arbitrary: l fs)
  case Nil
  then have "fs = []" "d = pl_decoder l" by simp_all
  then show ?case by (simp add: decoder_id)
next
  case (Cons c cs)
  obtain out d1 where c: "drain (feed c (pl_decoder l)) = (out, d1)" by force
  obtain gs where gs: "run_chunks cs d1 = (gs, d)" "fs = out @ gs"
    using Cons.prems c by (cases "run_chunks cs d1") auto
  show ?case
  proof (cases "first_actuator out")
    case None
    have "run_chunks cs (pl_decoder (l\<lparr>pl_decoder := d1\<rparr>)) = (gs, d)" using gs by simp
    from Cons.IH [OF this] show ?thesis
    proof (cases "first_actuator gs")
      case n: None
      with Cons.IH [of "l\<lparr>pl_decoder := d1\<rparr>" gs] gs c None show ?thesis
        by (simp add: first_actuator_append)
    next
      case (Some f)
      with Cons.IH [of "l\<lparr>pl_decoder := d1\<rparr>" gs] gs(1) obtain k l' where
        "k \<le> length cs" "recv_loop (map Chunk cs @ evs) (l\<lparr>pl_decoder := d1\<rparr>) =
          Some (map_sum id Some (actuator_unpack (fr_payload f)), l', map Chunk (drop k cs) @ evs)"
        "pl_decoder l' = snd (run_chunks (take k cs) d1)"
        "ls_actuator_frames_received (pl_stats l') = Suc (ls_actuator_frames_received (pl_stats l))"
        by auto
      then show ?thesis using Some None c
        by (auto simp: gs(2) first_actuator_append intro!: exI [of _ "Suc k"])
    qed
  next
    case (Some f)
    then show ?thesis
      using c by (auto simp: gs(2) first_actuator_append merge_stats_def count_received_def intro!: exI [of _ 1])
  qed
qed

text \<open>A connected link, for the witnesses.\<close>

definition fresh_link :: plant_link where
  "fresh_link = (PlantLink ''127.0.0.1'' 9000)\<lparr>pl_listener := True, pl_conn := True\<rparr>"

lemma fresh_link_simps [simp]:
  "pl_conn fresh_link" "pl_decoder fresh_link = FrameDecoder" "dc_buf FrameDecoder = []" "quiet FrameDecoder"
  by (simp_all add: fresh_link_def PlantLink_def FrameDecoder_def quiet_fresh)

section \<open>Properties\<close>

text \<open>C29: Receiving does not depend on how TCP cuts the stream: if the stream of the coming chunks decodes to
  frames of which \<open>f\<close> is the first actuator frame, \<^verbatim>\<open>recv_actuator\<close> returns \<open>f\<close> unpacked and counts one
  received frame; if it holds none, the call goes on with what comes after the chunks, and a timeout
  or the peer's closing ends it with \<open>None\<close> or ConnectionError and up-to-date statistics.\<close>

theorem recv_first_actuator:
  assumes "pl_conn l" and "quiet (pl_decoder l)" and "drain (feed (concat cs) (pl_decoder l)) = (fs, d)"
  shows "case first_actuator fs of
      Some f \<Rightarrow> \<exists>l' evs'. recv_actuator (map Chunk cs @ evs) l =
          Some (map_sum id Some (actuator_unpack (fr_payload f)), l', evs') \<and>
        ls_actuator_frames_received (pl_stats l') = ls_actuator_frames_received (pl_stats l) + 1
    | None \<Rightarrow>
        recv_actuator (map Chunk cs @ [RecvTimeout]) l = Some (Inr None, merge_stats (l\<lparr>pl_decoder := d\<rparr>), []) \<and>
        recv_actuator (map Chunk cs @ [PeerClosed]) l = Some (Inl ConnectionError, merge_stats (l\<lparr>pl_decoder := d\<rparr>), [])"
proof -
  obtain fs' d' where r: "run_chunks cs (pl_decoder l) = (fs', d')" by force
  have q: "drain (pl_decoder l) = ([], pl_decoder l)" using assms(2) by (simp add: quiet_def)
  have "drain (feed (concat cs) (pl_decoder l)) = (fs', d')"
    using run_chunks_drain [of cs "pl_decoder l" fs' d'] r q by simp
  then have e: "fs' = fs" "d' = d" using assms(3) by simp_all
  show ?thesis
    using recv_loop_chunks [OF r [unfolded e], of evs] recv_loop_chunks [OF r [unfolded e], of "[RecvTimeout]"]
      recv_loop_chunks [OF r [unfolded e], of "[PeerClosed]"] recv_actuator_quiet [OF assms(1,2)]
    by (auto split: option.splits)
qed

theorem recv_first_actuator_witness:
  "recv_actuator (map Chunk [[1, 2], [3]] @ [PeerClosed]) fresh_link =
    Some (Inl ConnectionError, merge_stats (fresh_link\<lparr>pl_decoder := snd (drain (feed [1, 2, 3] FrameDecoder))\<rparr>), [])"
proof -
  have "drain (feed [1, 2, 3] FrameDecoder) = ([], snd (drain (feed [1, 2, 3] FrameDecoder)))"
    by (simp add: drain.simps try_one.simps try_step_def FrameDecoder_def feed_def MAGIC_def)
  then show ?thesis
    using recv_first_actuator [of fresh_link "[[1, 2], [3]]" "[]" "snd (drain (feed [1, 2, 3] FrameDecoder))" "[]"]
    by simp
qed

lemma act_types: "TYPE_ACTUATOR = 2" "TYPE_SENSOR = 1"
  by (simp_all add: protocol_consts)

lemma stream_of_frames:
  assumes "\<forall>(t, p) \<in> set fs. t \<in> {1, 2} \<and> length p \<le> 64" "dc_buf d = []"
  shows "drain (feed (concat (map (\<lambda>(t, p). frame_bytes t p) fs)) d) =
    (map (\<lambda>(t, p). \<lparr>fr_frame_type = t, fr_payload = p\<rparr>) fs, d)"
  using assms(1)
proof (induction fs)
  case Nil
  show ?case using assms(2) by (simp add: drain_no_bytes)
next
  case (Cons x fs)
  obtain t p where x: "x = (t, p)" by force
  with Cons drain_frame [of t p d] assms(2) show ?case by simp
qed

text \<open>An actuator frame on the wire, in any chunks, is what the next call returns.\<close>

lemma recv_encoded:
  assumes "pl_conn l" "dc_buf (pl_decoder l) = []" "length p \<le> 64" "concat cs = frame_bytes 2 p"
  shows "\<exists>l' evs'. recv_actuator (map Chunk cs @ evs) l = Some (map_sum id Some (actuator_unpack p), l', evs') \<and>
    ls_actuator_frames_received (pl_stats l') = ls_actuator_frames_received (pl_stats l) + 1"
proof -
  have dr: "drain (feed (concat cs) (pl_decoder l)) = ([\<lparr>fr_frame_type = 2, fr_payload = p\<rparr>], pl_decoder l)"
    using stream_of_frames [of "[(2, p)]" "pl_decoder l"] assms(2-4) by simp
  have "run_chunks cs (pl_decoder l) = ([\<lparr>fr_frame_type = 2, fr_payload = p\<rparr>], pl_decoder l)"
    using run_chunks_drain [of cs "pl_decoder l"] dr drain_no_bytes [OF assms(2)]
    by (cases "run_chunks cs (pl_decoder l)") simp
  from recv_loop_chunks [OF this, of evs] show ?thesis
    using recv_actuator_quiet [OF assms(1) quiet_fresh [OF assms(2)]] by (auto simp: act_types)
qed

text \<open>From the ECU to the plant: an actuator frame packed, encoded and cut into chunks in any way is
  returned by \<^verbatim>\<open>recv_actuator\<close> as the frame the wire can carry (timestamp modulo 2^32, brake command
  rounded to binary32, status and DTC modulo 2^16).\<close>

theorem actuator_end_to_end:
  assumes "actuator_ok a" and "actuator_pack a = Inr payload" and "encode_frame TYPE_ACTUATOR payload = Inr wire"
    and "pl_conn l" and "dc_buf (pl_decoder l) = []" and "concat cs = wire"
  shows "\<exists>l' evs'. recv_actuator (map Chunk cs @ evs) l = Some (Inr (Some (actuator_wire a)), l', evs') \<and>
    ls_actuator_frames_received (pl_stats l') = ls_actuator_frames_received (pl_stats l) + 1"
proof -
  have p: "length payload \<le> 64" "wire = frame_bytes 2 payload"
    using assms(3) by (auto simp: encode_frame_eq act_types split: if_splits)
  show ?thesis
    using recv_encoded [OF assms(4,5) p(1), of cs evs] actuator.unpack_pack [OF assms(1,2)] assms(6) p(2) by simp
qed

lemma nan_frame:
  "\<exists>payload. actuator_pack (actuator_frame.make 7 NaN 3 0) = Inr payload \<and> length payload = 12"
proof -
  obtain payload where p: "actuator_pack (actuator_frame.make 7 NaN 3 0) = Inr payload"
    using pack_f_special(3) by (auto simp: actuator_pack_def actuator_frame.make_def)
  moreover have "actuator_ok (actuator_frame.make 7 NaN 3 0)" by (simp add: actuator_ok_def actuator_frame.make_def)
  ultimately show ?thesis using actuator.pack_size by (auto simp: ACTUATOR_SIZE_def)
qed

theorem actuator_end_to_end_witness:
  "\<exists>payload wire l' evs'. actuator_pack (actuator_frame.make 7 NaN 3 0) = Inr payload \<and>
    encode_frame TYPE_ACTUATOR payload = Inr wire \<and>
    recv_actuator [Chunk (take 5 wire), Chunk (drop 5 wire)] fresh_link =
      Some (Inr (Some (actuator_wire (actuator_frame.make 7 NaN 3 0))), l', evs')"
proof -
  obtain payload where p: "actuator_pack (actuator_frame.make 7 NaN 3 0) = Inr payload" "length payload = 12"
    using nan_frame by blast
  then have e: "encode_frame TYPE_ACTUATOR payload = Inr (frame_bytes 2 payload)"
    by (simp add: encode_frame_eq act_types)
  have ok: "actuator_ok (actuator_frame.make 7 NaN 3 0)" by (simp add: actuator_ok_def actuator_frame.make_def)
  from actuator_end_to_end [OF ok p(1) e, of fresh_link "[take 5 (frame_bytes 2 payload), drop 5 (frame_bytes 2 payload)]" "[]"]
  show ?thesis using p e by auto
qed

text \<open>Only the first actuator frame of a read is returned and the rest are lost: when two arrive in one
  chunk, the call returns the first, and the next call does not find the second, it waits for new input.\<close>

theorem second_frame_lost:
  assumes "encode_frame TYPE_ACTUATOR p = Inr w" and "encode_frame TYPE_ACTUATOR p' = Inr w'"
    and "pl_conn l" and "dc_buf (pl_decoder l) = []"
  shows "\<exists>l'. recv_actuator (Chunk (w @ w') # evs) l = Some (map_sum id Some (actuator_unpack p), l', evs) \<and>
    recv_actuator [RecvTimeout] l' = Some (Inr None, merge_stats l', []) \<and>
    ls_actuator_frames_received (pl_stats l') = ls_actuator_frames_received (pl_stats l) + 1"
proof -
  have le: "length p \<le> 64" "w = frame_bytes 2 p" "length p' \<le> 64" "w' = frame_bytes 2 p'"
    using assms(1,2) by (auto simp: encode_frame_eq act_types split: if_splits)
  have dr: "drain (feed (w @ w') (pl_decoder l)) =
      ([\<lparr>fr_frame_type = 2, fr_payload = p\<rparr>, \<lparr>fr_frame_type = 2, fr_payload = p'\<rparr>], pl_decoder l)"
    using stream_of_frames [of "[(2, p), (2, p')]" "pl_decoder l"] le assms(4) by simp
  let ?l = "merge_stats (count_received (merge_stats l))"
  have "recv_actuator (Chunk (w @ w') # evs) l = Some (map_sum id Some (actuator_unpack p), ?l, evs)"
    using dr by (simp add: recv_actuator_quiet [OF assms(3) quiet_fresh [OF assms(4)]] act_types decoder_id)
  moreover have "pl_conn ?l" "dc_buf (pl_decoder ?l) = []"
    using assms(3,4) by (simp_all add: merge_stats_def count_received_def)
  then have "recv_actuator [RecvTimeout] ?l = Some (Inr None, merge_stats ?l, [])"
    using recv_actuator_quiet quiet_fresh by simp
  ultimately show ?thesis by (auto simp: merge_stats_def count_received_def)
qed

theorem second_frame_lost_witness:
  "\<exists>w w' l'. encode_frame TYPE_ACTUATOR (replicate 12 0) = Inr w \<and> encode_frame TYPE_ACTUATOR (replicate 12 1) = Inr w' \<and>
    recv_actuator [Chunk (w @ w')] fresh_link =
      Some (map_sum id Some (actuator_unpack (replicate 12 0)), l', []) \<and>
    recv_actuator [RecvTimeout] l' = Some (Inr None, merge_stats l', [])"
  using second_frame_lost [of "replicate 12 0" "frame_bytes 2 (replicate 12 0)" "replicate 12 1"
      "frame_bytes 2 (replicate 12 1)" fresh_link "[]"]
  by (auto simp: encode_frame_eq act_types)

text \<open>A well-formed actuator frame whose payload is not 12 bytes is not absorbed like other garbage:
  it makes \<^verbatim>\<open>recv_actuator\<close> raise ValueError.\<close>

theorem wrong_size_raises:
  assumes "encode_frame TYPE_ACTUATOR p = Inr wire" and "length p \<noteq> 12"
    and "pl_conn l" and "dc_buf (pl_decoder l) = []"
  shows "\<exists>l' evs'. recv_actuator (Chunk wire # evs) l = Some (Inl ValueError, l', evs')"
proof -
  have p: "length p \<le> 64" "wire = frame_bytes 2 p"
    using assms(1) by (auto simp: encode_frame_eq act_types split: if_splits)
  have "actuator_unpack p = Inl ValueError" using assms(2) by (simp add: actuator_unpack_def ACTUATOR_SIZE_def)
  then show ?thesis using recv_encoded [OF assms(3,4) p(1), of "[wire]" evs] p(2) by auto
qed

theorem wrong_size_raises_witness:
  "\<exists>wire l' evs'. encode_frame TYPE_ACTUATOR [1, 2, 3] = Inr wire \<and>
    recv_actuator [Chunk wire] fresh_link = Some (Inl ValueError, l', evs')"
  using wrong_size_raises [of "[1, 2, 3]" "frame_bytes 2 [1, 2, 3]" fresh_link "[]"]
  by (auto simp: encode_frame_eq act_types)

text \<open>From the plant to the ECU: what \<^verbatim>\<open>send_sensor\<close> puts on the wire decodes to exactly one sensor
  frame, which unpacks to what the wire can carry of the frame sent; without a connection nothing is
  sent and AssertionError is raised.\<close>

theorem send_sensor_delivers:
  assumes "sensor_ok frame" and "dc_buf d = []"
  shows "case send_sensor Sent frame l of
      Inl e \<Rightarrow> (if pl_conn l then e = OverflowError else e = AssertionError)
    | Inr (wire, l') \<Rightarrow> pl_conn l \<and> length wire = 25 \<and>
        ls_sensor_frames_sent (pl_stats l') = ls_sensor_frames_sent (pl_stats l) + 1 \<and>
        (\<exists>payload. drain (feed wire d) = ([\<lparr>fr_frame_type = TYPE_SENSOR, fr_payload = payload\<rparr>], d) \<and>
          sensor_unpack payload = Inr (sensor_wire frame))"
proof (cases "pl_conn l")
  case False
  then show ?thesis by (simp add: send_sensor_def)
next
  case True
  show ?thesis
  proof (cases "sensor_pack frame")
    case (Inl e)
    then have "e = OverflowError" by (auto simp: sensor_pack_def py_bind_Inl_iff dest: pack_f_error)
    then show ?thesis using True Inl by (simp add: send_sensor_def)
  next
    case (Inr payload)
    have l: "length payload = 18" using sensor.pack_size [OF assms(1) Inr] by (simp add: SENSOR_SIZE_def)
    then have "encode_frame TYPE_SENSOR payload = Inr (frame_bytes 1 payload)"
      by (simp add: encode_frame_eq act_types)
    moreover have "drain (feed (frame_bytes 1 payload) d) = ([\<lparr>fr_frame_type = 1, fr_payload = payload\<rparr>], d)"
      using stream_of_frames [of "[(1, payload)]" d] l assms(2) by simp
    ultimately show ?thesis
      using True Inr l sensor.unpack_pack [OF assms(1) Inr]
      by (simp add: send_sensor_def sendall_def count_sent_def act_types)
  qed
qed

theorem send_sensor_delivers_witness:
  "\<exists>wire l' payload. send_sensor Sent (sensor_frame.make 5 NaN NaN NaN 0) fresh_link = Inr (wire, l') \<and>
    drain (feed wire FrameDecoder) = ([\<lparr>fr_frame_type = TYPE_SENSOR, fr_payload = payload\<rparr>], FrameDecoder)"
proof -
  have ok: "sensor_ok (sensor_frame.make 5 NaN NaN NaN 0)" by (simp add: sensor_ok_def sensor_frame.make_def)
  obtain bs where "sensor_pack (sensor_frame.make 5 NaN NaN NaN 0) = Inr bs"
    using pack_f_special(3) by (auto simp: sensor_pack_def sensor_frame.make_def)
  moreover from this have "length bs = 18" using sensor.pack_size [OF ok] by (simp add: SENSOR_SIZE_def)
  ultimately obtain wire l' where "send_sensor Sent (sensor_frame.make 5 NaN NaN NaN 0) fresh_link = Inr (wire, l')"
    by (simp add: send_sensor_def sendall_def encode_frame_eq act_types)
  with send_sensor_delivers [OF ok, of FrameDecoder fresh_link] show ?thesis by auto
qed

end
