(* ===== verification/Oracle.thy ===== *)
theory Oracle
  imports Floats
begin

text \<open>
  \<^verbatim>\<open>plant/oracle_abs.py\<close>: the reference bang-bang controller with hysteresis.  Besides the code,
  the theory gives the abstract specification of the hysteresis (the command is the decision of the
  last sample that was not inside the band) and the interface \<open>brake_controller\<close> of controllers with a
  memory, under which this controller, the C controller and the controller argument of the simulation loop are treated alike.
\<close>

section \<open>The controller\<close>

definition SLIP_UPPER_THRESHOLD :: pyfloat where "SLIP_UPPER_THRESHOLD = flit 20 100"
definition SLIP_LOWER_THRESHOLD :: pyfloat where "SLIP_LOWER_THRESHOLD = flit 10 100"
definition LOW_SPEED_BYPASS :: pyfloat where
  "LOW_SPEED_BYPASS = fl_div B64 (flit 5 1) (flit 36 10)"

record oracle_abs =
  oa_upper :: pyfloat
  oa_lower :: pyfloat
  oa_low_speed_bypass :: pyfloat
  oa_previous_command :: pyfloat

definition OracleABS :: "pyfloat \<Rightarrow> pyfloat \<Rightarrow> pyfloat \<Rightarrow> oracle_abs" where
  "OracleABS upper lower low_speed_bypass =
     \<lparr>oa_upper = upper, oa_lower = lower, oa_low_speed_bypass = low_speed_bypass,
      oa_previous_command = f0\<rparr>"

definition OracleABS_default :: oracle_abs where
  "OracleABS_default = OracleABS SLIP_UPPER_THRESHOLD SLIP_LOWER_THRESHOLD LOW_SPEED_BYPASS"

definition oracle_reset :: "oracle_abs \<Rightarrow> oracle_abs" where
  "oracle_reset c = c\<lparr>oa_previous_command := f0\<rparr>"

definition oracle_step :: "pyfloat \<Rightarrow> pyfloat \<Rightarrow> pyfloat \<Rightarrow> oracle_abs \<Rightarrow> pyfloat \<times> oracle_abs" where
  "oracle_step slip v_vehicle driver_request c =
    (if flt v_vehicle (oa_low_speed_bypass c)
     then (driver_request, c\<lparr>oa_previous_command := driver_request\<rparr>)
     else let cmd = (if flt (oa_upper c) slip then f0
                     else if flt slip (oa_lower c) then driver_request
                     else oa_previous_command c)
          in (cmd, c\<lparr>oa_previous_command := cmd\<rparr>))"

section \<open>Hysteresis, abstractly\<close>

text \<open>A sample is the slip, the speed and the driver's request; \<open>decision\<close> is what it says on its
  own, \<open>None\<close> inside the band.\<close>

type_synonym sample = "pyfloat \<times> pyfloat \<times> pyfloat"

definition decision :: "oracle_abs \<Rightarrow> sample \<Rightarrow> pyfloat option" where
  "decision c = (\<lambda>(slip, v, req).
     if flt v (oa_low_speed_bypass c) then Some req
     else if flt (oa_upper c) slip then Some f0
     else if flt slip (oa_lower c) then Some req
     else None)"

text \<open>The abstract controller keeps no state: it looks up the last decision in the history
  (\<open>hist\<close> is newest first).\<close>

fun last_decision :: "oracle_abs \<Rightarrow> sample list \<Rightarrow> pyfloat" where
  "last_decision c [] = oa_previous_command c"
| "last_decision c (x # hist) = (case decision c x of Some cmd \<Rightarrow> cmd | None \<Rightarrow> last_decision c hist)"

fun oracle_run :: "sample list \<Rightarrow> oracle_abs \<Rightarrow> pyfloat list \<times> oracle_abs" where
  "oracle_run [] c = ([], c)"
| "oracle_run ((slip, v, req) # xs) c =
     (let (cmd, c') = oracle_step slip v req c; (cmds, c'') = oracle_run xs c' in (cmd # cmds, c''))"

lemma oracle_step_decision:
  "oracle_step slip v req c = (cmd, c') \<Longrightarrow>
     cmd = (case decision c (slip, v, req) of Some d \<Rightarrow> d | None \<Rightarrow> oa_previous_command c) \<and>
     c' = c\<lparr>oa_previous_command := cmd\<rparr>"
  by (auto simp: oracle_step_def decision_def Let_def split: if_splits)

lemma decision_upd [simp]: "decision (c\<lparr>oa_previous_command := p\<rparr>) = decision c"
  by (simp add: decision_def fun_eq_iff)

section \<open>Commands\<close>

lemma oracle_step_cmd:
  "oracle_step slip v req c = (cmd, c') \<Longrightarrow> cmd \<in> {f0, req, oa_previous_command c} \<and>
     oa_previous_command c' = cmd"
  by (auto simp: oracle_step_def Let_def split: if_splits)

text \<open>
  The interface of a brake controller with a memory.  Its inputs of one call are a sample; \<open>decide\<close> is what a
  sample says on its own, \<open>None\<close> inside the band, and then the remembered command is given again.  A decision is a
  release or the driver's request.  Everything else follows for whole runs.
\<close>

fun run_controller :: "('x \<Rightarrow> 'c \<Rightarrow> pyfloat \<times> 'c) \<Rightarrow> 'x list \<Rightarrow> 'c \<Rightarrow> pyfloat list \<times> 'c" where
  "run_controller step [] c = ([], c)"
| "run_controller step (x # xs) c =
     (let (cmd, c') = step x c; (cmds, c'') = run_controller step xs c' in (cmd # cmds, c''))"

fun last_command :: "('x \<Rightarrow> pyfloat option) \<Rightarrow> pyfloat \<Rightarrow> 'x list \<Rightarrow> pyfloat" where
  "last_command dec cmd [] = cmd"
| "last_command dec cmd (x # hist) = (case dec x of Some d \<Rightarrow> d | None \<Rightarrow> last_command dec cmd hist)"

lemma last_command_append: "last_command dec cmd (hist @ h) = last_command dec (last_command dec cmd h) hist"
  by (induction hist) (auto split: option.split)

locale brake_controller =
  fixes step :: "'x \<Rightarrow> 'c \<Rightarrow> pyfloat \<times> 'c" and decide :: "'c \<Rightarrow> 'x \<Rightarrow> pyfloat option" and memory :: "'c \<Rightarrow> pyfloat"
    and release :: pyfloat and request :: "'x \<Rightarrow> pyfloat"
  assumes command: "step x c = (cmd, c') \<Longrightarrow> cmd = (case decide c x of Some d \<Rightarrow> d | None \<Rightarrow> memory c)"
    and remembers: "step x c = (cmd, c') \<Longrightarrow> memory c' = cmd"
    and settings: "step x c = (cmd, c') \<Longrightarrow> decide c' = decide c"
    and decisions: "decide c x = Some d \<Longrightarrow> d = release \<or> d = request x"
begin

text \<open>The memory is no more than the last decision: after any run the command is the one of the newest sample outside
  the band.\<close>

lemma run_last_command:
  "run_controller step xs c = (cmds, c') \<Longrightarrow>
    cmds = map (\<lambda>i. last_command (decide c) (memory c) (rev (take (Suc i) xs))) [0..<length xs] \<and>
    memory c' = last_command (decide c) (memory c) (rev xs) \<and> decide c' = decide c"
proof (induction xs arbitrary: c cmds)
  case (Cons x xs)
  obtain cmd c1 where 1: "step x c = (cmd, c1)" by force
  obtain rest where r: "run_controller step xs c1 = (rest, c')" "cmds = cmd # rest"
    using Cons.prems 1 by (auto simp: Let_def split: prod.splits)
  have c: "cmd = last_command (decide c) (memory c) [x]" using command [OF 1] by (simp split: option.split)
  have m: "last_command (decide c) (memory c) (h @ [x]) = last_command (decide c1) (memory c1) h" for h
    unfolding last_command_append settings [OF 1] remembers [OF 1] c ..
  have up: "[0..<length (x # xs)] = 0 # map Suc [0..<length xs]" by (simp add: upt_conv_Cons map_Suc_upt del: upt_Suc)
  from Cons.IH [OF r(1)] show ?case
    unfolding r(2) up using c settings [OF 1] m remembers [OF 1] by (simp add: comp_def del: upt_Suc last_command.simps(2))
qed simp

text \<open>With a constant request the commands of a run are full release or the request.\<close>

lemma last_command_safe:
  "cmd \<in> {release, req} \<Longrightarrow> \<forall>x \<in> set hist. request x = req \<Longrightarrow> last_command (decide c) cmd hist \<in> {release, req}"
  by (induction hist) (auto split: option.split dest: decisions)

lemma run_safe:
  assumes "run_controller step xs c = (cmds, c')" "memory c \<in> {release, req}" "\<forall>x \<in> set xs. request x = req"
  shows "set cmds \<subseteq> {release, req} \<and> memory c' \<in> {release, req}"
proof -
  have safe: "last_command (decide c) (memory c) (rev (take n xs)) \<in> {release, req}" for n
    by (rule last_command_safe [OF assms(2)]) (use assms(3) in \<open>auto dest: in_set_takeD\<close>)
  have "set cmds \<subseteq> {release, req}"
    unfolding run_last_command [OF assms(1), THEN conjunct1] set_map using safe by (intro image_subsetI)
  moreover have "memory c' \<in> {release, req}"
    unfolding run_last_command [OF assms(1), THEN conjunct2, THEN conjunct1] using safe [of "length xs"] by simp
  ultimately show ?thesis ..
qed

lemma step_safe:
  assumes "step x c = (cmd, c')" "memory c \<in> {release, request x}"
  shows "cmd \<in> {release, request x} \<and> memory c' \<in> {release, request x}"
proof -
  have "run_controller step [x] c = ([cmd], c')" by (simp add: assms(1))
  from run_safe [OF this assms(2)] show ?thesis by simp
qed

end

text \<open>A controller whose release and requests are numbers can drive the plant.\<close>

locale plant_controller = brake_controller +
  assumes number: "pyf release" "release \<noteq> NaN" "pyf (request x)" "request x \<noteq> NaN"
begin

lemma step_number:
  "step x c = (cmd, c') \<Longrightarrow> memory c \<in> {release, request x} \<Longrightarrow>
    cmd \<in> {release, request x} \<and> memory c' \<in> {release, request x} \<and> pyf cmd \<and> cmd \<noteq> NaN"
  using step_safe number by (metis insert_iff singletonD)

end

interpretation bang_bang: brake_controller "\<lambda>(slip, v, req). oracle_step slip v req" decision oa_previous_command f0
    "\<lambda>(slip, v, req). req"
  by unfold_locales (auto simp: oracle_step_def decision_def Let_def fun_eq_iff split: if_splits)

text \<open>The runs of the reference controller are runs of the interface.\<close>

lemma oracle_run_controller: "oracle_run xs c = run_controller (\<lambda>(slip, v, req). oracle_step slip v req) xs c"
  by (induction xs arbitrary: c) auto

lemma last_decision_command: "last_decision c hist = last_command (decision c) (oa_previous_command c) hist"
  by (induction hist) (auto split: option.split)

lemma oracle_run_settings: "oracle_run xs c = (cmds, c') \<Longrightarrow> c' = c\<lparr>oa_previous_command := oa_previous_command c'\<rparr>"
  by (induction xs arbitrary: c cmds)
    (fastforce simp: oracle_step_def Let_def split: prod.splits if_splits)+

text \<open>C31: The controller implements the abstract hysteresis: after any history of samples, the command
  is the decision of the newest sample outside the band (the initial command if there is none).\<close>

theorem oracle_refines_hysteresis:
  "oracle_run xs c =
    (map (\<lambda>i. last_decision c (rev (take (Suc i) xs))) [0..<length xs],
     c\<lparr>oa_previous_command := last_decision c (rev xs)\<rparr>)"
proof -
  obtain cmds c' where r: "oracle_run xs c = (cmds, c')" by force
  from bang_bang.run_last_command [OF r [unfolded oracle_run_controller]] oracle_run_settings [OF r] r
  show ?thesis by (simp add: last_decision_command)
qed

section \<open>The controller as a whole\<close>

lemma thresholds_within:
  "fwithin 0 (1/4) SLIP_UPPER_THRESHOLD" "fwithin (1/16) (1/4) SLIP_LOWER_THRESHOLD"
  "fwithin 1 (3/2) LOW_SPEED_BYPASS"
proof -
  show "fwithin 0 (1/4) SLIP_UPPER_THRESHOLD" "fwithin (1/16) (1/4) SLIP_LOWER_THRESHOLD"
    unfolding SLIP_UPPER_THRESHOLD_def SLIP_LOWER_THRESHOLD_def by (rule fwithin_flit; simp)+
  have "fwithin 5 5 (flit 5 1)" "fwithin (7/2) 4 (flit 36 10)"
    using bnd_dyadic [of 7 1] by (auto intro: fwithin_flit)
  then show "fwithin 1 (3/2) LOW_SPEED_BYPASS"
    unfolding LOW_SPEED_BYPASS_def by (rule fwithin_fl_div) simp_all
qed

text \<open>With a constant request every command is either full release or the driver's request, and
  outside the crawl range a slip above the upper threshold releases while a slip below the lower
  threshold applies the request.\<close>

theorem oracle_bang_bang:
  assumes "oa_previous_command c \<in> {f0, req}"
    and "oracle_step slip v req c = (cmd, c')"
  shows "cmd \<in> {f0, req} \<and> oa_previous_command c' \<in> {f0, req} \<and>
    (flt v (oa_low_speed_bypass c) \<longrightarrow> cmd = req) \<and>
    (\<not> flt v (oa_low_speed_bypass c) \<and> flt (oa_upper c) slip \<longrightarrow> cmd = f0) \<and>
    (\<not> flt v (oa_low_speed_bypass c) \<and> \<not> flt (oa_upper c) slip \<and> flt slip (oa_lower c) \<longrightarrow> cmd = req) \<and>
    (\<not> flt v (oa_low_speed_bypass c) \<and> \<not> flt (oa_upper c) slip \<and> \<not> flt slip (oa_lower c) \<longrightarrow>
       cmd = oa_previous_command c)"
  using assms bang_bang.step_safe [of "(slip, v, req)" c cmd c']
  by (auto simp: oracle_step_def Let_def split: if_splits)

theorem oracle_bang_bang_witness:
  "fst (oracle_step (flit 1 2) (flit 20 1) (flit 100 1) OracleABS_default) = f0"
proof -
  let ?c = OracleABS_default
  obtain cmd c' where s: "oracle_step (flit 1 2) (flit 20 1) (flit 100 1) ?c = (cmd, c')" by force
  have h: "fwithin (1/2) (1/2) (flit 1 2)" by (rule fwithin_flit) simp_all
  have "\<not> flt (flit 20 1) LOW_SPEED_BYPASS" "flt SLIP_UPPER_THRESHOLD (flit 1 2)"
    using fwithinD [OF thresholds_within(1)] fwithinD [OF thresholds_within(3)] fwithinD [OF h]
    by (simp_all add: flt_fin)
  then show ?thesis
    using oracle_bang_bang [OF _ s] s by (simp add: OracleABS_default_def OracleABS_def)
qed

end
