(* ===== verification/Simulate.thy ===== *)
theory Simulate
  imports Vehicle Oracle
begin

text \<open>
  \<^verbatim>\<open>plant/simulate.py\<close>: the offline simulation that closes the loop between the plant and the
  reference controller, its log, the statistics of a run and the acceptance check of \<^verbatim>\<open>main\<close>.
  Plotting, CSV output and printing are left out.  The lemmas follow the state of the car through a run, which gives the
  ranges of all logged values.
\<close>

section \<open>Configuration and log\<close>

definition DT_PLANT :: pyfloat where "DT_PLANT = flit 1 1000"
definition DT_CONTROL :: pyfloat where "DT_CONTROL = flit 10 1000"
definition SIM_DURATION :: pyfloat where "SIM_DURATION = flit 6 1"
definition INITIAL_SPEED :: pyfloat where "INITIAL_SPEED = flit 2778 100"
definition DRIVER_PEDAL_BAR :: pyfloat where "DRIVER_PEDAL_BAR = flit 100 1"

record sim_log =
  sl_t :: "pyfloat list"
  sl_v :: "pyfloat list"
  sl_omega_R :: "pyfloat list"
  sl_slip :: "pyfloat list"
  sl_mu :: "pyfloat list"
  sl_brake_cmd :: "pyfloat list"
  sl_x :: "pyfloat list"
  sl_scenario :: string

text \<open>One sample appended to every series.\<close>

definition log_sample ::
  "vehicle \<Rightarrow> pyfloat \<Rightarrow> pyfloat \<Rightarrow> pyfloat \<Rightarrow> sim_log \<Rightarrow> sim_log" where
  "log_sample veh slip mu brake lg = lg\<lparr>
     sl_t := sl_t lg @ [vs_t (vh_state veh)],
     sl_v := sl_v lg @ [vs_v (vh_state veh)],
     sl_omega_R := sl_omega_R lg @ [fmul (vs_omega (vh_state veh)) (wheel_radius (vh_params veh))],
     sl_slip := sl_slip lg @ [slip],
     sl_mu := sl_mu lg @ [mu],
     sl_brake_cmd := sl_brake_cmd lg @ [brake],
     sl_x := sl_x lg @ [vs_x (vh_state veh)]\<rparr>"

definition stopping_distance :: "sim_log \<Rightarrow> pyfloat py" where
  "stopping_distance lg = (if sl_x lg = [] then Inl IndexError else Inr (last (sl_x lg)))"

definition stopping_time :: "sim_log \<Rightarrow> pyfloat py" where
  "stopping_time lg = (if sl_t lg = [] then Inl IndexError else Inr (last (sl_t lg)))"

text \<open>The built-in \<^verbatim>\<open>sum\<close> on floats is a parameter (its rounding depends on the Python version).\<close>

definition mean_slip_during_braking :: "(pyfloat list \<Rightarrow> pyfloat) \<Rightarrow> sim_log \<Rightarrow> pyfloat py" where
  "mean_slip_during_braking py_sum lg =
     (let active = map fst (filter (\<lambda>(s, v). flt (flit 14 10) v) (zip (sl_slip lg) (sl_v lg)))
      in if active \<noteq> [] then fdiv (py_sum active) (flit (int (length active)) 1) else Inr f0)"

definition max_slip :: "sim_log \<Rightarrow> pyfloat py" where
  "max_slip lg = (case sl_slip lg of
     [] \<Rightarrow> Inl ValueError
   | s # ss \<Rightarrow> Inr (foldl fmax2 s ss))"

section \<open>The loop\<close>

record sim_state =
  ss_veh :: vehicle
  ss_controller :: "oracle_abs option"
  ss_brake_cmd :: pyfloat
  ss_log :: sim_log

text \<open>The controller argument of the loop: \<open>None\<close> is the driver's pedal alone.\<close>

definition loop_controller ::
  "pyfloat \<Rightarrow> pyfloat \<Rightarrow> pyfloat \<Rightarrow> oracle_abs option \<Rightarrow> pyfloat \<times> oracle_abs option" where
  "loop_controller slip v driver_request ctrl = (case ctrl of
     None \<Rightarrow> (DRIVER_PEDAL_BAR, None)
   | Some c \<Rightarrow> (case oracle_step slip v driver_request c of (cmd, c') \<Rightarrow> (cmd, Some c')))"

definition sim_control :: "int \<Rightarrow> int \<Rightarrow> sim_state \<Rightarrow> sim_state" where
  "sim_control steps_per_control k s =
    (if k mod steps_per_control = 0
     then let slip = (if sl_slip (ss_log s) \<noteq> [] then last (sl_slip (ss_log s)) else f0);
              (cmd, ctrl') = loop_controller slip (vs_v (vh_state (ss_veh s))) DRIVER_PEDAL_BAR (ss_controller s)
          in s\<lparr>ss_brake_cmd := cmd, ss_controller := ctrl'\<rparr>
     else s)"

definition sim_tick :: "libm \<Rightarrow> int \<Rightarrow> int \<Rightarrow> sim_state \<Rightarrow> sim_state py" where
  "sim_tick lm steps_per_control k s =
    (let s = sim_control steps_per_control k s in
     py_bind (vehicle_step lm (ss_veh s) (ss_brake_cmd s) DT_PLANT) (\<lambda>(out, veh).
     Inr (s\<lparr>ss_veh := veh,
            ss_log := log_sample veh (so_slip out) (so_mu out) (so_brake_pressure out) (ss_log s)\<rparr>)))"

fun sim_loop :: "libm \<Rightarrow> int \<Rightarrow> int list \<Rightarrow> sim_state \<Rightarrow> sim_state py" where
  "sim_loop lm steps_per_control [] s = Inr s"
| "sim_loop lm steps_per_control (k # ks) s =
    (if stopped (ss_veh s)
     then Inr (s\<lparr>ss_log := log_sample (ss_veh s) f0 f0 (ss_brake_cmd s) (ss_log s)\<rparr>)
     else py_bind (sim_tick lm steps_per_control k s) (sim_loop lm steps_per_control ks))"

definition empty_log :: "string \<Rightarrow> sim_log" where
  "empty_log label = \<lparr>sl_t = [], sl_v = [], sl_omega_R = [], sl_slip = [], sl_mu = [],
     sl_brake_cmd = [], sl_x = [], sl_scenario = label\<rparr>"

definition run_loop :: "libm \<Rightarrow> vehicle \<Rightarrow> oracle_abs option \<Rightarrow> string \<Rightarrow> sim_log py" where
  "run_loop lm veh controller label =
     py_bind (fdiv DT_CONTROL DT_PLANT) (\<lambda>q. py_bind (py_int_round q) (\<lambda>r.
     py_bind (fdiv SIM_DURATION DT_PLANT) (\<lambda>q2. py_bind (py_int_round q2) (\<lambda>n_total.
     py_bind (sim_loop lm (max 1 r) [0..n_total - 1]
        \<lparr>ss_veh = veh, ss_controller = controller, ss_brake_cmd = f0, ss_log = empty_log label\<rparr>)
       (\<lambda>s. Inr (ss_log s))))))"

definition run_no_abs :: "libm \<Rightarrow> string \<Rightarrow> sim_log py" where
  "run_no_abs lm surface =
     py_bind (PacejkaTire surface) (\<lambda>tire. py_bind (Vehicle VehicleParams tire INITIAL_SPEED) (\<lambda>veh.
     run_loop lm veh None ''no_abs''))"

definition run_oracle :: "libm \<Rightarrow> string \<Rightarrow> sim_log py" where
  "run_oracle lm surface =
     py_bind (PacejkaTire surface) (\<lambda>tire. py_bind (Vehicle VehicleParams tire INITIAL_SPEED) (\<lambda>veh.
     run_loop lm veh (Some OracleABS_default) ''oracle''))"

section \<open>The command line\<close>

definition print_summary :: "(pyfloat list \<Rightarrow> pyfloat) \<Rightarrow> sim_log \<Rightarrow> unit py" where
  "print_summary py_sum lg =
     py_bind (stopping_distance lg) (\<lambda>_. py_bind (stopping_time lg) (\<lambda>_.
     py_bind (mean_slip_during_braking py_sum lg) (\<lambda>_. py_bind (max_slip lg) (\<lambda>_. Inr ()))))"

text \<open>The acceptance envelope on the two stopping distances.\<close>

definition envelope_check :: "pyfloat \<Rightarrow> pyfloat \<Rightarrow> int py" where
  "envelope_check no_abs_d oracle_d =
     py_bind (fdiv (fmul (flit 100 1) (fsub no_abs_d oracle_d)) no_abs_d) (\<lambda>gain_pct.
     let ok_no_abs = (fle (flit 50 1) no_abs_d \<and> fle no_abs_d (flit 75 1));
         ok_oracle = (fle (flit 35 1) oracle_d \<and> fle oracle_d (flit 55 1));
         ok_gain = fle (flit 10 1) gain_pct
     in Inr (if \<not> (ok_no_abs \<and> ok_oracle \<and> ok_gain) then 1 else 0))"

definition run_logs :: "libm \<Rightarrow> (pyfloat list \<Rightarrow> pyfloat) \<Rightarrow> string \<Rightarrow> string \<Rightarrow> sim_log list py" where
  "run_logs lm py_sum scenario surface =
     py_bind (if scenario \<in> {''no_abs'', ''both''}
       then py_bind (run_no_abs lm surface) (\<lambda>l. py_bind (print_summary py_sum l) (\<lambda>_. Inr [l])) else Inr [])
      (\<lambda>logs. if scenario \<in> {''oracle'', ''both''}
       then py_bind (run_oracle lm surface) (\<lambda>l. py_bind (print_summary py_sum l) (\<lambda>_. Inr (logs @ [l])))
       else Inr logs)"

definition simulate_main :: "libm \<Rightarrow> (pyfloat list \<Rightarrow> pyfloat) \<Rightarrow> string \<Rightarrow> string \<Rightarrow> int py" where
  "simulate_main lm py_sum scenario surface =
     py_bind (run_logs lm py_sum scenario surface) (\<lambda>logs.
     if scenario = ''both'' \<and> surface = ''dry_asphalt''
     then py_bind (stopping_distance (logs ! 0)) (\<lambda>no_abs_d.
          py_bind (stopping_distance (logs ! 1)) (\<lambda>oracle_d. envelope_check no_abs_d oracle_d))
     else Inr 0)"

section \<open>The ranges of a run\<close>

text \<open>Where the state of the simulated car is after \<open>k\<close> steps of 1 ms from 27.78 m/s: the bounds on time and position are
  proportional to the number of steps.\<close>

definition tracked :: "int \<Rightarrow> vehicle \<Rightarrow> bool" where
  "tracked k veh \<longleftrightarrow> vehicle_ok veh \<and> vh_params veh = VehicleParams \<and>
     fwithin 0 28 (vs_v (vh_state veh)) \<and> fwithin 0 96 (vs_omega (vh_state veh)) \<and>
     fwithin (of_int (65 * k) / 2 ^ 16) (of_int (66 * k) / 2 ^ 16) (vs_t (vh_state veh)) \<and>
     fwithin (of_int (- k) / 2 ^ 15) (of_int (29 * k) / 2 ^ 10) (vs_x (vh_state veh))"

lemma radius_within: "fwithin (307/1024) (308/1024) (wheel_radius VehicleParams)"
  unfolding VehicleParams_def by simp (rule fwithin_flit; use bnd_dyadic [of 307 10] bnd_dyadic [of 308 10] in simp)

lemma ms_tight: "fwithin (65/65536) (66/65536) (flit 1 1000)"
  by (rule fwithin_flit) (use bnd_dyadic [of 65 16] bnd_dyadic [of 66 16] in simp_all)

lemma fl_mul_commute: "fl_mul f x y = fl_mul f y x"
proof (cases x; cases y)
  fix s m e s' m' e' assume "x = Fin s m e" "y = Fin s' m' e'"
  moreover have "(s \<noteq> s') = (s' \<noteq> s)" by blast
  ultimately show ?thesis by (simp only: fl_mul.simps mult.commute [of m] add.commute [of e])
qed (auto simp: eq_commute)

text \<open>The signals of a step with the default parameters, and that the wheel only spins up while its rim is slower than the car.\<close>

lemma default_signals:
  assumes lm: "libm_ok lm" and k: "tracked k veh" and bp: "pyf bp" "bp \<noteq> NaN"
  obtains slip mu decel alpha where
    "compute_slip (vs_v (vh_state veh)) (vs_omega (vh_state veh)) (wheel_radius VehicleParams) (flit 1 1) = Inr slip"
    "tire_mu lm (vh_tire veh) slip = Inr mu"
    "fdiv (fmul (fmul mu (mass_quarter VehicleParams)) G) (mass_quarter VehicleParams) = Inr decel" "fwithin 0 10 decel"
    "fdiv (fsub (fmul (fmul (fmul mu (mass_quarter VehicleParams)) G) (wheel_radius VehicleParams))
       (fmul (brake_gain VehicleParams) (saturate VehicleParams bp))) (wheel_inertia VehicleParams) = Inr alpha"
    "fwithin (- 32768) 1024 alpha" "fwithin (- 32768) 0 alpha \<or> fwithin 0 94 (vs_omega (vh_state veh))"
proof -
  let ?s = "vh_state veh" and ?m = "mass_quarter VehicleParams" and ?r = "wheel_radius VehicleParams"
  have ok: "vehicle_ok veh" and p: "vh_params veh = VehicleParams" and v: "fwithin 0 28 (vs_v ?s)" and w: "fwithin 0 96 (vs_omega ?s)"
    using k by (simp_all add: tracked_def)
  have D: "fwithin 0 1 (tpD (t_params (vh_tire veh)))" using ok by (simp add: vehicle_ok_def params_ok_def)
  obtain slip mu decel alpha where sig:
    "compute_slip (vs_v ?s) (vs_omega ?s) ?r (flit 1 1) = Inr slip" "fwithin 0 1 slip"
    "tire_mu lm (vh_tire veh) slip = Inr mu" "fwithin 0 (fval (tpD (t_params (vh_tire veh)))) mu"
    "fdiv (fmul (fmul mu ?m) G) ?m = Inr decel"
    "fdiv (fsub (fmul (fmul (fmul mu ?m) G) ?r)
       (fmul (brake_gain VehicleParams) (saturate VehicleParams bp))) (wheel_inertia VehicleParams) = Inr alpha"
    "fval mu = 0 \<Longrightarrow> fwithin (- 32768) 0 alpha \<and> fval decel = 0"
    using step_signals [OF lm ok ms_within bp] unfolding p by metis
  have mu: "fwithin 0 1 mu" using fwithin_weaken [OF sig(4), of 0 1] fwithinD(5) [OF D] by simp
  have m: "fwithin 400 400 ?m" unfolding VehicleParams_def using fwithin_int [of 400] by simp
  have "fwithin 0 400 (fmul mu ?m)" by (rule fwithin_fmul [OF mu m]) simp_all
  then have F: "fwithin 0 4000 (fmul (fmul mu ?m) G)" by (rule fwithin_fmul [OF _ G_within]) simp_all
  from fwithin_fdiv [OF this m, of 0 10] sig(5) have d: "fwithin 0 10 decel" by auto
  have Fr: "fwithin 0 1204 (fmul (fmul (fmul mu ?m) G) ?r)" by (rule fwithin_fmul [OF F radius_within]) simp_all
  have g: "fwithin 25 25 (brake_gain VehicleParams)" unfolding VehicleParams_def using fwithin_int [of 25] by simp
  have "fwithin 0 512 (max_brake_pressure VehicleParams)" using VehicleParams_ok by (simp add: vparams_ok_def)
  then have "fwithin 0 512 (saturate VehicleParams bp)"
    using fwithin_weaken [OF saturate_within [OF _ bp]] fwithinD(5) by fastforce
  from fwithin_fmul [OF g this, of 0 12800] have T: "fwithin 0 12800 (fmul (brake_gain VehicleParams) (saturate VehicleParams bp))"
    by simp
  have net: "fwithin (- 12800) 1204 (fsub (fmul (fmul (fmul mu ?m) G) ?r) (fmul (brake_gain VehicleParams) (saturate VehicleParams bp)))"
    by (rule fwithin_fsub [OF Fr T]) simp_all
  have "fwithin (19/16) 2 (wheel_inertia VehicleParams)"
    unfolding VehicleParams_def by simp (rule fwithin_flit; use bnd_dyadic [of 19 4] in simp)
  from fwithin_fdiv [OF net this, of "- 32768" 1024] sig(6) have a: "fwithin (- 32768) 1024 alpha" by auto
  have "fwithin (- 32768) 0 alpha \<or> fwithin 0 94 (vs_omega ?s)"
  proof (cases "fval mu = 0")
    case False
    have "fval slip \<noteq> 0"
    proof
      assume "fval slip = 0"
      then have "fzero slip" using fzero_fval fwithinD(2) [OF sig(2)] by blast
      then obtain m0 where "tire_mu lm (vh_tire veh) slip = Inr m0" "fzero m0"
        using tire_mu_zero [OF lm] ok by (metis vehicle_ok_def)
      with sig(3) False show False by (cases m0) auto
    qed
    then have pos: "0 < fval slip" using fwithinD(4) [OF sig(2)] by simp
    have one: "fwithin 1 1 (flit 1 1)" using fwithin_int [of 1] by simp
    have wr: "fwithin 0 96 (fmul (vs_omega ?s) ?r)" by (rule fwithin_fmul [OF w radius_within]) simp_all
    from slip_pos_rim [OF sig(1) pos v wr one] have lt: "fval (fmul (vs_omega ?s) ?r) < 28"
      using fwithinD(5) [OF v] by simp
    have "fval (vs_omega ?s) \<le> 94"
    proof (rule ccontr)
      assume "\<not> ?thesis"
      then have "fwithin 94 96 (vs_omega ?s)" using w by (simp add: fwithin_def)
      then have "fwithin 28 96 (fmul (vs_omega ?s) ?r)" by (rule fwithin_fmul [OF _ radius_within]) simp_all
      with lt show False using fwithinD(4) by fastforce
    qed
    then show ?thesis using w by (simp add: fwithin_def)
  qed (use sig(7) in blast)
  with that [OF sig(1,3,5) d sig(6) a] show ?thesis .
qed

lemma tracked_step:
  assumes lm: "libm_ok lm" and k: "tracked k veh" "0 \<le> k" "k < 2 ^ 20" and bp: "pyf bp" "bp \<noteq> NaN"
    and run: "vehicle_step lm veh bp DT_PLANT = Inr (out, veh')"
  shows "tracked (k + 1) veh' \<and> fval (vs_t (vh_state veh)) \<le> fval (vs_t (vh_state veh'))"
proof -
  let ?s = "vh_state veh" and ?dt = "flit 1 1000"
  have ok: "vehicle_ok veh" and p: "vh_params veh = VehicleParams" and v: "fwithin 0 28 (vs_v ?s)" and w: "fwithin 0 96 (vs_omega ?s)"
    and t: "fwithin (of_int (65 * k) / 2 ^ 16) (of_int (66 * k) / 2 ^ 16) (vs_t ?s)"
    and x: "fwithin (of_int (- k) / 2 ^ 15) (of_int (29 * k) / 2 ^ 10) (vs_x ?s)"
    using k(1) by (simp_all add: tracked_def)
  obtain slip mu decel alpha where sig:
    "compute_slip (vs_v ?s) (vs_omega ?s) (wheel_radius VehicleParams) (flit 1 1) = Inr slip"
    "tire_mu lm (vh_tire veh) slip = Inr mu"
    "fdiv (fmul (fmul mu (mass_quarter VehicleParams)) G) (mass_quarter VehicleParams) = Inr decel" "fwithin 0 10 decel"
    "fdiv (fsub (fmul (fmul (fmul mu (mass_quarter VehicleParams)) G) (wheel_radius VehicleParams))
       (fmul (brake_gain VehicleParams) (saturate VehicleParams bp))) (wheel_inertia VehicleParams) = Inr alpha"
    "fwithin (- 32768) 1024 alpha" "fwithin (- 32768) 0 alpha \<or> fwithin 0 94 (vs_omega ?s)"
    using default_signals [OF lm k(1) bp] by metis
  let ?dv = "fmul (fneg decel) ?dt" and ?dw = "fmul alpha ?dt"
  let ?v1 = "fadd (vs_v ?s) ?dv" and ?w1 = "fadd (vs_omega ?s) ?dw"
  let ?dx = "fadd (fmul ?v1 ?dt) (fmul (fmul (flit 1 2) ?dv) ?dt)"
  have dv: "fwithin (- 11/1024) 0 ?dv"
    by (rule fwithin_fmul [OF fwithin_fneg [OF sig(4)] ms_tight]) (use bnd_dyadic [of 11 10] in simp_all)
  have v1: "fwithin (- 11/1024) 28 ?v1" by (rule fwithin_fadd [OF v dv]) (use bnd_dyadic [of 11 10] in simp_all)
  have w1: "fwithin (- 64) 96 ?w1"
    using sig(7)
  proof
    assume "fwithin (- 32768) 0 alpha"
    then have "fwithin (- 64) 0 ?dw" by (rule fwithin_fmul [OF _ ms_tight]) simp_all
    then show ?thesis by (rule fwithin_fadd [OF w]) simp_all
  next
    assume w94: "fwithin 0 94 (vs_omega ?s)"
    have "fwithin (- 64) 2 ?dw" by (rule fwithin_fmul [OF sig(6) ms_tight]) simp_all
    then show ?thesis by (rule fwithin_fadd [OF w94]) simp_all
  qed
  have "fwithin (- 11/2048) 0 (fmul (flit 1 2) ?dv)"
    unfolding fl_mul_commute [of B64 "flit 1 2"]
    by (rule fwithin_fmul [OF dv half_within]) (use bnd_dyadic [of 11 11] in simp_all)
  then have hv: "fwithin (- 1/2 ^ 16) 0 (fmul (fmul (flit 1 2) ?dv) ?dt)"
    by (rule fwithin_fmul [OF _ ms_tight]) (use bnd_dyadic [of 1 16] in simp_all)
  have "fwithin (- 1/2 ^ 16) (29/1024) (fmul ?v1 ?dt)"
    by (rule fwithin_fmul [OF v1 ms_tight]) (use bnd_dyadic [of 1 16] bnd_dyadic [of 29 10] in simp_all)
  then have dx: "fwithin (- 1/2 ^ 15) (29/1024) ?dx"
    by (rule fwithin_fadd [OF _ hv]) (use bnd_dyadic [of 1 15] bnd_dyadic [of 29 10] in simp_all)
  have x1: "fwithin (of_int (- (k + 1)) / 2 ^ 15) (of_int (29 * (k + 1)) / 2 ^ 10) (fadd (vs_x ?s) ?dx)"
    by (rule fwithin_fadd [OF x dx]) (use k(2,3) bnd_dyadic [of "- (k + 1)" 15] bnd_dyadic [of "29 * (k + 1)" 10]
      in \<open>simp_all add: field_simps\<close>)
  have t1: "fwithin (of_int (65 * (k + 1)) / 2 ^ 16) (of_int (66 * (k + 1)) / 2 ^ 16) (fadd (vs_t ?s) ?dt)"
    by (rule fwithin_fadd [OF t ms_tight]) (use k(2,3) bnd_dyadic [of "65 * (k + 1)" 16] bnd_dyadic [of "66 * (k + 1)" 16]
      in \<open>simp_all add: field_simps\<close>)
  have "bnd (fval (vs_t ?s))"
    by (rule fwithin_bnd [OF t]) (use k(2,3) bnd_dyadic [of "65 * k" 16] bnd_dyadic [of "66 * k" 16] in simp_all)
  moreover have "bnd (of_int (66 * (k + 1)) / 2 ^ 16)" using k(2,3) bnd_dyadic [of "66 * (k + 1)" 16] by simp
  ultimately have tm: "fval (vs_t ?s) \<le> fval (fadd (vs_t ?s) ?dt)"
    using fwithin_fadd [OF fwithin_fval [OF t] ms_tight, of "fval (vs_t ?s)" "of_int (66 * (k + 1)) / 2 ^ 16"] fwithinD(4,5)
      fwithinD(5) [OF t] by (fastforce simp: field_simps)
  have st: "vs_v (vh_state veh') = f0 \<or> vs_v (vh_state veh') = (if flt ?v1 f0 then f0 else ?v1)"
    "vs_omega (vh_state veh') = f0 \<or> vs_omega (vh_state veh') = (if flt ?w1 f0 then f0 else ?w1)"
    "vs_x (vh_state veh') = fadd (vs_x ?s) ?dx" "vs_t (vh_state veh') = fadd (vs_t ?s) ?dt" "vh_params veh' = VehicleParams"
    using run sig(1,2,3,5) unfolding DT_PLANT_def vehicle_step_def Let_def p by (simp_all, auto simp: p)
  have "fwithin 0 28 (vs_v (vh_state veh'))" "fwithin 0 96 (vs_omega (vh_state veh'))"
    using st(1,2) clamp0_within [OF v1] clamp0_within [OF w1] fwithin_weaken [OF fwithin_f0, of 0 28]
      fwithin_weaken [OF fwithin_f0, of 0 96] by auto
  moreover have "vehicle_ok veh'" using vehicle_step_run [OF lm ok ms_within bp] run unfolding DT_PLANT_def by (metis Inr_inject prod.inject)
  ultimately show ?thesis using x1 t1 tm by (simp only: tracked_def st simp_thms)
qed

section \<open>Invariant\<close>

lemma pedal_within: "fwithin 100 100 DRIVER_PEDAL_BAR"
  unfolding DRIVER_PEDAL_BAR_def by (rule bar100_within)

text \<open>The controller argument of the loop as a brake controller on pairs of slip and speed: the driver's pedal is a
  controller that always decides for the request.\<close>

definition loop_decision :: "oracle_abs option \<Rightarrow> pyfloat \<times> pyfloat \<Rightarrow> pyfloat option" where
  "loop_decision ctrl = (\<lambda>(slip, v). case ctrl of None \<Rightarrow> Some DRIVER_PEDAL_BAR | Some c \<Rightarrow> decision c (slip, v, DRIVER_PEDAL_BAR))"

definition loop_memory :: "oracle_abs option \<Rightarrow> pyfloat" where
  "loop_memory ctrl = (case ctrl of None \<Rightarrow> DRIVER_PEDAL_BAR | Some c \<Rightarrow> oa_previous_command c)"

definition loop_holds :: "oracle_abs option \<Rightarrow> bool" where
  "loop_holds ctrl \<longleftrightarrow> loop_memory ctrl \<in> {f0, DRIVER_PEDAL_BAR}"

interpretation loop: plant_controller "\<lambda>(slip, v). loop_controller slip v DRIVER_PEDAL_BAR" loop_decision loop_memory f0
    "\<lambda>_. DRIVER_PEDAL_BAR"
proof
  fix x c cmd c'
  assume s: "(case x of (slip, v) \<Rightarrow> loop_controller slip v DRIVER_PEDAL_BAR) c = (cmd, c')"
  obtain slip v where x: "x = (slip, v)" by force
  have "cmd = (case loop_decision c x of None \<Rightarrow> loop_memory c | Some d \<Rightarrow> d) \<and> loop_memory c' = cmd \<and>
      loop_decision c' = loop_decision c"
  proof (cases c)
    case None
    then show ?thesis using s by (auto simp: x loop_controller_def loop_decision_def loop_memory_def)
  next
    case (Some o1)
    obtain cmd1 o2 where o: "oracle_step slip v DRIVER_PEDAL_BAR o1 = (cmd1, o2)" by force
    then have c': "c' = Some o2" and st: "(case (slip, v, DRIVER_PEDAL_BAR) of (slip, v, req) \<Rightarrow> oracle_step slip v req) o1 = (cmd, o2)"
      using s Some by (simp_all add: x loop_controller_def)
    have m: "loop_memory c = oa_previous_command o1" "loop_memory c' = oa_previous_command o2"
      "loop_decision c x = decision o1 (slip, v, DRIVER_PEDAL_BAR)" "loop_decision c' = loop_decision c"
      using bang_bang.settings [OF st] by (simp_all add: Some c' x loop_memory_def loop_decision_def)
    show ?thesis unfolding m using bang_bang.command [OF st] bang_bang.remembers [OF st] by blast
  qed
  then show "cmd = (case loop_decision c x of None \<Rightarrow> loop_memory c | Some d \<Rightarrow> d)" "loop_memory c' = cmd"
      "loop_decision c' = loop_decision c" by simp_all
next
  show "d = f0 \<or> d = DRIVER_PEDAL_BAR" if "loop_decision c x = Some d" for c x d
    using that bang_bang.decisions by (fastforce simp: loop_decision_def split: prod.splits option.splits)
qed (use fwithinD(3) [OF pedal_within] not_NaN [OF pedal_within] in auto)

text \<open>The time and the position of sample \<open>i\<close>.  The last sample of a run that ended early is logged without a
  step, so it may have the values of the sample before.\<close>

definition in_time :: "nat \<Rightarrow> pyfloat \<Rightarrow> bool" where
  "in_time i t \<longleftrightarrow> fwithin (of_int (65 * int i) / 2 ^ 16) (of_int (66 * (int i + 1)) / 2 ^ 16) t"

definition in_place :: "nat \<Rightarrow> pyfloat \<Rightarrow> bool" where
  "in_place i x \<longleftrightarrow> fwithin (of_int (- (int i + 1)) / 2 ^ 15) (of_int (29 * (int i + 1)) / 2 ^ 10) x"

definition row_ok :: "nat \<Rightarrow> vehicle \<Rightarrow> bool" where
  "row_ok i veh \<longleftrightarrow> fwithin 0 28 (vs_v (vh_state veh)) \<and>
     fwithin 0 29 (fmul (vs_omega (vh_state veh)) (wheel_radius (vh_params veh))) \<and>
     in_time i (vs_t (vh_state veh)) \<and> in_place i (vs_x (vh_state veh))"

lemma tracked_row:
  assumes "tracked k veh" "k = int i \<or> k = int i + 1"
  shows "row_ok i veh"
proof -
  have s: "fwithin 0 28 (vs_v (vh_state veh))" "fwithin 0 96 (vs_omega (vh_state veh))" "vh_params veh = VehicleParams"
    "fwithin (of_int (65 * k) / 2 ^ 16) (of_int (66 * k) / 2 ^ 16) (vs_t (vh_state veh))"
    "fwithin (of_int (- k) / 2 ^ 15) (of_int (29 * k) / 2 ^ 10) (vs_x (vh_state veh))"
    using assms(1) by (simp_all add: tracked_def)
  have "fwithin 0 29 (fmul (vs_omega (vh_state veh)) (wheel_radius VehicleParams))"
    by (rule fwithin_fmul [OF s(2) radius_within]) simp_all
  moreover have "in_time i (vs_t (vh_state veh))"
    unfolding in_time_def by (rule fwithin_weaken [OF s(4)]) (use assms(2) in \<open>auto simp: field_simps\<close>)
  moreover have "in_place i (vs_x (vh_state veh))"
    unfolding in_place_def by (rule fwithin_weaken [OF s(5)]) (use assms(2) in \<open>auto simp: field_simps\<close>)
  ultimately show ?thesis using s(1,3) by (simp add: row_ok_def)
qed

definition log_ok :: "nat \<Rightarrow> sim_log \<Rightarrow> bool" where
  "log_ok n lg \<longleftrightarrow>
     length (sl_t lg) = n \<and> length (sl_v lg) = n \<and> length (sl_omega_R lg) = n \<and>
     length (sl_slip lg) = n \<and> length (sl_mu lg) = n \<and> length (sl_brake_cmd lg) = n \<and> length (sl_x lg) = n \<and>
     (\<forall>v \<in> set (sl_v lg). fwithin 0 28 v) \<and> sorted_wrt (\<lambda>a b. fval b \<le> fval a) (sl_v lg) \<and>
     (\<forall>r \<in> set (sl_omega_R lg). fwithin 0 29 r) \<and>
     (\<forall>i < n. in_time i (sl_t lg ! i) \<and> in_place i (sl_x lg ! i)) \<and> sorted_wrt (\<lambda>a b. fval a \<le> fval b) (sl_t lg) \<and>
     (\<forall>s \<in> set (sl_slip lg). fwithin 0 1 s) \<and> (\<forall>m \<in> set (sl_mu lg). fwithin 0 1 m) \<and>
     set (sl_brake_cmd lg) \<subseteq> {f0, DRIVER_PEDAL_BAR}"

lemma log_ok_sample:
  assumes "log_ok n lg" "fwithin 0 1 slip" "fwithin 0 1 mu" "brake \<in> {f0, DRIVER_PEDAL_BAR}" and "row_ok n veh"
    and "\<forall>v \<in> set (sl_v lg). fval (vs_v (vh_state veh)) \<le> fval v" "\<forall>t \<in> set (sl_t lg). fval t \<le> fval (vs_t (vh_state veh))"
  shows "log_ok (Suc n) (log_sample veh slip mu brake lg)"
  using assms by (auto simp: log_ok_def log_sample_def row_ok_def sorted_wrt_append nth_append less_Suc_eq)

definition sim_ok :: "nat \<Rightarrow> sim_state \<Rightarrow> bool" where
  "sim_ok n s \<longleftrightarrow> tracked (int n) (ss_veh s) \<and>
     loop_holds (ss_controller s) \<and> ss_brake_cmd s \<in> {f0, DRIVER_PEDAL_BAR} \<and> log_ok n (ss_log s) \<and>
     (\<forall>v \<in> set (sl_v (ss_log s)). fval (vs_v (vh_state (ss_veh s))) \<le> fval v) \<and>
     (\<forall>t \<in> set (sl_t (ss_log s)). fval t \<le> fval (vs_t (vh_state (ss_veh s))))"

lemma saturate_command: "c \<in> {f0, DRIVER_PEDAL_BAR} \<Longrightarrow> saturate VehicleParams c = c"
  by (auto simp: saturate_def VehicleParams_def DRIVER_PEDAL_BAR_def flt_fin)

lemma sim_control_ok: "sim_ok n s \<Longrightarrow> sim_ok n (sim_control spc k s)"
proof -
  assume ok: "sim_ok n s"
  let ?slip = "if sl_slip (ss_log s) \<noteq> [] then last (sl_slip (ss_log s)) else f0"
  obtain cmd ctrl' where c: "loop_controller ?slip (vs_v (vh_state (ss_veh s))) DRIVER_PEDAL_BAR (ss_controller s) = (cmd, ctrl')"
    by force
  have "loop_holds ctrl' \<and> cmd \<in> {f0, DRIVER_PEDAL_BAR}"
    using loop.step_safe [of "(?slip, vs_v (vh_state (ss_veh s)))" "ss_controller s" cmd ctrl'] c ok
    by (simp add: sim_ok_def loop_holds_def)
  then show ?thesis using ok c by (simp add: sim_ok_def sim_control_def Let_def)
qed

lemma DT_PLANT_within: "fwithin 0 (1/64) DT_PLANT"
  unfolding DT_PLANT_def by (rule ms_within)

lemma sim_tick_ok:
  assumes lm: "libm_ok lm" and ok: "sim_ok n s" and n: "n < 2 ^ 20"
  shows "\<exists>s'. sim_tick lm spc k s = Inr s' \<and> sim_ok (Suc n) s'"
proof -
  let ?s = "sim_control spc k s"
  have ok': "sim_ok n ?s" using sim_control_ok [OF ok] .
  then have v: "vehicle_ok (ss_veh ?s)" and c: "ss_brake_cmd ?s \<in> {f0, DRIVER_PEDAL_BAR}"
    and par: "vh_params (ss_veh ?s) = VehicleParams" and tr: "tracked (int n) (ss_veh ?s)" by (simp_all add: sim_ok_def tracked_def)
  have num: "pyf (ss_brake_cmd ?s)" "ss_brake_cmd ?s \<noteq> NaN" using loop.number c by auto
  obtain out veh' where r: "vehicle_step lm (ss_veh ?s) (ss_brake_cmd ?s) DT_PLANT = Inr (out, veh')"
    "vehicle_ok veh'" "vh_params veh' = vh_params (ss_veh ?s)" "vh_tire veh' = vh_tire (ss_veh ?s)"
    "fval (vs_v (vh_state veh')) \<le> fval (vs_v (vh_state (ss_veh ?s)))" "fwithin 0 1 (so_slip out)"
    "fwithin 0 (fval (tpD (t_params (vh_tire (ss_veh ?s))))) (so_mu out)"
    "so_brake_pressure out = saturate (vh_params (ss_veh ?s)) (ss_brake_cmd ?s)"
    using vehicle_step_run [OF lm v DT_PLANT_within num] by metis
  have "fval (tpD (t_params (vh_tire (ss_veh ?s)))) \<le> 1"
    using v fwithinD(5) by (auto simp: vehicle_ok_def params_ok_def)
  then have mu: "fwithin 0 1 (so_mu out)" by (intro fwithin_weaken [OF r(7)]) simp_all
  have bp: "so_brake_pressure out \<in> {f0, DRIVER_PEDAL_BAR}"
    using saturate_command [OF c] c r(8) by (simp add: par)
  have "int n < 2 ^ 20" using n by simp
  from tracked_step [OF lm tr _ this num r(1)] have tr': "tracked (int n + 1) veh'"
    and t: "fval (vs_t (vh_state (ss_veh ?s))) \<le> fval (vs_t (vh_state veh'))" by simp_all
  have "(\<forall>u \<in> set (sl_v (ss_log ?s)). fval (vs_v (vh_state veh')) \<le> fval u) \<and>
      (\<forall>u \<in> set (sl_t (ss_log ?s)). fval u \<le> fval (vs_t (vh_state veh')))"
    using ok' r(5) t unfolding sim_ok_def by (meson order_trans)
  moreover have "log_ok (Suc n) (log_sample veh' (so_slip out) (so_mu out) (so_brake_pressure out) (ss_log ?s))"
  proof (rule log_ok_sample [OF _ r(6) mu bp])
    show "log_ok n (ss_log ?s)" using ok' by (simp add: sim_ok_def)
    show "row_ok n veh'" using tracked_row [OF tr'] by simp
  qed (use calculation in simp_all)
  ultimately show ?thesis
    using ok' c tr' unfolding sim_tick_def Let_def r(1)
    by (simp add: sim_ok_def add.commute log_sample_def [of veh' _ _ _ "ss_log ?s"])
qed

lemma sim_loop_ok:
  assumes lm: "libm_ok lm" and "sim_ok n s" and "n + length ks \<le> 2 ^ 20"
  shows "\<exists>s' m. sim_loop lm spc ks s = Inr s' \<and> log_ok m (ss_log s') \<and> sl_scenario (ss_log s') = sl_scenario (ss_log s) \<and>
    (m = n + length ks \<or> n < m \<and> m \<le> n + length ks \<and> stopped (ss_veh s') \<and>
       last (sl_v (ss_log s')) = vs_v (vh_state (ss_veh s')))"
  using assms(2,3)
proof (induction ks arbitrary: n s)
  case Nil
  then show ?case by (auto simp: sim_ok_def)
next
  case (Cons k ks)
  show ?case
  proof (cases "stopped (ss_veh s)")
    case True
    have "log_ok (Suc n) (log_sample (ss_veh s) f0 f0 (ss_brake_cmd s) (ss_log s))"
      using Cons.prems(1) tracked_row [of "int n" "ss_veh s" n] unfolding sim_ok_def
      by (intro log_ok_sample) (auto intro: fwithin_weaken [OF fwithin_f0])
    with True show ?thesis by (auto simp: log_sample_def intro!: exI [of _ "Suc n"])
  next
    case False
    obtain s1 where s1: "sim_tick lm spc k s = Inr s1" "sim_ok (Suc n) s1"
      using sim_tick_ok [OF lm Cons.prems(1)] Cons.prems(2) by auto
    have sc: "sl_scenario (ss_log s1) = sl_scenario (ss_log s)"
      using s1(1) by (auto simp: sim_tick_def sim_control_def log_sample_def Let_def py_bind_Inr_iff split: prod.splits if_splits)
    have "Suc n + length ks \<le> 2 ^ 20" using Cons.prems(2) by simp
    from Cons.IH [OF s1(2) this] obtain s' m where "sim_loop lm spc ks s1 = Inr s'" "log_ok m (ss_log s')"
      "sl_scenario (ss_log s') = sl_scenario (ss_log s1)"
      "m = Suc n + length ks \<or> Suc n < m \<and> m \<le> Suc n + length ks \<and> stopped (ss_veh s') \<and>
        last (sl_v (ss_log s')) = vs_v (vh_state (ss_veh s'))" by blast
    with False s1(1) sc show ?thesis by (intro exI [of _ s'] exI [of _ m]) auto
  qed
qed

section \<open>The control period\<close>

text \<open>The command in force during a sample is the one of the sample before, unless a control step fell
  on it.\<close>

definition held :: "int \<Rightarrow> sim_log \<Rightarrow> bool" where
  "held spc lg \<longleftrightarrow> (\<forall>i < length (sl_brake_cmd lg). 0 < i \<longrightarrow> int i mod spc \<noteq> 0 \<longrightarrow>
     sl_brake_cmd lg ! i = sl_brake_cmd lg ! (i - 1))"

definition held_state :: "int \<Rightarrow> sim_state \<Rightarrow> bool" where
  "held_state spc s \<longleftrightarrow> held spc (ss_log s) \<and>
     (sl_brake_cmd (ss_log s) \<noteq> [] \<longrightarrow> last (sl_brake_cmd (ss_log s)) = ss_brake_cmd s)"

lemma held_sample:
  assumes "held spc lg" and "length (sl_brake_cmd lg) = n"
    and "sl_brake_cmd lg \<noteq> [] \<Longrightarrow> int n mod spc \<noteq> 0 \<Longrightarrow> last (sl_brake_cmd lg) = brake"
  shows "held spc (log_sample veh slip mu brake lg)"
proof -
  let ?b = "sl_brake_cmd lg"
  have "(?b @ [brake]) ! i = (?b @ [brake]) ! (i - 1)"
    if i: "i < length ?b + 1" "0 < i" "int i mod spc \<noteq> 0" for i
  proof (cases "i < length ?b")
    case True
    then have "?b ! i = ?b ! (i - 1)" using assms(1) i unfolding held_def by blast
    with True i show ?thesis by (simp add: nth_append less_imp_diff_less)
  next
    case False
    then have n: "i = length ?b" "?b \<noteq> []" using i by auto
    then have "last ?b = brake" using assms(2,3) i by simp
    then have "?b ! (i - 1) = brake" using last_conv_nth [OF n(2)] n(1) by simp
    moreover have "i - 1 < length ?b" using n i by simp
    ultimately show ?thesis by (simp add: nth_append n(1))
  qed
  then show ?thesis by (simp add: held_def log_sample_def)
qed

lemma sim_tick_held:
  assumes "libm_ok lm" "sim_ok n s" "held_state spc s" "sim_tick lm spc (int n) s = Inr s'"
  shows "held_state spc s'"
proof -
  let ?s = "sim_control spc (int n) s"
  have ok: "sim_ok n ?s" using sim_control_ok [OF assms(2)] .
  obtain out veh' where v: "vehicle_step lm (ss_veh ?s) (ss_brake_cmd ?s) DT_PLANT = Inr (out, veh')"
    and s': "s' = ?s\<lparr>ss_veh := veh', ss_log := log_sample veh' (so_slip out) (so_mu out) (so_brake_pressure out) (ss_log ?s)\<rparr>"
    using assms(4) by (auto simp: sim_tick_def Let_def py_bind_Inr_iff)
  have "so_brake_pressure out = saturate (vh_params (ss_veh ?s)) (ss_brake_cmd ?s)"
    using v by (auto simp: vehicle_step_def Let_def py_bind_Inr_iff)
  then have b: "so_brake_pressure out = ss_brake_cmd ?s"
    using saturate_command [of "ss_brake_cmd ?s"] ok by (simp add: sim_ok_def tracked_def)
  have l: "ss_log ?s = ss_log s" "int n mod spc \<noteq> 0 \<Longrightarrow> ss_brake_cmd ?s = ss_brake_cmd s"
    by (auto simp: sim_control_def Let_def split: prod.split)
  have n: "length (sl_brake_cmd (ss_log s)) = n" using assms(2) by (simp add: sim_ok_def log_ok_def)
  have "held spc (log_sample veh' (so_slip out) (so_mu out) (so_brake_pressure out) (ss_log ?s))"
    using assms(3) by (intro held_sample) (auto simp: l b n held_state_def)
  then show ?thesis by (simp add: s' held_state_def b) (simp add: log_sample_def)
qed

lemma sim_loop_held:
  assumes "libm_ok lm" "sim_ok n s" "held_state spc s" "sim_loop lm spc (map int [n..<N]) s = Inr s'"
    and N: "N \<le> 2 ^ 20"
  shows "held spc (ss_log s')"
  using assms(2-4)
proof (induction "N - n" arbitrary: n s)
  case 0
  then show ?case by (simp add: held_state_def)
next
  case (Suc j)
  then have up: "[n..<N] = n # [Suc n..<N]" by (simp add: upt_conv_Cons)
  show ?case
  proof (cases "stopped (ss_veh s)")
    case True
    have "length (sl_brake_cmd (ss_log s)) = n" using Suc.prems by (simp add: sim_ok_def log_ok_def)
    then have "held spc (log_sample (ss_veh s) f0 f0 (ss_brake_cmd s) (ss_log s))"
      using Suc.prems(2) by (intro held_sample) (auto simp: held_state_def)
    with True Suc.prems(3) show ?thesis by (auto simp: up)
  next
    case False
    have n: "n < 2 ^ 20" using Suc.hyps(2) N by linarith
    obtain s1 where s1: "sim_tick lm spc (int n) s = Inr s1" "sim_ok (Suc n) s1"
      using sim_tick_ok [OF assms(1) Suc.prems(1)] n by blast
    have "held_state spc s1" using sim_tick_held [OF assms(1) Suc.prems(1,2) s1(1)] .
    then show ?thesis
      using Suc.hyps(1) [of "Suc n" s1] Suc.hyps(2) Suc.prems(3) s1 False by (simp add: up)
  qed
qed

section \<open>Whole runs\<close>

lemma loop_steps:
  "py_bind (fdiv DT_CONTROL DT_PLANT) py_int_round = Inr 10"
  "py_bind (fdiv SIM_DURATION DT_PLANT) py_int_round = Inr 6000"
  by code_simp+

lemma map_int_upt: "map int [0..<n] = [0..int n - 1]"
  by (rule nth_equalityI) (simp_all add: nth_upto)

lemma run_loop_eq:
  "run_loop lm veh ctrl label = py_bind (sim_loop lm 10 (map int [0..<6000])
     \<lparr>ss_veh = veh, ss_controller = ctrl, ss_brake_cmd = f0, ss_log = empty_log label\<rparr>) (\<lambda>s. Inr (ss_log s))"
proof -
  obtain q r where "fdiv DT_CONTROL DT_PLANT = Inr q" "py_int_round q = Inr 10"
    "fdiv SIM_DURATION DT_PLANT = Inr r" "py_int_round r = Inr 6000"
    using loop_steps by (auto simp: py_bind_Inr_iff)
  moreover have "map int [0..<6000] = [0..6000 - 1]" using map_int_upt [of 6000] by simp
  ultimately show ?thesis by (simp add: run_loop_def)
qed

lemma Vehicle_tracked:
  assumes "PacejkaTire surface = Inr tire"
  shows "\<exists>veh. Vehicle VehicleParams tire INITIAL_SPEED = Inr veh \<and> tracked 0 veh"
proof -
  have v: "fwithin 0 28 INITIAL_SPEED" unfolding INITIAL_SPEED_def by (rule fwithin_weaken [OF v0_within]) simp_all
  from fwithin_fdiv [OF this radius_within, of 0 96] obtain w where
    w: "fdiv INITIAL_SPEED (wheel_radius VehicleParams) = Inr w" "fwithin 0 96 w" by auto
  have "fwithin 0 4096 w" "fwithin 0 128 INITIAL_SPEED" using w(2) v by (auto intro: fwithin_weaken)
  then show ?thesis using w v VehicleParams_ok tire_ok_params PacejkaTire_ok [OF assms]
    by (simp add: Vehicle_def tracked_def vehicle_ok_def)
qed

lemma run_loop_spec:
  assumes lm: "libm_ok lm" and t: "PacejkaTire surface = Inr tire" and c: "loop_holds ctrl"
  shows "\<exists>veh lg n. Vehicle VehicleParams tire INITIAL_SPEED = Inr veh \<and> run_loop lm veh ctrl label = Inr lg \<and>
    sl_scenario lg = label \<and> log_ok n lg \<and> held 10 lg \<and> 1 \<le> n \<and> n \<le> 6000 \<and>
    (n < 6000 \<longrightarrow> flt (last (sl_v lg)) (flit 1 1000))"
proof -
  obtain veh where veh: "Vehicle VehicleParams tire INITIAL_SPEED = Inr veh" "tracked 0 veh"
    using Vehicle_tracked [OF t] by blast
  let ?s = "\<lparr>ss_veh = veh, ss_controller = ctrl, ss_brake_cmd = f0, ss_log = empty_log label\<rparr>"
  have ok: "sim_ok 0 ?s" using veh c by (simp add: sim_ok_def log_ok_def empty_log_def)
  have hs: "held_state 10 ?s" by (simp add: held_state_def held_def empty_log_def)
  obtain s' m where r: "sim_loop lm 10 (map int [0..<6000]) ?s = Inr s'" "log_ok m (ss_log s')"
    "sl_scenario (ss_log s') = label" "m = 6000 \<or> 0 < m \<and> m \<le> 6000 \<and> stopped (ss_veh s') \<and>
       last (sl_v (ss_log s')) = vs_v (vh_state (ss_veh s'))"
    using sim_loop_ok [OF lm ok, where spc = 10 and ks = "map int [0..<6000]"] by (auto simp: empty_log_def)
  have "held 10 (ss_log s')" using sim_loop_held [OF lm ok hs r(1)] by simp
  then show ?thesis using veh r by (auto simp: run_loop_eq stopped_def simp del: upt_Suc)
qed

lemma run_cases:
  assumes "PacejkaTire surface = Inr tire" "Vehicle VehicleParams tire INITIAL_SPEED = Inr veh"
  shows "run_no_abs lm surface = run_loop lm veh None ''no_abs''"
    "run_oracle lm surface = run_loop lm veh (Some OracleABS_default) ''oracle''"
  using assms by (simp_all add: run_no_abs_def run_oracle_def)

lemma controllers_hold: "loop_holds None" "loop_holds (Some OracleABS_default)"
  by (simp_all add: loop_holds_def loop_memory_def OracleABS_default_def OracleABS_def)

lemma runs_return:
  assumes lm: "libm_ok lm" and t: "PacejkaTire surface = Inr tire"
  shows "\<exists>lg n. run_no_abs lm surface = Inr lg \<and> log_ok n lg \<and> held 10 lg \<and> 1 \<le> n \<and> n \<le> 6000"
    "\<exists>lg n. run_oracle lm surface = Inr lg \<and> log_ok n lg \<and> held 10 lg \<and> 1 \<le> n \<and> n \<le> 6000"
  using run_loop_spec [OF lm t controllers_hold(1), of "''no_abs''"]
    run_loop_spec [OF lm t controllers_hold(2), of "''oracle''"] run_cases [OF t] by auto

text \<open>C18: Both simulated runs, with the pedal and with the oracle, return on every surface of the table: seven
  series of the same length between 1 and 6000.  Speeds are in \<open>[0, 28]\<close> m/s and never increase, rim speeds in
  \<open>[0, 29]\<close>, slips and frictions in \<open>[0, 1]\<close>, commands are full release or the driver's pressure.  Sample \<open>i\<close> has a time
  between \<open>65 i / 65536\<close> and \<open>66 (i + 1) / 65536\<close> s (so all are below 6.05 s), the times never decrease, and a position
  between \<open>-(i + 1) / 32768\<close> and \<open>29 (i + 1) / 1024\<close> m (so all are in \<open>[-1/5, 170]\<close>).  If the run ended before its 6 s, the last speed is below 1 mm/s.\<close>

theorem simulation_runs:
  assumes "libm_ok lm" and "surface \<in> fst ` set SURFACES"
    and "run \<in> {run_no_abs lm surface, run_oracle lm surface}"
  shows "\<exists>lg n. run = Inr lg \<and> 1 \<le> n \<and> n \<le> 6000 \<and>
    length (sl_t lg) = n \<and> length (sl_v lg) = n \<and> length (sl_omega_R lg) = n \<and> length (sl_slip lg) = n \<and>
    length (sl_mu lg) = n \<and> length (sl_brake_cmd lg) = n \<and> length (sl_x lg) = n \<and>
    (\<forall>v \<in> set (sl_v lg). fwithin 0 28 v) \<and> sorted_wrt (\<lambda>a b. fval b \<le> fval a) (sl_v lg) \<and>
    (\<forall>r \<in> set (sl_omega_R lg). fwithin 0 29 r) \<and>
    (\<forall>s \<in> set (sl_slip lg) \<union> set (sl_mu lg). fwithin 0 1 s) \<and>
    set (sl_brake_cmd lg) \<subseteq> {f0, DRIVER_PEDAL_BAR} \<and>
    (\<forall>i < n. in_time i (sl_t lg ! i) \<and> in_place i (sl_x lg ! i)) \<and>
    sorted_wrt (\<lambda>a b. fval a \<le> fval b) (sl_t lg) \<and>
    (n < 6000 \<longrightarrow> flt (last (sl_v lg)) (flit 1 1000))"
proof -
  obtain tire where t: "PacejkaTire surface = Inr tire"
    using assms(2) by (auto simp: PacejkaTire_def SURFACES_def)
  show ?thesis
    using assms(3) run_loop_spec [OF assms(1) t controllers_hold(1), of "''no_abs''"]
      run_loop_spec [OF assms(1) t controllers_hold(2), of "''oracle''"] run_cases [OF t]
    by (auto simp: log_ok_def)
qed

theorem simulation_runs_witness:
  "\<exists>lg. run_oracle bhaskara ''ice'' = Inr lg \<and> sorted_wrt (\<lambda>a b. fval b \<le> fval a) (sl_v lg)"
  using simulation_runs [OF bhaskara_ok, of "''ice''" "run_oracle bhaskara ''ice''"]
  by (auto simp: SURFACES_def)

text \<open>The control period is 10 plant steps: in the log of a simulated run the brake command of a
  sample differs from the one before only at multiples of 10.\<close>

theorem control_period:
  assumes "libm_ok lm" and "run_oracle lm surface = Inr lg \<or> run_no_abs lm surface = Inr lg"
  shows "\<forall>i. 0 < i \<and> i < length (sl_brake_cmd lg) \<and> i mod 10 \<noteq> 0 \<longrightarrow>
    sl_brake_cmd lg ! i = sl_brake_cmd lg ! (i - 1)"
proof (intro allI impI)
  fix i assume i: "0 < i \<and> i < length (sl_brake_cmd lg) \<and> i mod 10 \<noteq> 0"
  obtain tire where t: "PacejkaTire surface = Inr tire"
    using assms(2) by (auto simp: run_oracle_def run_no_abs_def py_bind_Inr_iff)
  have "held 10 lg"
    using assms(2) runs_return [OF assms(1) t] by auto
  moreover have "int i mod 10 \<noteq> 0" using i by presburger
  ultimately show "sl_brake_cmd lg ! i = sl_brake_cmd lg ! (i - 1)" using i by (simp add: held_def)
qed

theorem control_period_witness:
  "\<exists>lg. run_oracle bhaskara ''dry_asphalt'' = Inr lg \<and>
    (\<forall>i. 0 < i \<and> i < length (sl_brake_cmd lg) \<and> i mod 10 \<noteq> 0 \<longrightarrow>
      sl_brake_cmd lg ! i = sl_brake_cmd lg ! (i - 1))"
proof -
  obtain tire where "PacejkaTire ''dry_asphalt'' = Inr tire" using PacejkaTire_dry by blast
  from runs_return(2) [OF bhaskara_ok this] obtain lg where "run_oracle bhaskara ''dry_asphalt'' = Inr lg" by blast
  with control_period [OF bhaskara_ok, of "''dry_asphalt''" lg] show ?thesis by blast
qed

lemma fdiv_count: "0 < k \<Longrightarrow> k < 2 ^ 53 \<Longrightarrow> \<exists>q. fdiv x (flit k 1) = Inr q"
proof -
  assume k: "0 < k" "k < 2 ^ 53"
  then have f: "is_fin (flit k 1)" "fval (flit k 1) = of_int k" "pyf (flit k 1)"
    using flit_int_val [of k] by simp_all
  then have "wff (flit k 1)" using canon_wff by blast
  then have "\<not> fzero (flit k 1)" using f k by (simp add: fzero_fval)
  then show ?thesis by (simp add: fdiv_def)
qed

lemma summary_returns:
  assumes ok: "log_ok n lg" and n: "1 \<le> n" "n \<le> 6000"
  shows "print_summary py_sum lg = Inr ()"
proof -
  have ne: "sl_x lg \<noteq> []" "sl_t lg \<noteq> []" "sl_slip lg \<noteq> []" using ok n by (auto simp: log_ok_def)
  have "\<exists>m. mean_slip_during_braking py_sum lg = Inr m"
  proof -
    let ?a = "map fst (filter (\<lambda>(s, v). flt (flit 14 10) v) (zip (sl_slip lg) (sl_v lg)))"
    have "length ?a \<le> length (zip (sl_slip lg) (sl_v lg))" unfolding length_map by (rule length_filter_le)
    also have "\<dots> = n" using ok by (simp add: log_ok_def)
    finally have l: "length ?a < 2 ^ 53" using n by (simp del: length_map)
    show ?thesis
    proof (cases "?a = []")
      case False
      then have "0 < int (length ?a)" "int (length ?a) < 2 ^ 53" using l by (simp_all del: length_map)
      from fdiv_count [OF this] False show ?thesis unfolding mean_slip_during_braking_def Let_def by auto
    qed (simp add: mean_slip_during_braking_def)
  qed
  then show ?thesis using ne
    by (auto simp: print_summary_def stopping_distance_def stopping_time_def max_slip_def split: list.split)
qed

text \<open>The command line fails exactly on unknown surfaces: then every scenario raises ValueError;
  on a surface of the table the runs and their summaries return, and the exit code is 0 wherever the
  acceptance envelope is not checked.\<close>

theorem simulate_main_outcome:
  assumes "libm_ok lm" and "scenario \<in> {''no_abs'', ''oracle'', ''both''}"
  shows "(surface \<notin> fst ` set SURFACES \<longrightarrow> simulate_main lm py_sum scenario surface = Inl ValueError) \<and>
    (surface \<in> fst ` set SURFACES \<and> (scenario, surface) \<noteq> (''both'', ''dry_asphalt'') \<longrightarrow>
       simulate_main lm py_sum scenario surface = Inr 0)"
proof (intro conjI impI)
  assume "surface \<notin> fst ` set SURFACES"
  then have "PacejkaTire surface = Inl ValueError"
    by (auto simp: PacejkaTire_def SURFACES_def)
  then show "simulate_main lm py_sum scenario surface = Inl ValueError"
    using assms(2) by (auto simp: simulate_main_def run_logs_def run_no_abs_def run_oracle_def)
next
  assume s: "surface \<in> fst ` set SURFACES \<and> (scenario, surface) \<noteq> (''both'', ''dry_asphalt'')"
  then obtain tire where t: "PacejkaTire surface = Inr tire" by (auto simp: PacejkaTire_def SURFACES_def)
  obtain l1 n1 l2 n2 where r: "run_no_abs lm surface = Inr l1" "log_ok n1 l1" "1 \<le> n1" "n1 \<le> 6000"
    "run_oracle lm surface = Inr l2" "log_ok n2 l2" "1 \<le> n2" "n2 \<le> 6000"
    using runs_return [OF assms(1) t] by blast
  have "print_summary py_sum l1 = Inr ()" "print_summary py_sum l2 = Inr ()"
    using summary_returns r by blast+
  then show "simulate_main lm py_sum scenario surface = Inr 0"
    using assms(2) s r by (auto simp: simulate_main_def run_logs_def)
qed

theorem simulate_main_outcome_witness:
  "simulate_main bhaskara (foldl fadd f0) ''both'' ''ice'' = Inr 0 \<and>
   simulate_main bhaskara (foldl fadd f0) ''both'' ''gravel'' = Inl ValueError"
  using simulate_main_outcome [OF bhaskara_ok, of "''both''" "''ice''" "foldl fadd f0"]
    simulate_main_outcome [OF bhaskara_ok, of "''both''" "''gravel''" "foldl fadd f0"]
  by (simp add: SURFACES_def)

end
