(* ===== verification/Harness.thy ===== *)
theory Harness
  imports Link Faults Simulate
begin

unbundle bit_operations_syntax

text \<open>
  \<^verbatim>\<open>scripts/scenarios/harness.py\<close>: the co-simulation of the plant with an ECU behind the link, under a
  fault injector.  The outside world is a \<open>bench_env\<close> (clock readings and \<^verbatim>\<open>sendall\<close> outcomes per
  tick) and the list of coming \<^verbatim>\<open>recv\<close> outcomes; the result is \<open>None\<close> only where a \<^verbatim>\<open>recv\<close> never
  returns, that is where that list ends.  The CSV file is in \<open>Log_Files\<close>.
\<close>

section \<open>Configuration and result\<close>

definition CONTROL_PERIOD_S :: pyfloat where "CONTROL_PERIOD_S = flit 10 1000"
definition PLANT_DT_S :: pyfloat where "PLANT_DT_S = flit 1 1000"

definition STEPS_PER_TICK :: int where
  "STEPS_PER_TICK = (case py_bind (fdiv CONTROL_PERIOD_S PLANT_DT_S) py_int_round of
     Inr n \<Rightarrow> n | Inl _ \<Rightarrow> 0)"

record scenario_config =
  sc_name :: string
  sc_surface :: string
  sc_duration_s :: pyfloat
  sc_v0_mps :: pyfloat
  sc_driver_request_bar :: pyfloat
  sc_host :: string
  sc_port :: int
  sc_accept_timeout_s :: pyfloat

definition ScenarioConfig :: "string \<Rightarrow> scenario_config" where
  "ScenarioConfig name = \<lparr>sc_name = name, sc_surface = ''dry_asphalt'', sc_duration_s = flit 6 1,
     sc_v0_mps = flit 2778 100, sc_driver_request_bar = flit 100 1, sc_host = ''127.0.0.1'',
     sc_port = 9000, sc_accept_timeout_s = flit 10 1\<rparr>"

record scenario_result =
  sr_config :: scenario_config
  sr_t :: "pyfloat list"
  sr_v :: "pyfloat list"
  sr_omega :: "pyfloat list"
  sr_slip :: "pyfloat list"
  sr_brake_cmd :: "pyfloat list"
  sr_state :: "int list"
  sr_dtc :: "int list"
  sr_active_faults :: "string list list"
  sr_last_pos :: pyfloat

definition ScenarioResult :: "scenario_config \<Rightarrow> scenario_result" where
  "ScenarioResult cfg = \<lparr>sr_config = cfg, sr_t = [], sr_v = [], sr_omega = [], sr_slip = [],
     sr_brake_cmd = [], sr_state = [], sr_dtc = [], sr_active_faults = [], sr_last_pos = f0\<rparr>"

definition result_stopping_distance :: "scenario_result \<Rightarrow> pyfloat" where
  "result_stopping_distance r = sr_last_pos r"

definition result_stopping_time :: "scenario_result \<Rightarrow> pyfloat" where
  "result_stopping_time r = (if sr_t r \<noteq> [] then last (sr_t r) else f0)"

definition states_visited :: "scenario_result \<Rightarrow> int set" where
  "states_visited r = set (sr_state r)"

definition dtc_union :: "scenario_result \<Rightarrow> int" where
  "dtc_union r = foldl (\<lambda>out d. out OR d) 0 (sr_dtc r)"

fun first_time :: "('a \<Rightarrow> bool) \<Rightarrow> (pyfloat \<times> 'a) list \<Rightarrow> pyfloat option" where
  "first_time P [] = None"
| "first_time P ((t, x) # xs) = (if P x then Some t else first_time P xs)"

definition first_dtc_time :: "scenario_result \<Rightarrow> int \<Rightarrow> pyfloat option" where
  "first_dtc_time r dtc_mask = first_time (\<lambda>d. d AND dtc_mask \<noteq> 0) (zip (sr_t r) (sr_dtc r))"

definition first_state_time :: "scenario_result \<Rightarrow> int \<Rightarrow> pyfloat option" where
  "first_state_time r target = first_time (\<lambda>s. s = target) (zip (sr_t r) (sr_state r))"

definition scenario_slip :: "pyfloat \<Rightarrow> pyfloat \<Rightarrow> pyfloat \<Rightarrow> pyfloat py" where
  "scenario_slip v omega r = (if flt v (flit 1 1) then Inr f0
     else py_bind (fdiv (fsub v (fmul omega r)) v) (\<lambda>s. Inr (fmax2 f0 (fmin2 (flit 1 1) s))))"

section \<open>One tick\<close>

record bench_env =
  be_clock :: "int \<Rightarrow> pyfloat"
  be_clock_late :: "int \<Rightarrow> pyfloat"
  be_send :: "int \<Rightarrow> send_event"

record bench =
  bn_veh :: vehicle
  bn_link :: plant_link
  bn_faults :: fault_injector
  bn_last_brake :: pyfloat
  bn_result :: scenario_result
  bn_recv :: "recv_event list"

text \<open>Steps 1 to 3: environment faults, the raw frame, signal faults.\<close>

definition tick_sense :: "gauss \<Rightarrow> bench_env \<Rightarrow> int \<Rightarrow> pyfloat \<Rightarrow> bench \<Rightarrow> (sensor_frame option \<times> bench) py" where
  "tick_sense gauss env k t_s b =
     py_bind (apply_environment t_s (bn_faults b) (vh_tire (bn_veh b))) (\<lambda>(tire, faults).
     let veh = (bn_veh b)\<lparr>vh_tire := tire\<rparr> in
     py_bind (now_ms (be_clock env k)) (\<lambda>ms.
     let raw = \<lparr>sf_timestamp_ms = ms, sf_v_vehicle = vs_v (vh_state veh), sf_omega_wheel = vs_omega (vh_state veh),
                sf_brake_pressure = bn_last_brake b, sf_fault_flags = 0\<rparr>;
         (filtered, faults) = filter_sensor gauss t_s faults (Some raw)
     in Inr (filtered, b\<lparr>bn_veh := veh, bn_faults := faults\<rparr>)))"

text \<open>Step 4; the first result is whether the run goes on (a broken link ends it).\<close>

definition tick_send :: "bench_env \<Rightarrow> int \<Rightarrow> pyfloat \<Rightarrow> sensor_frame option \<Rightarrow> bench \<Rightarrow> (bool \<times> bench) py" where
  "tick_send env k t_s filtered b = (case filtered of
     None \<Rightarrow> Inr (True, b)
   | Some frame \<Rightarrow>
       py_bind (sensor_pack frame) (\<lambda>payload.
       py_bind (encode_frame TYPE_SENSOR payload) (\<lambda>wire.
       py_bind (filter_wire t_s (bn_faults b) wire) (\<lambda>(wire, faults).
       let b = b\<lparr>bn_faults := faults\<rparr> in
       case sendall (be_send env k) wire of
         Inr _ \<Rightarrow> Inr (True, b\<lparr>bn_link := count_sent (bn_link b)\<rparr>)
       | Inl e \<Rightarrow> if e \<in> {BrokenPipeError, ConnectionError} then Inr (False, b) else Inl e))))"

text \<open>Step 5: the ECU's answer, or the placeholder logged on a timeout.\<close>

definition tick_receive :: "bench_env \<Rightarrow> int \<Rightarrow> bench \<Rightarrow> (actuator_frame \<times> bench) py option" where
  "tick_receive env k b = (case recv_actuator (bn_recv b) (bn_link b) of
     None \<Rightarrow> None
   | Some (r, link, evs) \<Rightarrow>
       let b = b\<lparr>bn_link := link, bn_recv := evs\<rparr> in
       Some (py_bind r (\<lambda>a. case a of
         None \<Rightarrow> py_bind (now_ms (be_clock_late env k)) (\<lambda>ms.
           Inr (\<lparr>af_timestamp_ms = ms, af_brake_command = bn_last_brake b,
                 af_ecu_status = ECU_FAULT_DEGRADED, af_dtc_code = DTC_COMM_TIMEOUT\<rparr>, b))
       | Some a \<Rightarrow> Inr (a, b\<lparr>bn_last_brake := af_brake_command a\<rparr>))))"

fun plant_steps :: "libm \<Rightarrow> nat \<Rightarrow> pyfloat \<Rightarrow> vehicle \<Rightarrow> vehicle py" where
  "plant_steps lm 0 brake veh = Inr veh"
| "plant_steps lm (Suc n) brake veh =
     py_bind (vehicle_step lm veh brake PLANT_DT_S) (\<lambda>(out, veh). plant_steps lm n brake veh)"

text \<open>Steps 6 and 7: the plant advances, the tick is logged.\<close>

definition tick_log :: "vehicle \<Rightarrow> pyfloat \<Rightarrow> actuator_frame \<Rightarrow> string list \<Rightarrow> scenario_result \<Rightarrow> scenario_result" where
  "tick_log veh slip a names r = r\<lparr>
     sr_t := sr_t r @ [vs_t (vh_state veh)],
     sr_v := sr_v r @ [vs_v (vh_state veh)],
     sr_omega := sr_omega r @ [vs_omega (vh_state veh)],
     sr_slip := sr_slip r @ [slip],
     sr_brake_cmd := sr_brake_cmd r @ [af_brake_command a],
     sr_state := sr_state r @ [af_ecu_status a],
     sr_dtc := sr_dtc r @ [af_dtc_code a],
     sr_active_faults := sr_active_faults r @ [names]\<rparr>"

definition tick_plant :: "libm \<Rightarrow> pyfloat \<Rightarrow> actuator_frame \<Rightarrow> bench \<Rightarrow> bench py" where
  "tick_plant lm t_s a b =
     py_bind (plant_steps lm (nat STEPS_PER_TICK) (bn_last_brake b) (bn_veh b)) (\<lambda>veh.
     py_bind (scenario_slip (vs_v (vh_state veh)) (vs_omega (vh_state veh)) (wheel_radius (vh_params veh))) (\<lambda>slip.
     Inr (b\<lparr>bn_veh := veh, bn_result := tick_log veh slip a (active_names (bn_faults b) t_s) (bn_result b)\<rparr>)))"

definition bench_tick :: "libm \<Rightarrow> gauss \<Rightarrow> bench_env \<Rightarrow> int \<Rightarrow> bench \<Rightarrow> (bool \<times> bench) py option" where
  "bench_tick lm gauss env k b =
    (let t_s = fmul (flit k 1) CONTROL_PERIOD_S in
     case py_bind (tick_sense gauss env k t_s b) (\<lambda>(filtered, b). tick_send env k t_s filtered b) of
       Inl e \<Rightarrow> Some (Inl e)
     | Inr (False, b) \<Rightarrow> Some (Inr (False, b))
     | Inr (True, b) \<Rightarrow> (case tick_receive env k b of
         None \<Rightarrow> None
       | Some r \<Rightarrow> Some (py_bind r (\<lambda>(a, b). py_bind (tick_plant lm t_s a b) (\<lambda>b.
           Inr (\<not> stopped (bn_veh b), b))))))"

fun bench_loop :: "libm \<Rightarrow> gauss \<Rightarrow> bench_env \<Rightarrow> int list \<Rightarrow> bench \<Rightarrow> bench py option" where
  "bench_loop lm gauss env [] b = Some (Inr b)"
| "bench_loop lm gauss env (k # ks) b = (case bench_tick lm gauss env k b of
     None \<Rightarrow> None
   | Some (Inl e) \<Rightarrow> Some (Inl e)
   | Some (Inr (go, b)) \<Rightarrow> if go then bench_loop lm gauss env ks b else Some (Inr b))"

definition run_scenario :: "libm \<Rightarrow> gauss \<Rightarrow> bench_env \<Rightarrow> listen_event \<Rightarrow> accept_event \<Rightarrow> recv_event list \<Rightarrow>
    scenario_config \<Rightarrow> fault_injector \<Rightarrow> scenario_result py option" where
  "run_scenario lm gauss env lsn acc evs cfg injector =
    (case py_bind (PacejkaTire (sc_surface cfg)) (\<lambda>tire.
          py_bind (Vehicle VehicleParams tire (sc_v0_mps cfg)) (\<lambda>veh.
          py_bind (link_listen lsn (PlantLink (sc_host cfg) (sc_port cfg))) (\<lambda>link.
          py_bind (link_accept acc link) (\<lambda>link.
          py_bind (fdiv (sc_duration_s cfg) CONTROL_PERIOD_S) (\<lambda>q.
          py_bind (py_int_round q) (\<lambda>n_ticks. Inr (veh, link, n_ticks))))))) of
       Inl e \<Rightarrow> Some (Inl e)
     | Inr (veh, link, n_ticks) \<Rightarrow>
         map_option (\<lambda>r. py_bind r (\<lambda>b.
             Inr ((bn_result b)\<lparr>sr_last_pos := vs_x (vh_state (bn_veh b))\<rparr>)))
           (bench_loop lm gauss env [0..n_ticks - 1]
             \<lparr>bn_veh = veh, bn_link = link, bn_faults = injector, bn_last_brake = f0,
              bn_result = ScenarioResult cfg, bn_recv = evs\<rparr>))"

text \<open>The exit code of \<^verbatim>\<open>assert_all\<close>.\<close>

definition assert_all :: "(bool \<times> string) list \<Rightarrow> int" where
  "assert_all asserts = (let failed = foldl (\<lambda>n (ok, msg). if \<not> ok then n + 1 else n) (0 :: int) asserts
     in if failed \<noteq> 0 then 1 else 0)"

end
