(* ===== verification/Harness_Properties.thy ===== *)
theory Harness_Properties
  imports Harness
begin

unbundle bit_operations_syntax

text \<open>
  What the scenario harness guarantees about the plant it drives: as long as the ECU's commands are
  numbers, the plant stays in its invariant through every tick, whatever faults are injected and
  whatever arrives on the link; a timeout holds the last command; the statistics of a result; and what a
  command that is not a number does.
\<close>

section \<open>The parts of a tick\<close>

lemma steps_per_tick: "STEPS_PER_TICK = 10"
  unfolding STEPS_PER_TICK_def by code_simp

lemma plant_dt_within: "fwithin 0 (1/64) PLANT_DT_S"
  unfolding PLANT_DT_S_def by (rule ms_within)

lemma plant_steps_ok:
  assumes "libm_ok lm" "vehicle_ok veh" "pyf brake" "brake \<noteq> NaN"
  shows "\<exists>veh'. plant_steps lm n brake veh = Inr veh' \<and> vehicle_ok veh' \<and>
    vh_params veh' = vh_params veh \<and> vh_tire veh' = vh_tire veh \<and>
    fval (vs_v (vh_state veh')) \<le> fval (vs_v (vh_state veh))"
  using assms(2)
proof (induction n arbitrary: veh)
  case (Suc n)
  obtain out veh1 where 1: "vehicle_step lm veh brake PLANT_DT_S = Inr (out, veh1)" "vehicle_ok veh1"
    "vh_params veh1 = vh_params veh" "vh_tire veh1 = vh_tire veh"
    "fval (vs_v (vh_state veh1)) \<le> fval (vs_v (vh_state veh))"
    using vehicle_step_run [OF assms(1) Suc.prems plant_dt_within assms(3,4)] by metis
  from Suc.IH [OF 1(2)] 1 show ?case by (auto intro: order_trans)
qed simp

lemma plant_steps_decel:
  assumes lm: "libm_ok lm" and bp: "pyf brake" "brake \<noteq> NaN"
  shows "vehicle_ok veh \<Longrightarrow> vh_params veh = VehicleParams \<Longrightarrow> fwithin (of_int j / 1024) 128 (vs_v (vh_state veh)) \<Longrightarrow>
    1024 + 11 * int n \<le> j \<Longrightarrow> j < 2 ^ 53 \<Longrightarrow> plant_steps lm n brake veh = Inr veh' \<Longrightarrow>
    fwithin (of_int (j - 11 * int n) / 1024) 128 (vs_v (vh_state veh'))"
proof (induction n arbitrary: veh j)
  case (Suc n)
  obtain out veh1 where 1: "vehicle_step lm veh brake PLANT_DT_S = Inr (out, veh1)" "vehicle_ok veh1" "vh_params veh1 = vh_params veh"
    using vehicle_step_run [OF lm Suc.prems(1) plant_dt_within bp] by metis
  have "fwithin (of_int (j - 11) / 1024) 128 (vs_v (vh_state veh1))"
    using step_decel [OF lm Suc.prems(1,2) bp Suc.prems(3) _ Suc.prems(5) 1(1) [unfolded PLANT_DT_S_def]] Suc.prems(4) by simp
  from Suc.IH [OF 1(2) _ this] have "fwithin (of_int (j - 11 - 11 * int n) / 1024) 128 (vs_v (vh_state veh'))"
    using 1 Suc.prems by simp
  then show ?case by (simp add: algebra_simps)
qed simp

lemma scenario_slip_ok:
  assumes "vehicle_ok veh"
  shows "\<exists>s. scenario_slip (vs_v (vh_state veh)) (vs_omega (vh_state veh)) (wheel_radius (vh_params veh)) = Inr s \<and>
    fwithin 0 1 s"
proof -
  let ?v = "vs_v (vh_state veh)" and ?w = "vs_omega (vh_state veh)" and ?r = "wheel_radius (vh_params veh)"
  have b: "fwithin 0 128 ?v" "fwithin 0 4096 ?w" "fwithin (1/4) 1 ?r"
    using assms by (simp_all add: vehicle_ok_def vparams_ok_def)
  have one: "fwithin 1 1 (flit 1 1)" using fwithin_int [of 1] by simp
  show ?thesis
  proof (cases "flt ?v (flit 1 1)")
    case True
    then show ?thesis by (simp add: scenario_slip_def fwithin_weaken [OF fwithin_f0])
  next
    case False
    then have v1: "fwithin 1 128 ?v" using fwithinD [OF b(1)] fwithinD [OF one] by (auto simp: fwithin_def flt_fin)
    have wr: "fwithin 0 4096 (fmul ?w ?r)" by (rule fwithin_fmul [OF b(2,3)]) simp_all
    have d: "fwithin (- 4096) 128 (fsub ?v (fmul ?w ?r))" by (rule fwithin_fsub [OF b(1) wr]) simp_all
    obtain s where s: "fdiv (fsub ?v (fmul ?w ?r)) ?v = Inr s" "fwithin (- 4096) 128 s"
      using fwithin_fdiv [OF d v1, of "- 4096" 128] by auto
    have "fwithin 0 1 (fclamp f0 (flit 1 1) s)"
      using fclamp_within [OF fwithin_f0 one _ fwithinD(3) [OF s(2)]] by simp
    then show ?thesis using False s(1) by (simp add: scenario_slip_def fclamp_def)
  qed
qed

lemma set_surface_params: "set_surface t s = Inr t' \<Longrightarrow> params_ok (t_params t')"
  using SURFACES_ok by (auto simp: set_surface_def split: option.splits)

lemma apply_in_plant_params:
  "apply_in_plant f tg r tire t = Inr (tire', f') \<Longrightarrow> params_ok (t_params tire) \<Longrightarrow> params_ok (t_params tire')"
  by (auto simp: apply_in_plant_def Let_def py_bind_Inr_iff split: if_splits option.splits dest: set_surface_params)

lemma environment_params:
  "apply_environment t fs tire = Inr (tire', fs') \<Longrightarrow> params_ok (t_params tire) \<Longrightarrow> params_ok (t_params tire')"
proof (induction fs arbitrary: tire fs')
  case (Cons f fs)
  obtain tire1 f1 fs1 where
    s: "(case ft_kind f of IcePatchFault target restore \<Rightarrow> apply_in_plant f target restore tire t
      | _ \<Rightarrow> Inr (tire, f)) = Inr (tire1, f1)" "apply_environment t fs tire1 = Inr (tire', fs1)"
    using Cons.prems(1) by (auto simp: py_bind_Inr_iff)
  have "params_ok (t_params tire1)"
    using s(1) Cons.prems(2) apply_in_plant_params by (cases "ft_kind f") auto
  with Cons.IH [OF s(2)] show ?case by simp
qed simp

lemma actuator_unpack_pyf: "actuator_unpack bs = Inr a \<Longrightarrow> pyf (af_brake_command a)"
proof -
  assume a: "actuator_unpack bs = Inr a"
  then have "length (take 4 (drop 4 bs)) = 4" by (simp add: actuator_unpack_def ACTUATOR_SIZE_def split: if_splits)
  from pack_unpack_f(1) [OF this] a show ?thesis by (auto simp: actuator_unpack_def split: if_splits)
qed

lemma recv_loop_unpack:
  "recv_loop evs l = Some (Inr (Some a), l', evs') \<Longrightarrow> \<exists>bs. actuator_unpack bs = Inr a"
proof (induction evs l rule: recv_loop.induct)
  case (5 chunk evs l)
  obtain frames d where d: "drain (feed chunk (pl_decoder l)) = (frames, d)" by force
  show ?case
  proof (cases "first_actuator frames")
    case None
    with 5 d show ?thesis by simp
  next
    case (Some f)
    with 5(2) d have "map_sum id Some (actuator_unpack (fr_payload f)) = Inr (Some a)" by simp
    then show ?thesis by (cases "actuator_unpack (fr_payload f)") auto
  qed
qed (auto split: if_splits)

lemma recv_actuator_unpack:
  assumes "recv_actuator evs l = Some (Inr (Some a), l', evs')"
  shows "\<exists>bs. actuator_unpack bs = Inr a"
proof -
  obtain frames d where d: "drain (pl_decoder l) = (frames, d)" by force
  show ?thesis
  proof (cases "first_actuator frames")
    case None
    with assms d show ?thesis by (auto simp: recv_actuator_def split: if_splits dest: recv_loop_unpack)
  next
    case (Some f)
    with assms d have "map_sum id Some (actuator_unpack (fr_payload f)) = Inr (Some a)"
      by (auto simp: recv_actuator_def split: if_splits)
    then show ?thesis by (cases "actuator_unpack (fr_payload f)") auto
  qed
qed

lemma recv_actuator_pyf: "recv_actuator evs l = Some (Inr (Some a), l', evs') \<Longrightarrow> pyf (af_brake_command a)"
  using recv_actuator_unpack actuator_unpack_pyf by blast

section \<open>The invariant of a run\<close>

definition result_ok :: "nat \<Rightarrow> scenario_result \<Rightarrow> bool" where
  "result_ok n r \<longleftrightarrow>
     length (sr_t r) = n \<and> length (sr_v r) = n \<and> length (sr_omega r) = n \<and> length (sr_slip r) = n \<and>
     length (sr_brake_cmd r) = n \<and> length (sr_state r) = n \<and> length (sr_dtc r) = n \<and>
     length (sr_active_faults r) = n \<and>
     (\<forall>v \<in> set (sr_v r). fwithin 0 128 v) \<and> sorted_wrt (\<lambda>a b. fval b \<le> fval a) (sr_v r) \<and>
     (\<forall>w \<in> set (sr_omega r). fwithin 0 4096 w) \<and> (\<forall>s \<in> set (sr_slip r). fwithin 0 1 s)"

definition bench_ok :: "nat \<Rightarrow> bench \<Rightarrow> bool" where
  "bench_ok n b \<longleftrightarrow> vehicle_ok (bn_veh b) \<and> pyf (bn_last_brake b) \<and> bn_last_brake b \<noteq> NaN \<and>
     result_ok n (bn_result b) \<and> (\<forall>v \<in> set (sr_v (bn_result b)). fval (vs_v (vh_state (bn_veh b))) \<le> fval v)"

lemma tick_sense_ok:
  assumes "tick_sense gauss env k t b = Inr (fr, b')" "bench_ok n b"
  shows "bench_ok n b' \<and> bn_result b' = bn_result b \<and> bn_last_brake b' = bn_last_brake b \<and>
    bn_recv b' = bn_recv b \<and> bn_link b' = bn_link b"
proof -
  obtain tire fs ms where e: "apply_environment t (bn_faults b) (vh_tire (bn_veh b)) = Inr (tire, fs)"
    "now_ms (be_clock env k) = Inr ms"
    using assms(1) by (cases "apply_environment t (bn_faults b) (vh_tire (bn_veh b))"; cases "now_ms (be_clock env k)")
      (auto simp: tick_sense_def)
  obtain fr' fs' where f: "filter_sensor gauss t fs (Some \<lparr>sf_timestamp_ms = ms,
      sf_v_vehicle = vs_v (vh_state (bn_veh b)), sf_omega_wheel = vs_omega (vh_state (bn_veh b)),
      sf_brake_pressure = bn_last_brake b, sf_fault_flags = 0\<rparr>) = (fr', fs')" by force
  have b': "b' = b\<lparr>bn_veh := (bn_veh b)\<lparr>vh_tire := tire\<rparr>, bn_faults := fs'\<rparr>"
    using assms(1) e f by (simp add: tick_sense_def Let_def)
  have "params_ok (t_params tire)"
    using environment_params [OF e(1)] assms(2) by (simp add: bench_ok_def vehicle_ok_def)
  then show ?thesis using assms(2) by (simp add: b' bench_ok_def vehicle_ok_def)
qed

lemma tick_send_ok:
  assumes "tick_send env k t fr b = Inr (go, b')" "bench_ok n b"
  shows "bench_ok n b' \<and> bn_result b' = bn_result b \<and> bn_last_brake b' = bn_last_brake b \<and>
    bn_recv b' = bn_recv b \<and> bn_veh b' = bn_veh b"
  using assms
  by (cases fr; cases "be_send env k")
    (auto simp: tick_send_def sendall_def py_bind_Inr_iff Let_def bench_ok_def split: if_splits)

lemma tick_receive_ok:
  assumes "tick_receive env k b = Some (Inr (a, b'))" "bench_ok n b"
  shows "bn_result b' = bn_result b \<and> bn_last_brake b' = af_brake_command a \<and> pyf (af_brake_command a) \<and>
    bn_veh b' = bn_veh b \<and> bn_faults b' = bn_faults b \<and> (af_brake_command a \<noteq> NaN \<longrightarrow> bench_ok n b')"
proof -
  obtain r link evs where v: "recv_actuator (bn_recv b) (bn_link b) = Some (r, link, evs)"
    using assms(1) by (auto simp: tick_receive_def split: option.splits)
  then obtain x where x: "r = Inr x" using assms(1) by (cases r) (auto simp: tick_receive_def)
  show ?thesis
  proof (cases x)
    case None
    with v x assms show ?thesis by (auto simp: tick_receive_def Let_def py_bind_Inr_iff bench_ok_def)
  next
    case (Some c)
    have "pyf (af_brake_command c)" using recv_actuator_pyf v unfolding x Some by blast
    with v x Some assms show ?thesis by (auto simp: tick_receive_def Let_def bench_ok_def)
  qed
qed

lemma tick_plant_ok:
  assumes lm: "libm_ok lm" and ok: "bench_ok n b"
  shows "\<exists>b'. tick_plant lm t a b = Inr b' \<and> bench_ok (Suc n) b' \<and>
    sr_brake_cmd (bn_result b') = sr_brake_cmd (bn_result b) @ [af_brake_command a] \<and>
    sr_state (bn_result b') = sr_state (bn_result b) @ [af_ecu_status a] \<and>
    sr_dtc (bn_result b') = sr_dtc (bn_result b) @ [af_dtc_code a] \<and>
    bn_last_brake b' = bn_last_brake b"
proof -
  obtain veh' where v: "plant_steps lm (nat STEPS_PER_TICK) (bn_last_brake b) (bn_veh b) = Inr veh'" "vehicle_ok veh'"
    "fval (vs_v (vh_state veh')) \<le> fval (vs_v (vh_state (bn_veh b)))"
    using plant_steps_ok [OF lm, of "bn_veh b" "bn_last_brake b" "nat STEPS_PER_TICK"] ok by (auto simp: bench_ok_def)
  obtain s where s: "scenario_slip (vs_v (vh_state veh')) (vs_omega (vh_state veh')) (wheel_radius (vh_params veh')) = Inr s"
    "fwithin 0 1 s" using scenario_slip_ok [OF v(2)] by blast
  have m: "\<forall>u \<in> set (sr_v (bn_result b)). fval (vs_v (vh_state veh')) \<le> fval u"
    using ok v(3) unfolding bench_ok_def by (meson order_trans)
  have "result_ok (Suc n) (tick_log veh' s a (active_names (bn_faults b) t) (bn_result b))"
    using ok m v(2) s(2) by (auto simp: bench_ok_def result_ok_def tick_log_def vehicle_ok_def sorted_wrt_append)
  then show ?thesis
    using ok v s m by (auto simp: tick_plant_def bench_ok_def tick_log_def)
qed

section \<open>Ticks and runs\<close>

lemma bench_tick_parts:
  assumes "bench_tick lm gauss env k b = Some (Inr (go, b'))"
  obtains fr b0 where "tick_sense gauss env k (fmul (flit k 1) CONTROL_PERIOD_S) b = Inr (fr, b0)"
      "tick_send env k (fmul (flit k 1) CONTROL_PERIOD_S) fr b0 = Inr (False, b')" "\<not> go"
  | fr b0 b1 a b2 where "tick_sense gauss env k (fmul (flit k 1) CONTROL_PERIOD_S) b = Inr (fr, b0)"
      "tick_send env k (fmul (flit k 1) CONTROL_PERIOD_S) fr b0 = Inr (True, b1)"
      "tick_receive env k b1 = Some (Inr (a, b2))"
      "tick_plant lm (fmul (flit k 1) CONTROL_PERIOD_S) a b2 = Inr b'" "go = (\<not> stopped (bn_veh b'))"
proof -
  let ?t = "fmul (flit k 1) CONTROL_PERIOD_S"
  obtain fr b0 go1 b1 where 0: "tick_sense gauss env k ?t b = Inr (fr, b0)" "tick_send env k ?t fr b0 = Inr (go1, b1)"
    using assms by (auto simp: bench_tick_def Let_def py_bind_Inr_iff split: sum.splits)
  show thesis
  proof (cases go1)
    case False
    with assms 0 show thesis by (intro that(1) [of fr b0]) (auto simp: bench_tick_def Let_def)
  next
    case True
    then obtain a b2 where 2: "tick_receive env k b1 = Some (Inr (a, b2))" and
      3: "py_bind (tick_plant lm ?t a b2) (\<lambda>b. Inr (\<not> stopped (bn_veh b), b)) = Inr (go, b')"
      using assms 0 by (auto simp: bench_tick_def Let_def py_bind_Inr_iff split: option.splits)
    then show thesis using 0 True by (intro that(2) [of fr b0 b1 a b2]) (auto simp: py_bind_Inr_iff)
  qed
qed

lemma bench_tick_ok:
  assumes lm: "libm_ok lm" and ok: "bench_ok n b"
    and t: "bench_tick lm gauss env k b = Some (Inr (go, b'))"
  shows "\<not> go \<and> bench_ok n b' \<and> bn_result b' = bn_result b \<or>
    (\<exists>c. sr_brake_cmd (bn_result b') = sr_brake_cmd (bn_result b) @ [c] \<and> (c \<noteq> NaN \<longrightarrow> bench_ok (Suc n) b'))"
  using t
proof (cases rule: bench_tick_parts)
  case (1 fr b0)
  then show ?thesis using tick_sense_ok [OF _ ok] tick_send_ok by metis
next
  case (2 fr b0 b1 a b2)
  note s0 = tick_sense_ok [OF 2(1) ok]
  note s1 = tick_send_ok [OF 2(2) conjunct1 [OF s0]]
  note s2 = tick_receive_ok [OF 2(3) conjunct1 [OF s1]]
  have "sr_brake_cmd (bn_result b') = sr_brake_cmd (bn_result b2) @ [af_brake_command a]"
    using 2(4) by (auto simp: tick_plant_def py_bind_Inr_iff tick_log_def)
  moreover have "af_brake_command a \<noteq> NaN \<longrightarrow> bench_ok (Suc n) b'"
    using s2 tick_plant_ok [OF lm, of n b2 "fmul (flit k 1) CONTROL_PERIOD_S" a] 2(4) by auto
  ultimately show ?thesis using s0 s1 s2 by auto
qed

text \<open>The log only grows, also where a command is not a number.\<close>

lemma tick_sense_result: "tick_sense gauss env k t b = Inr (fr, b') \<Longrightarrow> bn_result b' = bn_result b"
  by (cases "apply_environment t (bn_faults b) (vh_tire (bn_veh b))"; cases "now_ms (be_clock env k)")
    (auto simp: tick_sense_def Let_def split: prod.splits)

lemma tick_send_result: "tick_send env k t fr b = Inr (go, b') \<Longrightarrow> bn_result b' = bn_result b"
  by (cases fr; cases "be_send env k")
    (auto simp: tick_send_def sendall_def py_bind_Inr_iff Let_def split: if_splits)

lemma tick_receive_result: "tick_receive env k b = Some (Inr (a, b')) \<Longrightarrow> bn_result b' = bn_result b"
  by (auto simp: tick_receive_def Let_def py_bind_Inr_iff split: option.splits)

lemma bench_tick_grows:
  assumes t: "bench_tick lm gauss env k b = Some (Inr (go, b'))"
  shows "\<exists>more. sr_brake_cmd (bn_result b') = sr_brake_cmd (bn_result b) @ more"
  using t
proof (cases rule: bench_tick_parts)
  case (2 fr b0 b1 a b2)
  then show ?thesis using tick_sense_result tick_send_result tick_receive_result
    by (fastforce simp: tick_plant_def py_bind_Inr_iff tick_log_def)
qed (use tick_sense_result tick_send_result in fastforce)

lemma bench_loop_grows:
  "bench_loop lm gauss env ks b = Some (Inr b') \<Longrightarrow>
    \<exists>more. sr_brake_cmd (bn_result b') = sr_brake_cmd (bn_result b) @ more"
proof (induction ks arbitrary: b)
  case (Cons k ks)
  obtain go b1 where 1: "bench_tick lm gauss env k b = Some (Inr (go, b1))"
    "if go then bench_loop lm gauss env ks b1 = Some (Inr b') else b' = b1"
    using Cons.prems by (auto split: option.splits sum.splits if_splits)
  with bench_tick_grows [OF 1(1)] Cons.IH [of b1] show ?case by (auto split: if_splits)
qed simp

text \<open>An invariant of the ticks is one of the runs.\<close>

lemma bench_loop_invariant:
  assumes lm: "libm_ok lm"
    and nan: "NaN \<notin> set (sr_brake_cmd (bn_result b'))"
    and step: "\<And>n b k go b1. bench_ok n b \<Longrightarrow> P b \<Longrightarrow> bench_tick lm gauss env k b = Some (Inr (go, b1)) \<Longrightarrow>
      NaN \<notin> set (sr_brake_cmd (bn_result b1)) \<Longrightarrow> P b1"
  shows "bench_ok n b \<Longrightarrow> P b \<Longrightarrow> bench_loop lm gauss env ks b = Some (Inr b') \<Longrightarrow>
    \<exists>m \<ge> n. m \<le> n + length ks \<and> bench_ok m b' \<and> P b'"
proof (induction ks arbitrary: n b)
  case Nil
  then show ?case by auto
next
  case (Cons k ks)
  obtain go b1 where 1: "bench_tick lm gauss env k b = Some (Inr (go, b1))"
    "if go then bench_loop lm gauss env ks b1 = Some (Inr b') else b' = b1"
    using Cons.prems(3) by (auto split: option.splits sum.splits if_splits)
  have grows: "\<exists>more. sr_brake_cmd (bn_result b') = sr_brake_cmd (bn_result b1) @ more"
    using 1(2) bench_loop_grows by (auto split: if_splits)
  have "\<exists>m. n \<le> m \<and> m \<le> Suc n \<and> bench_ok m b1"
    using bench_tick_ok [OF lm Cons.prems(1) 1(1)] grows nan by (auto intro: exI [of _ n] exI [of _ "Suc n"])
  then obtain m where m: "n \<le> m" "m \<le> Suc n" "bench_ok m b1" by blast
  have P: "P b1" using grows nan by (intro step [OF Cons.prems(1,2) 1(1)]) auto
  show ?case
  proof (cases go)
    case True
    then obtain m' where "m \<le> m'" "m' \<le> m + length ks" "bench_ok m' b'" "P b'"
      using Cons.IH [OF m(3) P] 1(2) by auto
    with m(1,2) show ?thesis by (intro exI [of _ m']) simp
  next
    case False
    with 1(2) m P show ?thesis by auto
  qed
qed

lemma bench_loop_ok:
  assumes lm: "libm_ok lm"
    and nan: "NaN \<notin> set (sr_brake_cmd (bn_result b'))"
    and b: "bench_ok n b" "bench_loop lm gauss env ks b = Some (Inr b')"
  shows "\<exists>m \<ge> n. m \<le> n + length ks \<and> bench_ok m b'"
  using bench_loop_invariant [of lm b' "\<lambda>_. True" gauss env n b ks, OF lm nan _ b(1) _ b(2)] by simp

lemma start_ok:
  assumes "PacejkaTire surface = Inr tire" "fwithin 0 128 v0" "Vehicle VehicleParams tire v0 = Inr veh"
  shows "bench_ok 0 \<lparr>bn_veh = veh, bn_link = link, bn_faults = injector, bn_last_brake = f0,
    bn_result = ScenarioResult cfg, bn_recv = evs\<rparr>"
  using Vehicle_ok [OF assms(1,2)] assms(3) by (auto simp: bench_ok_def result_ok_def ScenarioResult_def)

text \<open>The parts of a run that returns.\<close>

lemma run_scenario_parts:
  assumes "run_scenario lm gauss env lsn acc evs cfg injector = Some (Inr r)"
  obtains tire veh link q n_ticks b where "PacejkaTire (sc_surface cfg) = Inr tire"
    "Vehicle VehicleParams tire (sc_v0_mps cfg) = Inr veh"
    "pl_conn link" "pl_decoder link = FrameDecoder" "pl_stats link = LinkStats"
    "fdiv (sc_duration_s cfg) CONTROL_PERIOD_S = Inr q" "py_int_round q = Inr n_ticks"
    "bench_loop lm gauss env [0..n_ticks - 1] \<lparr>bn_veh = veh, bn_link = link, bn_faults = injector,
      bn_last_brake = f0, bn_result = ScenarioResult cfg, bn_recv = evs\<rparr> = Some (Inr b)"
    "r = (bn_result b)\<lparr>sr_last_pos := vs_x (vh_state (bn_veh b))\<rparr>"
proof -
  have "\<exists>tire veh link q n_ticks b. PacejkaTire (sc_surface cfg) = Inr tire \<and>
    Vehicle VehicleParams tire (sc_v0_mps cfg) = Inr veh \<and>
    pl_conn link \<and> pl_decoder link = FrameDecoder \<and> pl_stats link = LinkStats \<and>
    fdiv (sc_duration_s cfg) CONTROL_PERIOD_S = Inr q \<and> py_int_round q = Inr n_ticks \<and>
    bench_loop lm gauss env [0..n_ticks - 1] \<lparr>bn_veh = veh, bn_link = link, bn_faults = injector,
      bn_last_brake = f0, bn_result = ScenarioResult cfg, bn_recv = evs\<rparr> = Some (Inr b) \<and>
    r = (bn_result b)\<lparr>sr_last_pos := vs_x (vh_state (bn_veh b))\<rparr>"
    using assms by (cases lsn; cases acc)
      (force simp: run_scenario_def py_bind_Inr_iff link_listen_def link_accept_def PlantLink_def split: sum.splits)+
  then show thesis using that by blast
qed

text \<open>C9: Whatever faults are injected, whatever the clock and the sockets do and whatever bytes arrive: if a
  scenario with an initial speed in \<open>[0, 128]\<close> m/s returns a result in which every logged command is a number (a NaN command breaks the claim,
  see \<open>nan_command_never_stops\<close>), its series have the same length (at
  most one entry per tick), speeds and wheel speeds are in range, the speed never increases and all
  slips are in \<open>[0, 1]\<close>.\<close>

theorem scenario_plant_safe:
  assumes "libm_ok lm" and "fwithin 0 128 (sc_v0_mps cfg)"
    and "run_scenario lm gauss env lsn acc evs cfg injector = Some (Inr r)"
    and "NaN \<notin> set (sr_brake_cmd r)"
  shows "\<exists>n q. py_bind (fdiv (sc_duration_s cfg) CONTROL_PERIOD_S) py_int_round = Inr q \<and> n \<le> nat q \<and>
    length (sr_t r) = n \<and> length (sr_v r) = n \<and> length (sr_omega r) = n \<and> length (sr_slip r) = n \<and>
    length (sr_brake_cmd r) = n \<and> length (sr_state r) = n \<and> length (sr_dtc r) = n \<and>
    length (sr_active_faults r) = n \<and>
    (\<forall>v \<in> set (sr_v r). fwithin 0 128 v) \<and> sorted_wrt (\<lambda>a b. fval b \<le> fval a) (sr_v r) \<and>
    (\<forall>w \<in> set (sr_omega r). fwithin 0 4096 w) \<and> (\<forall>s \<in> set (sr_slip r). fwithin 0 1 s)"
  using assms(3)
proof (cases rule: run_scenario_parts)
  case (1 tire veh link q n_ticks b)
  have "NaN \<notin> set (sr_brake_cmd (bn_result b))" using assms(4) by (simp add: 1(9))
  from bench_loop_ok [OF assms(1) this start_ok [OF 1(1) assms(2) 1(2)] 1(8)]
  obtain m where m: "m \<le> nat n_ticks" "bench_ok m b" by auto
  then have ok: "result_ok m (bn_result b)" by (simp add: bench_ok_def)
  show ?thesis using ok m(1) 1(6,7) unfolding result_ok_def 1(9)
    by (intro exI [of _ m] exI [of _ n_ticks]) simp
qed

lemma comm_loss_sense:
  assumes "bn_faults b = [f]" "ft_kind f = CommLossFault" "is_active f t" "now_ms (be_clock env k) = Inr ms"
  shows "tick_sense gauss env k t b = Inr (None, b)"
  using assms by (simp add: tick_sense_def Let_def apply_to_sensor_def comm_loss_apply_def)

lemma silent_tick:
  assumes "libm_ok lm" and "bench_ok n b"
    and "bn_faults b = [f]" and "ft_kind f = CommLossFault" and "is_active f (fmul (flit k 1) CONTROL_PERIOD_S)"
    and "pl_conn (bn_link b)" and "quiet (pl_decoder (bn_link b))" and "bn_recv b = RecvTimeout # evs"
    and "now_ms (be_clock env k) = Inr ms" and "now_ms (be_clock_late env k) = Inr ms'"
  shows "\<exists>b'. bench_tick lm gauss env k b = Some (Inr (\<not> stopped (bn_veh b'), b')) \<and> bench_ok (Suc n) b' \<and>
    bn_last_brake b' = bn_last_brake b \<and> bn_recv b' = evs \<and>
    ls_sensor_frames_sent (pl_stats (bn_link b')) = ls_sensor_frames_sent (pl_stats (bn_link b)) \<and>
    sr_brake_cmd (bn_result b') = sr_brake_cmd (bn_result b) @ [bn_last_brake b] \<and>
    sr_state (bn_result b') = sr_state (bn_result b) @ [ECU_FAULT_DEGRADED] \<and>
    sr_dtc (bn_result b') = sr_dtc (bn_result b) @ [DTC_COMM_TIMEOUT]"
proof -
  let ?t = "fmul (flit k 1) CONTROL_PERIOD_S"
  let ?a = "\<lparr>af_timestamp_ms = ms', af_brake_command = bn_last_brake b, af_ecu_status = ECU_FAULT_DEGRADED,
    af_dtc_code = DTC_COMM_TIMEOUT\<rparr>"
  let ?b = "b\<lparr>bn_link := merge_stats (bn_link b), bn_recv := evs\<rparr>"
  have sense: "tick_sense gauss env k ?t b = Inr (None, b)" by (rule comm_loss_sense [OF assms(3-5,9)])
  have recv: "tick_receive env k b = Some (Inr (?a, ?b))"
    using recv_actuator_quiet [OF assms(6,7)] assms(8,10) by (simp add: tick_receive_def)
  have "bench_ok n ?b" using assms(2) by (simp add: bench_ok_def)
  from tick_plant_ok [OF assms(1) this, of ?t ?a] obtain b' where p: "tick_plant lm ?t ?a ?b = Inr b'"
    "bench_ok (Suc n) b'" "sr_brake_cmd (bn_result b') = sr_brake_cmd (bn_result b) @ [bn_last_brake b]"
    "sr_state (bn_result b') = sr_state (bn_result b) @ [ECU_FAULT_DEGRADED]"
    "sr_dtc (bn_result b') = sr_dtc (bn_result b) @ [DTC_COMM_TIMEOUT]" "bn_last_brake b' = bn_last_brake b" by auto
  have q: "bn_recv b' = evs" "bn_link b' = merge_stats (bn_link b)"
    using p(1) by (auto simp: tick_plant_def py_bind_Inr_iff)
  have "bench_tick lm gauss env k b = Some (Inr (\<not> stopped (bn_veh b'), b'))"
    using sense recv p(1) by (simp add: bench_tick_def Let_def tick_send_def)
  then show ?thesis using p q by (auto simp: merge_stats_def)
qed

text \<open>A lost tick: while a communication loss is active and the ECU stays silent, the harness sends
  nothing, holds the last brake command on the plant and logs it with the state FAULT_DEGRADED and
  the DTC COMM_TIMEOUT.\<close>

theorem comm_loss_tick:
  assumes "libm_ok lm" and "bench_ok n b"
    and "bn_faults b = [f]" and "ft_kind f = CommLossFault" and "is_active f (fmul (flit k 1) CONTROL_PERIOD_S)"
    and "pl_conn (bn_link b)" and "quiet (pl_decoder (bn_link b))" and "bn_recv b = RecvTimeout # evs"
    and "now_ms (be_clock env k) = Inr ms" and "now_ms (be_clock_late env k) = Inr ms'"
  shows "\<exists>b'. bench_tick lm gauss env k b = Some (Inr (\<not> stopped (bn_veh b'), b')) \<and> bench_ok (Suc n) b' \<and>
    bn_last_brake b' = bn_last_brake b \<and> bn_recv b' = evs \<and>
    ls_sensor_frames_sent (pl_stats (bn_link b')) = ls_sensor_frames_sent (pl_stats (bn_link b)) \<and>
    sr_brake_cmd (bn_result b') = sr_brake_cmd (bn_result b) @ [bn_last_brake b] \<and>
    sr_state (bn_result b') = sr_state (bn_result b) @ [ECU_FAULT_DEGRADED] \<and>
    sr_dtc (bn_result b') = sr_dtc (bn_result b) @ [DTC_COMM_TIMEOUT]"
  by (rule silent_tick [OF assms])

text \<open>One tick of a scenario with the link lost from the start, for the witnesses.\<close>

definition lost_fault :: fault where
  "lost_fault = \<lparr>ft_t_start_s = f0, ft_t_end_s = Infin False, ft_name = ''comm_loss'', ft_kind = CommLossFault\<rparr>"

definition still_env :: bench_env where
  "still_env = \<lparr>be_clock = (\<lambda>_. f0), be_clock_late = (\<lambda>_. f0), be_send = (\<lambda>_. Sent)\<rparr>"

lemma still_env_clock: "now_ms (be_clock still_env k) = Inr 0" "now_ms (be_clock_late still_env k) = Inr 0"
proof -
  have "now_ms f0 = Inr 0" by code_simp
  then show "now_ms (be_clock still_env k) = Inr 0" "now_ms (be_clock_late still_env k) = Inr 0"
    by (simp_all add: still_env_def)
qed

lemma lost_fault_active: "is_active lost_fault (fmul (flit 0 1) CONTROL_PERIOD_S)"
  unfolding is_active_def lost_fault_def CONTROL_PERIOD_S_def by code_simp

lemma one_tick_start:
  obtains tire veh where "PacejkaTire ''dry_asphalt'' = Inr tire" "Vehicle VehicleParams tire (flit 2778 100) = Inr veh"
    "\<And>cfg evs. bench_ok 0 \<lparr>bn_veh = veh, bn_link = fresh_link, bn_faults = [lost_fault], bn_last_brake = f0,
      bn_result = ScenarioResult cfg, bn_recv = evs\<rparr>"
proof -
  obtain tire where t: "PacejkaTire ''dry_asphalt'' = Inr tire" using PacejkaTire_dry by blast
  have v0: "fwithin 0 128 (flit 2778 100)" by (rule fwithin_weaken [OF v0_within]) simp_all
  from Vehicle_ok [OF t v0] obtain veh where v: "Vehicle VehicleParams tire (flit 2778 100) = Inr veh" by blast
  show thesis using that [OF t v] start_ok [OF t v0 v] by blast
qed

theorem comm_loss_tick_witness:
  "\<exists>veh b'. bench_tick bhaskara (\<lambda>n s. f0) still_env 0 \<lparr>bn_veh = veh, bn_link = fresh_link, bn_faults = [lost_fault],
      bn_last_brake = f0, bn_result = ScenarioResult (ScenarioConfig ''s''), bn_recv = [RecvTimeout]\<rparr> =
        Some (Inr (\<not> stopped (bn_veh b'), b')) \<and> sr_dtc (bn_result b') = [DTC_COMM_TIMEOUT]"
proof -
  obtain tire veh where ok: "\<And>cfg evs. bench_ok 0 \<lparr>bn_veh = veh, bn_link = fresh_link, bn_faults = [lost_fault],
      bn_last_brake = f0, bn_result = ScenarioResult cfg, bn_recv = evs\<rparr>" using one_tick_start by blast
  let ?b = "\<lparr>bn_veh = veh, bn_link = fresh_link, bn_faults = [lost_fault],
      bn_last_brake = f0, bn_result = ScenarioResult (ScenarioConfig ''s''), bn_recv = [RecvTimeout]\<rparr>"
  have "bench_ok 0 ?b" by (rule ok)
  from comm_loss_tick [OF bhaskara_ok this, of lost_fault 0 "[]" still_env 0 0 "\<lambda>n s. f0"]
  show ?thesis using still_env_clock lost_fault_active
    by (auto simp: lost_fault_def ScenarioResult_def)
qed

text \<open>One tick without an answer, for the witnesses.\<close>

lemma one_tick_speed: "fwithin 0 128 (sc_v0_mps ((ScenarioConfig ''s'')\<lparr>sc_duration_s := flit 1 100\<rparr>))"
  by (simp add: ScenarioConfig_def) (rule fwithin_weaken [OF v0_within]; simp)

lemma one_tick_run:
  "\<exists>r. run_scenario bhaskara (\<lambda>n s. f0) still_env Bound ClientConnected [RecvTimeout]
      ((ScenarioConfig ''s'')\<lparr>sc_duration_s := flit 1 100\<rparr>) [lost_fault] = Some (Inr r) \<and>
    sr_brake_cmd r = [f0] \<and> sr_t r \<noteq> []"
proof -
  let ?cfg = "(ScenarioConfig ''s'')\<lparr>sc_duration_s := flit 1 100\<rparr>"
  obtain tire veh where t: "PacejkaTire ''dry_asphalt'' = Inr tire" "Vehicle VehicleParams tire (flit 2778 100) = Inr veh"
    and ok: "\<And>cfg evs. bench_ok 0 \<lparr>bn_veh = veh, bn_link = fresh_link, bn_faults = [lost_fault], bn_last_brake = f0,
      bn_result = ScenarioResult cfg, bn_recv = evs\<rparr>" using one_tick_start by blast
  let ?b = "\<lparr>bn_veh = veh, bn_link = fresh_link, bn_faults = [lost_fault],
      bn_last_brake = f0, bn_result = ScenarioResult ?cfg, bn_recv = [RecvTimeout]\<rparr>"
  have "bench_ok 0 ?b" by (rule ok)
  from silent_tick [OF bhaskara_ok this, of lost_fault 0 "[]" still_env 0 0 "\<lambda>n s. f0"]
  obtain b' where b': "bench_tick bhaskara (\<lambda>n s. f0) still_env 0 ?b = Some (Inr (\<not> stopped (bn_veh b'), b'))"
    "sr_brake_cmd (bn_result b') = [f0]" "bench_ok (Suc 0) b'"
    using still_env_clock lost_fault_active by (auto simp: lost_fault_def ScenarioResult_def)
  have "py_bind (fdiv (flit 1 100) CONTROL_PERIOD_S) py_int_round = Inr 1"
    unfolding CONTROL_PERIOD_S_def by code_simp
  then obtain q where q: "fdiv (flit 1 100) CONTROL_PERIOD_S = Inr q" "py_int_round q = Inr 1"
    by (auto simp: py_bind_Inr_iff)
  have link: "py_bind (link_listen Bound (PlantLink ''127.0.0.1'' 9000)) (link_accept ClientConnected) = Inr fresh_link"
    by (simp add: link_accept_def link_listen_def PlantLink_def fresh_link_def)
  have run: "run_scenario bhaskara (\<lambda>n s. f0) still_env Bound ClientConnected [RecvTimeout] ?cfg [lost_fault] =
      Some (Inr ((bn_result b')\<lparr>sr_last_pos := vs_x (vh_state (bn_veh b'))\<rparr>))"
    using t q link b'(1) by (simp add: run_scenario_def ScenarioConfig_def link_accept_def link_listen_def PlantLink_def fresh_link_def)
  have "sr_t (bn_result b') \<noteq> []" using b'(3) by (auto simp: bench_ok_def result_ok_def)
  with run b'(2) show ?thesis by auto
qed

theorem scenario_plant_safe_witness:
  "\<exists>r. run_scenario bhaskara (\<lambda>n s. f0) still_env Bound ClientConnected [RecvTimeout]
      ((ScenarioConfig ''s'')\<lparr>sc_duration_s := flit 1 100\<rparr>) [lost_fault] = Some (Inr r) \<and>
    sorted_wrt (\<lambda>a b. fval b \<le> fval a) (sr_v r)"
proof -
  obtain r where r: "run_scenario bhaskara (\<lambda>n s. f0) still_env Bound ClientConnected [RecvTimeout]
      ((ScenarioConfig ''s'')\<lparr>sc_duration_s := flit 1 100\<rparr>) [lost_fault] = Some (Inr r)" "sr_brake_cmd r = [f0]"
    using one_tick_run by blast
  then have "NaN \<notin> set (sr_brake_cmd r)" by simp
  from scenario_plant_safe [OF bhaskara_ok one_tick_speed r(1) this] r(1) show ?thesis by auto
qed

section \<open>Statistics of a result\<close>

lemma or_and_zero: "(x OR y) AND m = 0 \<longleftrightarrow> x AND m = 0 \<and> y AND m = 0" for x y m :: int
  by (auto simp: bit_eq_iff bit_simps)

lemma foldl_or_zero: "foldl (\<lambda>out d. out OR d) a ds AND m = 0 \<longleftrightarrow> a AND m = 0 \<and> (\<forall>d \<in> set ds. d AND m = 0)" for m :: int
  by (induction ds arbitrary: a) (auto simp: or_and_zero)

lemma first_time_None: "first_time P xs = None \<longleftrightarrow> (\<forall>(t, x) \<in> set xs. \<not> P x)"
  by (induction P xs rule: first_time.induct) auto

lemma first_time_at:
  "i < length xs \<Longrightarrow> P (snd (xs ! i)) \<Longrightarrow> (\<forall>j < i. \<not> P (snd (xs ! j))) \<Longrightarrow> first_time P xs = Some (fst (xs ! i))"
proof (induction P xs arbitrary: i rule: first_time.induct)
  case (2 P t x xs)
  then show ?case by (cases i) (force simp: All_less_Suc2)+
qed simp

text \<open>The statistics of a result agree: the union of the DTCs contains a bit of a mask exactly if the first
  time of that mask is known, and that time is the time of the first logged sample with such a bit.\<close>

theorem dtc_statistics:
  assumes "length (sr_t r) = length (sr_dtc r)"
  shows "(first_dtc_time r dtc_mask = None \<longleftrightarrow> dtc_union r AND dtc_mask = 0) \<and>
    (\<forall>i < length (sr_dtc r). sr_dtc r ! i AND dtc_mask \<noteq> 0 \<longrightarrow> (\<forall>j < i. sr_dtc r ! j AND dtc_mask = 0) \<longrightarrow>
      first_dtc_time r dtc_mask = Some (sr_t r ! i))"
proof (intro conjI allI impI)
  have "snd ` set (zip (sr_t r) (sr_dtc r)) = set (sr_dtc r)"
    using assms by (metis list.set_map map_snd_zip)
  then have "(\<forall>(t, d) \<in> set (zip (sr_t r) (sr_dtc r)). \<not> d AND dtc_mask \<noteq> 0) \<longleftrightarrow> (\<forall>d \<in> set (sr_dtc r). d AND dtc_mask = 0)"
    by force
  then show "first_dtc_time r dtc_mask = None \<longleftrightarrow> dtc_union r AND dtc_mask = 0"
    by (simp add: first_dtc_time_def dtc_union_def first_time_None foldl_or_zero)
next
  fix i assume "i < length (sr_dtc r)" "sr_dtc r ! i AND dtc_mask \<noteq> 0" "\<forall>j < i. sr_dtc r ! j AND dtc_mask = 0"
  then show "first_dtc_time r dtc_mask = Some (sr_t r ! i)"
    using first_time_at [of i "zip (sr_t r) (sr_dtc r)" "\<lambda>d. d AND dtc_mask \<noteq> 0"] assms
    by (simp add: first_dtc_time_def)
qed

theorem dtc_statistics_witness:
  "first_dtc_time ((ScenarioResult (ScenarioConfig ''s''))\<lparr>sr_t := [f0, flit 1 1], sr_dtc := [0, 4]\<rparr>) DTC_COMM_TIMEOUT =
    Some (flit 1 1)"
  using dtc_statistics [of "(ScenarioResult (ScenarioConfig ''s''))\<lparr>sr_t := [f0, flit 1 1], sr_dtc := [0, 4]\<rparr>" DTC_COMM_TIMEOUT]
  by (auto simp: DTC_COMM_TIMEOUT_def ScenarioResult_def All_less_Suc2)

section \<open>Commands that are not numbers\<close>

lemma nan_simps [simp]:
  "fl_add f NaN x = NaN" "fl_add f x NaN = NaN" "fl_sub f NaN x = NaN" "fl_sub f x NaN = NaN"
  "fl_mul f NaN x = NaN" "fl_mul f x NaN = NaN" "fl_div f NaN x = NaN" "fl_div f x NaN = NaN"
  "\<not> flt NaN x" "\<not> flt x NaN" "saturate p NaN = NaN"
  by (cases x; simp add: fl_sub_def saturate_def)+

lemma fdiv_NaN: "fdiv NaN x = Inr q \<Longrightarrow> q = NaN" "fdiv x NaN = Inr q \<Longrightarrow> q = NaN"
  by (auto simp: fdiv_def split: if_splits)

lemma slip_NaN:
  assumes "lm_sin lm NaN = NaN" "lm_atan lm NaN = NaN"
  shows "v = NaN \<or> w = NaN \<and> \<not> flt (fabs v) (flit 1 1) \<Longrightarrow> compute_slip v w r (flit 1 1) = Inr NaN"
    and "tire_mu lm tire NaN = Inr NaN"
proof -
  assume d: "v = NaN \<or> w = NaN \<and> \<not> flt (fabs v) (flit 1 1)"
  have "\<not> fzero v" using d by (cases v) (auto simp: flt_fin fabs_spec)
  with d show "compute_slip v w r (flit 1 1) = Inr NaN" by (auto simp: compute_slip_def fdiv_def)
qed (simp add: assms tire_mu_def math_atan_def math_sin_def)

lemma VehicleParams_div: "fdiv x (mass_quarter VehicleParams) = Inr (fl_div B64 x (flit 400 1))"
  "fdiv x (wheel_inertia VehicleParams) = Inr (fl_div B64 x (flit 12 10))"
proof -
  have "\<not> fzero (flit 400 1)" "\<not> fzero (flit 12 10)" by code_simp+
  then show "fdiv x (mass_quarter VehicleParams) = Inr (fl_div B64 x (flit 400 1))"
    "fdiv x (wheel_inertia VehicleParams) = Inr (fl_div B64 x (flit 12 10))"
    by (simp_all add: VehicleParams_def fdiv_def)
qed

text \<open>A step whose slip is not a number ends with a speed that is not a number, and does not raise.\<close>

lemma step_slip_NaN:
  assumes lm: "lm_sin lm NaN = NaN" "lm_atan lm NaN = NaN" and p: "vh_params veh = VehicleParams"
    and s: "vs_v (vh_state veh) = NaN \<or> vs_omega (vh_state veh) = NaN \<and> \<not> flt (fabs (vs_v (vh_state veh))) (flit 1 1)"
  shows "\<exists>out veh'. vehicle_step lm veh bp dt = Inr (out, veh') \<and> vs_v (vh_state veh') = NaN \<and> vh_params veh' = VehicleParams"
  using slip_NaN(1) [OF lm s] by (simp add: vehicle_step_def Let_def p slip_NaN(2) [OF lm] VehicleParams_div)

lemma plant_steps_NaN:
  assumes lm: "lm_sin lm NaN = NaN" "lm_atan lm NaN = NaN"
  shows "vh_params veh = VehicleParams \<Longrightarrow> vs_v (vh_state veh) = NaN \<Longrightarrow>
    \<exists>veh'. plant_steps lm n bp veh = Inr veh' \<and> vs_v (vh_state veh') = NaN \<and> vh_params veh' = VehicleParams"
proof (induction n arbitrary: veh)
  case (Suc n)
  obtain out veh1 where "vehicle_step lm veh bp PLANT_DT_S = Inr (out, veh1)" "vs_v (vh_state veh1) = NaN"
    "vh_params veh1 = VehicleParams" using step_slip_NaN [OF lm Suc.prems(1) disjI1 [OF Suc.prems(2)]] by blast
  with Suc.IH show ?case by simp
qed simp

text \<open>The step that takes the bad command: the saturation lets it through, and the wheel speed is lost.
  The vehicle speed of this step is the one of a step without brake.\<close>

lemma step_command_NaN:
  assumes lm: "libm_ok lm" and ok: "vehicle_ok veh" and p: "vh_params veh = VehicleParams"
    and v: "fwithin (1035/1024) 128 (vs_v (vh_state veh))"
  shows "\<exists>out veh'. vehicle_step lm veh NaN PLANT_DT_S = Inr (out, veh') \<and> vs_omega (vh_state veh') = NaN \<and>
    fwithin 1 128 (vs_v (vh_state veh')) \<and> vh_params veh' = VehicleParams"
proof -
  have z: "pyf f0" "f0 \<noteq> NaN" using fwithinD(3) [OF fwithin_f0] by simp_all
  obtain slip mu where s: "compute_slip (vs_v (vh_state veh)) (vs_omega (vh_state veh)) (wheel_radius VehicleParams) (flit 1 1) = Inr slip"
    "tire_mu lm (vh_tire veh) slip = Inr mu" using step_signals [OF lm ok ms_within z] unfolding p by metis
  obtain out veh' where 0: "vehicle_step lm veh f0 (flit 1 1000) = Inr (out, veh')"
    using vehicle_step_run [OF lm ok ms_within z] by metis
  have sat: "saturate VehicleParams f0 = f0" by (simp add: saturate_def VehicleParams_def flt_fin)
  have "fwithin 1 128 (vs_v (vh_state veh'))" using step_decel [OF lm ok p z _ _ _ 0, of 1035] v by simp
  with 0 s show ?thesis unfolding PLANT_DT_S_def
    by (simp add: vehicle_step_def Let_def p sat VehicleParams_div)
      (auto simp: flt_fin)
qed

lemma plant_tick_NaN:
  assumes "libm_ok lm" "lm_sin lm NaN = NaN" "lm_atan lm NaN = NaN" "vehicle_ok veh" "vh_params veh = VehicleParams"
    "fwithin (1035/1024) 128 (vs_v (vh_state veh))" "2 \<le> n"
  shows "\<exists>veh'. plant_steps lm n NaN veh = Inr veh' \<and> vs_v (vh_state veh') = NaN \<and> vh_params veh' = VehicleParams"
proof -
  obtain out veh1 where 1: "vehicle_step lm veh NaN PLANT_DT_S = Inr (out, veh1)" "vs_omega (vh_state veh1) = NaN"
    "fwithin 1 128 (vs_v (vh_state veh1))" "vh_params veh1 = VehicleParams"
    using step_command_NaN [OF assms(1,4,5,6)] by blast
  have "\<not> flt (fabs (vs_v (vh_state veh1))) (flit 1 1)" using fwithinD [OF 1(3)] by (simp add: flt_fin fabs_spec)
  then obtain out2 veh2 where 2: "vehicle_step lm veh1 NaN PLANT_DT_S = Inr (out2, veh2)" "vs_v (vh_state veh2) = NaN"
    "vh_params veh2 = VehicleParams" using step_slip_NaN [OF assms(2,3) 1(4)] 1(2) by blast
  obtain k where "n = Suc (Suc k)" using assms(7) by (metis Suc_le_D numeral_2_eq_2 Suc_le_mono)
  with 1(1) 2 plant_steps_NaN [OF assms(2,3) 2(3,2)] show ?thesis by simp
qed

text \<open>C40: A brake command that is not a number is not stopped by the saturation and ruins the run.  From a vehicle
  of the invariant with the default parameters and at least 1035/1024 m/s (about 1.011 m/s), one tick
  of the harness with that command, and then any further ticks, with whatever commands and on
  whatever surfaces, all return (nothing raises), the vehicle speed after them is not a number, and the
  vehicle does not count as stopped: the harness's stopping test never succeeds again.  Below that speed the claim is not made: there
  the static freeze of a later good command can still stop the car.\<close>

theorem nan_command_never_stops:
  assumes "libm_ok lm" and "lm_sin lm NaN = NaN" and "lm_atan lm NaN = NaN"
    and "vehicle_ok veh" and "vh_params veh = VehicleParams" and "fwithin (1035/1024) 128 (vs_v (vh_state veh))"
  shows "\<exists>veh'. foldl (\<lambda>r (tire, c). py_bind r (\<lambda>veh. plant_steps lm (nat STEPS_PER_TICK) c (veh\<lparr>vh_tire := tire\<rparr>)))
      (plant_steps lm (nat STEPS_PER_TICK) NaN veh) later = Inr veh' \<and>
    vs_v (vh_state veh') = NaN \<and> \<not> stopped veh'"
proof -
  have "\<exists>veh'. foldl (\<lambda>r (tire, c). py_bind r (\<lambda>veh. plant_steps lm 10 c (veh\<lparr>vh_tire := tire\<rparr>)))
      (plant_steps lm 10 NaN veh) later = Inr veh' \<and> vs_v (vh_state veh') = NaN \<and> vh_params veh' = VehicleParams"
  proof (induction later rule: rev_induct)
    case Nil
    show ?case using plant_tick_NaN [OF assms, of 10] by simp
  next
    case (snoc x later)
    obtain tire c where x: "x = (tire, c)" by force
    from snoc obtain v where v: "foldl (\<lambda>r (tire, c). py_bind r (\<lambda>veh. plant_steps lm 10 c (veh\<lparr>vh_tire := tire\<rparr>)))
      (plant_steps lm 10 NaN veh) later = Inr v" "vs_v (vh_state v) = NaN" "vh_params v = VehicleParams" by blast
    show ?case using plant_steps_NaN [OF assms(2,3), of "v\<lparr>vh_tire := tire\<rparr>" 10 c] v by (simp add: x)
  qed
  then show ?thesis by (auto simp: steps_per_tick stopped_def)
qed

lemma bhaskara_NaN: "lm_sin bhaskara NaN = NaN" "lm_atan bhaskara NaN = NaN"
  by (simp_all add: bhaskara_def)

text \<open>The car of the scenarios at 27.78 m/s, one bad command, then a full brake command on ice.\<close>

theorem nan_command_never_stops_witness:
  "\<exists>tr veh ice veh1 veh2. PacejkaTire ''dry_asphalt'' = Inr tr \<and> Vehicle VehicleParams tr (flit 2778 100) = Inr veh \<and>
    PacejkaTire ''ice'' = Inr ice \<and> plant_steps bhaskara (nat STEPS_PER_TICK) NaN veh = Inr veh1 \<and>
    plant_steps bhaskara (nat STEPS_PER_TICK) (flit 100 1) (veh1\<lparr>vh_tire := ice\<rparr>) = Inr veh2 \<and> \<not> stopped veh2"
proof -
  obtain tr where tr: "PacejkaTire ''dry_asphalt'' = Inr tr" using PacejkaTire_dry by blast
  obtain ice where ice: "PacejkaTire ''ice'' = Inr ice" by (simp add: PacejkaTire_def SURFACES_def)
  have v0: "fwithin 0 128 (flit 2778 100)" "fwithin (1035/1024) 128 (flit 2778 100)"
    by (rule fwithin_weaken [OF v0_within]; simp)+
  obtain veh where veh: "Vehicle VehicleParams tr (flit 2778 100) = Inr veh" "vehicle_ok veh"
    "vh_params veh = VehicleParams" "vs_v (vh_state veh) = flit 2778 100" using Vehicle_ok [OF tr v0(1)] by blast
  from nan_command_never_stops [OF bhaskara_ok bhaskara_NaN veh(2,3), of "[(ice, flit 100 1)]"] v0(2) veh(4)
  obtain veh2 where "py_bind (plant_steps bhaskara (nat STEPS_PER_TICK) NaN veh) (\<lambda>veh.
      plant_steps bhaskara (nat STEPS_PER_TICK) (flit 100 1) (veh\<lparr>vh_tire := ice\<rparr>)) = Inr veh2" "\<not> stopped veh2" by auto
  then show ?thesis using tr ice veh(1) by (auto simp: py_bind_Inr_iff)
qed

end
