(* ===== verification/Number_Text.thy ===== *)
theory Number_Text
  imports Floats
begin

text \<open>
  How Python writes and reads numbers as text: \<^verbatim>\<open>str\<close> of an integer, \<^verbatim>\<open>repr\<close> of a float (the shortest decimal
  that reads back as the float, the nearest one among those), and the constructors \<^verbatim>\<open>int\<close> and \<^verbatim>\<open>float\<close> on
  strings.  The CSV logs hold numbers in this form.  Strings are lists of 8-bit characters.
\<close>

section \<open>Writing integers\<close>

fun digits :: "nat \<Rightarrow> string" where
  "digits n = (if n < 10 then [char_of (48 + n)] else digits (n div 10) @ [char_of (48 + n mod 10)])"

declare digits.simps [simp del]

definition py_str_int :: "int \<Rightarrow> string" where
  "py_str_int i = (if i < 0 then CHR ''-'' # digits (nat (- i)) else digits (nat i))"

section \<open>Reading\<close>

definition is_digit :: "char \<Rightarrow> bool" where
  "is_digit c \<longleftrightarrow> 48 \<le> (of_char c :: nat) \<and> (of_char c :: nat) \<le> 57"

definition is_space :: "char \<Rightarrow> bool" where
  "is_space c \<longleftrightarrow> (let n = of_char c :: nat in 9 \<le> n \<and> n \<le> 13 \<or> 28 \<le> n \<and> n \<le> 32 \<or> n = 133 \<or> n = 160)"

definition strip :: "string \<Rightarrow> string" where
  "strip s = rev (dropWhile is_space (rev (dropWhile is_space s)))"

definition digits_val :: "string \<Rightarrow> int" where
  "digits_val = foldl (\<lambda>v c. 10 * v + (of_char c - 48)) 0"

text \<open>Underscores are allowed between digits; the flag says whether the character before was a digit.\<close>

fun drop_underscores :: "bool \<Rightarrow> string \<Rightarrow> string option" where
  "drop_underscores p [] = Some []"
| "drop_underscores p (c # cs) =
     (if c = CHR ''_'' then (if p \<and> cs \<noteq> [] \<and> is_digit (hd cs) then drop_underscores False cs else None)
      else map_option ((#) c) (drop_underscores (is_digit c) cs))"

fun split_sign :: "string \<Rightarrow> bool \<times> string" where
  "split_sign (c # cs) = (if c = CHR ''-'' then (True, cs) else if c = CHR ''+'' then (False, cs) else (False, c # cs))"
| "split_sign [] = (False, [])"

text \<open>\<^verbatim>\<open>int(s)\<close>; more than 4300 digits are refused.\<close>

definition py_int_of_str :: "string \<Rightarrow> int py" where
  "py_int_of_str s = (case drop_underscores False (strip s) of
     None \<Rightarrow> Inl ValueError
   | Some t \<Rightarrow> (let (neg, ds) = split_sign t in
       if ds \<noteq> [] \<and> (\<forall>c \<in> set ds. is_digit c) \<and> length ds \<le> 4300 then Inr (sgi neg (digits_val ds))
       else Inl ValueError))"

text \<open>The float nearest to \<open>n * 10 ^ k\<close>.\<close>

definition dec_float :: "bool \<Rightarrow> int \<Rightarrow> int \<Rightarrow> pyfloat" where
  "dec_float neg n k = fround B64 neg (n * 10 ^ nat k) (10 ^ nat (- k))"

definition parse_exponent :: "string \<Rightarrow> int option" where
  "parse_exponent s = (case s of
     [] \<Rightarrow> Some 0
   | c # cs \<Rightarrow> (if c \<in> {CHR ''e'', CHR ''E''} then
       (let (neg, ds) = split_sign cs in
        if ds \<noteq> [] \<and> (\<forall>c \<in> set ds. is_digit c) then Some (sgi neg (digits_val ds)) else None)
       else None))"

definition parse_decimal :: "bool \<Rightarrow> string \<Rightarrow> pyfloat py" where
  "parse_decimal neg s =
    (let ip = takeWhile is_digit s; r = dropWhile is_digit s;
         (fp, r) = (if r \<noteq> [] \<and> hd r = CHR ''.'' then (takeWhile is_digit (tl r), dropWhile is_digit (tl r)) else ([], r))
     in if ip @ fp = [] then Inl ValueError
        else case parse_exponent r of
          None \<Rightarrow> Inl ValueError
        | Some x \<Rightarrow> Inr (dec_float neg (digits_val (ip @ fp)) (x - int (length fp))))"

definition lower :: "char \<Rightarrow> char" where
  "lower c = (let n = of_char c :: nat in if 65 \<le> n \<and> n \<le> 90 then char_of (n + 32) else c)"

text \<open>\<^verbatim>\<open>float(s)\<close>.\<close>

definition py_float_of_str :: "string \<Rightarrow> pyfloat py" where
  "py_float_of_str s = (case drop_underscores False (strip s) of
     None \<Rightarrow> Inl ValueError
   | Some t \<Rightarrow> (let (neg, u) = split_sign t; w = map lower u in
       if w \<in> {''inf'', ''infinity''} then Inr (Infin neg)
       else if w = ''nan'' then Inr NaN
       else parse_decimal neg u))"

section \<open>Writing floats\<close>

text \<open>The exponent of the first decimal digit of \<open>n / d\<close>.\<close>

definition dec_exp :: "int \<Rightarrow> int \<Rightarrow> int" where
  "dec_exp n d = (if d \<le> n then int (length (digits (nat (n div d)))) - 1
     else - int (length (digits (nat ((d - 1) div n)))))"

text \<open>\<open>len\<close> digits: the nearest decimal or, should that not read back, the one on the other side.\<close>

definition shortest_try :: "int \<Rightarrow> int \<Rightarrow> nat \<Rightarrow> (int \<times> int) option" where
  "shortest_try m e len =
    (let n = m * 2 ^ nat e; d = 2 ^ nat (- e); k = dec_exp n d - int len + 1;
         n' = n * 10 ^ nat (- k); d' = d * 10 ^ nat k;
         c = half_even n' d'; c' = (if c * d' \<le> n' then c + 1 else c - 1)
     in if dec_float False c k = Fin False m e then Some (c, k)
        else if dec_float False c' k = Fin False m e then Some (c', k)
        else None)"

fun first_some :: "('a \<Rightarrow> 'b option) \<Rightarrow> 'a list \<Rightarrow> 'b option" where
  "first_some f [] = None"
| "first_some f (x # xs) = (case f x of Some y \<Rightarrow> Some y | None \<Rightarrow> first_some f xs)"

definition repr_digits :: "int \<Rightarrow> int \<Rightarrow> (int \<times> int) option" where
  "repr_digits m e = first_some (shortest_try m e) [1..<18]"

text \<open>The layout of the digits \<open>0.ds * 10 ^ point\<close>: fixed, or scientific with two exponent digits at least.\<close>

definition zeros :: "int \<Rightarrow> string" where
  "zeros n = replicate (nat n) CHR ''0''"

definition exp_digits :: "int \<Rightarrow> string" where
  "exp_digits x = (if x < 0 then ''-'' else ''+'') @ (let ds = digits (nat \<bar>x\<bar>) in if length ds < 2 then CHR ''0'' # ds else ds)"

definition layout :: "string \<Rightarrow> int \<Rightarrow> string" where
  "layout ds point =
    (if - 4 < point \<and> point \<le> 16 then
       (if point \<le> 0 then ''0.'' @ zeros (- point) @ ds
        else if int (length ds) \<le> point then ds @ zeros (point - int (length ds)) @ ''.0''
        else take (nat point) ds @ ''.'' @ drop (nat point) ds)
     else (case ds of c # cs \<Rightarrow> [c] @ (if cs = [] then [] else CHR ''.'' # cs) | [] \<Rightarrow> []) @ ''e'' @ exp_digits (point - 1))"

definition strip_zeros :: "string \<Rightarrow> string" where
  "strip_zeros ds = rev (dropWhile ((=) CHR ''0'') (rev ds))"

text \<open>\<^verbatim>\<open>repr(x)\<close>.\<close>

fun py_repr_float :: "pyfloat \<Rightarrow> string" where
  "py_repr_float NaN = ''nan''"
| "py_repr_float (Infin s) = (if s then ''-inf'' else ''inf'')"
| "py_repr_float (Fin s m e) = (if s then ''-'' else []) @
     (if m = 0 then ''0.0''
      else case repr_digits m e of
        Some (c, k) \<Rightarrow> (let ds = digits (nat c) in layout (strip_zeros ds) (k + int (length ds)))
      | None \<Rightarrow> [])"

end
