(* ===== verification/Scenarios.thy ===== *)
theory Scenarios
  imports Harness_Properties "HOL-Library.List_Lexorder" "HOL-Library.Char_ord" Number_Text
begin

unbundle bit_operations_syntax

text \<open>
  \<^verbatim>\<open>scripts/scenarios/s1_nominal.py\<close> to \<^verbatim>\<open>s6_noisy_sensor.py\<close>: the six acceptance scenarios, each a
  configuration, an injector, a list of checks on the result and the exit code; and the summary that
  \<^verbatim>\<open>harness.py\<close> prints for them.  Each \<^verbatim>\<open>main\<close> is a function of the outside world (the mathematics
  library, the noise, clock and sockets); \<open>None\<close> is a \<^verbatim>\<open>recv\<close> that never returns.  Of the messages the
  text without the formatted numbers is kept; the CSV file is left out.
\<close>

section \<open>The summary\<close>

definition STATE_NAMES :: "(int \<times> string) list" where
  "STATE_NAMES = [(ECU_INIT, ''INIT''), (ECU_STANDBY, ''STANDBY''), (ECU_MONITOR, ''MONITOR''),
     (ECU_ACTIVE, ''ACTIVE''), (ECU_FAULT_DEGRADED, ''FAULT_DEGRADED''), (ECU_FAULT_LATCHED, ''FAULT_LATCHED'')]"

definition DTC_NAMES :: "(int \<times> string) list" where
  "DTC_NAMES = [(DTC_SENSOR_STUCK, ''STUCK''), (DTC_SENSOR_NOISE, ''NOISE''), (DTC_COMM_TIMEOUT, ''COMM_TIMEOUT''),
     (DTC_COMM_CRC, ''COMM_CRC''), (DTC_SENSOR_RANGE, ''SENSOR_RANGE''), (DTC_PLAUSIBILITY, ''PLAUSIBILITY'')]"

definition state_name :: "int \<Rightarrow> string" where
  "state_name s = (case map_of STATE_NAMES s of Some n \<Rightarrow> n | None \<Rightarrow> py_str_int s)"

definition dtc_labels :: "int \<Rightarrow> string list" where
  "dtc_labels dtcs = map snd (filter (\<lambda>(bit, name). dtcs AND bit \<noteq> 0) DTC_NAMES)"

text \<open>What is printed: distance, time, the sorted names of the states, the DTC union and its labels.\<close>

definition summary :: "scenario_result \<Rightarrow> pyfloat \<times> pyfloat \<times> string list \<times> int \<times> string list" where
  "summary r = (let dtcs = dtc_union r in
     (result_stopping_distance r, result_stopping_time r,
      sorted_list_of_set (state_name ` states_visited r), dtcs,
      (if dtc_labels dtcs \<noteq> [] then dtc_labels dtcs else [''none''])))"

lemma dtc_values:
  "DTC_NONE = 0" "DTC_SENSOR_STUCK = 1" "DTC_SENSOR_NOISE = 2" "DTC_COMM_TIMEOUT = 4" "DTC_COMM_CRC = 8"
  "DTC_SENSOR_RANGE = 16" "DTC_PLAUSIBILITY = 32"
  by (simp_all add: DTC_NONE_def DTC_SENSOR_STUCK_def DTC_SENSOR_NOISE_def DTC_COMM_TIMEOUT_def DTC_COMM_CRC_def
      DTC_SENSOR_RANGE_def DTC_PLAUSIBILITY_def)

lemmas ecu_consts = dtc_values ECU_INIT_def ECU_STANDBY_def ECU_MONITOR_def ECU_ACTIVE_def
  ECU_FAULT_DEGRADED_def ECU_FAULT_LATCHED_def

section \<open>The scenarios\<close>

definition scenario_exit :: "scenario_result py option \<Rightarrow> (scenario_result \<Rightarrow> (bool \<times> string) list) \<Rightarrow> int py option" where
  "scenario_exit run checks = map_option (\<lambda>m. py_bind m (\<lambda>r. Inr (assert_all (checks r)))) run"

definition s1_config :: scenario_config where
  "s1_config = (ScenarioConfig ''s1_nominal'')\<lparr>sc_surface := ''dry_asphalt'', sc_duration_s := flit 6 1,
     sc_driver_request_bar := flit 100 1\<rparr>"

definition s1_checks :: "scenario_result \<Rightarrow> (bool \<times> string) list" where
  "s1_checks r =
    [(fle (flit 35 1) (result_stopping_distance r) \<and> fle (result_stopping_distance r) (flit 55 1),
       ''stopping distance in [35, 55]''),
     (ECU_ACTIVE \<in> states_visited r, ''ECU reached ACTIVE''),
     (dtc_union r = 0, ''no DTC raised'')]"

definition s1_main :: "libm \<Rightarrow> gauss \<Rightarrow> bench_env \<Rightarrow> listen_event \<Rightarrow> accept_event \<Rightarrow> recv_event list \<Rightarrow> int py option" where
  "s1_main lm gauss env lsn acc evs =
     scenario_exit (run_scenario lm gauss env lsn acc evs s1_config []) s1_checks"

definition s2_config :: scenario_config where
  "s2_config = (ScenarioConfig ''s2_ice_patch'')\<lparr>sc_surface := ''dry_asphalt'', sc_duration_s := flit 15 1,
     sc_driver_request_bar := flit 100 1\<rparr>"

definition s2_injector :: fault_injector where
  "s2_injector = injector_add [] (new_ice_patch (flit 1 1) (flit 1000000000 1) ''ice'')"

definition s2_checks :: "scenario_result \<Rightarrow> (bool \<times> string) list" where
  "s2_checks r =
    [(flt (flit 70 1) (result_stopping_distance r), ''stopping distance > 70 (ice effect)''),
     (ECU_FAULT_LATCHED \<notin> states_visited r, ''ECU did not latch (environment, not a fault)''),
     (dtc_union r = 0, ''no DTC raised'')]"

definition s2_main :: "libm \<Rightarrow> gauss \<Rightarrow> bench_env \<Rightarrow> listen_event \<Rightarrow> accept_event \<Rightarrow> recv_event list \<Rightarrow> int py option" where
  "s2_main lm gauss env lsn acc evs =
     scenario_exit (run_scenario lm gauss env lsn acc evs s2_config s2_injector) s2_checks"

definition s3_config :: scenario_config where
  "s3_config = (ScenarioConfig ''s3_stuck_sensor'')\<lparr>sc_surface := ''dry_asphalt'', sc_duration_s := flit 8 1,
     sc_driver_request_bar := flit 100 1\<rparr>"

definition s3_injector :: fault_injector where
  "s3_injector = injector_add [] (new_stuck (flit 5 10) (flit 1000000000 1))"

definition s3_checks :: "scenario_result \<Rightarrow> (bool \<times> string) list" where
  "s3_checks r = (let t_first_stuck = first_dtc_time r DTC_SENSOR_STUCK;
       delay = (case t_first_stuck of Some t \<Rightarrow> fsub t (flit 5 10) | None \<Rightarrow> Infin False) in
    [(t_first_stuck \<noteq> None, ''DTC_SENSOR_STUCK raised''),
     (flt delay (flit 25 100), ''detected within 250 ms''),
     (ECU_FAULT_DEGRADED \<in> states_visited r \<or> ECU_FAULT_LATCHED \<in> states_visited r, ''ECU reached a FAULT_* state''),
     (flt (result_stopping_distance r) (flit 200 1), ''vehicle still stops (fail-operational)'')])"

definition s3_main :: "libm \<Rightarrow> gauss \<Rightarrow> bench_env \<Rightarrow> listen_event \<Rightarrow> accept_event \<Rightarrow> recv_event list \<Rightarrow> int py option" where
  "s3_main lm gauss env lsn acc evs =
     scenario_exit (run_scenario lm gauss env lsn acc evs s3_config s3_injector) s3_checks"

definition s4_config :: scenario_config where
  "s4_config = (ScenarioConfig ''s4_comm_loss'')\<lparr>sc_surface := ''dry_asphalt'', sc_duration_s := flit 8 1,
     sc_driver_request_bar := flit 100 1\<rparr>"

definition s4_injector :: fault_injector where
  "s4_injector = injector_add [] (new_comm_loss (flit 1 1) (flit 12 10))"

definition s4_checks :: "scenario_result \<Rightarrow> (bool \<times> string) list" where
  "s4_checks r = (let t_first_timeout = first_dtc_time r DTC_COMM_TIMEOUT in
    [(t_first_timeout \<noteq> None, ''DTC_COMM_TIMEOUT raised''),
     (ECU_FAULT_DEGRADED \<in> states_visited r, ''ECU entered FAULT_DEGRADED during the comm gap''),
     (ECU_FAULT_LATCHED \<in> states_visited r, ''ECU latched after 10 consecutive faults (correct per FMEA F08)''),
     (flt (result_stopping_distance r) (flit 200 1), ''vehicle still stops fail-operational'')])"

definition s4_main :: "libm \<Rightarrow> gauss \<Rightarrow> bench_env \<Rightarrow> listen_event \<Rightarrow> accept_event \<Rightarrow> recv_event list \<Rightarrow> int py option" where
  "s4_main lm gauss env lsn acc evs =
     scenario_exit (run_scenario lm gauss env lsn acc evs s4_config s4_injector) s4_checks"

definition s5_config :: scenario_config where
  "s5_config = (ScenarioConfig ''s5_crc_corruption'')\<lparr>sc_surface := ''dry_asphalt'', sc_duration_s := flit 6 1,
     sc_driver_request_bar := flit 100 1\<rparr>"

definition s5_injector :: fault_injector where
  "s5_injector = injector_add [] (new_crc_corruption (flit 0 1) (flit 1000000000 1) 100 7)"

definition s5_checks :: "scenario_result \<Rightarrow> (bool \<times> string) list" where
  "s5_checks r =
    [(ECU_ACTIVE \<in> states_visited r, ''controller still engaged ACTIVE despite corruption''),
     (fle (flit 35 1) (result_stopping_distance r) \<and> fle (result_stopping_distance r) (flit 60 1),
       ''stopping distance close to nominal''),
     (ECU_FAULT_LATCHED \<notin> states_visited r, ''ECU did not latch (single-bit flips are isolated events)'')]"

definition s5_main :: "libm \<Rightarrow> gauss \<Rightarrow> bench_env \<Rightarrow> listen_event \<Rightarrow> accept_event \<Rightarrow> recv_event list \<Rightarrow> int py option" where
  "s5_main lm gauss env lsn acc evs =
     scenario_exit (run_scenario lm gauss env lsn acc evs s5_config s5_injector) s5_checks"

definition s6_config :: scenario_config where
  "s6_config = (ScenarioConfig ''s6_noisy_sensor'')\<lparr>sc_surface := ''dry_asphalt'', sc_duration_s := flit 8 1,
     sc_driver_request_bar := flit 100 1\<rparr>"

definition s6_injector :: fault_injector where
  "s6_injector = injector_add [] (new_noisy (flit 0 1) (flit 1000000000 1) (flit 5 1))"

definition s6_checks :: "scenario_result \<Rightarrow> (bool \<times> string) list" where
  "s6_checks r =
    [(flt (result_stopping_distance r) (flit 80 1), ''vehicle still stops in <80 m''),
     (ECU_FAULT_LATCHED \<notin> states_visited r, ''ECU did not latch on noise alone''),
     (ECU_ACTIVE \<in> states_visited r, ''controller still engaged ACTIVE despite noise'')]"

definition s6_main :: "libm \<Rightarrow> gauss \<Rightarrow> bench_env \<Rightarrow> listen_event \<Rightarrow> accept_event \<Rightarrow> recv_event list \<Rightarrow> int py option" where
  "s6_main lm gauss env lsn acc evs =
     scenario_exit (run_scenario lm gauss env lsn acc evs s6_config s6_injector) s6_checks"

end
