(* ===== verification/Scenario_Properties.thy ===== *)
theory Scenario_Properties
  imports Scenarios
begin

unbundle bit_operations_syntax

text \<open>
  What the verdicts of the scenarios are worth: the exit code is zero exactly if every check holds, no
  scenario passes when no byte ever comes from the ECU, and the placeholder that the harness logs on a
  timeout satisfies two of the checks of scenario 4 by itself.
\<close>

section \<open>Exit codes\<close>

lemma failed_count: "foldl (\<lambda>n (ok, msg). if \<not> ok then n + 1 else n) (c :: int) xs = c + int (length (filter (Not \<circ> fst) xs))"
  by (induction xs arbitrary: c) auto

lemma assert_all_iff: "assert_all xs = (if \<forall>x \<in> set xs. fst x then 0 else 1)"
  by (auto simp: assert_all_def failed_count filter_empty_conv)

lemma scenario_exit_run: "scenario_exit (Some (Inr r)) checks = Some (Inr (assert_all (checks r)))"
  by (simp add: scenario_exit_def)

lemma scenario_exit_zero:
  "scenario_exit run checks = Some (Inr 0) \<longleftrightarrow> (\<exists>r. run = Some (Inr r) \<and> (\<forall>c \<in> set (checks r). fst c))"
  by (cases run; cases "the run") (auto simp: scenario_exit_def assert_all_iff)

section \<open>Runs without an ECU\<close>

text \<open>No bytes arrive.\<close>

definition deaf :: "recv_event list \<Rightarrow> bool" where
  "deaf evs \<longleftrightarrow> (\<forall>c. Chunk c \<notin> set evs)"

definition deaf_bench :: "bench \<Rightarrow> bool" where
  "deaf_bench b \<longleftrightarrow> deaf (bn_recv b) \<and> quiet (pl_decoder (bn_link b)) \<and>
     set (sr_state (bn_result b)) \<subseteq> {ECU_FAULT_DEGRADED} \<and> set (sr_dtc (bn_result b)) \<subseteq> {DTC_COMM_TIMEOUT} \<and>
     (sr_dtc (bn_result b) = [] \<longrightarrow> vs_x (vh_state (bn_veh b)) = f0)"

lemma recv_loop_deaf:
  assumes "deaf evs" "recv_loop evs l = Some (r, l', evs')"
  shows "r \<noteq> Inr (Some a) \<and> deaf evs' \<and> pl_decoder l' = pl_decoder l"
proof (cases evs)
  case (Cons e es)
  with assms show ?thesis by (cases e) (auto simp: deaf_def merge_stats_def split: if_splits)
qed (use assms in simp)

lemma tick_receive_deaf:
  assumes "deaf_bench b" "tick_receive env k b = Some (Inr (a, b'))"
  shows "deaf_bench b' \<and> af_ecu_status a = ECU_FAULT_DEGRADED \<and> af_dtc_code a = DTC_COMM_TIMEOUT"
proof -
  have q: "quiet (pl_decoder (bn_link b))" and d: "deaf (bn_recv b)" using assms(1) by (simp_all add: deaf_bench_def)
  obtain r link evs where v: "recv_actuator (bn_recv b) (bn_link b) = Some (r, link, evs)"
    using assms(2) by (auto simp: tick_receive_def split: option.splits)
  then obtain x where x: "r = Inr x" using assms(2) by (cases r) (auto simp: tick_receive_def)
  have c: "pl_conn (bn_link b)" using v x by (rule_tac ccontr) (simp add: recv_actuator_def)
  then have l: "recv_loop (bn_recv b) (bn_link b) = Some (Inr x, link, evs)"
    using v x recv_actuator_quiet [OF c q] by simp
  then have "x = None" using recv_loop_deaf [OF d l] by (cases x) auto
  moreover have "deaf evs" "quiet (pl_decoder link)" using recv_loop_deaf [OF d l] q by simp_all
  ultimately show ?thesis
    using assms v x by (auto simp: tick_receive_def Let_def py_bind_Inr_iff deaf_bench_def)
qed

lemma tick_sense_deaf:
  assumes "deaf_bench b" "tick_sense gauss env k t b = Inr (fr, b')"
  shows "deaf_bench b'"
proof -
  obtain tire fs ms where e: "apply_environment t (bn_faults b) (vh_tire (bn_veh b)) = Inr (tire, fs)"
    "now_ms (be_clock env k) = Inr ms"
    using assms(2) by (cases "apply_environment t (bn_faults b) (vh_tire (bn_veh b))"; cases "now_ms (be_clock env k)")
      (auto simp: tick_sense_def)
  then show ?thesis using assms by (auto simp: tick_sense_def Let_def deaf_bench_def split: prod.splits)
qed

lemma tick_send_deaf:
  assumes "deaf_bench b" "tick_send env k t fr b = Inr (go, b')"
  shows "deaf_bench b'"
  using assms by (cases fr; cases "be_send env k")
    (auto simp: tick_send_def sendall_def py_bind_Inr_iff Let_def deaf_bench_def count_sent_def split: if_splits)

lemma bench_tick_deaf:
  assumes "deaf_bench b" "bench_tick lm gauss env k b = Some (Inr (go, b'))"
  shows "deaf_bench b'"
  using assms(2)
proof (cases rule: bench_tick_parts)
  case (1 fr b0)
  then show ?thesis using tick_sense_deaf [OF assms(1)] tick_send_deaf by blast
next
  case (2 fr b0 b1 a b2)
  then have "deaf_bench b2" "af_ecu_status a = ECU_FAULT_DEGRADED" "af_dtc_code a = DTC_COMM_TIMEOUT"
    using tick_sense_deaf [OF assms(1)] tick_send_deaf tick_receive_deaf by blast+
  then show ?thesis using 2(4) by (auto simp: tick_plant_def py_bind_Inr_iff deaf_bench_def tick_log_def)
qed

lemma bench_loop_deaf:
  "deaf_bench b \<Longrightarrow> bench_loop lm gauss env ks b = Some (Inr b') \<Longrightarrow> deaf_bench b'"
proof (induction ks arbitrary: b)
  case (Cons k ks)
  obtain go b1 where 1: "bench_tick lm gauss env k b = Some (Inr (go, b1))"
    "if go then bench_loop lm gauss env ks b1 = Some (Inr b') else b' = b1"
    using Cons.prems by (auto split: option.splits sum.splits if_splits)
  with bench_tick_deaf [OF Cons.prems(1) 1(1)] Cons.IH [of b1] show ?case by (auto split: if_splits)
qed simp

lemma deaf_run:
  assumes "run_scenario lm gauss env lsn acc evs cfg injector = Some (Inr r)" "deaf evs"
  shows "set (sr_state r) \<subseteq> {ECU_FAULT_DEGRADED} \<and> set (sr_dtc r) \<subseteq> {DTC_COMM_TIMEOUT} \<and>
    (sr_dtc r = [] \<longrightarrow> sr_last_pos r = f0)"
  using assms(1)
proof (cases rule: run_scenario_parts)
  case (1 tire veh link q n_ticks b)
  let ?b = "\<lparr>bn_veh = veh, bn_link = link, bn_faults = injector,
      bn_last_brake = f0, bn_result = ScenarioResult cfg, bn_recv = evs\<rparr>"
  have "vs_x (vh_state veh) = f0" using 1(2) by (auto simp: Vehicle_def vehicle_reset_def py_bind_Inr_iff)
  then have "deaf_bench ?b" using 1(4) assms(2) by (simp add: deaf_bench_def ScenarioResult_def)
  from bench_loop_deaf [OF this 1(8)] show ?thesis using 1(9) by (simp add: deaf_bench_def)
qed

lemma dtc_union_timeout: "DTC_COMM_TIMEOUT \<in> set (sr_dtc r) \<Longrightarrow> dtc_union r \<noteq> 0"
proof -
  assume "DTC_COMM_TIMEOUT \<in> set (sr_dtc r)"
  then have "dtc_union r AND DTC_COMM_TIMEOUT \<noteq> 0"
    using foldl_or_zero [of 0 "sr_dtc r" DTC_COMM_TIMEOUT] by (force simp: dtc_union_def ecu_consts)
  then show ?thesis by auto
qed

text \<open>C28: No scenario passes without an ECU: if no byte ever arrives (only timeouts, failures or the end of the
  connection), none of the six mains returns the exit code 0, whatever the clock, the noise and the
  mathematics library do.\<close>

theorem no_pass_without_ecu:
  assumes "deaf evs"
  shows "s1_main lm gauss env lsn acc evs \<noteq> Some (Inr 0) \<and> s2_main lm gauss env lsn acc evs \<noteq> Some (Inr 0) \<and>
    s3_main lm gauss env lsn acc evs \<noteq> Some (Inr 0) \<and> s4_main lm gauss env lsn acc evs \<noteq> Some (Inr 0) \<and>
    s5_main lm gauss env lsn acc evs \<noteq> Some (Inr 0) \<and> s6_main lm gauss env lsn acc evs \<noteq> Some (Inr 0)"
proof -
  have a: "ECU_ACTIVE \<notin> states_visited r" "ECU_FAULT_LATCHED \<notin> states_visited r"
    "first_dtc_time r DTC_SENSOR_STUCK = None"
    "\<not> (flt (flit 70 1) (result_stopping_distance r) \<and> dtc_union r = 0)"
    if r: "run_scenario lm gauss env lsn acc evs cfg injector = Some (Inr r)" for cfg injector r
  proof -
    note d = deaf_run [OF r assms]
    show "ECU_ACTIVE \<notin> states_visited r" "ECU_FAULT_LATCHED \<notin> states_visited r"
      using d by (auto simp: states_visited_def ecu_consts)
    show "first_dtc_time r DTC_SENSOR_STUCK = None"
      using d by (auto simp: first_dtc_time_def first_time_None ecu_consts dest!: set_zip_rightD)
    show "\<not> (flt (flit 70 1) (result_stopping_distance r) \<and> dtc_union r = 0)"
    proof (cases "sr_dtc r")
      case Nil
      then have "result_stopping_distance r = f0" using d by (simp add: result_stopping_distance_def)
      moreover have "\<not> flt (flit 70 1) f0" by code_simp
      ultimately show ?thesis by simp
    next
      case (Cons x xs)
      then have "DTC_COMM_TIMEOUT \<in> set (sr_dtc r)" using d by auto
      then show ?thesis by (simp add: dtc_union_timeout)
    qed
  qed
  show ?thesis
    unfolding s1_main_def s2_main_def s3_main_def s4_main_def s5_main_def s6_main_def scenario_exit_zero
      s1_checks_def s2_checks_def s3_checks_def s4_checks_def s5_checks_def s6_checks_def
    using a by (auto simp: Let_def)
qed

theorem no_pass_without_ecu_witness:
  "s1_main bhaskara (\<lambda>n s. f0) still_env Bound ClientConnected [RecvTimeout, PeerClosed] \<noteq> Some (Inr 0)"
  using no_pass_without_ecu [of "[RecvTimeout, PeerClosed]"] by (simp add: deaf_def)

section \<open>The placeholder of a silent tick\<close>

text \<open>A tick of a run under a communication loss, in its window or not, while the ECU is silent.\<close>

definition silent_bench :: "fault \<Rightarrow> nat \<Rightarrow> bench \<Rightarrow> bool" where
  "silent_bench f n b \<longleftrightarrow> bench_ok n b \<and> deaf_bench b \<and> bn_faults b = [f] \<and> ft_kind f = CommLossFault \<and>
     pl_conn (bn_link b) \<and> bn_last_brake b = f0"

lemma silent_send:
  assumes "silent_bench f n b" "returns (now_ms (be_clock env k))" "be_send env k = Sent"
  shows "\<exists>b0 fr b1. tick_sense gauss env k t b = Inr (fr, b0) \<and> tick_send env k t fr b0 = Inr (True, b1) \<and>
    silent_bench f n b1 \<and> bn_recv b1 = bn_recv b \<and> bn_result b1 = bn_result b"
proof -
  obtain ms where ms: "now_ms (be_clock env k) = Inr ms" using assms(2) by (auto simp: returns_iff)
  have b: "bn_faults b = [f]" "ft_kind f = CommLossFault" "bn_last_brake b = f0" "vehicle_ok (bn_veh b)"
    using assms(1) by (simp_all add: silent_bench_def bench_ok_def)
  let ?raw = "\<lparr>sf_timestamp_ms = ms, sf_v_vehicle = vs_v (vh_state (bn_veh b)),
    sf_omega_wheel = vs_omega (vh_state (bn_veh b)), sf_brake_pressure = f0, sf_fault_flags = 0\<rparr>"
  have sense: "tick_sense gauss env k t b = Inr (if is_active f t then None else Some ?raw, b)"
    using b ms by (simp add: tick_sense_def Let_def apply_to_sensor_def comm_loss_apply_def)
  have "fwithin (- 65536) 65536 (vs_v (vh_state (bn_veh b)))" "fwithin (- 65536) 65536 (vs_omega (vh_state (bn_veh b)))"
    using b(4) by (auto simp: vehicle_ok_def intro: fwithin_weaken [of 0 _ _ "- 65536" 65536])
  moreover have "fwithin (- 65536) 65536 f0" by (rule fwithin_weaken [OF fwithin_f0]) simp_all
  ultimately obtain bs where bs: "sensor_pack ?raw = Inr bs" "length bs = 18"
    using sensor_pack_within [of ?raw] by auto
  have send: "tick_send env k t (Some ?raw) b = Inr (True, b\<lparr>bn_link := count_sent (bn_link b)\<rparr>)"
  proof -
    have "filter_wire t [f] w = Inr (w, [f])" for w using b(2) by simp
    moreover have "b\<lparr>bn_faults := [f]\<rparr> = b" using b(1) by simp
    ultimately show ?thesis using bs b(1) assms(3)
      by (simp add: tick_send_def Let_def encode_frame_eq act_types sendall_def del: filter_wire.simps)
  qed
  have "silent_bench f n (b\<lparr>bn_link := count_sent (bn_link b)\<rparr>)"
    using assms(1) by (simp add: silent_bench_def bench_ok_def deaf_bench_def count_sent_def)
  then show ?thesis
    using sense send assms(1) by (cases "is_active f t") (simp_all add: tick_send_def)
qed

lemma silent_bench_tick:
  assumes lm: "libm_ok lm" and b: "silent_bench f n b" and evs: "bn_recv b = RecvTimeout # evs"
    and env: "returns (now_ms (be_clock env k))" "returns (now_ms (be_clock_late env k))" "be_send env k = Sent"
  shows "\<exists>b' go. bench_tick lm gauss env k b = Some (Inr (go, b')) \<and> silent_bench f (Suc n) b' \<and> bn_recv b' = evs"
proof -
  let ?t = "fmul (flit k 1) CONTROL_PERIOD_S"
  obtain b0 fr b1 where s: "tick_sense gauss env k ?t b = Inr (fr, b0)" "tick_send env k ?t fr b0 = Inr (True, b1)"
    "silent_bench f n b1" "bn_recv b1 = RecvTimeout # evs" using silent_send [OF b env(1,3)] evs by metis
  obtain ms where ms: "now_ms (be_clock_late env k) = Inr ms" using env(2) by (auto simp: returns_iff)
  let ?a = "\<lparr>af_timestamp_ms = ms, af_brake_command = f0, af_ecu_status = ECU_FAULT_DEGRADED,
    af_dtc_code = DTC_COMM_TIMEOUT\<rparr>" and ?b = "b1\<lparr>bn_link := merge_stats (bn_link b1), bn_recv := evs\<rparr>"
  have recv: "tick_receive env k b1 = Some (Inr (?a, ?b))"
    using s(3,4) ms recv_actuator_quiet [of "bn_link b1"]
    by (simp add: tick_receive_def silent_bench_def deaf_bench_def)
  have ok: "bench_ok n ?b" using s(3) by (simp add: silent_bench_def bench_ok_def)
  obtain b' where p: "tick_plant lm ?t ?a ?b = Inr b'" "bench_ok (Suc n) b'" "bn_last_brake b' = f0"
    using tick_plant_ok [OF lm ok, of ?t ?a] s(3) by (auto simp: silent_bench_def)
  have t: "bench_tick lm gauss env k b = Some (Inr (\<not> stopped (bn_veh b'), b'))"
    using s(1,2) recv p(1) by (simp add: bench_tick_def Let_def)
  have "bn_link b' = bn_link ?b \<and> bn_faults b' = bn_faults ?b \<and> bn_recv b' = evs"
    using p(1) by (auto simp: tick_plant_def py_bind_Inr_iff)
  then show ?thesis
    using t p s(3) bench_tick_deaf [OF _ t] b by (auto simp: silent_bench_def merge_stats_def)
qed

lemma silent_bench_loop:
  assumes lm: "libm_ok lm" and env: "\<And>k. returns (now_ms (be_clock env k))" "\<And>k. returns (now_ms (be_clock_late env k))"
    "\<And>k. be_send env k = Sent"
  shows "silent_bench f n b \<Longrightarrow> bn_recv b = replicate (length ks) RecvTimeout \<Longrightarrow>
    \<exists>b' m. bench_loop lm gauss env ks b = Some (Inr b') \<and> silent_bench f m b' \<and> n \<le> m \<and> (ks \<noteq> [] \<longrightarrow> n < m)"
proof (induction ks arbitrary: n b)
  case (Cons k ks)
  obtain b1 go where t: "bench_tick lm gauss env k b = Some (Inr (go, b1))" "silent_bench f (Suc n) b1"
    "bn_recv b1 = replicate (length ks) RecvTimeout"
    using silent_bench_tick [OF lm Cons.prems(1) _ env, of "replicate (length ks) RecvTimeout" gauss k] Cons.prems(2)
    by auto
  show ?case
  proof (cases go)
    case True
    with Cons.IH [OF t(2,3)] t(1) show ?thesis by force
  next
    case False
    with t show ?thesis by force
  qed
qed force

lemma silent_s4_run:
  assumes "libm_ok lm" and "\<forall>k. returns (now_ms (be_clock env k)) \<and> returns (now_ms (be_clock_late env k))"
    and "\<forall>k. be_send env k = Sent"
  shows "\<exists>b m. run_scenario lm gauss env Bound ClientConnected (replicate 800 RecvTimeout) s4_config s4_injector =
      Some (Inr ((bn_result b)\<lparr>sr_last_pos := vs_x (vh_state (bn_veh b))\<rparr>)) \<and>
    silent_bench (new_comm_loss (flit 1 1) (flit 12 10)) m b \<and> 0 < m"
proof -
  have "py_bind (fdiv (flit 8 1) CONTROL_PERIOD_S) py_int_round = Inr 800"
    unfolding CONTROL_PERIOD_S_def by code_simp
  then obtain q where q: "fdiv (flit 8 1) CONTROL_PERIOD_S = Inr q" "py_int_round q = Inr 800"
    by (auto simp: py_bind_Inr_iff)
  obtain tire where t: "PacejkaTire ''dry_asphalt'' = Inr tire" using PacejkaTire_dry by blast
  have v0: "fwithin 0 128 (flit 2778 100)" by (rule fwithin_weaken [OF v0_within]) simp_all
  from Vehicle_ok [OF t v0] obtain veh where v: "Vehicle VehicleParams tire (flit 2778 100) = Inr veh" by blast
  let ?f = "new_comm_loss (flit 1 1) (flit 12 10)" 
  define evs where "evs = replicate 800 RecvTimeout"
  have evs: "deaf evs" "evs = replicate (length [0..799 :: int]) RecvTimeout" by (simp_all add: evs_def deaf_def)
  let ?b = "\<lparr>bn_veh = veh, bn_link = fresh_link, bn_faults = [?f], bn_last_brake = f0,
    bn_result = ScenarioResult s4_config, bn_recv = evs\<rparr>"
  have "vs_x (vh_state veh) = f0" using v by (auto simp: Vehicle_def vehicle_reset_def py_bind_Inr_iff)
  then have "silent_bench ?f 0 ?b"
    using start_ok [OF t v0 v, of fresh_link "[?f]" s4_config evs]
    by (simp add: silent_bench_def deaf_bench_def evs(1) ScenarioResult_def new_comm_loss_def)
  from silent_bench_loop [OF assms(1) _ _ _ this, of env "[0..799]" gauss] assms(2,3) evs(2)
  obtain b m where b: "bench_loop lm gauss env [0..799] ?b = Some (Inr b)" "silent_bench ?f m b" "0 < m" by auto
  have "run_scenario lm gauss env Bound ClientConnected evs s4_config s4_injector =
      Some (Inr ((bn_result b)\<lparr>sr_last_pos := vs_x (vh_state (bn_veh b))\<rparr>))"
    using t v q b(1) by (simp add: run_scenario_def s4_config_def s4_injector_def injector_add_def ScenarioConfig_def
        link_listen_def link_accept_def PlantLink_def fresh_link_def)
  with b(2,3) show ?thesis unfolding evs_def by blast
qed

lemma silent_s4_checks:
  assumes "silent_bench f m b" "0 < m" "r = (bn_result b)\<lparr>sr_last_pos := vs_x (vh_state (bn_veh b))\<rparr>"
  shows "map fst (take 2 (s4_checks r)) = [True, True]" "assert_all (s4_checks r) = 1"
proof -
  have l: "length (sr_t r) = m" "length (sr_dtc r) = m" "length (sr_state r) = m"
    "set (sr_state r) \<subseteq> {ECU_FAULT_DEGRADED}" "set (sr_dtc r) \<subseteq> {DTC_COMM_TIMEOUT}"
    using assms(1) by (auto simp: assms(3) silent_bench_def bench_ok_def result_ok_def deaf_bench_def)
  then have s: "ECU_FAULT_DEGRADED \<in> states_visited r" "ECU_FAULT_LATCHED \<notin> states_visited r"
    using assms(2) by (cases "sr_state r"; auto simp: states_visited_def ecu_consts)+
  obtain t0 ts d ds where "sr_t r = t0 # ts" "sr_dtc r = d # ds" using l(1,2) assms(2)
    by (metis length_0_conv list.exhaust not_gr_zero)
  then have "first_dtc_time r DTC_COMM_TIMEOUT = Some t0"
    using l(5) by (simp add: first_dtc_time_def ecu_consts)
  then have c: "map fst (take 2 (s4_checks r)) = [True, True]" "\<not> (\<forall>x \<in> set (s4_checks r). fst x)"
    using s by (simp_all add: s4_checks_def Let_def)
  show "map fst (take 2 (s4_checks r)) = [True, True]" by (rule c(1))
  show "assert_all (s4_checks r) = 1" using c(2) by (simp only: assert_all_iff if_False)
qed

text \<open>C21: Scenario 4 with an ECU that accepts the connection and never answers: the run returns, the checks
  ``DTC_COMM_TIMEOUT raised'' and ``ECU entered FAULT_DEGRADED'' both hold, although the ECU sent nothing
  (the harness logs them itself on a timeout), and the exit code is 1.\<close>

theorem silent_ecu_scenario4:
  assumes "libm_ok lm" and "\<forall>k. returns (now_ms (be_clock env k)) \<and> returns (now_ms (be_clock_late env k))"
    and "\<forall>k. be_send env k = Sent"
  shows "\<exists>r. run_scenario lm gauss env Bound ClientConnected (replicate 800 RecvTimeout) s4_config s4_injector = Some (Inr r) \<and>
    map fst (take 2 (s4_checks r)) = [True, True] \<and>
    s4_main lm gauss env Bound ClientConnected (replicate 800 RecvTimeout) = Some (Inr 1)"
proof -
  obtain b m where run: "run_scenario lm gauss env Bound ClientConnected (replicate 800 RecvTimeout) s4_config s4_injector =
      Some (Inr ((bn_result b)\<lparr>sr_last_pos := vs_x (vh_state (bn_veh b))\<rparr>))"
    and b: "silent_bench (new_comm_loss (flit 1 1) (flit 12 10)) m b" "0 < m"
    using silent_s4_run [OF assms] by blast
  note c = silent_s4_checks [OF b refl]
  have "s4_main lm gauss env Bound ClientConnected (replicate 800 RecvTimeout) = Some (Inr 1)"
    unfolding s4_main_def run scenario_exit_run c(2) ..
  then show ?thesis by (intro exI conjI) (rule run, rule c(1))
qed

theorem silent_ecu_scenario4_witness:
  "s4_main bhaskara (\<lambda>n s. f0) still_env Bound ClientConnected (replicate 800 RecvTimeout) = Some (Inr 1)"
  using silent_ecu_scenario4 [OF bhaskara_ok, of still_env] still_env_clock by (auto simp: returns_iff still_env_def)

end
