(* ===== verification/Sil_Test.thy ===== *)
theory Sil_Test
  imports Scenario_Properties
begin

unbundle bit_operations_syntax

text \<open>
  \<^verbatim>\<open>scripts/sil_brake_test.py\<close>: the end-to-end braking test against the ECU.  The outside world is given as
  for the harness: a \<open>bench_env\<close> (clock readings and \<^verbatim>\<open>sendall\<close> outcomes per tick) and the coming \<^verbatim>\<open>recv\<close>
  outcomes.  The printed report and the CSV file are left out; of the failure messages the text
  without the formatted numbers is kept.
\<close>

section \<open>State\<close>

definition sil_control_period :: pyfloat where "sil_control_period = flit 10 1000"
definition sil_plant_dt :: pyfloat where "sil_plant_dt = flit 1 1000"

definition sil_steps_per_tick :: int where
  "sil_steps_per_tick = (case py_bind (fdiv sil_control_period sil_plant_dt) py_int_round of
     Inr n \<Rightarrow> n | Inl _ \<Rightarrow> 0)"

record sil_run =
  sb_surface :: string
  sb_duration :: pyfloat
  sb_ts :: "pyfloat list"
  sb_vs :: "pyfloat list"
  sb_omegas :: "pyfloat list"
  sb_slips :: "pyfloat list"
  sb_brakes :: "pyfloat list"
  sb_states :: "int list"
  sb_dtcs :: "int list"
  sb_x_stop :: pyfloat
  sb_t_stop :: pyfloat
  sb_saw_active :: bool

definition new_sil_run :: "string \<Rightarrow> pyfloat \<Rightarrow> sil_run" where
  "new_sil_run surface duration = \<lparr>sb_surface = surface, sb_duration = duration, sb_ts = [], sb_vs = [],
     sb_omegas = [], sb_slips = [], sb_brakes = [], sb_states = [], sb_dtcs = [], sb_x_stop = f0,
     sb_t_stop = f0, sb_saw_active = False\<rparr>"

text \<open>The local variables of the loop.\<close>

record sil =
  su_veh :: vehicle
  su_link :: plant_link
  su_last_brake :: pyfloat
  su_saw_active :: bool
  su_log :: sil_run
  su_recv :: "recv_event list"

section \<open>The loop\<close>

definition sil_slip :: "vehicle \<Rightarrow> pyfloat py" where
  "sil_slip veh = (let v = vs_v (vh_state veh); omega = vs_omega (vh_state veh) in
     if flt (flit 1 1) v
     then py_bind (fdiv (fsub v (fmul omega (wheel_radius (vh_params veh)))) v)
            (\<lambda>s. Inr (fmax2 f0 (fmin2 (flit 1 1) s)))
     else Inr f0)"

definition sil_frame :: "vehicle \<Rightarrow> pyfloat \<Rightarrow> int \<Rightarrow> sensor_frame" where
  "sil_frame veh last_brake ms = \<lparr>sf_timestamp_ms = ms, sf_v_vehicle = vs_v (vh_state veh),
     sf_omega_wheel = vs_omega (vh_state veh), sf_brake_pressure = last_brake, sf_fault_flags = 0\<rparr>"

fun sil_plant_steps :: "libm \<Rightarrow> nat \<Rightarrow> pyfloat \<Rightarrow> vehicle \<Rightarrow> vehicle py" where
  "sil_plant_steps lm 0 brake_cmd veh = Inr veh"
| "sil_plant_steps lm (Suc n) brake_cmd veh =
     py_bind (vehicle_step lm veh brake_cmd sil_plant_dt) (\<lambda>(out, veh). sil_plant_steps lm n brake_cmd veh)"

definition sil_log :: "vehicle \<Rightarrow> pyfloat \<Rightarrow> actuator_frame \<Rightarrow> sil_run \<Rightarrow> sil_run" where
  "sil_log veh slip a lg = lg\<lparr>
     sb_ts := sb_ts lg @ [vs_t (vh_state veh)],
     sb_vs := sb_vs lg @ [vs_v (vh_state veh)],
     sb_omegas := sb_omegas lg @ [vs_omega (vh_state veh)],
     sb_slips := sb_slips lg @ [slip],
     sb_brakes := sb_brakes lg @ [af_brake_command a],
     sb_states := sb_states lg @ [af_ecu_status a],
     sb_dtcs := sb_dtcs lg @ [af_dtc_code a]\<rparr>"

text \<open>What a tick does to the loop: go on, break out of it, or return an exit code from \<^verbatim>\<open>run\<close>.\<close>

datatype sil_flow = SilGo | SilBreak | SilReturn int

text \<open>After the ECU's decision: bookkeeping, the plant's ten steps, the log.\<close>

definition sil_advance :: "libm \<Rightarrow> pyfloat \<Rightarrow> actuator_frame \<Rightarrow> sil \<Rightarrow> (sil_flow \<times> sil) py" where
  "sil_advance lm slip a s = (let brake_cmd = af_brake_command a;
       s = s\<lparr>su_last_brake := brake_cmd, su_saw_active := (af_ecu_status a = ECU_ACTIVE \<or> su_saw_active s)\<rparr> in
     py_bind (sil_plant_steps lm (nat sil_steps_per_tick) brake_cmd (su_veh s)) (\<lambda>veh.
     let s = s\<lparr>su_veh := veh, su_log := sil_log veh slip a (su_log s)\<rparr>
     in Inr (if stopped veh then SilBreak else SilGo, s)))"

definition sil_tick :: "libm \<Rightarrow> bench_env \<Rightarrow> int \<Rightarrow> sil \<Rightarrow> (sil_flow \<times> sil) py option" where
  "sil_tick lm env k s =
    (case py_bind (sil_slip (su_veh s)) (\<lambda>slip. py_bind (now_ms (be_clock env k)) (\<lambda>ms.
          case send_sensor (be_send env k) (sil_frame (su_veh s) (su_last_brake s) ms) (su_link s) of
            Inl e \<Rightarrow> if e \<in> {BrokenPipeError, ConnectionError} then Inr (slip, None) else Inl e
          | Inr (wire, link) \<Rightarrow> Inr (slip, Some link))) of
       Inl e \<Rightarrow> Some (Inl e)
     | Inr (slip, None) \<Rightarrow> Some (Inr (SilReturn 3, s))
     | Inr (slip, Some link) \<Rightarrow> (case recv_actuator (su_recv s) link of
         None \<Rightarrow> None
       | Some (Inl e, link, evs) \<Rightarrow> Some (Inl e)
       | Some (Inr None, link, evs) \<Rightarrow> Some (Inr (SilReturn 4, s\<lparr>su_link := link, su_recv := evs\<rparr>))
       | Some (Inr (Some a), link, evs) \<Rightarrow> Some (sil_advance lm slip a (s\<lparr>su_link := link, su_recv := evs\<rparr>))))"

fun sil_loop :: "libm \<Rightarrow> bench_env \<Rightarrow> int list \<Rightarrow> sil \<Rightarrow> (sil_flow \<times> sil) py option" where
  "sil_loop lm env [] s = Some (Inr (SilGo, s))"
| "sil_loop lm env (k # ks) s = (case sil_tick lm env k s of
     None \<Rightarrow> None
   | Some (Inl e) \<Rightarrow> Some (Inl e)
   | Some (Inr (SilGo, s)) \<Rightarrow> sil_loop lm env ks s
   | Some (Inr (flow, s)) \<Rightarrow> Some (Inr (flow, s)))"

section \<open>The test\<close>

text \<open>From the connected link to the end of the loop.\<close>

definition sil_cosim :: "libm \<Rightarrow> bench_env \<Rightarrow> recv_event list \<Rightarrow> vehicle \<Rightarrow> plant_link \<Rightarrow> string \<Rightarrow> pyfloat \<Rightarrow>
    (sil_flow \<times> sil) py option" where
  "sil_cosim lm env evs veh link surface duration =
    (case py_bind (fdiv duration sil_control_period) py_int_round of
       Inl e \<Rightarrow> Some (Inl e)
     | Inr n_ticks \<Rightarrow> sil_loop lm env [0..n_ticks - 1]
         \<lparr>su_veh = veh, su_link = link, su_last_brake = f0, su_saw_active = False,
          su_log = new_sil_run surface duration, su_recv = evs\<rparr>)"

definition sil_finish :: "sil \<Rightarrow> sil_run" where
  "sil_finish s = (su_log s)\<lparr>sb_x_stop := vs_x (vh_state (su_veh s)), sb_t_stop := vs_t (vh_state (su_veh s)),
     sb_saw_active := su_saw_active s\<rparr>"

definition sil_dtc_union :: "sil_run \<Rightarrow> int" where
  "sil_dtc_union lg = foldl (\<lambda>dtc_union d. dtc_union OR d) 0 (sb_dtcs lg)"

definition sil_crit :: "string \<Rightarrow> sil_run \<Rightarrow> string list" where
  "sil_crit surface lg =
     (if \<not> sb_saw_active lg then [''ECU never reached state ACTIVE''] else []) @
     (if sil_dtc_union lg \<noteq> 0 then [''DTC raised during run''] else []) @
     (if surface = ''dry_asphalt''
      then (if \<not> (fle (flit 35 1) (sb_x_stop lg) \<and> fle (sb_x_stop lg) (flit 55 1))
            then [''stopping distance outside [35, 55]''] else [])
      else [])"

definition sil_exit :: "string \<Rightarrow> sil_flow \<times> sil \<Rightarrow> int" where
  "sil_exit surface r = (case r of
     (SilReturn code, s) \<Rightarrow> code
   | (_, s) \<Rightarrow> if sil_crit surface (sil_finish s) \<noteq> [] then 1 else 0)"

definition sil_test :: "libm \<Rightarrow> bench_env \<Rightarrow> listen_event \<Rightarrow> accept_event \<Rightarrow> recv_event list \<Rightarrow>
    string \<Rightarrow> pyfloat \<Rightarrow> string \<Rightarrow> int \<Rightarrow> pyfloat \<Rightarrow> int py option" where
  "sil_test lm env lsn acc evs surface duration host port v0_mps =
    (case py_bind (PacejkaTire surface) (\<lambda>tire. py_bind (Vehicle VehicleParams tire v0_mps) (\<lambda>veh.
          py_bind (link_listen lsn (PlantLink host port)) (\<lambda>link. Inr (veh, link)))) of
       Inl e \<Rightarrow> Some (Inl e)
     | Inr (veh, link) \<Rightarrow> (case link_accept acc link of
         Inl e \<Rightarrow> Some (Inr 2)
       | Inr link \<Rightarrow> map_option (map_sum id (sil_exit surface)) (sil_cosim lm env evs veh link surface duration)))"

end
