(* ===== verification/Sil_Properties.thy ===== *)
theory Sil_Properties
  imports Sil_Test "HOL-Library.Sublist"
begin

unbundle bit_operations_syntax

text \<open>
  The end-to-end test and the scenario harness are two copies of one loop.  Without faults they run in
  lockstep: same frames sent, same decisions, same plant.  They part only where the link fails, and
  the verdict of the test and of scenario 1 differ exactly there.
\<close>

section \<open>The two loops\<close>

lemma sil_consts: "sil_control_period = CONTROL_PERIOD_S" "sil_plant_dt = PLANT_DT_S" "sil_steps_per_tick = STEPS_PER_TICK"
  by (simp_all add: sil_control_period_def CONTROL_PERIOD_S_def sil_plant_dt_def PLANT_DT_S_def
      sil_steps_per_tick_def STEPS_PER_TICK_def)

lemma sil_plant_steps_eq: "sil_plant_steps lm n brake veh = plant_steps lm n brake veh"
  by (induction n arbitrary: veh) (simp_all add: sil_consts case_prod_beta')

lemma fdiv_by_large: "\<not> flt v (flit 1 1) \<Longrightarrow> \<exists>q. fdiv x v = Inr q"
proof -
  assume a: "\<not> flt v (flit 1 1)"
  have "\<not> fzero v"
  proof
    assume z: "fzero v"
    then obtain s e where v: "v = Fin s 0 e" by (cases v) auto
    have "flt v (flit 1 1)" using fwithinD [OF fwithin_int [of 1]] by (simp add: v flt_fin)
    with a show False by simp
  qed
  then show ?thesis by (simp add: fdiv_def)
qed

lemma scenario_slip_total: "\<exists>s. scenario_slip v omega r = Inr s"
  using fdiv_by_large [of v] by (cases "flt v (flit 1 1)") (auto simp: scenario_slip_def, metis py_bind_simps(2))

lemma flt_irrefl: "\<not> flt a a"
  by (cases a) (simp_all add: flt_fin)

lemma flt_asym: "flt a b \<Longrightarrow> \<not> flt b a"
  by (metis flt_trans flt_irrefl)

lemma sil_slip_total: "\<exists>s. sil_slip veh = Inr s"
  using fdiv_by_large [of "vs_v (vh_state veh)"] flt_asym
  by (cases "flt (flit 1 1) (vs_v (vh_state veh))") (auto simp: sil_slip_def Let_def, metis py_bind_simps(2))

lemma recv_loop_conn: "recv_loop evs l = Some (r, l', evs') \<Longrightarrow> pl_conn l' = pl_conn l"
proof (induction evs l rule: recv_loop.induct)
  case (5 chunk evs l)
  obtain frames d where d: "drain (feed chunk (pl_decoder l)) = (frames, d)" by force
  with 5 show ?case by (cases "first_actuator frames") (auto simp: merge_stats_def count_received_def)
qed (auto simp: merge_stats_def split: if_splits)

lemma recv_actuator_conn:
  assumes "recv_actuator evs l = Some (r, l', evs')"
  shows "pl_conn l' = pl_conn l"
proof -
  obtain frames d where d: "drain (pl_decoder l) = (frames, d)" by force
  with assms show ?thesis
    by (cases "first_actuator frames") (auto simp: recv_actuator_def count_received_def split: if_splits dest: recv_loop_conn)
qed

section \<open>Lockstep\<close>

text \<open>
  The two logs of a run.  The test logs the slip from before the plant's steps of the tick, the harness the one
  after them: the two slip series are shifted by one tick.  Both are 0 below 1 m/s and the same quotient above;
  at exactly 1 m/s (and for NaN) the test logs 0, the harness the quotient.
\<close>

definition slips_shifted :: "sil_run \<Rightarrow> scenario_result \<Rightarrow> bool" where
  "slips_shifted lg r \<longleftrightarrow> length (sb_slips lg) \<le> length (sr_slip r) \<and>
     (\<forall>i < length (sb_slips lg) - 1. flt (sb_vs lg ! i) (flit 1 1) \<or> flt (flit 1 1) (sb_vs lg ! i) \<longrightarrow>
        sb_slips lg ! Suc i = sr_slip r ! i)"

definition same_series :: "sil_run \<Rightarrow> scenario_result \<Rightarrow> bool" where
  "same_series lg r \<longleftrightarrow> sb_ts lg = sr_t r \<and> sb_vs lg = sr_v r \<and> sb_omegas lg = sr_omega r \<and>
     length (sb_slips lg) = length (sr_slip r) \<and> slips_shifted lg r \<and>
     sb_brakes lg = sr_brake_cmd r \<and> sb_states lg = sr_state r \<and> sb_dtcs lg = sr_dtc r"

text \<open>
  After a tick without an answer the test returns and the harness goes on: its log is that of the test for the
  ticks before; then it holds the brake and logs the placeholder of the timeout, then whatever follows.
\<close>

definition timed_out :: "sil \<Rightarrow> scenario_result \<Rightarrow> bool" where
  "timed_out s r \<longleftrightarrow> (let lg = su_log s in
     prefix (sb_ts lg) (sr_t r) \<and> prefix (sb_vs lg) (sr_v r) \<and> prefix (sb_omegas lg) (sr_omega r) \<and> slips_shifted lg r \<and>
     prefix (sb_brakes lg @ [su_last_brake s]) (sr_brake_cmd r) \<and>
     prefix (sb_states lg @ [ECU_FAULT_DEGRADED]) (sr_state r) \<and> prefix (sb_dtcs lg @ [DTC_COMM_TIMEOUT]) (sr_dtc r))"

text \<open>The slip the harness logged last is that of the current state.\<close>

definition slip_is_current :: "bench \<Rightarrow> bool" where
  "slip_is_current b \<longleftrightarrow> (let r = bn_result b; veh = bn_veh b in length (sr_v r) = length (sr_slip r) \<and>
     (sr_slip r \<noteq> [] \<longrightarrow> last (sr_v r) = vs_v (vh_state veh) \<and>
        scenario_slip (vs_v (vh_state veh)) (vs_omega (vh_state veh)) (wheel_radius (vh_params veh)) = Inr (last (sr_slip r))))"

lemma slip_is_current_upd [simp]:
  "slip_is_current (b\<lparr>bn_link := x\<rparr>) = slip_is_current b" "slip_is_current (b\<lparr>bn_recv := y\<rparr>) = slip_is_current b"
  by (simp_all add: slip_is_current_def)

definition lockstep :: "sil \<Rightarrow> bench \<Rightarrow> bool" where
  "lockstep s b \<longleftrightarrow> su_veh s = bn_veh b \<and> su_link s = bn_link b \<and> pl_conn (bn_link b) \<and> bn_faults b = [] \<and>
     su_last_brake s = bn_last_brake b \<and> su_recv s = bn_recv b \<and> same_series (su_log s) (bn_result b) \<and>
     slip_is_current b \<and> (su_saw_active s \<longleftrightarrow> ECU_ACTIVE \<in> set (sb_states (su_log s)))"

lemma sil_slip_eq:
  assumes "flt (vs_v (vh_state veh)) (flit 1 1) \<or> flt (flit 1 1) (vs_v (vh_state veh))"
  shows "sil_slip veh = scenario_slip (vs_v (vh_state veh)) (vs_omega (vh_state veh)) (wheel_radius (vh_params veh))"
  using assms flt_asym [of "vs_v (vh_state veh)" "flit 1 1"] by (auto simp: sil_slip_def scenario_slip_def Let_def)

lemma slips_shifted_log:
  assumes "same_series (su_log s) (bn_result b)" "slip_is_current b" "sil_slip (bn_veh b) = Inr slip"
  shows "slips_shifted (sil_log veh slip a (su_log s)) (tick_log veh sl a names (bn_result b))"
proof -
  let ?r = "bn_result b" and ?lg = "su_log s"
  have l: "length (sb_slips ?lg) = length (sr_slip ?r)" "sb_vs ?lg = sr_v ?r" "length (sr_v ?r) = length (sr_slip ?r)"
    and sh: "slips_shifted ?lg ?r" using assms(1,2) by (simp_all add: same_series_def slip_is_current_def Let_def)
  have "(sb_slips ?lg @ [slip]) ! Suc i = (sr_slip ?r @ [sl]) ! i"
    if i: "i < length (sr_slip ?r)" and v: "flt ((sr_v ?r @ [x]) ! i) (flit 1 1) \<or> flt (flit 1 1) ((sr_v ?r @ [x]) ! i)" for i x
  proof (cases "Suc i < length (sr_slip ?r)")
    case True
    then show ?thesis using sh v l by (auto simp: slips_shifted_def nth_append)
  next
    case False
    then have n: "length (sr_slip ?r) = Suc i" "sr_slip ?r \<noteq> []" "sr_v ?r \<noteq> []" using i l by auto
    have "last (sr_v ?r) = vs_v (vh_state (bn_veh b))" and
      c: "scenario_slip (vs_v (vh_state (bn_veh b))) (vs_omega (vh_state (bn_veh b))) (wheel_radius (vh_params (bn_veh b))) =
        Inr (last (sr_slip ?r))" using assms(2) n(2) by (simp_all add: slip_is_current_def Let_def)
    moreover have "last (sr_v ?r) = sr_v ?r ! i" "last (sr_slip ?r) = sr_slip ?r ! i"
      using n l by (simp_all add: last_conv_nth)
    ultimately have "sil_slip (bn_veh b) = Inr (sr_slip ?r ! i)"
      using v n l sil_slip_eq [of "bn_veh b"] by (simp add: nth_append)
    then show ?thesis using assms(3) n l by (simp add: nth_append)
  qed
  then show ?thesis using l by (simp add: slips_shifted_def sil_log_def tick_log_def)
qed

lemma lockstep_advance:
  assumes "lockstep s b" and slip: "sil_slip (su_veh s) = Inr slip"
  shows "case sil_advance lm slip a s of
      Inl e \<Rightarrow> tick_plant lm t a (b\<lparr>bn_last_brake := af_brake_command a\<rparr>) = Inl e
    | Inr (flow, s') \<Rightarrow> \<exists>b'. tick_plant lm t a (b\<lparr>bn_last_brake := af_brake_command a\<rparr>) = Inr b' \<and> lockstep s' b' \<and>
        flow = (if stopped (bn_veh b') then SilBreak else SilGo)"
proof (cases "plant_steps lm (nat STEPS_PER_TICK) (af_brake_command a) (bn_veh b)")
  case (Inl e)
  with assms show ?thesis
    by (simp add: sil_advance_def tick_plant_def Let_def lockstep_def sil_consts sil_plant_steps_eq)
next
  case (Inr veh)
  obtain sl where sl: "scenario_slip (vs_v (vh_state veh)) (vs_omega (vh_state veh)) (wheel_radius (vh_params veh)) = Inr sl"
    using scenario_slip_total by blast
  have "slips_shifted (sil_log veh slip a (su_log s)) (tick_log veh sl a (active_names [] t) (bn_result b))"
    using assms by (intro slips_shifted_log) (simp_all add: lockstep_def)
  then have "same_series (sil_log veh slip a (su_log s)) (tick_log veh sl a (active_names [] t) (bn_result b))"
    using assms(1) by (simp add: lockstep_def same_series_def sil_log_def tick_log_def)
  moreover have "length (sr_v (bn_result b)) = length (sr_slip (bn_result b))"
    using assms(1) by (simp add: lockstep_def slip_is_current_def Let_def)
  ultimately show ?thesis using Inr sl assms(1)
    by (simp add: sil_advance_def tick_plant_def Let_def lockstep_def sil_consts sil_plant_steps_eq slip_is_current_def)
      (auto simp: tick_log_def sil_log_def)
qed

section \<open>Timeouts\<close>

text \<open>The log of the harness only grows.\<close>

definition continues :: "scenario_result \<Rightarrow> scenario_result \<Rightarrow> bool" where
  "continues r r' \<longleftrightarrow> prefix (sr_t r) (sr_t r') \<and> prefix (sr_v r) (sr_v r') \<and> prefix (sr_omega r) (sr_omega r') \<and>
     prefix (sr_slip r) (sr_slip r') \<and> prefix (sr_brake_cmd r) (sr_brake_cmd r') \<and> prefix (sr_state r) (sr_state r') \<and>
     prefix (sr_dtc r) (sr_dtc r')"

lemma continues_refl [simp]: "continues r r"
  by (simp add: continues_def)

lemma continues_trans: "continues r r' \<Longrightarrow> continues r' r'' \<Longrightarrow> continues r r''"
  unfolding continues_def by (meson prefix_order.trans)

lemma bench_tick_continues:
  assumes "bench_tick lm gauss env k b = Some (Inr (go, b'))"
  shows "continues (bn_result b) (bn_result b')"
  using assms
proof (cases rule: bench_tick_parts)
  case (2 fr b0 b1 a b2)
  have "bn_result b2 = bn_result b" using 2 tick_sense_result tick_send_result tick_receive_result by metis
  then show ?thesis using 2(4) by (auto simp: tick_plant_def py_bind_Inr_iff tick_log_def continues_def)
qed (use tick_sense_result tick_send_result in fastforce)

lemma bench_loop_continues:
  "bench_loop lm gauss env ks b = Some (Inr b') \<Longrightarrow> continues (bn_result b) (bn_result b')"
proof (induction ks arbitrary: b)
  case (Cons k ks)
  obtain go b1 where 1: "bench_tick lm gauss env k b = Some (Inr (go, b1))"
    "if go then bench_loop lm gauss env ks b1 = Some (Inr b') else b' = b1"
    using Cons.prems by (auto split: option.splits sum.splits if_splits)
  then show ?case using bench_tick_continues [OF 1(1)] Cons.IH [of b1] continues_trans by (cases go) auto
qed simp

lemma timed_out_continues:
  assumes "timed_out s r" "continues r r'"
  shows "timed_out s r'"
proof -
  have "prefix (sr_slip r) (sr_slip r')" using assms(2) by (simp add: continues_def)
  then have "slips_shifted (su_log s) r'" using assms(1)
    by (auto simp: timed_out_def slips_shifted_def Let_def prefix_def nth_append)
  then show ?thesis using assms unfolding timed_out_def continues_def Let_def by (meson prefix_order.trans)
qed

lemma timed_out_tick:
  assumes "lockstep s b" "tick_plant lm t a b2 = Inr b'" "bn_result b2 = bn_result b"
    and "af_brake_command a = su_last_brake s" "af_ecu_status a = ECU_FAULT_DEGRADED" "af_dtc_code a = DTC_COMM_TIMEOUT"
  shows "timed_out s (bn_result b')"
  using assms by (auto simp: tick_plant_def py_bind_Inr_iff tick_log_def timed_out_def lockstep_def same_series_def
    slips_shifted_def nth_append)

text \<open>The second half of a tick, after the frame has been sent.\<close>

lemma lockstep_receive:
  assumes l: "lockstep s b"
  shows "case recv_actuator (su_recv s) (su_link s) of
      None \<Rightarrow> tick_receive env k b = None
    | Some (Inl e, link, evs) \<Rightarrow> tick_receive env k b = Some (Inl e)
    | Some (Inr None, link, evs) \<Rightarrow> (\<forall>a b'. tick_receive env k b = Some (Inr (a, b')) \<longrightarrow> bn_result b' = bn_result b \<and>
          af_brake_command a = su_last_brake s \<and> af_ecu_status a = ECU_FAULT_DEGRADED \<and> af_dtc_code a = DTC_COMM_TIMEOUT)
    | Some (Inr (Some a), link, evs) \<Rightarrow> \<exists>b'. tick_receive env k b = Some (Inr (a, b'\<lparr>bn_last_brake := af_brake_command a\<rparr>)) \<and>
        lockstep (s\<lparr>su_link := link, su_recv := evs\<rparr>) b'"
proof -
  have e: "su_recv s = bn_recv b" "su_link s = bn_link b" "pl_conn (bn_link b)" "su_last_brake s = bn_last_brake b" using l by (simp_all add: lockstep_def)
  show ?thesis
  proof (cases "recv_actuator (bn_recv b) (bn_link b)")
    case None
    then show ?thesis by (simp add: e tick_receive_def)
  next
    case (Some r)
    obtain m link evs where r: "r = (m, link, evs)" by (cases r) auto
    show ?thesis
    proof (cases m)
      case (Inl x)
      then show ?thesis using Some r by (simp add: e tick_receive_def)
    next
      case (Inr x)
      then show ?thesis
      proof (cases x)
        case None
        then show ?thesis using Some r Inr by (auto simp: e tick_receive_def Let_def py_bind_Inr_iff)
      next
        case (Some a)
        have "lockstep (s\<lparr>su_link := link, su_recv := evs\<rparr>) (b\<lparr>bn_link := link, bn_recv := evs\<rparr>)"
          using l recv_actuator_conn \<open>recv_actuator _ _ = Some r\<close> r by (simp add: lockstep_def)
        then show ?thesis using \<open>recv_actuator _ _ = Some r\<close> r Inr Some
          by (intro exI [of _ "b\<lparr>bn_link := link, bn_recv := evs\<rparr>"] | simp add: e tick_receive_def Let_def)+
      qed
    qed
  qed
qed

text \<open>The first half of a tick: both loops send the same frame.\<close>

lemma lockstep_send:
  assumes l: "lockstep s b"
  obtains (error) e slip where "sil_slip (su_veh s) = Inr slip"
      "py_bind (tick_sense gauss env k t b) (\<lambda>(fr, b). tick_send env k t fr b) = Inl e"
      "sil_tick lm env k s = Some (Inl e)"
  | (broken) "py_bind (tick_sense gauss env k t b) (\<lambda>(fr, b). tick_send env k t fr b) = Inr (False, b)"
      "sil_tick lm env k s = Some (Inr (SilReturn 3, s))"
  | (sent) slip ms w link where "py_bind (tick_sense gauss env k t b) (\<lambda>(fr, b). tick_send env k t fr b) =
        Inr (True, b\<lparr>bn_link := link\<rparr>)" "pl_conn link" "sil_slip (su_veh s) = Inr slip"
      "now_ms (be_clock env k) = Inr ms"
      "send_sensor (be_send env k) (sil_frame (su_veh s) (su_last_brake s) ms) (su_link s) = Inr (w, link)"
proof -
  have b: "bn_faults b = []" "pl_conn (bn_link b)" "su_veh s = bn_veh b" "su_link s = bn_link b"
    "su_last_brake s = bn_last_brake b" using l by (simp_all add: lockstep_def)
  obtain slip where slip: "sil_slip (bn_veh b) = Inr slip" using sil_slip_total by blast
  have same: "b\<lparr>bn_veh := bn_veh b\<lparr>vh_tire := vh_tire (bn_veh b)\<rparr>, bn_faults := []\<rparr> = b" "b\<lparr>bn_faults := []\<rparr> = b"
    using b(1) by simp_all
  show thesis
  proof (cases "now_ms (be_clock env k)")
    case (Inl e)
    then show thesis using b slip by (intro error) (simp_all add: sil_tick_def tick_sense_def Let_def)
  next
    case (Inr ms)
    let ?fr = "sil_frame (bn_veh b) (bn_last_brake b) ms"
    have sense: "tick_sense gauss env k t b = Inr (Some ?fr, b)"
      using Inr b(1) same by (simp add: tick_sense_def Let_def sil_frame_def)
    show thesis
    proof (cases "py_bind (sensor_pack ?fr) (encode_frame TYPE_SENSOR)")
      case e: (Inl e)
      then have "e = OverflowError \<or> e = ValueError"
        by (auto simp: py_bind_Inl_iff sensor_pack_def encode_frame_eq dest: pack_f_error split: if_splits)
      with e Inr show thesis using b slip sense
        by (intro error [of slip e]) (auto simp: sil_tick_def tick_send_def send_sensor_def Let_def py_bind_Inl_iff)
    next
      case w: (Inr w)
      then obtain p where p: "sensor_pack ?fr = Inr p" "encode_frame TYPE_SENSOR p = Inr w"
        by (auto simp: py_bind_Inr_iff)
      have send: "py_bind (tick_sense gauss env k t b) (\<lambda>(fr, b). tick_send env k t fr b) =
          (case sendall (be_send env k) w of Inr _ \<Rightarrow> Inr (True, b\<lparr>bn_link := count_sent (bn_link b)\<rparr>)
           | Inl e \<Rightarrow> if e \<in> {BrokenPipeError, ConnectionError} then Inr (False, b) else Inl e)"
        unfolding sense py_bind_simps prod.case using p b(1)
        by (cases b; cases "sendall (be_send env k) w") (simp_all add: tick_send_def Let_def)
      have sensor: "send_sensor (be_send env k) ?fr (bn_link b) =
          (case sendall (be_send env k) w of Inr out \<Rightarrow> Inr (out, count_sent (bn_link b)) | Inl e \<Rightarrow> Inl e)"
        using p b(2) by (simp add: send_sensor_def split: sum.split)
      have c: "pl_conn (count_sent (bn_link b))" using b(2) by (simp add: count_sent_def)
      show thesis
      proof (cases "be_send env k")
        case Sent
        then show thesis using send sensor slip Inr b c by (intro sent) (simp_all add: sendall_def)
      next
        case (SendFailed e)
        show thesis
        proof (cases "e \<in> {BrokenPipeError, ConnectionError}")
          case True
          with send sensor slip Inr b SendFailed show thesis
            by (intro broken) (auto simp: sendall_def sil_tick_def)
        next
          case False
          with send sensor slip Inr b SendFailed show thesis
            by (intro error [of slip e]) (auto simp: sendall_def sil_tick_def)
        qed
      qed
    qed
  qed
qed

lemma lockstep_tick:
  assumes l: "lockstep s b"
  shows "case sil_tick lm env k s of
      None \<Rightarrow> bench_tick lm gauss env k b = None
    | Some (Inl e) \<Rightarrow> bench_tick lm gauss env k b = Some (Inl e)
    | Some (Inr (SilReturn c, s')) \<Rightarrow>
        c = 4 \<and> (\<forall>go b'. bench_tick lm gauss env k b = Some (Inr (go, b')) \<longrightarrow> timed_out s' (bn_result b')) \<or>
        c = 3 \<and> bench_tick lm gauss env k b = Some (Inr (False, b)) \<and> s' = s
    | Some (Inr (flow, s')) \<Rightarrow> \<exists>b'. bench_tick lm gauss env k b = Some (Inr (flow = SilGo, b')) \<and> lockstep s' b'"
proof -
  let ?t = "fmul (flit k 1) CONTROL_PERIOD_S"
  from l show ?thesis
  proof (cases rule: lockstep_send [where gauss = gauss and env = env and k = k and t = ?t and lm = lm])
    case (error e slip)
    then show ?thesis by (simp add: bench_tick_def Let_def)
  next
    case broken
    then show ?thesis by (simp add: bench_tick_def Let_def)
  next
    case (sent slip ms w link)
    let ?s = "s\<lparr>su_link := link\<rparr>" and ?b = "b\<lparr>bn_link := link\<rparr>"
    have l': "lockstep ?s ?b" using l sent(2) by (simp add: lockstep_def)
    have st: "sil_tick lm env k s = (case recv_actuator (su_recv s) link of
         None \<Rightarrow> None
       | Some (Inl e, link, evs) \<Rightarrow> Some (Inl e)
       | Some (Inr None, link, evs) \<Rightarrow> Some (Inr (SilReturn 4, s\<lparr>su_link := link, su_recv := evs\<rparr>))
       | Some (Inr (Some a), link, evs) \<Rightarrow> Some (sil_advance lm slip a (s\<lparr>su_link := link, su_recv := evs\<rparr>)))"
      using sent(3-5) by (simp add: sil_tick_def)
    have bt: "bench_tick lm gauss env k b = (case tick_receive env k ?b of
         None \<Rightarrow> None
       | Some r \<Rightarrow> Some (py_bind r (\<lambda>(a, b). py_bind (tick_plant lm ?t a b) (\<lambda>b. Inr (\<not> stopped (bn_veh b), b)))))"
      using sent(1) by (simp add: bench_tick_def Let_def)
    note r = lockstep_receive [OF l', of env k, simplified]
    show ?thesis
    proof (cases "recv_actuator (su_recv s) link")
      case None
      then show ?thesis using r by (simp add: st bt)
    next
      case (Some out)
      obtain m link' evs where out: "out = (m, link', evs)" by (cases out) auto
      show ?thesis
      proof (cases m)
        case (Inl e)
        then show ?thesis using r Some out by (simp add: st bt)
      next
        case x: (Inr x)
        show ?thesis
        proof (cases x)
          case None
          have "timed_out (s\<lparr>su_link := link', su_recv := evs\<rparr>) (bn_result b')"
            if tk: "bench_tick lm gauss env k b = Some (Inr (go, b'))" for go b'
          proof -
            obtain a b2 where a: "tick_receive env k ?b = Some (Inr (a, b2))" "tick_plant lm ?t a b2 = Inr b'"
              using tk unfolding bt by (cases "tick_receive env k ?b") (auto simp: py_bind_Inr_iff)
            then have "bn_result b2 = bn_result b \<and> af_brake_command a = su_last_brake s \<and>
                af_ecu_status a = ECU_FAULT_DEGRADED \<and> af_dtc_code a = DTC_COMM_TIMEOUT"
              using r Some out x None by auto
            then have "timed_out s (bn_result b')" using timed_out_tick [OF l a(2)] by blast
            then show ?thesis by (simp add: timed_out_def)
          qed
          then show ?thesis using Some out x None by (auto simp: st)
        next
          case a: (Some a)
          let ?s' = "s\<lparr>su_link := link', su_recv := evs\<rparr>"
          have slip': "sil_slip (su_veh ?s') = Inr slip" using sent(3) by simp
          obtain b' where b': "tick_receive env k ?b = Some (Inr (a, b'\<lparr>bn_last_brake := af_brake_command a\<rparr>))" "lockstep ?s' b'"
            using r Some out x a by auto
          show ?thesis
          proof (cases "sil_advance lm slip a ?s'")
            case (Inl e)
            then show ?thesis using lockstep_advance [OF b'(2) slip', of lm ?t a] b'(1) Some out x a by (simp add: st bt)
          next
            case (Inr q)
            obtain flow s'' where "q = (flow, s'')" by force
            with Inr show ?thesis using lockstep_advance [OF b'(2) slip', of lm ?t a] b'(1) Some out x a
              by (auto simp: st bt split: if_splits)
          qed
        qed
      qed
    qed
  qed
qed

section \<open>Runs\<close>

lemma lockstep_loop:
  "lockstep s b \<Longrightarrow> case sil_loop lm env ks s of
      None \<Rightarrow> bench_loop lm gauss env ks b = None
    | Some (Inl e) \<Rightarrow> bench_loop lm gauss env ks b = Some (Inl e)
    | Some (Inr (SilReturn c, s')) \<Rightarrow>
        c = 4 \<and> (\<forall>b'. bench_loop lm gauss env ks b = Some (Inr b') \<longrightarrow> timed_out s' (bn_result b')) \<or>
        c = 3 \<and> (\<exists>b'. bench_loop lm gauss env ks b = Some (Inr b') \<and> lockstep s' b')
    | Some (Inr (flow, s')) \<Rightarrow> \<exists>b'. bench_loop lm gauss env ks b = Some (Inr b') \<and> lockstep s' b'"
proof (induction ks arbitrary: s b)
  case (Cons k ks)
  note t = lockstep_tick [OF Cons.prems, where lm = lm and env = env and k = k and gauss = gauss]
  show ?case
  proof (cases "sil_tick lm env k s")
    case None
    then show ?thesis using t by simp
  next
    case (Some m)
    show ?thesis
    proof (cases m)
      case (Inl e)
      then show ?thesis using t Some by simp
    next
      case (Inr q)
      obtain flow s' where q: "q = (flow, s')" by force
      show ?thesis
      proof (cases flow)
        case SilGo
        then obtain b' where b': "bench_tick lm gauss env k b = Some (Inr (True, b'))" "lockstep s' b'"
          using t Some Inr q by auto
        have e: "bench_loop lm gauss env (k # ks) b = bench_loop lm gauss env ks b'" using b'(1) by simp
        have "sil_loop lm env (k # ks) s = sil_loop lm env ks s'" using Some Inr q SilGo by simp
        then show ?thesis unfolding e using Cons.IH [OF b'(2)] by simp
      next
        case SilBreak
        then show ?thesis using t Some Inr q by auto
      next
        case (SilReturn c)
        have "timed_out s' (bn_result b')"
          if c: "c = 4" and l: "bench_loop lm gauss env (k # ks) b = Some (Inr b')" for b'
        proof -
          obtain go b1 where 1: "bench_tick lm gauss env k b = Some (Inr (go, b1))"
            "if go then bench_loop lm gauss env ks b1 = Some (Inr b') else b' = b1"
            using l by (auto split: option.splits sum.splits if_splits)
          have "timed_out s' (bn_result b1)" using t Some Inr q SilReturn c 1(1) by auto
          then show ?thesis using 1(2) bench_loop_continues [of lm gauss env ks b1 b'] timed_out_continues by (cases go) auto
        qed
        then show ?thesis using t Some Inr q SilReturn Cons.prems by auto
      qed
    qed
  qed
qed simp

lemma sil_start:
  assumes "pl_conn link"
  shows "lockstep \<lparr>su_veh = veh, su_link = link, su_last_brake = f0, su_saw_active = False,
      su_log = new_sil_run surface duration, su_recv = evs\<rparr>
    \<lparr>bn_veh = veh, bn_link = link, bn_faults = [], bn_last_brake = f0, bn_result = ScenarioResult cfg, bn_recv = evs\<rparr>"
  using assms by (simp add: lockstep_def same_series_def slips_shifted_def slip_is_current_def new_sil_run_def ScenarioResult_def)

section \<open>Properties\<close>

lemma run_scenario_start:
  assumes "PacejkaTire (sc_surface cfg) = Inr tire" "Vehicle VehicleParams tire (sc_v0_mps cfg) = Inr veh"
    and "link_accept acc ((PlantLink (sc_host cfg) (sc_port cfg))\<lparr>pl_listener := True\<rparr>) = Inr link"
  shows "run_scenario lm gauss env Bound acc evs cfg fs =
    (case py_bind (fdiv (sc_duration_s cfg) CONTROL_PERIOD_S) py_int_round of
       Inl e \<Rightarrow> Some (Inl e)
     | Inr n_ticks \<Rightarrow> map_option (\<lambda>m. py_bind m (\<lambda>b. Inr ((bn_result b)\<lparr>sr_last_pos := vs_x (vh_state (bn_veh b))\<rparr>)))
         (bench_loop lm gauss env [0..n_ticks - 1] \<lparr>bn_veh = veh, bn_link = link, bn_faults = fs,
            bn_last_brake = f0, bn_result = ScenarioResult cfg, bn_recv = evs\<rparr>))"
  using assms
  by (cases "fdiv (sc_duration_s cfg) CONTROL_PERIOD_S"; cases "py_bind (fdiv (sc_duration_s cfg) CONTROL_PERIOD_S) py_int_round")
    (auto simp: run_scenario_def link_listen_def PlantLink_def)

lemma same_series_last_pos [simp]: "same_series lg (r\<lparr>sr_last_pos := x\<rparr>) \<longleftrightarrow> same_series lg r"
  by (simp add: same_series_def slips_shifted_def)

lemma timed_out_last_pos [simp]: "timed_out s (r\<lparr>sr_last_pos := x\<rparr>) \<longleftrightarrow> timed_out s r"
  by (simp add: timed_out_def slips_shifted_def)

lemma timed_out_dtc: "timed_out s r \<Longrightarrow> DTC_COMM_TIMEOUT \<in> set (sr_dtc r)"
  by (auto simp: timed_out_def Let_def prefix_def)

lemma sil_harness:
  assumes "PacejkaTire (sc_surface cfg) = Inr tire" "Vehicle VehicleParams tire (sc_v0_mps cfg) = Inr veh"
    and "link_accept acc ((PlantLink (sc_host cfg) (sc_port cfg))\<lparr>pl_listener := True\<rparr>) = Inr link"
  shows "case sil_cosim lm env evs veh link (sc_surface cfg) (sc_duration_s cfg) of
      None \<Rightarrow> run_scenario lm gauss env Bound acc evs cfg [] = None
    | Some (Inl e) \<Rightarrow> run_scenario lm gauss env Bound acc evs cfg [] = Some (Inl e)
    | Some (Inr (flow, s)) \<Rightarrow>
        flow = SilReturn 4 \<and> (\<forall>r. run_scenario lm gauss env Bound acc evs cfg [] = Some (Inr r) \<longrightarrow> timed_out s r) \<or>
        flow \<in> {SilGo, SilBreak, SilReturn 3} \<and>
        (\<exists>r. run_scenario lm gauss env Bound acc evs cfg [] = Some (Inr r) \<and>
          same_series (sil_finish s) r \<and> sr_last_pos r = sb_x_stop (sil_finish s) \<and>
          (sb_saw_active (sil_finish s) \<longleftrightarrow> ECU_ACTIVE \<in> set (sr_state r)))"
proof -
  note run = run_scenario_start [OF assms]
  have c: "pl_conn link" using assms(3) by (cases acc) (auto simp: link_accept_def split: if_splits)
  show ?thesis
  proof (cases "py_bind (fdiv (sc_duration_s cfg) CONTROL_PERIOD_S) py_int_round")
    case (Inl e)
    then show ?thesis by (simp add: sil_cosim_def sil_consts run)
  next
    case (Inr n)
    let ?s = "\<lparr>su_veh = veh, su_link = link, su_last_brake = f0, su_saw_active = False,
      su_log = new_sil_run (sc_surface cfg) (sc_duration_s cfg), su_recv = evs\<rparr>"
    have co: "sil_cosim lm env evs veh link (sc_surface cfg) (sc_duration_s cfg) = sil_loop lm env [0..n - 1] ?s"
      using Inr by (simp add: sil_cosim_def sil_consts)
    note l = lockstep_loop [OF sil_start [OF c, where veh = veh and surface = "sc_surface cfg"
        and duration = "sc_duration_s cfg" and evs = evs and cfg = cfg],
        where lm = lm and env = env and gauss = gauss and ks = "[0..n - 1]"]
    have fin: "same_series (sil_finish s) (bn_result b) \<and> vs_x (vh_state (bn_veh b)) = sb_x_stop (sil_finish s) \<and>
        (sb_saw_active (sil_finish s) \<longleftrightarrow> ECU_ACTIVE \<in> set (sr_state (bn_result b)))" if "lockstep s b" for s b
      using that by (simp add: lockstep_def same_series_def slips_shifted_def sil_finish_def)
    show ?thesis
    proof (cases "sil_loop lm env [0..n - 1] ?s")
      case None
      then show ?thesis using l Inr by (simp add: co run)
    next
      case (Some m)
      show ?thesis
      proof (cases m)
        case (Inl e)
        then show ?thesis using l Some \<open>_ = Inr n\<close> by (simp add: co run)
      next
        case q: (Inr q)
        obtain flow s where f: "q = (flow, s)" by force
        show ?thesis using l Some q f Inr fin by (cases flow) (auto simp: co run py_bind_Inr_iff)
      qed
    qed
  qed
qed





lemma s1_passes:
  "s1_main lm gauss env lsn acc evs = Some (Inr 0) \<longleftrightarrow>
    (\<exists>r. run_scenario lm gauss env lsn acc evs s1_config [] = Some (Inr r) \<and>
      fle (flit 35 1) (sr_last_pos r) \<and> fle (sr_last_pos r) (flit 55 1) \<and> ECU_ACTIVE \<in> set (sr_state r) \<and> dtc_union r = 0)"
  unfolding s1_main_def scenario_exit_zero
  by (auto simp: s1_checks_def result_stopping_distance_def states_visited_def)

lemma sil_criteria_met:
  assumes "same_series (sil_finish s) r" "sr_last_pos r = sb_x_stop (sil_finish s)"
    and "sb_saw_active (sil_finish s) \<longleftrightarrow> ECU_ACTIVE \<in> set (sr_state r)"
  shows "sil_crit ''dry_asphalt'' (sil_finish s) = [] \<longleftrightarrow> fle (flit 35 1) (sr_last_pos r) \<and>
    fle (sr_last_pos r) (flit 55 1) \<and> ECU_ACTIVE \<in> set (sr_state r) \<and> dtc_union r = 0"
  using assms by (auto simp: sil_crit_def sil_dtc_union_def dtc_union_def same_series_def)

text \<open>C34: The verdicts: for the same ECU, clock and sockets the end-to-end test passes exactly if scenario 1 passes
  and the test did not end on a broken link.  (Scenario 1 does not notice a broken link: it judges the
  samples up to there.)\<close>

theorem sil_passes_iff_s1:
  "sil_test lm env lsn acc evs ''dry_asphalt'' (flit 6 1) ''127.0.0.1'' 9000 (flit 2778 100) = Some (Inr 0) \<longleftrightarrow>
   s1_main lm gauss env lsn acc evs = Some (Inr 0) \<and>
   sil_test lm env lsn acc evs ''dry_asphalt'' (flit 6 1) ''127.0.0.1'' 9000 (flit 2778 100) \<noteq> Some (Inr 3)"
proof -
  have cfg: "sc_surface s1_config = ''dry_asphalt''" "sc_duration_s s1_config = flit 6 1" "sc_v0_mps s1_config = flit 2778 100"
    "sc_host s1_config = ''127.0.0.1''" "sc_port s1_config = 9000"
    by (simp_all add: s1_config_def ScenarioConfig_def)
  obtain tire where t: "PacejkaTire ''dry_asphalt'' = Inr tire" using PacejkaTire_dry by blast
  have v0: "fwithin 0 128 (flit 2778 100)" by (rule fwithin_weaken [OF v0_within]) simp_all
  from Vehicle_ok [OF t v0] obtain veh where v: "Vehicle VehicleParams tire (flit 2778 100) = Inr veh" by blast
  show ?thesis
  proof (cases "lsn = Bound \<and> acc = ClientConnected")
    case False
    then show ?thesis using t v unfolding s1_passes by (cases lsn; cases acc)
      (auto simp: sil_test_def link_listen_def link_accept_def PlantLink_def run_scenario_def cfg)
  next
    case True
    obtain link where l: "link_accept acc ((PlantLink ''127.0.0.1'' 9000)\<lparr>pl_listener := True\<rparr>) = Inr link"
      using True by (simp add: link_accept_def)
    note h = sil_harness [where cfg = s1_config and tire = tire and veh = veh and acc = acc and link = link and lm = lm and env = env
        and evs = evs and gauss = gauss, unfolded cfg, OF t v l]
    have test: "sil_test lm env lsn acc evs ''dry_asphalt'' (flit 6 1) ''127.0.0.1'' 9000 (flit 2778 100) =
        map_option (map_sum id (sil_exit ''dry_asphalt'')) (sil_cosim lm env evs veh link ''dry_asphalt'' (flit 6 1))"
      using t v l True by (simp add: sil_test_def link_listen_def PlantLink_def)
    consider "sil_cosim lm env evs veh link ''dry_asphalt'' (flit 6 1) = None"
      | e where "sil_cosim lm env evs veh link ''dry_asphalt'' (flit 6 1) = Some (Inl e)"
      | flow s where "sil_cosim lm env evs veh link ''dry_asphalt'' (flit 6 1) = Some (Inr (flow, s))"
      by (metis option.exhaust sum.exhaust surj_pair)
    then show ?thesis
    proof cases
      case 1
      then show ?thesis unfolding test s1_passes using h True by simp
    next
      case (2 e)
      then show ?thesis unfolding test s1_passes using h True by simp
    next
      case (3 flow s)
      then show ?thesis unfolding test s1_passes using h True sil_criteria_met [of s] dtc_union_timeout timed_out_dtc
        by (cases flow) (auto simp: sil_exit_def)
    qed
  qed
qed

end
