(* ===== verification/Ecu_State.thy ===== *)
theory Ecu_State
  imports Protocol
begin

text \<open>
  \<^verbatim>\<open>controller/src/app/abs_state.c\<close>: the ECU's state machine, with the sensor sample of \<^verbatim>\<open>hal_sensors.h\<close> and the
  codes of \<^verbatim>\<open>protocol.h\<close> it works on.  A C \<^verbatim>\<open>float\<close> is a \<open>pyfloat\<close> computed with in the format \<open>B32\<close> (the build
  uses \<^verbatim>\<open>-std=c11\<close> on SSE hardware: no wider intermediate results, no contraction); \<^verbatim>\<open>uint32_t\<close> and \<^verbatim>\<open>uint16_t\<close>
  are words that wrap.  A pointer that the code compares with NULL is an option.
\<close>

section \<open>Floats\<close>

text \<open>A literal \<^verbatim>\<open>n/d f\<close> of type float, and the quotient of two floats.\<close>

definition clit :: "int \<Rightarrow> int \<Rightarrow> pyfloat" where
  "clit n d = fround B32 (n < 0) \<bar>n\<bar> d"

definition cdiv :: "pyfloat \<Rightarrow> pyfloat \<Rightarrow> pyfloat" where "cdiv x y = fl_div B32 x y"
definition cmul :: "pyfloat \<Rightarrow> pyfloat \<Rightarrow> pyfloat" where "cmul x y = fl_mul B32 x y"
definition cadd :: "pyfloat \<Rightarrow> pyfloat \<Rightarrow> pyfloat" where "cadd x y = fl_add B32 x y"
definition csub :: "pyfloat \<Rightarrow> pyfloat \<Rightarrow> pyfloat" where "csub x y = fl_sub B32 x y"

section \<open>Types\<close>

datatype ecu_status_t = S_INIT | S_STANDBY | S_MONITOR | S_ACTIVE | S_FAULT_DEGRADED | S_FAULT_LATCHED

text \<open>The enumerators' values, as they go on the wire.\<close>

fun status_code :: "ecu_status_t \<Rightarrow> 16 word" where
  "status_code S_INIT = 0"
| "status_code S_STANDBY = 1"
| "status_code S_MONITOR = 2"
| "status_code S_ACTIVE = 3"
| "status_code S_FAULT_DEGRADED = 4"
| "status_code S_FAULT_LATCHED = 5"

type_synonym dtc = "16 word"

definition C_DTC_NONE :: dtc where "C_DTC_NONE = 0"
definition C_DTC_SENSOR_STUCK :: dtc where "C_DTC_SENSOR_STUCK = push_bit 0 1"
definition C_DTC_SENSOR_NOISE :: dtc where "C_DTC_SENSOR_NOISE = push_bit 1 1"
definition C_DTC_COMM_TIMEOUT :: dtc where "C_DTC_COMM_TIMEOUT = push_bit 2 1"
definition C_DTC_COMM_CRC :: dtc where "C_DTC_COMM_CRC = push_bit 3 1"
definition C_DTC_SENSOR_RANGE :: dtc where "C_DTC_SENSOR_RANGE = push_bit 4 1"
definition C_DTC_PLAUSIBILITY :: dtc where "C_DTC_PLAUSIBILITY = push_bit 5 1"

record sensors_data =
  sd_timestamp_ms :: "32 word"
  sd_rx_time_ms :: "32 word"
  sd_v_vehicle :: pyfloat
  sd_omega_wheel :: pyfloat
  sd_brake_pressure :: pyfloat
  sd_fault_flags :: "16 word"
  sd_valid :: bool

record abs_state_ctx =
  st_current :: ecu_status_t
  st_previous :: ecu_status_t
  st_fault_count :: "32 word"
  st_cycles_in_state :: "32 word"

section \<open>The state machine\<close>

definition ABS_LOW_SPEED_BYPASS_MPS :: pyfloat where "ABS_LOW_SPEED_BYPASS_MPS = cdiv (clit 5 1) (clit 36 10)"
definition ABS_BRAKE_ACTIVE_BAR :: pyfloat where "ABS_BRAKE_ACTIVE_BAR = clit 5 1"
definition ABS_SLIP_UPPER :: pyfloat where "ABS_SLIP_UPPER = clit 20 100"
definition ABS_SLIP_LOWER :: pyfloat where "ABS_SLIP_LOWER = clit 10 100"
definition ABS_FAULT_LATCH_THRESHOLD :: "32 word" where "ABS_FAULT_LATCH_THRESHOLD = 10"

definition sensors_usable :: "sensors_data option \<Rightarrow> bool" where
  "sensors_usable sensors = (case sensors of
     None \<Rightarrow> False
   | Some s \<Rightarrow> if \<not> sd_valid s then False
       else if flt (sd_v_vehicle s) (clit (- 1) 1) \<or> flt (clit 120 1) (sd_v_vehicle s) then False
       else if flt (sd_omega_wheel s) (clit (- 1) 1) \<or> flt (clit 500 1) (sd_omega_wheel s) then False
       else True)"

definition vehicle_stopped :: "sensors_data \<Rightarrow> bool" where
  "vehicle_stopped s = flt (sd_v_vehicle s) ABS_LOW_SPEED_BYPASS_MPS"

definition driver_braking :: "sensors_data \<Rightarrow> bool" where
  "driver_braking s = flt ABS_BRAKE_ACTIVE_BAR (sd_brake_pressure s)"

definition abs_state_init :: abs_state_ctx where
  "abs_state_init = \<lparr>st_current = S_INIT, st_previous = S_INIT, st_fault_count = 0, st_cycles_in_state = 0\<rparr>"

definition abs_state_changed :: "abs_state_ctx \<Rightarrow> bool" where
  "abs_state_changed ctx = (st_current ctx \<noteq> st_previous ctx)"

definition count_cycle :: "abs_state_ctx \<Rightarrow> abs_state_ctx" where
  "count_cycle ctx = ctx\<lparr>st_cycles_in_state := (if abs_state_changed ctx then 0 else st_cycles_in_state ctx + 1)\<rparr>"

text \<open>The transition table of the healthy modes.\<close>

definition next_mode :: "ecu_status_t \<Rightarrow> sensors_data \<Rightarrow> pyfloat \<Rightarrow> ecu_status_t" where
  "next_mode mode s slip = (case mode of
     S_INIT \<Rightarrow> if vehicle_stopped s then S_STANDBY else S_MONITOR
   | S_STANDBY \<Rightarrow> if \<not> vehicle_stopped s \<and> driver_braking s then S_MONITOR else S_STANDBY
   | S_MONITOR \<Rightarrow> if vehicle_stopped s then S_STANDBY else if flt ABS_SLIP_UPPER slip then S_ACTIVE else S_MONITOR
   | S_ACTIVE \<Rightarrow> if vehicle_stopped s then S_STANDBY else if flt slip ABS_SLIP_LOWER then S_MONITOR else S_ACTIVE
   | S_FAULT_DEGRADED \<Rightarrow> if vehicle_stopped s then S_STANDBY else S_MONITOR
   | S_FAULT_LATCHED \<Rightarrow> S_FAULT_LATCHED)"

definition state_step :: "abs_state_ctx \<Rightarrow> sensors_data option \<Rightarrow> pyfloat \<Rightarrow> dtc \<Rightarrow> abs_state_ctx" where
  "state_step ctx sensors slip d =
    (let ctx = ctx\<lparr>st_previous := st_current ctx\<rparr> in
     if d \<noteq> C_DTC_NONE \<or> \<not> sensors_usable sensors
     then let ctx = ctx\<lparr>st_fault_count := st_fault_count ctx + 1\<rparr>;
              ctx = (if ABS_FAULT_LATCH_THRESHOLD \<le> st_fault_count ctx then ctx\<lparr>st_current := S_FAULT_LATCHED\<rparr>
                     else if st_current ctx \<noteq> S_FAULT_LATCHED then ctx\<lparr>st_current := S_FAULT_DEGRADED\<rparr>
                     else ctx)
          in count_cycle ctx
     else if st_current ctx = S_FAULT_LATCHED
     then ctx\<lparr>st_cycles_in_state := st_cycles_in_state ctx + 1\<rparr>
     else count_cycle (ctx\<lparr>st_fault_count := 0, st_current := next_mode (st_current ctx) (the sensors) slip\<rparr>))"

definition abs_state_update :: "abs_state_ctx option \<Rightarrow> sensors_data option \<Rightarrow> pyfloat \<Rightarrow> dtc \<Rightarrow>
    ecu_status_t \<times> abs_state_ctx option" where
  "abs_state_update ctx sensors slip d = (case ctx of
     None \<Rightarrow> (S_FAULT_LATCHED, None)
   | Some c \<Rightarrow> let c = state_step c sensors slip d in (st_current c, Some c))"

fun abs_state_name :: "ecu_status_t \<Rightarrow> string" where
  "abs_state_name S_INIT = ''INIT''"
| "abs_state_name S_STANDBY = ''STANDBY''"
| "abs_state_name S_MONITOR = ''MONITOR''"
| "abs_state_name S_ACTIVE = ''ACTIVE''"
| "abs_state_name S_FAULT_DEGRADED = ''FAULT_DEGRADED''"
| "abs_state_name S_FAULT_LATCHED = ''FAULT_LATCHED''"

section \<open>The diagram\<close>

text \<open>The arrows of the diagram in \<^verbatim>\<open>abs_state.h\<close>, with their conditions.  \<open>bad\<close> is a fault in the sample.\<close>

inductive mode_edge :: "ecu_status_t \<Rightarrow> bool \<Rightarrow> sensors_data \<Rightarrow> pyfloat \<Rightarrow> ecu_status_t \<Rightarrow> bool" where
  degrade: "m \<noteq> S_FAULT_LATCHED \<Longrightarrow> mode_edge m True s slip S_FAULT_DEGRADED"
| latch: "mode_edge m True s slip S_FAULT_LATCHED"
| latched: "mode_edge S_FAULT_LATCHED bad s slip S_FAULT_LATCHED"
| stop: "m \<noteq> S_FAULT_LATCHED \<Longrightarrow> vehicle_stopped s \<Longrightarrow> mode_edge m False s slip S_STANDBY"
| wake: "m \<in> {S_INIT, S_FAULT_DEGRADED} \<Longrightarrow> \<not> vehicle_stopped s \<Longrightarrow> mode_edge m False s slip S_MONITOR"
| brake: "\<not> vehicle_stopped s \<Longrightarrow> driver_braking s \<Longrightarrow> mode_edge S_STANDBY False s slip S_MONITOR"
| wait: "\<not> vehicle_stopped s \<Longrightarrow> \<not> driver_braking s \<Longrightarrow> mode_edge S_STANDBY False s slip S_STANDBY"
| engage: "\<not> vehicle_stopped s \<Longrightarrow> flt ABS_SLIP_UPPER slip \<Longrightarrow> mode_edge S_MONITOR False s slip S_ACTIVE"
| watch: "\<not> vehicle_stopped s \<Longrightarrow> \<not> flt ABS_SLIP_UPPER slip \<Longrightarrow> mode_edge S_MONITOR False s slip S_MONITOR"
| release: "\<not> vehicle_stopped s \<Longrightarrow> flt slip ABS_SLIP_LOWER \<Longrightarrow> mode_edge S_ACTIVE False s slip S_MONITOR"
| keep: "\<not> vehicle_stopped s \<Longrightarrow> \<not> flt slip ABS_SLIP_LOWER \<Longrightarrow> mode_edge S_ACTIVE False s slip S_ACTIVE"

inductive_cases latched_edge [elim!]: "mode_edge S_FAULT_LATCHED bad s slip m"
inductive_cases active_edge: "mode_edge m bad s slip S_ACTIVE"

end
