(* ===== verification/Ecu_State_Properties.thy ===== *)
theory Ecu_State_Properties
  imports Ecu_State
begin

unbundle bit_operations_syntax

text \<open>
  The state machine as a whole: every step is an arrow of the diagram, latching is exactly ten faults in a
  row and is final, a recovered fault leaves the degraded mode at once, and what the range check lets
  through.
\<close>

section \<open>Runs\<close>

type_synonym ecu_input = "sensors_data option \<times> pyfloat \<times> dtc"

definition bad :: "ecu_input \<Rightarrow> bool" where
  "bad = (\<lambda>(sensors, slip, d). d \<noteq> C_DTC_NONE \<or> \<not> sensors_usable sensors)"

definition state_run :: "abs_state_ctx \<Rightarrow> ecu_input list \<Rightarrow> abs_state_ctx" where
  "state_run = foldl (\<lambda>ctx (sensors, slip, d). state_step ctx sensors slip d)"

lemma state_run_simps [simp]:
  "state_run c [] = c" "state_run c (x # xs) = state_run (state_step c (fst x) (fst (snd x)) (snd (snd x))) xs"
  "state_run c (xs @ ys) = state_run (state_run c xs) ys"
  by (simp_all add: state_run_def case_prod_beta')

lemma count_cycle_simps [simp]:
  "st_current (count_cycle c) = st_current c" "st_previous (count_cycle c) = st_previous c"
  "st_fault_count (count_cycle c) = st_fault_count c"
  by (simp_all add: count_cycle_def)

text \<open>A step on a faulty and on a healthy sample.\<close>

lemma step_bad:
  assumes "bad (sensors, slip, d)"
  shows "st_fault_count (state_step c sensors slip d) = st_fault_count c + 1"
    "st_current (state_step c sensors slip d) =
      (if ABS_FAULT_LATCH_THRESHOLD \<le> st_fault_count c + 1 \<or> st_current c = S_FAULT_LATCHED
       then S_FAULT_LATCHED else S_FAULT_DEGRADED)"
  using assms by (auto simp: state_step_def Let_def bad_def)

lemma step_good:
  assumes "\<not> bad (sensors, slip, d)"
  shows "st_current (state_step c sensors slip d) = next_mode (st_current c) (the sensors) slip"
    "st_fault_count (state_step c sensors slip d) = (if st_current c = S_FAULT_LATCHED then st_fault_count c else 0)"
  using assms by (auto simp: state_step_def Let_def bad_def next_mode_def)

lemma next_mode_faults:
  "next_mode m s slip = S_FAULT_LATCHED \<longleftrightarrow> m = S_FAULT_LATCHED" "next_mode m s slip \<noteq> S_FAULT_DEGRADED"
  by (cases m; simp add: next_mode_def)+

lemma step_latched:
  "st_current c = S_FAULT_LATCHED \<Longrightarrow> st_current (state_step c sensors slip d) = S_FAULT_LATCHED"
  using step_bad(2) [of sensors slip d c] step_good(1) [of sensors slip d c] next_mode_faults(1)
  by (cases "bad (sensors, slip, d)") auto

text \<open>The code implements the diagram of \<^verbatim>\<open>abs_state.h\<close>: on every sample, healthy or not, the step from the current
  to the next state is one of the diagram's arrows.\<close>

theorem state_step_is_edge:
  "mode_edge (st_current c) (bad (sensors, slip, d)) (the sensors) slip (st_current (state_step c sensors slip d))"
proof (cases "bad (sensors, slip, d)")
  case True
  then show ?thesis unfolding step_bad(2) [OF True] by (auto intro: mode_edge.intros)
next
  case False
  then show ?thesis unfolding step_good(1) [OF False]
    by (cases "st_current c") (auto simp: next_mode_def intro: mode_edge.intros)
qed

section \<open>Latching\<close>

text \<open>The abstract condition: ten faulty samples in a row, anywhere in the history.\<close>

definition ten_in_a_row :: "bool list \<Rightarrow> bool" where
  "ten_in_a_row bs \<longleftrightarrow> (\<exists>us vs. bs = us @ replicate 10 True @ vs)"

definition streak :: "bool list \<Rightarrow> nat" where
  "streak bs = length (takeWhile id (rev bs))"

lemma streak_simps [simp]: "streak [] = 0" "streak (bs @ [True]) = Suc (streak bs)" "streak (bs @ [False]) = 0"
  by (simp_all add: streak_def)

lemma streak_snoc: "streak (bs @ [b]) = (if b then Suc (streak bs) else 0)"
  by (cases b) simp_all

lemma streak_le: "streak bs \<le> length bs"
  unfolding streak_def by (metis length_rev length_takeWhile_le)

lemma takeWhile_id_prefix: "n \<le> length (takeWhile id bs) \<Longrightarrow> \<exists>vs. bs = replicate n True @ vs"
proof (induction n arbitrary: bs)
  case (Suc n)
  then obtain b cs where b: "bs = b # cs" "b" by (cases bs) (auto split: if_splits)
  with Suc show ?case by auto
qed simp

lemma streak_suffix: "(\<exists>us. bs = us @ replicate n True) \<longleftrightarrow> n \<le> streak bs"
proof
  assume "\<exists>us. bs = us @ replicate n True"
  then show "n \<le> streak bs" by (auto simp: streak_def takeWhile_append)
next
  assume "n \<le> streak bs"
  then obtain vs where "rev bs = replicate n True @ vs" using takeWhile_id_prefix unfolding streak_def by blast
  then have "bs = rev vs @ replicate n True" by (metis rev_append rev_replicate rev_rev_ident)
  then show "\<exists>us. bs = us @ replicate n True" by blast
qed

lemma replicate_ten: "replicate 10 True = replicate 9 True @ [True]"
  by (simp add: eval_nat_numeral)

lemma ten_snoc: "ten_in_a_row (bs @ [b]) \<longleftrightarrow> ten_in_a_row bs \<or> b \<and> 9 \<le> streak bs"
proof
  assume "ten_in_a_row (bs @ [b])"
  then obtain us vs where e: "bs @ [b] = us @ replicate 10 True @ vs" by (auto simp: ten_in_a_row_def)
  show "ten_in_a_row bs \<or> b \<and> 9 \<le> streak bs"
  proof (cases vs rule: rev_cases)
    case Nil
    then have "bs @ [b] = (us @ replicate 9 True) @ [True]" using e unfolding replicate_ten by simp
    then have "bs = us @ replicate 9 True" "b" unfolding append1_eq_conv by simp_all
    then show ?thesis using streak_suffix by blast
  next
    case (snoc ws w)
    then have "bs @ [b] = (us @ replicate 10 True @ ws) @ [w]" using e by simp
    then have "bs = us @ replicate 10 True @ ws" unfolding append1_eq_conv by simp
    then show ?thesis by (auto simp: ten_in_a_row_def)
  qed
next
  assume "ten_in_a_row bs \<or> b \<and> 9 \<le> streak bs"
  then show "ten_in_a_row (bs @ [b])"
  proof
    assume "ten_in_a_row bs"
    then obtain us vs where "bs @ [b] = us @ replicate 10 True @ (vs @ [b])" by (auto simp: ten_in_a_row_def)
    then show ?thesis unfolding ten_in_a_row_def by blast
  next
    assume b: "b \<and> 9 \<le> streak bs"
    then obtain us where "bs = us @ replicate 9 True" using streak_suffix by blast
    then have "bs @ [b] = us @ replicate 10 True @ []" using b unfolding replicate_ten by simp
    then show ?thesis unfolding ten_in_a_row_def by blast
  qed
qed

text \<open>What the counter counts until the machine latches.\<close>

lemma latch_invariant:
  assumes "length xs < 2 ^ 32"
  shows "(st_current (state_run abs_state_init xs) = S_FAULT_LATCHED \<longleftrightarrow> ten_in_a_row (map bad xs)) \<and>
    (\<not> ten_in_a_row (map bad xs) \<longrightarrow> unat (st_fault_count (state_run abs_state_init xs)) = streak (map bad xs) \<and>
      (st_current (state_run abs_state_init xs) = S_FAULT_DEGRADED \<longleftrightarrow> xs \<noteq> [] \<and> bad (last xs)))"
  using assms
proof (induction xs rule: rev_induct)
  case Nil
  then show ?case by (simp add: abs_state_init_def ten_in_a_row_def)
next
  case (snoc x xs)
  obtain sensors slip d where x: "x = (sensors, slip, d)" by (cases x) auto
  let ?c = "state_run abs_state_init xs"
  have IH: "st_current ?c = S_FAULT_LATCHED \<longleftrightarrow> ten_in_a_row (map bad xs)"
    "\<not> ten_in_a_row (map bad xs) \<longrightarrow> unat (st_fault_count ?c) = streak (map bad xs)"
    using snoc by auto
  show ?case
  proof (cases "bad x")
    case True
    have s: "streak (map bad xs) < 2 ^ 32 - 1" using streak_le [of "map bad xs"] snoc.prems by simp
    then have u: "unat (st_fault_count ?c + 1) = Suc (streak (map bad xs))" if "\<not> ten_in_a_row (map bad xs)"
      using IH(2) that by (subst unat_add_lem [THEN iffD1]) auto
    have t: "ABS_FAULT_LATCH_THRESHOLD \<le> st_fault_count ?c + 1 \<longleftrightarrow> 9 \<le> streak (map bad xs)"
      if "\<not> ten_in_a_row (map bad xs)"
      using u [OF that] by (simp add: ABS_FAULT_LATCH_THRESHOLD_def word_le_nat_alt)
    show ?thesis
      using True step_bad [of sensors slip d ?c] IH t u ten_snoc [of "map bad xs" True] by (auto simp: x)
  next
    case False
    then show ?thesis
      using step_good [of sensors slip d ?c] IH next_mode_faults ten_snoc [of "map bad xs" False] by (auto simp: x)
  qed
qed

text \<open>C14: Latching refines its specification: from reset, and for fewer than 2^32 cycles (497 days at 100 Hz), the
  machine is in FAULT_LATCHED exactly if some ten consecutive samples were faulty, and in
  FAULT_DEGRADED exactly if it has not latched and the last sample was faulty.\<close>

theorem latch_spec:
  assumes "length xs < 2 ^ 32"
  shows "(st_current (state_run abs_state_init xs) = S_FAULT_LATCHED \<longleftrightarrow> ten_in_a_row (map bad xs)) \<and>
    (st_current (state_run abs_state_init xs) = S_FAULT_DEGRADED \<longleftrightarrow>
      \<not> ten_in_a_row (map bad xs) \<and> xs \<noteq> [] \<and> bad (last xs))"
  using latch_invariant [OF assms] by auto

theorem latch_spec_witness:
  "st_current (state_run abs_state_init (replicate 10 (None, f0, 0))) = S_FAULT_LATCHED \<and>
   st_current (state_run abs_state_init (replicate 9 (None, f0, 0))) \<noteq> S_FAULT_LATCHED"
proof -
  have b: "bad (None, f0, 0)" by (simp add: bad_def sensors_usable_def)
  have "ten_in_a_row (map bad (replicate 10 (None, f0, 0)))"
    unfolding ten_in_a_row_def map_replicate using b by (intro exI [of _ "[]"]) simp
  moreover have "\<not> ten_in_a_row (map bad (replicate 9 (None, f0, 0)))"
  proof
    assume "ten_in_a_row (map bad (replicate 9 (None, f0, 0)))"
    then obtain us vs where "replicate 9 True = us @ replicate 10 True @ vs"
      using b by (auto simp: ten_in_a_row_def)
    then have "length (replicate 9 True) = length (us @ replicate 10 True @ vs)" by (rule arg_cong)
    then show False by simp
  qed
  ultimately show ?thesis
    using latch_spec [of "replicate 10 (None, f0, 0)"] latch_spec [of "replicate 9 (None, f0, 0)"] by simp
qed

text \<open>A latched fault is final: whatever samples follow, healthy or not, and however long the run (the counter may
  wrap), the machine stays in FAULT_LATCHED.\<close>

theorem latched_is_final:
  assumes "st_current c = S_FAULT_LATCHED"
  shows "st_current (state_run c xs) = S_FAULT_LATCHED"
  using assms by (induction xs arbitrary: c) (auto simp: step_latched)

theorem latched_is_final_witness:
  "st_current (state_run (abs_state_init\<lparr>st_current := S_FAULT_LATCHED, st_fault_count := - 1\<rparr>)
    [(None, f0, 0), (None, f0, 4)]) = S_FAULT_LATCHED"
  by (rule latched_is_final) simp

section \<open>What the range check accepts\<close>

text \<open>The check is not robust on its own: a sample whose speed or wheel speed is not a number passes
  \<^verbatim>\<open>sensors_usable\<close>, and on it a machine that had not started goes to MONITOR.\<close>

theorem nan_is_usable:
  assumes "sd_valid s" and "sd_v_vehicle s = NaN"
    and "sd_omega_wheel s = NaN \<or> \<not> flt (sd_omega_wheel s) (clit (- 1) 1) \<and> \<not> flt (clit 500 1) (sd_omega_wheel s)"
  shows "sensors_usable (Some s) \<and> st_current (state_step abs_state_init (Some s) slip C_DTC_NONE) = S_MONITOR"
proof -
  have n: "\<not> flt NaN x" "\<not> flt x NaN" for x by (cases x; simp)+
  have u: "sensors_usable (Some s)" using assms by (auto simp: sensors_usable_def n)
  then have "\<not> bad (Some s, slip, C_DTC_NONE)" by (simp add: bad_def)
  from step_good(1) [OF this, of abs_state_init] u show ?thesis
    by (simp add: abs_state_init_def next_mode_def vehicle_stopped_def assms(2) n)
qed

theorem nan_is_usable_witness:
  "sensors_usable (Some \<lparr>sd_timestamp_ms = 0, sd_rx_time_ms = 0, sd_v_vehicle = NaN, sd_omega_wheel = NaN,
     sd_brake_pressure = f0, sd_fault_flags = 0, sd_valid = True\<rparr>)"
  using nan_is_usable [of "\<lparr>sd_timestamp_ms = 0, sd_rx_time_ms = 0, sd_v_vehicle = NaN, sd_omega_wheel = NaN,
     sd_brake_pressure = f0, sd_fault_flags = 0, sd_valid = True\<rparr>"] by simp

end
