(* ===== verification/Ecu_Controller.thy ===== *)
theory Ecu_Controller
  imports Ecu_State_Properties Codec Oracle
begin

unbundle bit_operations_syntax

text \<open>
  \<^verbatim>\<open>controller/src/app/abs_controller.c\<close>: the ECU's slip computation and its bang-bang controller, and how it
  relates to the reference controller in Python: in MONITOR and ACTIVE it is the reference controller
  with the thresholds rounded to binary32, everywhere else it hands the pedal to the driver.  The slip is
  within three units of \<open>2 ^ -23\<close> of the exact one.
\<close>

section \<open>Definitions\<close>

record abs_controller_ctx =
  cc_previous_command :: pyfloat

definition abs_controller_init :: abs_controller_ctx where
  "abs_controller_init = \<lparr>cc_previous_command = clit 0 1\<rparr>"

definition abs_controller_slip :: "pyfloat \<Rightarrow> pyfloat \<Rightarrow> pyfloat \<Rightarrow> pyfloat" where
  "abs_controller_slip v omega r = cdiv (csub v (cmul omega r)) v"

definition abs_controller_slip_protected :: "pyfloat \<Rightarrow> pyfloat \<Rightarrow> pyfloat \<Rightarrow> pyfloat \<Rightarrow> pyfloat" where
  "abs_controller_slip_protected v omega r v_min =
    (if flt (fabs v) v_min then clit 0 1
     else let s = cdiv (csub v (cmul omega r)) v in
       if flt s (clit 0 1) then clit 0 1 else if flt (clit 1 1) s then clit 1 1 else s)"

definition controller_step :: "abs_controller_ctx \<Rightarrow> ecu_status_t \<Rightarrow> sensors_data \<Rightarrow> pyfloat \<Rightarrow> pyfloat \<Rightarrow>
    pyfloat \<times> abs_controller_ctx" where
  "controller_step ctx state sensors slip driver_request =
    (if state = S_FAULT_DEGRADED \<or> state = S_FAULT_LATCHED
     then (driver_request, ctx\<lparr>cc_previous_command := driver_request\<rparr>)
     else if flt (sd_v_vehicle sensors) ABS_LOW_SPEED_BYPASS_MPS
     then (driver_request, ctx\<lparr>cc_previous_command := driver_request\<rparr>)
     else if state = S_INIT \<or> state = S_STANDBY
     then (driver_request, ctx\<lparr>cc_previous_command := driver_request\<rparr>)
     else let cmd = (if flt ABS_SLIP_UPPER slip then clit 0 1
                     else if flt slip ABS_SLIP_LOWER then driver_request
                     else cc_previous_command ctx)
          in (cmd, ctx\<lparr>cc_previous_command := cmd\<rparr>))"

definition abs_controller_compute :: "abs_controller_ctx option \<Rightarrow> ecu_status_t \<Rightarrow> sensors_data option \<Rightarrow> pyfloat \<Rightarrow>
    pyfloat \<Rightarrow> pyfloat \<times> abs_controller_ctx option" where
  "abs_controller_compute ctx state sensors slip driver_request = (case (ctx, sensors) of
     (Some c, Some s) \<Rightarrow> (case controller_step c state s slip driver_request of (cmd, c) \<Rightarrow> (cmd, Some c))
   | _ \<Rightarrow> (clit 0 1, ctx))"

section \<open>Lemmas\<close>

text \<open>Widening to double keeps the order of values.\<close>

lemma widen_fin: "canon B32 x \<Longrightarrow> is_fin x \<Longrightarrow> is_fin (widen x) \<and> fval (widen x) = fval x"
proof -
  assume c: "canon B32 x" and f: "is_fin x"
  then obtain s m e where x: "x = Fin s m e" by (cases x) auto
  show ?thesis using widen_Fin [of s m e] c unfolding x by auto
qed

lemma widen_special: "\<not> is_fin x \<Longrightarrow> widen x = x"
  by (cases x) auto

lemma flt_widen:
  assumes "canon B32 x" "canon B32 y"
  shows "flt (widen x) (widen y) = flt x y"
proof (cases "is_fin x"; cases "is_fin y")
  assume "is_fin x" "is_fin y"
  then show ?thesis using widen_fin assms by (simp add: flt_fin)
next
  assume x: "is_fin x" and y: "\<not> is_fin y"
  have "is_fin (widen x)" using widen_fin assms(1) x by blast
  then show ?thesis using x y by (cases x; cases "widen x"; cases y) auto
next
  assume x: "\<not> is_fin x" and y: "is_fin y"
  have "is_fin (widen y)" using widen_fin assms(2) y by blast
  then show ?thesis using x y by (cases y; cases "widen y"; cases x) auto
next
  assume "\<not> is_fin x" "\<not> is_fin y"
  then show ?thesis by (simp add: widen_special)
qed

lemma clit_eval: "widen (clit 0 1) = f0" "canon B32 (clit 0 1)"
  "canon B32 ABS_SLIP_UPPER" "canon B32 ABS_SLIP_LOWER" "canon B32 ABS_LOW_SPEED_BYPASS_MPS"
  by code_simp+

text \<open>The reference controller with the C thresholds.\<close>

definition as_oracle :: "abs_controller_ctx \<Rightarrow> oracle_abs" where
  "as_oracle c = \<lparr>oa_upper = widen ABS_SLIP_UPPER, oa_lower = widen ABS_SLIP_LOWER,
     oa_low_speed_bypass = widen ABS_LOW_SPEED_BYPASS_MPS, oa_previous_command = widen (cc_previous_command c)\<rparr>"

text \<open>One call of the controller as a sample: the mode, the sensors, the slip and the driver's request; and what a sample
  says on its own.\<close>

type_synonym c_sample = "ecu_status_t \<times> sensors_data \<times> pyfloat \<times> pyfloat"

definition controller_call :: "c_sample \<Rightarrow> abs_controller_ctx \<Rightarrow> pyfloat \<times> abs_controller_ctx" where
  "controller_call = (\<lambda>(mode, s, slip, req) c. controller_step c mode s slip req)"

definition c_decision :: "c_sample \<Rightarrow> pyfloat option" where
  "c_decision = (\<lambda>(mode, s, slip, req).
     if mode \<notin> {S_MONITOR, S_ACTIVE} \<or> flt (sd_v_vehicle s) ABS_LOW_SPEED_BYPASS_MPS then Some req
     else if flt ABS_SLIP_UPPER slip then Some (clit 0 1)
     else if flt slip ABS_SLIP_LOWER then Some req
     else None)"

interpretation c_bang_bang: brake_controller controller_call "\<lambda>c. c_decision" cc_previous_command "clit 0 1"
    "\<lambda>(mode, s, slip, req). req"
proof
  fix x c cmd c' assume s: "controller_call x c = (cmd, c')"
  obtain mode sn slip req where x: "x = (mode, sn, slip, req)" by (cases x) auto
  show "cmd = (case c_decision x of None \<Rightarrow> cc_previous_command c | Some d \<Rightarrow> d)" "cc_previous_command c' = cmd"
    using s unfolding x by (cases mode; auto simp: controller_call_def controller_step_def c_decision_def Let_def split: if_splits)+
next
  show "d = clit 0 1 \<or> d = (case x of (mode, s, slip, req) \<Rightarrow> req)" if "c_decision x = Some d" for x d
    using that by (auto simp: c_decision_def split: prod.splits if_splits)
qed simp

definition c_holds :: "pyfloat \<Rightarrow> abs_controller_ctx \<Rightarrow> bool" where
  "c_holds req c \<longleftrightarrow> cc_previous_command c \<in> {clit 0 1, req}"

lemma controller_admissible:
  assumes "c_holds req c" and "controller_step c mode s slip req = (cmd, c')"
  shows "cmd \<in> {clit 0 1, req} \<and> c_holds req c'"
  using c_bang_bang.step_safe [of "(mode, s, slip, req)" c cmd c'] assms by (simp add: controller_call_def c_holds_def)

section \<open>The error of the slip\<close>

text \<open>Rounding to binary32 is off by at most \<open>2 ^ -23\<close> of any larger number that is not tiny.\<close>

lemma rndp_close32:
  assumes "0 \<le> x" "x \<le> y" "1/1024 \<le> y"
  shows "\<bar>rndp B32 x - x\<bar> \<le> y / 2 ^ 23"
proof (cases "x = 0")
  case False
  then have x: "0 < x" using assms(1) by simp
  have "p2 (lsb B32 x) \<le> y / 2 ^ 23"
  proof (cases "lsb B32 x = emin B32")
    case True
    then have "p2 (lsb B32 x) = p2 (- 149)" by simp
    also have "\<dots> \<le> p2 (- 33)" by simp
    also have "\<dots> = 1 / 1024 / 2 ^ 23" unfolding power_int_minus by (simp add: p2_nat)
    also have "\<dots> \<le> y / 2 ^ 23" using assms(3) by (intro divide_right_mono) simp_all
    finally show ?thesis .
  next
    case False
    then have "lsb B32 x = flog2 x - 23" by (simp add: lsb_def)
    then have "p2 (lsb B32 x) = p2 (flog2 x) / 2 ^ 23" by (simp add: p2_diff p2_nat)
    also have "\<dots> \<le> y / 2 ^ 23" using flog2_bounds(1) [OF x] assms(2) by (intro divide_right_mono) simp_all
    finally show ?thesis .
  qed
  with rndp_close [OF assms(1), of B32] show ?thesis by linarith
qed (use assms in simp)

lemma rnd_nonneg_rndp: "0 \<le> x \<Longrightarrow> rnd f x = rndp f x"
  by (simp add: rnd_def)

lemma small_fits32: "\<bar>x\<bar> \<le> 2 ^ 64 \<Longrightarrow> \<bar>x\<bar> \<le> flim B32"
proof -
  assume "\<bar>x\<bar> \<le> 2 ^ 64"
  also have "(2 ^ 64 :: rat) \<le> 1 * p2 104" by (simp add: p2_nat)
  also have "\<dots> \<le> flim B32" unfolding flim_def emax.simps by (rule mult_right_mono) simp_all
  finally show ?thesis .
qed

lemma clit01: "is_fin (clit 0 1)" "is_fin (clit 1 1)" "fval (clit 0 1) = 0" "fval (clit 1 1) = 1" "canon B32 (clit 1 1)"
  by code_simp+

text \<open>The three rounded operations of the slip for a car at least as fast as \<open>1/1024\<close> m/s.\<close>

lemma slip_quotient:
  assumes c: "canon B32 v" "is_fin v" "canon B32 omega" "is_fin omega" "canon B32 r" "is_fin r"
    and v: "1/1024 \<le> fval v" "fval v \<le> 2 ^ 20" and w: "0 \<le> fval omega" "fval omega \<le> 2 ^ 20" and r: "0 \<le> fval r" "fval r \<le> 16"
  shows "is_fin (cdiv (csub v (cmul omega r)) v)"
    and "fval v \<le> fval omega * fval r \<Longrightarrow> fval (cdiv (csub v (cmul omega r)) v) \<le> 0"
    and "fval omega * fval r \<le> fval v \<Longrightarrow> 0 \<le> fval (cdiv (csub v (cmul omega r)) v) \<and>
      fval (cdiv (csub v (cmul omega r)) v) \<le> 1 \<and>
      \<bar>fval (cdiv (csub v (cmul omega r)) v) - (fval v - fval omega * fval r) / fval v\<bar> \<le> 3 / 2 ^ 23"
proof -
  let ?x = "fval omega * fval r" and ?p = "cmul omega r" and ?d = "csub v (cmul omega r)"
  have x: "0 \<le> ?x" "?x \<le> 2 ^ 24"
    using w r mult_mono [of "fval omega" "2 ^ 20" "fval r" 16] by simp_all
  have rv: "repr B32 (fval v)" using c(1) by (rule canon_repr)
  have r24: "repr B32 (2 ^ 24)" using repr_dyadic [of 1 B32 24] by (simp add: p2_nat)
  have vp: "0 < fval v" using v(1) by simp
  have p: "canon B32 ?p" "is_fin ?p" "fval ?p = rndp B32 ?x"
    using fl_mul_spec [of omega r B32] c canon_wff small_fits32 [of ?x] x by (auto simp: rnd_nonneg_rndp cmul_def)
  have p24: "0 \<le> fval ?p" "fval ?p \<le> 2 ^ 24"
    using x rnd_le [OF x(2) r24] by (simp_all add: p(3) rndp_nonneg rnd_nonneg_rndp)
  have "\<bar>fval v - fval ?p\<bar> \<le> 2 ^ 64" using p24 v(2) vp by (auto simp: abs_le_iff)
  then have d: "canon B32 ?d" "is_fin ?d" "fval ?d = rnd B32 (fval v - fval ?p)"
    using fl_sub_spec [of v ?p B32] c p small_fits32 by (auto simp: csub_def)
  have d24: "\<bar>fval ?d\<bar> \<le> 2 ^ 24"
  proof -
    have "rnd B32 (fval v - fval ?p) \<le> 2 ^ 24" "- (2 ^ 24) \<le> rnd B32 (fval v - fval ?p)"
      using p24 v(2) vp r24 by (auto intro!: rnd_le rnd_ge)
    then show ?thesis by (simp add: d(3))
  qed
  have "\<bar>fval ?d / fval v\<bar> \<le> 2 ^ 24 / (1/1024)"
    unfolding abs_divide using d24 v(1) vp by (intro frac_le) simp_all
  then have "\<bar>fval ?d / fval v\<bar> \<le> 2 ^ 64" by (rule order_trans) simp
  then have "\<bar>fval ?d / fval v\<bar> \<le> flim B32" by (rule small_fits32)
  then have q: "is_fin (cdiv ?d v) \<and> fval (cdiv ?d v) = rnd B32 (fval ?d / fval v)"
    using fl_div_spec [of ?d v B32] canon_wff [OF d(1,2)] canon_wff [OF c(1,2)] less_imp_neq [OF vp] unfolding cdiv_def by metis
  then show "is_fin (cdiv ?d v)" ..
  show "fval (cdiv ?d v) \<le> 0" if le: "fval v \<le> ?x"
  proof -
    have "fval v \<le> fval ?p" using rnd_ge [OF le rv] x by (simp add: p(3) rnd_nonneg_rndp)
    then have "fval ?d \<le> 0" unfolding d(3) by (intro rnd_le) simp_all
    then have "fval ?d / fval v \<le> 0" using vp by (simp add: divide_nonpos_pos)
    then show ?thesis using q rnd_le [of "fval ?d / fval v" 0 B32] by simp
  qed
  show "0 \<le> fval (cdiv ?d v) \<and> fval (cdiv ?d v) \<le> 1 \<and> \<bar>fval (cdiv ?d v) - (fval v - ?x) / fval v\<bar> \<le> 3 / 2 ^ 23"
    if le: "?x \<le> fval v"
  proof -
    have pv: "fval ?p \<le> fval v" using rnd_le [OF le rv] x by (simp add: p(3) rnd_nonneg_rndp)
    then have dd: "0 \<le> fval v - fval ?p" "fval v - fval ?p \<le> fval v" using p24 by simp_all
    have e1: "\<bar>fval ?p - ?x\<bar> \<le> fval v / 2 ^ 23" unfolding p(3) by (rule rndp_close32 [OF x(1) le v(1)])
    have e2: "\<bar>fval ?d - (fval v - fval ?p)\<bar> \<le> fval v / 2 ^ 23"
      unfolding d(3) rnd_nonneg_rndp [OF dd(1)] by (rule rndp_close32 [OF dd v(1)])
    have d0: "0 \<le> fval ?d" "fval ?d \<le> fval v"
      unfolding d(3) using dd rv by (auto intro: rnd_ge [of 0] rnd_le)
    then have q1: "0 \<le> fval ?d / fval v" "fval ?d / fval v \<le> 1" using vp by simp_all
    have e3: "\<bar>fval (cdiv ?d v) - fval ?d / fval v\<bar> \<le> 1 / 2 ^ 23"
      using q rndp_close32 [OF q1, unfolded] by (simp add: rnd_nonneg_rndp [OF q1(1)])
    have "\<bar>fval ?d - (fval v - ?x)\<bar> \<le> 2 * fval v / 2 ^ 23" using e1 e2 by linarith
    then have "\<bar>(fval ?d - (fval v - ?x)) / fval v\<bar> \<le> 2 / 2 ^ 23"
      using vp by (simp add: abs_divide pos_divide_le_eq field_simps)
    then have "\<bar>fval ?d / fval v - (fval v - ?x) / fval v\<bar> \<le> 2 / 2 ^ 23" by (simp add: diff_divide_distrib)
    with e3 have "\<bar>fval (cdiv ?d v) - (fval v - ?x) / fval v\<bar> \<le> 2 / 2 ^ 23 + 1 / 2 ^ 23" by linarith
    moreover have "0 \<le> rnd B32 (fval ?d / fval v)" "rnd B32 (fval ?d / fval v) \<le> 1"
      using q1 repr_of_int [of 1 B32] by (auto intro: rnd_ge [of 0] rnd_le)
    ultimately show ?thesis unfolding q [THEN conjunct2] by simp
  qed
qed

section \<open>Properties\<close>

text \<open>C13: The C controller refines the Python controller: in MONITOR and ACTIVE, on binary32 inputs, its command and its
  memory are those of the reference controller with the C thresholds, and in every other mode the
  command is the driver's request.\<close>

theorem c_controller_refines_oracle:
  assumes "controller_step c mode s slip req = (cmd, c')"
    and "canon B32 slip" and "canon B32 (sd_v_vehicle s)"
  shows "if mode = S_MONITOR \<or> mode = S_ACTIVE
    then oracle_step (widen slip) (widen (sd_v_vehicle s)) (widen req) (as_oracle c) = (widen cmd, as_oracle c')
    else cmd = req \<and> cc_previous_command c' = req"
  using assms clit_eval
  by (cases mode) (auto simp: controller_step_def oracle_step_def as_oracle_def flt_widen Let_def split: if_splits)

theorem c_controller_refines_oracle_witness:
  "\<exists>cmd c'. controller_step abs_controller_init S_ACTIVE \<lparr>sd_timestamp_ms = 0, sd_rx_time_ms = 0, sd_v_vehicle = clit 20 1,
      sd_omega_wheel = clit 50 1, sd_brake_pressure = clit 0 1, sd_fault_flags = 0, sd_valid = True\<rparr>
      (clit 1 4) (clit 100 1) = (cmd, c') \<and>
    oracle_step (widen (clit 1 4)) (widen (clit 20 1)) (widen (clit 100 1)) (as_oracle abs_controller_init) =
      (widen cmd, as_oracle c')"
proof -
  let ?s = "\<lparr>sd_timestamp_ms = 0, sd_rx_time_ms = 0, sd_v_vehicle = clit 20 1,
      sd_omega_wheel = clit 50 1, sd_brake_pressure = clit 0 1, sd_fault_flags = 0, sd_valid = True\<rparr>"
  obtain cmd c' where c: "controller_step abs_controller_init S_ACTIVE ?s (clit 1 4) (clit 100 1) = (cmd, c')" by force
  have k: "canon B32 (clit 1 4)" "canon B32 (clit 20 1)" by code_simp+
  then show ?thesis using c c_controller_refines_oracle [OF c] by simp
qed

text \<open>C37: The C controller as a whole, like the reference controller: over any run of calls, with any modes, samples, slips and
  requests, every command is the decision of the newest call outside the band, and the command it started with if there is none.
  A call decides for the driver's request in every mode but MONITOR and ACTIVE and at crawl speed, for a full release above the upper
  threshold and for the request below the lower one; only between the thresholds it holds.  With a constant request
  all commands of a run are full release or the request.\<close>

theorem c_controller_hysteresis:
  "run_controller controller_call xs c =
     (map (\<lambda>i. last_command c_decision (cc_previous_command c) (rev (take (Suc i) xs))) [0..<length xs],
      \<lparr>cc_previous_command = last_command c_decision (cc_previous_command c) (rev xs)\<rparr>) \<and>
   (cc_previous_command c \<in> {clit 0 1, req} \<and> (\<forall>(mode, s, slip, r) \<in> set xs. r = req) \<longrightarrow>
      set (fst (run_controller controller_call xs c)) \<subseteq> {clit 0 1, req})"
proof -
  obtain cmds c' where r: "run_controller controller_call xs c = (cmds, c')" by force
  have "c' = \<lparr>cc_previous_command = cc_previous_command c'\<rparr>" by simp
  then show ?thesis using c_bang_bang.run_last_command [OF r] c_bang_bang.run_safe [OF r, of req] r by (auto split: prod.splits)
qed

text \<open>Release above the band, hold inside it, the request in a fault mode, and hold again.\<close>

theorem c_controller_hysteresis_witness:
  "let s = \<lparr>sd_timestamp_ms = 0, sd_rx_time_ms = 0, sd_v_vehicle = clit 20 1, sd_omega_wheel = clit 50 1,
      sd_brake_pressure = clit 0 1, sd_fault_flags = 0, sd_valid = True\<rparr>; req = clit 100 1;
     xs = [(S_ACTIVE, s, clit 1 4, req), (S_ACTIVE, s, clit 15 100, req), (S_FAULT_DEGRADED, s, clit 15 100, req),
       (S_MONITOR, s, clit 15 100, req)]
   in fst (run_controller controller_call xs abs_controller_init) = [clit 0 1, clit 0 1, req, req] \<and>
     set (fst (run_controller controller_call xs abs_controller_init)) \<subseteq> {clit 0 1, req}"
proof -
  let ?s = "\<lparr>sd_timestamp_ms = 0, sd_rx_time_ms = 0, sd_v_vehicle = clit 20 1, sd_omega_wheel = clit 50 1,
      sd_brake_pressure = clit 0 1, sd_fault_flags = 0, sd_valid = True\<rparr>"
  let ?xs = "[(S_ACTIVE, ?s, clit 1 4, clit 100 1), (S_ACTIVE, ?s, clit 15 100, clit 100 1),
    (S_FAULT_DEGRADED, ?s, clit 15 100, clit 100 1), (S_MONITOR, ?s, clit 15 100, clit 100 1)]"
  have t: "\<not> flt (clit 20 1) ABS_LOW_SPEED_BYPASS_MPS" "flt ABS_SLIP_UPPER (clit 1 4)" "\<not> flt ABS_SLIP_UPPER (clit 15 100)"
    "\<not> flt (clit 15 100) ABS_SLIP_LOWER" by code_simp+
  have "fst (run_controller controller_call ?xs abs_controller_init) = [clit 0 1, clit 0 1, clit 100 1, clit 100 1]"
    by (simp add: controller_call_def controller_step_def abs_controller_init_def t Let_def)
  then show ?thesis using c_controller_hysteresis [of ?xs abs_controller_init "clit 100 1"]
    unfolding Let_def by (simp add: abs_controller_init_def)
qed

text \<open>C38: The slip the ECU acts on is the slip of its definition, up to rounding.  For binary32 inputs, a car between standstill and \<open>2 ^ 20\<close> m/s,
  wheel speeds in \<open>[0, 2 ^ 20]\<close>, a radius in \<open>[0, 16]\<close> and a threshold of at least \<open>1/1024\<close> m/s, the
  result is exactly 0 below the threshold; from the threshold on it is a number in \<open>[0, 1]\<close> within \<open>3 / 2 ^ 23\<close> of
  \<open>(v - omega r) / v\<close> clamped to \<open>[0, 1]\<close>, and exactly 0 if the rim is as fast as the car or faster.\<close>

theorem slip_protected_accuracy:
  assumes "canon B32 v" "is_fin v" "canon B32 omega" "is_fin omega" "canon B32 r" "is_fin r" "is_fin v_min"
    and "0 \<le> fval v" "fval v \<le> 2 ^ 20" and "0 \<le> fval omega" "fval omega \<le> 2 ^ 20" and "0 \<le> fval r" "fval r \<le> 16"
    and "1/1024 \<le> fval v_min"
  shows "let s = abs_controller_slip_protected v omega r v_min; exact = (fval v - fval omega * fval r) / fval v in
    (fval v < fval v_min \<longrightarrow> s = clit 0 1) \<and>
    (fval v_min \<le> fval v \<longrightarrow> is_fin s \<and> 0 \<le> fval s \<and> fval s \<le> 1 \<and> \<bar>fval s - max 0 (min 1 exact)\<bar> \<le> 3 / 2 ^ 23 \<and>
      (fval v \<le> fval omega * fval r \<longrightarrow> fval s = 0))"
proof -
  let ?x = "fval omega * fval r" and ?q = "cdiv (csub v (cmul omega r)) v"
  have guard: "flt (fabs v) v_min \<longleftrightarrow> fval v < fval v_min" using assms(2,7,8) canon_wff [OF assms(1,2)] by (simp add: flt_fin fabs_spec)
  show ?thesis
  proof (cases "fval v < fval v_min")
    case True
    then show ?thesis using guard by (simp add: abs_controller_slip_protected_def Let_def)
  next
    case False
    then have v: "1/1024 \<le> fval v" using assms(14) by linarith
    note q = slip_quotient [OF assms(1-6) v assms(9-13)]
    have s: "abs_controller_slip_protected v omega r v_min = (if flt ?q (clit 0 1) then clit 0 1 else if flt (clit 1 1) ?q then clit 1 1 else ?q)"
      using False guard by (simp add: abs_controller_slip_protected_def Let_def)
    have cl: "flt ?q (clit 0 1) \<longleftrightarrow> fval ?q < 0" "flt (clit 1 1) ?q \<longleftrightarrow> 1 < fval ?q" using q(1) clit01 by (simp_all add: flt_fin)
    have x0: "0 \<le> ?x" using assms(10,12) by simp
    show ?thesis
    proof (cases "fval v \<le> ?x")
      case True
      then have "(fval v - ?x) / fval v \<le> 0" using v by (simp add: divide_nonpos_pos)
      moreover have "is_fin (abs_controller_slip_protected v omega r v_min)" "fval (abs_controller_slip_protected v omega r v_min) = 0"
        unfolding s cl using q(1) q(2) [OF True] clit01 by auto
      ultimately show ?thesis using False by (simp add: Let_def)
    next
      case nle: False
      then have "0 \<le> (fval v - ?x) / fval v" "(fval v - ?x) / fval v \<le> 1" using x0 v by (simp_all add: field_simps)
      moreover have "abs_controller_slip_protected v omega r v_min = ?q"
        unfolding s cl using q(3) nle by auto
      ultimately show ?thesis using q(1) q(3) nle False by (simp add: Let_def)
    qed
  qed
qed

text \<open>At 20 m/s with the wheel at 60 rad/s and a radius of 5/16 m the slip is 1/16, up to rounding; at standstill it is 0.\<close>

theorem slip_protected_accuracy_witness:
  "(let s = abs_controller_slip_protected (clit 20 1) (clit 60 1) (clit 5 16) (clit 1 1) in
     is_fin s \<and> \<bar>fval s - 1/16\<bar> \<le> 3 / 2 ^ 23) \<and>
   abs_controller_slip_protected (clit 0 1) (clit 60 1) (clit 5 16) (clit 1 1) = clit 0 1"
proof -
  have c: "canon B32 (clit 20 1)" "is_fin (clit 20 1)" "canon B32 (clit 60 1)" "is_fin (clit 60 1)"
    "canon B32 (clit 5 16)" "is_fin (clit 5 16)" "is_fin (clit 1 1)" "canon B32 (clit 0 1)" "is_fin (clit 0 1)"
    "fval (clit 20 1) = 20" "fval (clit 60 1) = 60" "fval (clit 5 16) = 5/16" "fval (clit 1 1) = 1" "fval (clit 0 1) = 0"
    by code_simp+
  have "let s = abs_controller_slip_protected (clit 20 1) (clit 60 1) (clit 5 16) (clit 1 1) in
      is_fin s \<and> \<bar>fval s - 1/16\<bar> \<le> 3 / 2 ^ 23"
    using slip_protected_accuracy [OF c(1-7)] by (simp add: c Let_def)
  moreover have "abs_controller_slip_protected (clit 0 1) (clit 60 1) (clit 5 16) (clit 1 1) = clit 0 1"
    using slip_protected_accuracy [OF c(8,9,3-7)] by (simp add: c Let_def)
  ultimately show ?thesis ..
qed

end
