(* ===== verification/Ecu_Diagnostic.thy ===== *)
theory Ecu_Diagnostic
  imports Ecu_State_Properties
begin

unbundle bit_operations_syntax

text \<open>
  \<^verbatim>\<open>controller/src/app/diagnostic.c\<close>: the detectors behind the DTCs and the routine that runs them every cycle.
  The noise detector is modelled as it is written, and left out of \<open>diagnostic_check\<close> as in the source
  (its call is disabled there).
\<close>

section \<open>Definitions\<close>

definition WATCHDOG_TIMEOUT_CYCLES :: "32 word" where "WATCHDOG_TIMEOUT_CYCLES = 5"
definition CRC_RATE_DENOMINATOR :: "32 word" where "CRC_RATE_DENOMINATOR = 100"
definition DIAG_STUCK_THRESHOLD_CYCLES :: "32 word" where "DIAG_STUCK_THRESHOLD_CYCLES = 10"
definition DIAG_STUCK_V_MIN :: pyfloat where "DIAG_STUCK_V_MIN = clit 1 1"
definition DIAG_NOISE_WINDOW_SIZE :: "32 word" where "DIAG_NOISE_WINDOW_SIZE = 20"
definition DIAG_NOISE_SIGN_CHANGES_MIN :: "32 word" where "DIAG_NOISE_SIGN_CHANGES_MIN = 12"
definition DIAG_NOISE_MEAN_ABS_DIFF_MIN :: pyfloat where "DIAG_NOISE_MEAN_ABS_DIFF_MIN = clit 1 1"
definition DIAG_OMEGA_MIN :: pyfloat where "DIAG_OMEGA_MIN = clit (- 1) 1"
definition DIAG_OMEGA_MAX :: pyfloat where "DIAG_OMEGA_MAX = clit 500 1"
definition DIAG_V_MIN :: pyfloat where "DIAG_V_MIN = clit (- 1) 1"
definition DIAG_V_MAX :: pyfloat where "DIAG_V_MAX = clit 120 1"
definition DIAG_PLAUSIBILITY_EPSILON :: pyfloat where "DIAG_PLAUSIBILITY_EPSILON = clit 5 10"
definition DIAG_PLAUSIBILITY_CYCLES :: "32 word" where "DIAG_PLAUSIBILITY_CYCLES = 5"
definition DIAG_CRC_ERROR_RATE_THRESHOLD :: "32 word" where "DIAG_CRC_ERROR_RATE_THRESHOLD = 5"

record diagnostic_ctx =
  dg_last_omega :: pyfloat
  dg_last_v :: pyfloat
  dg_stuck_count :: "32 word"
  dg_noise_window :: "pyfloat list"
  dg_noise_idx :: "32 word"
  dg_noise_window_full :: bool
  dg_plausibility_count :: "32 word"
  dg_crc_errors_in_window :: "32 word"
  dg_cycles_in_window :: "32 word"
  dg_last_crc_errors_seen :: "32 word"

definition diagnostic_init :: diagnostic_ctx where
  "diagnostic_init = \<lparr>dg_last_omega = clit 0 1, dg_last_v = clit 0 1, dg_stuck_count = 0,
     dg_noise_window = replicate 20 (clit 0 1), dg_noise_idx = 0, dg_noise_window_full = False,
     dg_plausibility_count = 0, dg_crc_errors_in_window = 0, dg_cycles_in_window = 0, dg_last_crc_errors_seen = 0\<rparr>"

definition diagnostic_is_stuck :: "diagnostic_ctx \<Rightarrow> pyfloat \<Rightarrow> pyfloat \<Rightarrow> bool \<times> diagnostic_ctx" where
  "diagnostic_is_stuck ctx omega v_vehicle =
    (let omega_frozen = feq omega (dg_last_omega ctx);
         vehicle_moving = flt DIAG_STUCK_V_MIN v_vehicle;
         ctx = ctx\<lparr>dg_stuck_count := (if omega_frozen \<and> vehicle_moving then dg_stuck_count ctx + 1 else 0),
                   dg_last_omega := omega, dg_last_v := v_vehicle\<rparr>
     in (DIAG_STUCK_THRESHOLD_CYCLES \<le> dg_stuck_count ctx, ctx))"

text \<open>The loop over the reassembled window: sign changes, sum of absolute differences, last difference.\<close>

fun noise_loop :: "pyfloat list \<Rightarrow> nat list \<Rightarrow> 32 word \<times> pyfloat \<times> pyfloat \<Rightarrow> 32 word \<times> pyfloat \<times> pyfloat" where
  "noise_loop win [] acc = acc"
| "noise_loop win (i # is) (sign_changes, abs_sum, prev_delta) =
     (let delta = csub (win ! i) (win ! (i - 1)) in
      noise_loop win is
        (if flt (cmul prev_delta delta) (clit 0 1) then sign_changes + 1 else sign_changes,
         cadd abs_sum (fabs delta), delta))"

definition noise_chronological :: "diagnostic_ctx \<Rightarrow> pyfloat list" where
  "noise_chronological ctx = map (\<lambda>k. dg_noise_window ctx ! unat ((dg_noise_idx ctx + of_nat k) mod DIAG_NOISE_WINDOW_SIZE)) [0..<20]"

definition diagnostic_is_noisy :: "diagnostic_ctx \<Rightarrow> pyfloat \<Rightarrow> bool \<times> diagnostic_ctx" where
  "diagnostic_is_noisy ctx omega =
    (let ctx = ctx\<lparr>dg_noise_window := (dg_noise_window ctx)[unat (dg_noise_idx ctx) := omega],
                   dg_noise_idx := (dg_noise_idx ctx + 1) mod DIAG_NOISE_WINDOW_SIZE\<rparr>;
         ctx = (if dg_noise_idx ctx = 0 then ctx\<lparr>dg_noise_window_full := True\<rparr> else ctx)
     in if \<not> dg_noise_window_full ctx then (False, ctx)
        else let win = noise_chronological ctx;
                 prev_delta = csub (win ! 1) (win ! 0);
                 (sign_changes, abs_sum, _) = noise_loop win [2..<20] (0, cadd (clit 0 1) (fabs prev_delta), prev_delta);
                 mean_abs_d = cdiv abs_sum (clit 19 1)
             in (DIAG_NOISE_SIGN_CHANGES_MIN \<le> sign_changes \<and> fle DIAG_NOISE_MEAN_ABS_DIFF_MIN mean_abs_d, ctx))"

definition diagnostic_out_of_range :: "pyfloat \<Rightarrow> pyfloat \<Rightarrow> bool" where
  "diagnostic_out_of_range v omega =
    (if flt omega DIAG_OMEGA_MIN \<or> flt DIAG_OMEGA_MAX omega then True
     else if flt v DIAG_V_MIN \<or> flt DIAG_V_MAX v then True
     else if \<not> is_fin omega \<or> \<not> is_fin v then True
     else False)"

definition diagnostic_implausible :: "diagnostic_ctx \<Rightarrow> pyfloat \<Rightarrow> pyfloat \<Rightarrow> pyfloat \<Rightarrow> bool \<times> diagnostic_ctx" where
  "diagnostic_implausible ctx v omega wheel_radius_m =
    (if flt v (clit 1 1) then (False, ctx\<lparr>dg_plausibility_count := 0\<rparr>)
     else let ctx = ctx\<lparr>dg_plausibility_count :=
                (if flt (cadd v DIAG_PLAUSIBILITY_EPSILON) (cmul omega wheel_radius_m)
                 then dg_plausibility_count ctx + 1 else 0)\<rparr>
          in (DIAG_PLAUSIBILITY_CYCLES \<le> dg_plausibility_count ctx, ctx))"

text \<open>The window of the CRC error rate, one cycle.\<close>

definition crc_rate_step :: "diagnostic_ctx \<Rightarrow> 32 word \<Rightarrow> bool \<times> diagnostic_ctx" where
  "crc_rate_step ctx crc_errors_total =
    (let ctx = ctx\<lparr>dg_cycles_in_window := dg_cycles_in_window ctx + 1\<rparr>;
         full = CRC_RATE_DENOMINATOR \<le> dg_cycles_in_window ctx;
         raised = (full \<and> DIAG_CRC_ERROR_RATE_THRESHOLD \<le> dg_crc_errors_in_window ctx);
         ctx = (if full then ctx\<lparr>dg_crc_errors_in_window := 0, dg_cycles_in_window := 0\<rparr> else ctx);
         ctx = (if dg_last_crc_errors_seen ctx < crc_errors_total
                then ctx\<lparr>dg_crc_errors_in_window := dg_crc_errors_in_window ctx + (crc_errors_total - dg_last_crc_errors_seen ctx),
                         dg_last_crc_errors_seen := crc_errors_total\<rparr>
                else ctx)
     in (raised, ctx))"

definition diagnostic_step :: "diagnostic_ctx \<Rightarrow> sensors_data \<Rightarrow> pyfloat \<Rightarrow> 32 word \<Rightarrow> 32 word \<Rightarrow> dtc \<times> diagnostic_ctx" where
  "diagnostic_step ctx sensors wheel_radius_m cycles_since_valid crc_errors_total =
    (let d = C_DTC_NONE;
         d = (if WATCHDOG_TIMEOUT_CYCLES < cycles_since_valid then d OR C_DTC_COMM_TIMEOUT else d);
         (crc, ctx) = crc_rate_step ctx crc_errors_total;
         d = (if crc then d OR C_DTC_COMM_CRC else d)
     in if \<not> sd_valid sensors then (d, ctx)
        else if diagnostic_out_of_range (sd_v_vehicle sensors) (sd_omega_wheel sensors)
        then (d OR C_DTC_SENSOR_RANGE, ctx)
        else let (stuck, ctx) = diagnostic_is_stuck ctx (sd_omega_wheel sensors) (sd_v_vehicle sensors);
                 d = (if stuck then d OR C_DTC_SENSOR_STUCK else d);
                 (implausible, ctx) = diagnostic_implausible ctx (sd_v_vehicle sensors) (sd_omega_wheel sensors) wheel_radius_m;
                 d = (if implausible then d OR C_DTC_PLAUSIBILITY else d)
             in (d, ctx))"

definition diagnostic_check :: "diagnostic_ctx option \<Rightarrow> sensors_data option \<Rightarrow> pyfloat \<Rightarrow> 32 word \<Rightarrow> 32 word \<Rightarrow>
    dtc \<times> diagnostic_ctx option" where
  "diagnostic_check ctx sensors wheel_radius_m cycles_since_valid crc_errors_total = (case (ctx, sensors) of
     (Some c, Some s) \<Rightarrow> (case diagnostic_step c s wheel_radius_m cycles_since_valid crc_errors_total of (d, c) \<Rightarrow> (d, Some c))
   | _ \<Rightarrow> (C_DTC_PLAUSIBILITY, ctx))"

section \<open>The stuck detector\<close>

text \<open>What the detector is called with over a run, and what it says on the last sample.\<close>

fun stuck_run :: "diagnostic_ctx \<Rightarrow> (pyfloat \<times> pyfloat) list \<Rightarrow> bool" where
  "stuck_run ctx [] = False"
| "stuck_run ctx [(omega, v)] = fst (diagnostic_is_stuck ctx omega v)"
| "stuck_run ctx ((omega, v) # x # xs) = stuck_run (snd (diagnostic_is_stuck ctx omega v)) (x # xs)"

text \<open>The specification: which samples repeat the one before while the vehicle moves.\<close>

definition repeats :: "pyfloat \<Rightarrow> (pyfloat \<times> pyfloat) list \<Rightarrow> bool list" where
  "repeats omega0 xs = map (\<lambda>(last_omega, omega, v). feq omega last_omega \<and> flt DIAG_STUCK_V_MIN v)
     (zip (omega0 # map fst xs) xs)"

definition stuck_ctxs :: "diagnostic_ctx \<Rightarrow> (pyfloat \<times> pyfloat) list \<Rightarrow> diagnostic_ctx" where
  "stuck_ctxs = foldl (\<lambda>ctx (omega, v). snd (diagnostic_is_stuck ctx omega v))"

lemma stuck_run_snoc: "stuck_run ctx (xs @ [(omega, v)]) = fst (diagnostic_is_stuck (stuck_ctxs ctx xs) omega v)"
proof (induction xs arbitrary: ctx)
  case (Cons x xs)
  obtain o' v' where x: "x = (o', v')" by force
  show ?case using Cons [of "snd (diagnostic_is_stuck ctx o' v')"] by (cases xs) (simp_all add: x stuck_ctxs_def)
qed (simp add: stuck_ctxs_def)

lemma repeats_snoc:
  "repeats o0 (xs @ [(omega, v)]) = repeats o0 xs @ [feq omega (last (o0 # map fst xs)) \<and> flt DIAG_STUCK_V_MIN v]"
proof -
  have "zip (o0 # map fst (xs @ [(omega, v)])) (xs @ [(omega, v)]) =
    zip (o0 # map fst xs) xs @ [(last (o0 # map fst xs), omega, v)]"
  proof (induction xs arbitrary: o0)
    case (Cons x xs)
    then show ?case by (cases x) auto
  qed simp
  then show ?thesis by (simp add: repeats_def)
qed

lemma stuck_invariant:
  assumes "length xs < 2 ^ 32"
  shows "unat (dg_stuck_count (stuck_ctxs diagnostic_init xs)) = streak (repeats (clit 0 1) xs) \<and>
    dg_last_omega (stuck_ctxs diagnostic_init xs) = last (clit 0 1 # map fst xs)"
  using assms
proof (induction xs rule: rev_induct)
  case Nil
  then show ?case by (simp add: stuck_ctxs_def diagnostic_init_def repeats_def)
next
  case (snoc x xs)
  obtain omega v where x: "x = (omega, v)" by force
  let ?c = "stuck_ctxs diagnostic_init xs"
  have IH: "unat (dg_stuck_count ?c) = streak (repeats (clit 0 1) xs)" "dg_last_omega ?c = last (clit 0 1 # map fst xs)"
    using snoc by auto
  have s: "streak (repeats (clit 0 1) xs) < 2 ^ 32 - 1"
    using streak_le [of "repeats (clit 0 1) xs"] snoc.prems by (simp add: repeats_def)
  have u: "unat (dg_stuck_count ?c + 1) = Suc (streak (repeats (clit 0 1) xs))"
    using IH(1) s by (subst unat_add_lem [THEN iffD1]) auto
  have c: "stuck_ctxs diagnostic_init (xs @ [x]) = snd (diagnostic_is_stuck ?c omega v)" by (simp add: stuck_ctxs_def x)
  show ?case
    using IH u unfolding c by (simp add: x repeats_snoc streak_snoc diagnostic_is_stuck_def Let_def)
qed

text \<open>C22: The stuck detector: from reset, and for fewer than 2^32 samples, it fires on a sample exactly if the last ten
  samples, this one included, each repeated the wheel speed of the one before while the vehicle moved
  at more than 1 m/s (before the first sample the wheel speed counts as 0).\<close>

theorem stuck_spec:
  assumes "length xs < 2 ^ 32" and "xs \<noteq> []"
  shows "stuck_run diagnostic_init xs \<longleftrightarrow> (\<exists>us. repeats (clit 0 1) xs = us @ replicate 10 True)"
proof -
  obtain ys omega v where xs: "xs = ys @ [(omega, v)]" using assms(2) by (cases xs rule: rev_cases) auto
  have c: "stuck_ctxs diagnostic_init xs = snd (diagnostic_is_stuck (stuck_ctxs diagnostic_init ys) omega v)"
    by (simp add: stuck_ctxs_def xs)
  have "stuck_run diagnostic_init xs \<longleftrightarrow> DIAG_STUCK_THRESHOLD_CYCLES \<le> dg_stuck_count (stuck_ctxs diagnostic_init xs)"
    unfolding c unfolding xs stuck_run_snoc by (simp add: diagnostic_is_stuck_def Let_def)
  also have "\<dots> \<longleftrightarrow> 10 \<le> streak (repeats (clit 0 1) xs)"
    using stuck_invariant [OF assms(1)] by (simp add: DIAG_STUCK_THRESHOLD_CYCLES_def word_le_nat_alt)
  finally show ?thesis by (simp add: streak_suffix)
qed

theorem stuck_spec_witness:
  "stuck_run diagnostic_init (replicate 11 (clit 7 1, clit 20 1)) \<and>
   \<not> stuck_run diagnostic_init (replicate 10 (clit 7 1, clit 20 1))"
proof -
  have r: "repeats (clit 0 1) (replicate 11 (clit 7 1, clit 20 1)) = [False] @ replicate 10 True"
    "repeats (clit 0 1) (replicate 10 (clit 7 1, clit 20 1)) = [False] @ replicate 9 True" by code_simp+
  moreover have "\<not> (\<exists>us. [False] @ replicate 9 True = us @ replicate 10 True)"
  proof
    assume "\<exists>us. [False] @ replicate 9 True = us @ replicate 10 True"
    then obtain us where e: "[False] @ replicate 9 True = us @ replicate 10 True" by blast
    then have "length ([False] @ replicate 9 True) = length (us @ replicate 10 True)" by (rule arg_cong)
    then have "us = []" by simp
    with e show False by (simp add: eval_nat_numeral)
  qed
  ultimately show ?thesis
    using stuck_spec [of "replicate 11 (clit 7 1, clit 20 1)"] stuck_spec [of "replicate 10 (clit 7 1, clit 20 1)"]
    by (auto simp del: append_Cons)
qed

end
