(* ===== verification/Ecu_Diagnostic_Properties.thy ===== *)
theory Ecu_Diagnostic_Properties
  imports Ecu_Diagnostic
begin

unbundle bit_operations_syntax

text \<open>
  The detectors over a run: the range check is exactly a range check, the CRC rate is measured over windows of
  100 cycles, and the circular buffer of the noise detector holds the last twenty samples in order.
\<close>

section \<open>The range check\<close>

text \<open>The range check accepts exactly the finite speeds in \<open>[-1, 120]\<close> m/s and wheel speeds in \<open>[-1, 500]\<close> rad/s:
  NaN and the infinities are out of range.\<close>

theorem out_of_range_spec:
  "diagnostic_out_of_range v omega \<longleftrightarrow> \<not> (is_fin v \<and> is_fin omega \<and>
     - 1 \<le> fval v \<and> fval v \<le> 120 \<and> - 1 \<le> fval omega \<and> fval omega \<le> 500)"
proof -
  have c: "is_fin (clit (- 1) 1)" "fval (clit (- 1) 1) = - 1" "is_fin (clit 120 1)" "fval (clit 120 1) = 120"
    "is_fin (clit 500 1)" "fval (clit 500 1) = 500" by code_simp+
  show ?thesis
    by (cases "is_fin v"; cases "is_fin omega")
      (auto simp: diagnostic_out_of_range_def DIAG_OMEGA_MIN_def DIAG_OMEGA_MAX_def DIAG_V_MIN_def DIAG_V_MAX_def
        flt_fin c)
qed

section \<open>The CRC rate\<close>

definition crc_ctxs :: "diagnostic_ctx \<Rightarrow> 32 word list \<Rightarrow> diagnostic_ctx" where
  "crc_ctxs = foldl (\<lambda>ctx cnt. snd (crc_rate_step ctx cnt))"

text \<open>The error count after cycle \<open>i\<close>, zero before the first.\<close>

definition total_at :: "32 word list \<Rightarrow> nat \<Rightarrow> nat" where
  "total_at totals i = (if i = 0 then 0 else unat (totals ! (i - 1)))"

lemma total_at_append: "i \<le> length xs \<Longrightarrow> total_at (xs @ ys) i = total_at xs i"
  by (cases i) (simp_all add: total_at_def nth_append)

lemma total_at_last: "total_at (xs @ [x]) (Suc (length xs)) = unat x"
  by (simp add: total_at_def)

lemma total_at_mono: "sorted totals \<Longrightarrow> i \<le> j \<Longrightarrow> j \<le> length totals \<Longrightarrow> total_at totals i \<le> total_at totals j"
  by (cases i; cases j) (auto simp: total_at_def word_le_nat_alt [symmetric] intro: sorted_nth_mono)

definition crc_inv :: "32 word list \<Rightarrow> diagnostic_ctx \<Rightarrow> bool" where
  "crc_inv totals ctx \<longleftrightarrow> unat (dg_cycles_in_window ctx) = length totals mod 100 \<and>
     unat (dg_last_crc_errors_seen ctx) = total_at totals (length totals) \<and>
     unat (dg_crc_errors_in_window ctx) =
       total_at totals (length totals) - total_at totals (length totals - length totals mod 100 - 1)"

lemma unat_Suc_small: "unat w < 100 \<Longrightarrow> unat (w + 1) = Suc (unat w)" for w :: "32 word"
  by (subst unat_add_lem [THEN iffD1]) auto

lemma crc_inv_step:
  assumes inv: "crc_inv xs ctx" and s: "sorted (xs @ [x])"
  shows "crc_inv (xs @ [x]) (snd (crc_rate_step ctx x))"
    "fst (crc_rate_step ctx x) \<longleftrightarrow> Suc (length xs) mod 100 = 0 \<and>
       5 \<le> total_at xs (length xs) - total_at xs (length xs - length xs mod 100 - 1)"
proof -
  let ?n = "length xs" and ?l = "dg_last_crc_errors_seen ctx" and ?e = "dg_crc_errors_in_window ctx"
  have c: "unat (dg_cycles_in_window ctx) = ?n mod 100" "unat ?l = total_at xs ?n"
    "unat ?e = total_at xs ?n - total_at xs (?n - ?n mod 100 - 1)" using inv by (simp_all add: crc_inv_def)
  have "unat (dg_cycles_in_window ctx) < 100" using c(1) by simp
  from unat_Suc_small [OF this] have c1: "unat (dg_cycles_in_window ctx + 1) = Suc (?n mod 100)" using c(1) by simp
  have full: "CRC_RATE_DENOMINATOR \<le> dg_cycles_in_window ctx + 1 \<longleftrightarrow> Suc ?n mod 100 = 0"
    using c1 mod_less_divisor [of 100 ?n] unfolding CRC_RATE_DENOMINATOR_def word_le_nat_alt mod_Suc by auto
  have thr: "DIAG_CRC_ERROR_RATE_THRESHOLD \<le> ?e \<longleftrightarrow> 5 \<le> unat ?e"
    by (simp add: DIAG_CRC_ERROR_RATE_THRESHOLD_def word_le_nat_alt)
  show "fst (crc_rate_step ctx x) \<longleftrightarrow> Suc ?n mod 100 = 0 \<and>
       5 \<le> total_at xs ?n - total_at xs (?n - ?n mod 100 - 1)"
    by (simp add: crc_rate_step_def Let_def full thr c(3))
  have mono: "total_at (xs @ [x]) i \<le> total_at (xs @ [x]) j" if "i \<le> j" "j \<le> Suc ?n" for i j
    using total_at_mono [OF s] that by simp
  have lx: "unat ?l \<le> unat x" using mono [of ?n "Suc ?n"] c(2) by (simp add: total_at_append total_at_last)
  define e where "e = (if Suc ?n mod 100 = 0 then 0 else ?e)"
  have res: "snd (crc_rate_step ctx x) =
      (let ctx = ctx\<lparr>dg_cycles_in_window := (if Suc ?n mod 100 = 0 then 0 else dg_cycles_in_window ctx + 1),
         dg_crc_errors_in_window := e\<rparr> in
       if ?l < x then ctx\<lparr>dg_crc_errors_in_window := e + (x - ?l), dg_last_crc_errors_seen := x\<rparr> else ctx)"
    by (simp add: crc_rate_step_def Let_def full e_def)
  have eq: "unat x = unat ?l" if "\<not> ?l < x" using that lx by (simp add: word_less_nat_alt)
  have dif: "unat (x - ?l) = unat x - unat ?l" using lx by (simp add: unat_sub word_le_nat_alt)
  have "unat e \<le> unat ?l" by (simp add: e_def c)
  then have e_le: "unat e + (unat x - unat ?l) \<le> unat x" using lx by simp
  have sum: "unat (e + (x - ?l)) = unat e + (unat x - unat ?l)"
    unfolding dif [symmetric] using e_le unsigned_less [of x, where ?'a = nat] dif by (subst unat_add_lem [THEN iffD1]) auto
  have err: "unat (dg_crc_errors_in_window (snd (crc_rate_step ctx x))) = unat e + (unat x - unat ?l)"
    using sum eq by (simp add: res Let_def)
  have lst: "unat (dg_last_crc_errors_seen (snd (crc_rate_step ctx x))) = unat x"
    using eq by (simp add: res Let_def)
  have cyc: "unat (dg_cycles_in_window (snd (crc_rate_step ctx x))) = Suc ?n mod 100"
    using c1 by (simp add: res Let_def mod_Suc)
  have "unat e + (unat x - unat ?l) = unat x - total_at (xs @ [x]) (Suc ?n - Suc ?n mod 100 - 1)"
  proof (cases "Suc ?n mod 100 = 0")
    case True
    then show ?thesis using c(2) by (simp add: e_def total_at_append)
  next
    case False
    have k: "Suc ?n - Suc ?n mod 100 = ?n - ?n mod 100" using False by (simp add: mod_Suc split: if_splits)
    have j: "total_at xs (?n - ?n mod 100 - 1) \<le> total_at xs ?n"
      using mono [of "?n - ?n mod 100 - 1" ?n] by (simp add: total_at_append)
    show ?thesis using False c(2,3) lx j unfolding k by (simp add: e_def total_at_append)
  qed
  then show "crc_inv (xs @ [x]) (snd (crc_rate_step ctx x))"
    using cyc lst err by (simp add: crc_inv_def total_at_last)
qed

lemma crc_inv_run: "sorted totals \<Longrightarrow> crc_inv totals (crc_ctxs diagnostic_init totals)"
proof (induction totals rule: rev_induct)
  case Nil
  then show ?case by (simp add: crc_ctxs_def crc_inv_def diagnostic_init_def total_at_def)
next
  case (snoc x xs)
  have "sorted xs" using snoc.prems by (simp add: sorted_append)
  from crc_inv_step(1) [OF snoc.IH [OF this] snoc.prems] show ?case by (simp add: crc_ctxs_def)
qed

text \<open>C23: The CRC error rate: from reset, with a count that never decreases, DTC_COMM_CRC is raised exactly on the cycles
  numbered 100, 200, ..., and there exactly if at least 5 errors were counted between the cycle before
  the window's first and the last but one cycle: the error of the very cycle belongs to the next window.\<close>

theorem crc_rate_spec:
  assumes "sorted (totals @ [cnt])"
  shows "fst (crc_rate_step (crc_ctxs diagnostic_init totals) cnt) \<longleftrightarrow>
    100 dvd Suc (length totals) \<and>
    total_at totals (length totals - 100) + 5 \<le> total_at totals (length totals)"
proof -
  have s: "sorted totals" using assms by (simp add: sorted_append)
  let ?n = "length totals"
  have le: "total_at totals (?n - 100) \<le> total_at totals ?n" using total_at_mono [OF s] by simp
  note step = crc_inv_step(2) [OF crc_inv_run [OF s] assms]
  show ?thesis
  proof (cases "Suc ?n mod 100 = 0")
    case True
    then have "?n mod 100 = 99" by (simp add: mod_Suc split: if_splits)
    then have k: "?n - ?n mod 100 - 1 = ?n - 100" by simp
    have "100 dvd Suc ?n" using True by (simp only: dvd_eq_mod_eq_0)
    then show ?thesis using step True le unfolding k by linarith
  next
    case False
    then show ?thesis using step by (simp only: dvd_eq_mod_eq_0 simp_thms)
  qed
qed

theorem crc_rate_spec_witness:
  "fst (crc_rate_step (crc_ctxs diagnostic_init (replicate 99 5)) 5)"
proof -
  define n :: nat where "n = 99"
  have "sorted (replicate n (5 :: 32 word) @ [5])" by (simp add: sorted_append)
  moreover have n: "0 < n" "n - 100 = 0" "Suc n = 100" by (simp_all add: n_def)
  moreover have "total_at (replicate n 5) n = 5" "total_at (replicate n 5) 0 = 0" using n by (simp_all add: total_at_def)
  ultimately show ?thesis using crc_rate_spec [of "replicate n 5" 5] unfolding n_def [symmetric] by simp
qed

section \<open>The noise window\<close>

definition noise_ctxs :: "diagnostic_ctx \<Rightarrow> pyfloat list \<Rightarrow> diagnostic_ctx" where
  "noise_ctxs = foldl (\<lambda>ctx omega. snd (diagnostic_is_noisy ctx omega))"

definition noise_inv :: "pyfloat list \<Rightarrow> diagnostic_ctx \<Rightarrow> bool" where
  "noise_inv xs ctx \<longleftrightarrow> length (dg_noise_window ctx) = 20 \<and> unat (dg_noise_idx ctx) = length xs mod 20 \<and>
     (dg_noise_window_full ctx \<longleftrightarrow> 20 \<le> length xs) \<and>
     (\<forall>i < length xs. length xs \<le> i + 20 \<longrightarrow> dg_noise_window ctx ! (i mod 20) = xs ! i)"

lemma noisy_ctx:
  "snd (diagnostic_is_noisy ctx omega) =
    (let ctx = ctx\<lparr>dg_noise_window := (dg_noise_window ctx)[unat (dg_noise_idx ctx) := omega],
                   dg_noise_idx := (dg_noise_idx ctx + 1) mod DIAG_NOISE_WINDOW_SIZE\<rparr>
     in if dg_noise_idx ctx = 0 then ctx\<lparr>dg_noise_window_full := True\<rparr> else ctx)"
  by (simp add: diagnostic_is_noisy_def Let_def del: upt_rec_numeral noise_loop.simps split: prod.split)

lemma noisy_silent:
  "\<not> dg_noise_window_full (snd (diagnostic_is_noisy ctx omega)) \<Longrightarrow> \<not> fst (diagnostic_is_noisy ctx omega)"
  unfolding noisy_ctx unfolding diagnostic_is_noisy_def Let_def by (simp del: upt_rec_numeral noise_loop.simps)

lemma unat_idx: "unat w < 20 \<Longrightarrow> unat ((w + 1) mod DIAG_NOISE_WINDOW_SIZE) = Suc (unat w) mod 20" for w :: "32 word"
  by (simp add: DIAG_NOISE_WINDOW_SIZE_def unat_mod unat_Suc_small)

lemma near_mod_neq: "i < n \<Longrightarrow> n < i + 20 \<Longrightarrow> n mod 20 \<noteq> i mod 20" for i n :: nat
  by (metis add.commute dvd_imp_le less_diff_conv2 less_imp_le_nat mod_eq_dvd_iff_nat not_le zero_less_diff)

lemma window_mod: "19 \<le> n \<Longrightarrow> (Suc n mod 20 + k) mod 20 = (n - 19 + k) mod 20" for n :: nat
proof -
  assume "19 \<le> n"
  then have "Suc n + k = (n - 19 + k) + 20" by simp
  then show ?thesis by (simp only: mod_add_left_eq mod_add_self2)
qed

lemma noise_inv_step:
  assumes inv: "noise_inv xs ctx"
  shows "noise_inv (xs @ [omega]) (snd (diagnostic_is_noisy ctx omega))"
proof -
  let ?n = "length xs" and ?w = "(dg_noise_window ctx)[length xs mod 20 := omega]"
  have c: "length (dg_noise_window ctx) = 20" "unat (dg_noise_idx ctx) = ?n mod 20"
    "dg_noise_window_full ctx \<longleftrightarrow> 20 \<le> ?n"
    "\<And>i. i < ?n \<Longrightarrow> ?n \<le> i + 20 \<Longrightarrow> dg_noise_window ctx ! (i mod 20) = xs ! i"
    using inv by (simp_all add: noise_inv_def)
  have idx: "unat ((dg_noise_idx ctx + 1) mod DIAG_NOISE_WINDOW_SIZE) = Suc ?n mod 20"
    using unat_idx [of "dg_noise_idx ctx"] c(2) by (simp add: mod_Suc_eq)
  have z: "(dg_noise_idx ctx + 1) mod DIAG_NOISE_WINDOW_SIZE = 0 \<longleftrightarrow> Suc ?n mod 20 = 0"
    unfolding idx [symmetric] by (simp add: unat_eq_0)
  have full: "Suc ?n mod 20 = 0 \<or> 20 \<le> ?n \<longleftrightarrow> 20 \<le> Suc ?n" by presburger
  have win: "?w ! (i mod 20) = (xs @ [omega]) ! i" if i: "i < Suc ?n" "Suc ?n \<le> i + 20" for i
  proof (cases "i = ?n")
    case True
    then show ?thesis using c(1) by simp
  next
    case False
    then have "i < ?n" using i by simp
    then have ne: "?n mod 20 \<noteq> i mod 20" using i by (intro near_mod_neq) simp_all
    have "dg_noise_window ctx ! (i mod 20) = xs ! i" using c(4) \<open>i < ?n\<close> i(2) by (meson Suc_leD)
    then show ?thesis using \<open>i < ?n\<close> by (simp only: nth_list_update_neq [OF ne] nth_append if_True)
  qed
  have f: "dg_noise_window (snd (diagnostic_is_noisy ctx omega)) = ?w"
    "dg_noise_idx (snd (diagnostic_is_noisy ctx omega)) = (dg_noise_idx ctx + 1) mod DIAG_NOISE_WINDOW_SIZE"
    "dg_noise_window_full (snd (diagnostic_is_noisy ctx omega)) \<longleftrightarrow> 20 \<le> Suc ?n"
    unfolding noisy_ctx Let_def full [symmetric] using z c(3) by (simp_all add: c(2))
  have "length ?w = 20" using c(1) by simp
  then show ?thesis unfolding noise_inv_def f idx using win by (simp only: length_append_singleton) blast
qed

lemma noise_inv_run: "noise_inv xs (noise_ctxs diagnostic_init xs)"
proof (induction xs rule: rev_induct)
  case Nil
  show ?case by (simp add: noise_inv_def noise_ctxs_def diagnostic_init_def)
next
  case (snoc x xs)
  from noise_inv_step [OF this] show ?case by (simp add: noise_ctxs_def)
qed

lemma chronological_index:
  fixes w :: "32 word"
  assumes "unat w < 20" "k < 20"
  shows "unat ((w + of_nat k) mod DIAG_NOISE_WINDOW_SIZE) = (unat w + k) mod 20"
proof -
  have "unat (of_nat k :: 32 word) = k" using assms(2) by (simp add: unat_of_nat)
  then have "unat (w + of_nat k) = unat w + k" using assms by (subst unat_add_lem [THEN iffD1]) auto
  then show ?thesis by (simp add: DIAG_NOISE_WINDOW_SIZE_def unat_mod)
qed

lemma noise_inv_chronological:
  assumes inv: "noise_inv (xs @ [omega]) c" and n: "19 \<le> length xs" and k: "k < 20"
  shows "noise_chronological c ! k = (xs @ [omega]) ! (length xs - 19 + k)"
proof -
  let ?j = "length xs - 19 + k"
  have u: "unat (dg_noise_idx c) = Suc (length xs) mod 20" using inv by (simp only: noise_inv_def length_append_singleton)
  then have l: "unat (dg_noise_idx c) < 20" by simp
  have "noise_chronological c ! k = dg_noise_window c ! ((unat (dg_noise_idx c) + k) mod 20)"
    using chronological_index [OF l k] k unfolding noise_chronological_def by (simp del: upt_rec_numeral)
  also have "(unat (dg_noise_idx c) + k) mod 20 = ?j mod 20" unfolding u by (rule window_mod [OF n])
  also have "dg_noise_window c ! (?j mod 20) = (xs @ [omega]) ! ?j"
  proof -
    have "?j < Suc (length xs)" "Suc (length xs) \<le> ?j + 20" using n k by linarith+
    then show ?thesis using inv unfolding noise_inv_def length_append_singleton by blast
  qed
  finally show ?thesis .
qed

lemma noise_window_last:
  assumes "19 \<le> length xs"
  shows "noise_chronological (noise_ctxs diagnostic_init (xs @ [omega])) = drop (length xs - 19) (xs @ [omega])"
proof (rule nth_equalityI)
  let ?ys = "xs @ [omega]"
  show l: "length (noise_chronological (noise_ctxs diagnostic_init ?ys)) = length (drop (length xs - 19) ?ys)"
    using assms by (simp add: noise_chronological_def del: upt_rec_numeral)
  fix k assume "k < length (noise_chronological (noise_ctxs diagnostic_init ?ys))"
  then have "k < 20" using l assms by simp
  from noise_inv_chronological [OF noise_inv_run assms this]
  show "noise_chronological (noise_ctxs diagnostic_init ?ys) ! k = drop (length xs - 19) ?ys ! k"
    using assms by (simp only: nth_drop length_append_singleton)
qed

text \<open>The specification of the verdict on a window: at least 12 of the 18 pairs of neighbouring differences have
  opposite signs, and the mean of the 19 absolute differences is at least 1 rad/s, in the arithmetic of C.\<close>

definition window_delta :: "pyfloat list \<Rightarrow> nat \<Rightarrow> pyfloat" where
  "window_delta win i = csub (win ! i) (win ! (i - 1))"

definition noise_verdict :: "pyfloat list \<Rightarrow> bool" where
  "noise_verdict win \<longleftrightarrow> 12 \<le> length (filter (\<lambda>i. flt (cmul (window_delta win i) (window_delta win (i + 1))) (clit 0 1)) [1..<19]) \<and>
     fle DIAG_NOISE_MEAN_ABS_DIFF_MIN (cdiv (foldl (\<lambda>s i. cadd s (fabs (window_delta win i))) (clit 0 1) [1..<20]) (clit 19 1))"

lemma noise_loop_counts:
  "noise_loop win [Suc k..<Suc k + n] (c, s, window_delta win k) =
    (c + of_nat (length (filter (\<lambda>i. flt (cmul (window_delta win i) (window_delta win (i + 1))) (clit 0 1)) [k..<k + n])),
     foldl (\<lambda>s i. cadd s (fabs (window_delta win i))) s [Suc k..<Suc k + n], window_delta win (k + n))"
proof (induction n arbitrary: k c s)
  case (Suc n)
  have u: "[Suc k..<Suc k + Suc n] = Suc k # [Suc (Suc k)..<Suc (Suc k) + n]" "[k..<k + Suc n] = k # [Suc k..<Suc k + n]"
    by (simp_all add: upt_rec)
  have d: "csub (win ! Suc k) (win ! (Suc k - 1)) = window_delta win (Suc k)" by (simp add: window_delta_def)
  show ?case unfolding u noise_loop.simps d Let_def Suc.IH by simp
qed simp

lemma noisy_full:
  assumes "dg_noise_window_full (snd (diagnostic_is_noisy ctx omega))"
  shows "fst (diagnostic_is_noisy ctx omega) = noise_verdict (noise_chronological (snd (diagnostic_is_noisy ctx omega)))"
proof -
  let ?c = "snd (diagnostic_is_noisy ctx omega)"
  let ?w = "noise_chronological ?c"
  have l: "(c :: 32 word) = 0 + of_nat n \<Longrightarrow> n \<le> 18 \<Longrightarrow> DIAG_NOISE_SIGN_CHANGES_MIN \<le> c \<longleftrightarrow> 12 \<le> n" for c n
    by (simp add: DIAG_NOISE_SIGN_CHANGES_MIN_def word_le_nat_alt unat_of_nat)
  have e: "Suc 1 = (2 :: nat)" "2 + 18 = (20 :: nat)" "1 + 18 = (19 :: nat)" "(1 :: nat) < 20" by simp_all
  have u: "[2..<20] = [Suc 1..<Suc 1 + 18]" "[1..<19] = [1..<1 + 18 :: nat]" "[1..<20] = 1 # [Suc 1..<Suc 1 + 18]"
    using upt_conv_Cons [OF e(4)] by (simp_all only: e)
  have d: "csub (?w ! 1) (?w ! 0) = window_delta ?w 1" by (simp add: window_delta_def)
  have "length (filter P [1..<1 + 18 :: nat]) \<le> 18" for P using length_filter_le [of P "[1..<1 + 18]"] by simp
  note v = l [OF refl this]
  have "fst (diagnostic_is_noisy ctx omega) = (let (sign_changes, abs_sum, _) = noise_loop ?w [2..<20]
      (0, cadd (clit 0 1) (fabs (csub (?w ! 1) (?w ! 0))), csub (?w ! 1) (?w ! 0))
    in DIAG_NOISE_SIGN_CHANGES_MIN \<le> sign_changes \<and> fle DIAG_NOISE_MEAN_ABS_DIFF_MIN (cdiv abs_sum (clit 19 1)))"
    using assms unfolding noisy_ctx unfolding diagnostic_is_noisy_def Let_def
    by (simp del: upt_rec_numeral noise_loop.simps split: prod.split)
  also have "\<dots> = noise_verdict ?w"
    unfolding u(1) d noise_loop_counts noise_verdict_def u(2,3) foldl.simps Let_def prod.case v ..
  finally show ?thesis .
qed

lemma noise_full_iff: "dg_noise_window_full (snd (diagnostic_is_noisy (noise_ctxs diagnostic_init xs) omega)) \<longleftrightarrow> 19 \<le> length xs"
  using noise_inv_step [OF noise_inv_run [of xs], of omega] by (simp add: noise_inv_def)

lemma noise_verdict_last:
  assumes "19 \<le> length xs"
  shows "fst (diagnostic_is_noisy (noise_ctxs diagnostic_init xs) omega) = noise_verdict (drop (length xs - 19) (xs @ [omega]))"
proof -
  have "noise_ctxs diagnostic_init (xs @ [omega]) = snd (diagnostic_is_noisy (noise_ctxs diagnostic_init xs) omega)"
    by (simp add: noise_ctxs_def)
  with noisy_full [of "noise_ctxs diagnostic_init xs" omega] noise_full_iff [of xs omega] assms noise_window_last [OF assms, of omega]
  show ?thesis by simp
qed

text \<open>C24: The circular buffer of the noise detector: after any number of samples the write index is inside the array, and the
  detector is silent until twenty samples have come; from then on the window it reassembles is the last twenty
  samples, oldest first, and it fires exactly if in this window at least 12 of the 18 pairs of neighbouring differences change sign
  and the mean absolute difference is at least 1 rad/s.\<close>

theorem noise_window_spec:
  "unat (dg_noise_idx (noise_ctxs diagnostic_init xs)) < length (dg_noise_window (noise_ctxs diagnostic_init xs)) \<and>
   (if length xs < 19 then \<not> fst (diagnostic_is_noisy (noise_ctxs diagnostic_init xs) omega)
    else noise_chronological (noise_ctxs diagnostic_init (xs @ [omega])) = drop (length xs - 19) (xs @ [omega]) \<and>
      fst (diagnostic_is_noisy (noise_ctxs diagnostic_init xs) omega) = noise_verdict (drop (length xs - 19) (xs @ [omega])))"
proof -
  have "unat (dg_noise_idx (noise_ctxs diagnostic_init xs)) < length (dg_noise_window (noise_ctxs diagnostic_init xs))"
    using noise_inv_run [of xs] by (simp add: noise_inv_def)
  then show ?thesis
    using noisy_silent [of "noise_ctxs diagnostic_init xs" omega] noise_full_iff [of xs omega] noise_window_last [of xs omega]
      noise_verdict_last [of xs omega] by simp
qed

end
