(* ===== verification/Ecu_Driver.thy ===== *)
theory Ecu_Driver
  imports Ecu_State Stream_Decoding
begin

unbundle bit_operations_syntax

text \<open>
  The link of the ECU, \<^verbatim>\<open>controller/src/drivers/socket_drv.c\<close> and the two HAL files over it: framing and
  sending an actuator frame, extracting a sensor frame from the receive buffer, the poll and receive
  loop.  The buffer \<open>dv_rx\<close> is the first \<^verbatim>\<open>rx_len\<close> bytes of the array.  What the operating system
  answers to \<^verbatim>\<open>send\<close>, \<^verbatim>\<open>poll\<close> and \<^verbatim>\<open>recv\<close> is a list of events; a call that would go on past the
  last event is \<open>None\<close>.
\<close>

section \<open>State\<close>

definition RX_BUFFER_SIZE :: nat where "RX_BUFFER_SIZE = 256"
definition PROTO_HEADER_SIZE :: nat where "PROTO_HEADER_SIZE = 5"
definition PROTO_CRC_SIZE :: nat where "PROTO_CRC_SIZE = 2"
definition PROTO_MAX_PAYLOAD :: "16 word" where "PROTO_MAX_PAYLOAD = 64"
definition PROTO_TYPE_SENSOR :: byte where "PROTO_TYPE_SENSOR = 1"
definition PROTO_TYPE_ACTUATOR :: byte where "PROTO_TYPE_ACTUATOR = 2"
definition PROTO_MAGIC :: "16 word" where "PROTO_MAGIC = 0xAA55"

lemmas c_proto_consts = RX_BUFFER_SIZE_def PROTO_HEADER_SIZE_def PROTO_CRC_SIZE_def PROTO_MAX_PAYLOAD_def
  PROTO_TYPE_SENSOR_def PROTO_TYPE_ACTUATOR_def PROTO_MAGIC_def

record drv_stats =
  ds_frames_received_ok :: "32 word"
  ds_frames_sent_ok :: "32 word"
  ds_errors_crc :: "32 word"
  ds_errors_size :: "32 word"
  ds_errors_type :: "32 word"
  ds_bytes_dropped :: "32 word"

record socket_drv =
  dv_rx :: bytes
  dv_stats :: drv_stats

text \<open>\<^verbatim>\<open>calloc\<close> clears the driver.\<close>

definition socket_drv_connect :: socket_drv where
  "socket_drv_connect = \<lparr>dv_rx = [], dv_stats = \<lparr>ds_frames_received_ok = 0, ds_frames_sent_ok = 0,
     ds_errors_crc = 0, ds_errors_size = 0, ds_errors_type = 0, ds_bytes_dropped = 0\<rparr>\<rparr>"

text \<open>The two packed payload structs, as C reads and writes their bytes.\<close>

record sensor_payload =
  sp_timestamp_ms :: "32 word"
  sp_v_vehicle :: pyfloat
  sp_omega_wheel :: pyfloat
  sp_brake_pressure :: pyfloat
  sp_fault_flags :: "16 word"

definition sensor_payload_of :: "bytes \<Rightarrow> sensor_payload" where
  "sensor_payload_of bs = \<lparr>sp_timestamp_ms = word_of_int (le_int (take 4 bs)),
     sp_v_vehicle = bits_f32 (le_int (take 4 (drop 4 bs))),
     sp_omega_wheel = bits_f32 (le_int (take 4 (drop 8 bs))),
     sp_brake_pressure = bits_f32 (le_int (take 4 (drop 12 bs))),
     sp_fault_flags = word_of_int (le_int (take 2 (drop 16 bs)))\<rparr>"

record actuator_payload =
  ap_timestamp_ms :: "32 word"
  ap_brake_command :: pyfloat
  ap_ecu_status :: "16 word"
  ap_dtc_code :: "16 word"

definition actuator_payload_bytes :: "actuator_payload \<Rightarrow> bytes" where
  "actuator_payload_bytes p = le_bytes 4 (uint (ap_timestamp_ms p)) @ le_bytes 4 (f32_bits (ap_brake_command p)) @
     le_bytes 2 (uint (ap_ecu_status p)) @ le_bytes 2 (uint (ap_dtc_code p))"

section \<open>Sending\<close>

datatype send_result = SentBytes nat | SendInterrupted | SendError

text \<open>\<^verbatim>\<open>send_all\<close>: the code, the bytes that went out, the events left.\<close>

fun send_all :: "send_result list \<Rightarrow> bytes \<Rightarrow> (int \<times> bytes \<times> send_result list) option" where
  "send_all evs [] = Some (0, [], evs)"
| "send_all [] buf = None"
| "send_all (SendInterrupted # evs) buf = send_all evs buf"
| "send_all (SendError # evs) buf = Some (- 1, [], evs)"
| "send_all (SentBytes n # evs) buf = (if n = 0 then Some (- 1, [], evs)
     else map_option (\<lambda>(rc, out, evs). (rc, take n buf @ out, evs)) (send_all evs (drop n buf)))"

definition actuator_wire_bytes :: "actuator_payload \<Rightarrow> bytes" where
  "actuator_wire_bytes p =
    (let payload = actuator_payload_bytes p;
         len = 12 :: 16 word;
         header = [ucast (PROTO_MAGIC AND 0xFF), ucast (drop_bit 8 PROTO_MAGIC AND 0xFF), PROTO_TYPE_ACTUATOR,
                   ucast (len AND 0xFF), ucast (drop_bit 8 len AND 0xFF)];
         crc = c_crc16_ccitt (drop 2 (header @ payload))
     in header @ payload @ [ucast (crc AND 0xFF), ucast (drop_bit 8 crc AND 0xFF)])"

definition socket_drv_send_actuator :: "send_result list \<Rightarrow> socket_drv \<Rightarrow> actuator_payload \<Rightarrow>
    (int \<times> bytes \<times> socket_drv \<times> send_result list) option" where
  "socket_drv_send_actuator evs drv p = map_option (\<lambda>(rc, out, evs).
     if rc \<noteq> 0 then (- 1, out, drv, evs)
     else (0, out, drv\<lparr>dv_stats := (dv_stats drv)\<lparr>ds_frames_sent_ok := ds_frames_sent_ok (dv_stats drv) + 1\<rparr>\<rparr>, evs))
     (send_all evs (actuator_wire_bytes p))"

section \<open>Extracting a frame\<close>

text \<open>The scan for the magic pair: the index where the loop stops.\<close>

fun magic_scan :: "bytes \<Rightarrow> nat" where
  "magic_scan (x # y # bs) =
     (if (ucast x :: 16 word) = PROTO_MAGIC AND 0xFF \<and> (ucast y :: 16 word) = drop_bit 8 PROTO_MAGIC AND 0xFF then 0
      else Suc (magic_scan (y # bs)))"
| "magic_scan _ = 0"

definition drop_rx :: "nat \<Rightarrow> socket_drv \<Rightarrow> socket_drv" where
  "drop_rx n drv = drv\<lparr>dv_rx := drop n (dv_rx drv)\<rparr>"

definition count_dropped :: "nat \<Rightarrow> socket_drv \<Rightarrow> socket_drv" where
  "count_dropped n drv = drv\<lparr>dv_stats := (dv_stats drv)\<lparr>ds_bytes_dropped := ds_bytes_dropped (dv_stats drv) + of_nat n\<rparr>\<rparr>"

definition count_error_size :: "socket_drv \<Rightarrow> socket_drv" where
  "count_error_size drv = drv\<lparr>dv_stats := (dv_stats drv)\<lparr>ds_errors_size := ds_errors_size (dv_stats drv) + 1\<rparr>\<rparr>"

definition count_error_type :: "socket_drv \<Rightarrow> socket_drv" where
  "count_error_type drv = drv\<lparr>dv_stats := (dv_stats drv)\<lparr>ds_errors_type := ds_errors_type (dv_stats drv) + 1\<rparr>\<rparr>"

definition count_error_crc :: "socket_drv \<Rightarrow> socket_drv" where
  "count_error_crc drv = drv\<lparr>dv_stats := (dv_stats drv)\<lparr>ds_errors_crc := ds_errors_crc (dv_stats drv) + 1\<rparr>\<rparr>"

definition count_frame :: "socket_drv \<Rightarrow> socket_drv" where
  "count_frame drv =
     drv\<lparr>dv_stats := (dv_stats drv)\<lparr>ds_frames_received_ok := ds_frames_received_ok (dv_stats drv) + 1\<rparr>\<rparr>"

text \<open>One round of the loop from the magic on: \<open>None\<close> continues, \<open>Some None\<close> returns 0, \<open>Some (Some p)\<close> returns 1.\<close>

definition extract_frame :: "socket_drv \<Rightarrow> sensor_payload option option \<times> socket_drv" where
  "extract_frame drv = (let b = dv_rx drv in
     if length b < PROTO_HEADER_SIZE + PROTO_CRC_SIZE then (Some None, drv)
     else let type = b ! 2; len = (ucast (b ! 3) :: 16 word) OR push_bit 8 (ucast (b ! 4)) in
     if PROTO_MAX_PAYLOAD < len then (None, drop_rx 2 (count_error_size drv))
     else if type \<noteq> PROTO_TYPE_SENSOR then (None, drop_rx 2 (count_error_type drv))
     else let total = PROTO_HEADER_SIZE + unat len + PROTO_CRC_SIZE in
     if length b < total then (Some None, drv)
     else let crc_recv = (ucast (b ! (PROTO_HEADER_SIZE + unat len)) :: 16 word) OR
                push_bit 8 (ucast (b ! (PROTO_HEADER_SIZE + unat len + 1)));
              crc_calc = c_crc16_ccitt (take (3 + unat len) (drop 2 b)) in
     if crc_recv \<noteq> crc_calc then (None, drop_rx 2 (count_error_crc drv))
     else if len \<noteq> 18 then (None, drop_rx total (count_error_size drv))
     else (Some (Some (sensor_payload_of (take 18 (drop PROTO_HEADER_SIZE b)))), count_frame (drop_rx total drv)))"

definition extract_step :: "socket_drv \<Rightarrow> sensor_payload option option \<times> socket_drv" where
  "extract_step drv = (let b = dv_rx drv; scan = magic_scan b in
     if length b \<le> scan + 1
     then let keep = (if 0 < length b then 1 else 0) in
       (Some None, (count_dropped (length b - keep) drv)\<lparr>dv_rx := (if keep = 1 then [last b] else [])\<rparr>)
     else extract_frame (if 0 < scan then drop_rx scan (count_dropped scan drv) else drv))"

lemma drv_rx [simp]:
  "dv_rx (drop_rx n drv) = drop n (dv_rx drv)" "dv_rx (count_dropped n drv) = dv_rx drv"
  "dv_rx (count_error_size drv) = dv_rx drv" "dv_rx (count_error_type drv) = dv_rx drv"
  "dv_rx (count_error_crc drv) = dv_rx drv" "dv_rx (count_frame drv) = dv_rx drv"
  by (simp_all add: drop_rx_def count_dropped_def count_error_size_def count_error_type_def count_error_crc_def count_frame_def)

lemma extract_frame_length:
  "extract_frame drv = (r, drv') \<Longrightarrow> r \<noteq> Some None \<Longrightarrow> length (dv_rx drv') + 2 \<le> length (dv_rx drv)"
  by (auto simp: extract_frame_def Let_def c_proto_consts split: if_splits)

lemma extract_step_length:
  assumes "extract_step drv = (r, drv')" "r \<noteq> Some None"
  shows "length (dv_rx drv') + 2 \<le> length (dv_rx drv)"
proof -
  from assms obtain drv1 where "extract_frame drv1 = (r, drv')" "length (dv_rx drv1) \<le> length (dv_rx drv)"
    by (cases "length (dv_rx drv) \<le> magic_scan (dv_rx drv) + 1"; force simp: extract_step_def Let_def)
  with extract_frame_length [OF this(1) assms(2)] show ?thesis by simp
qed

text \<open>The loop of \<^verbatim>\<open>try_extract_frame\<close>: each continuation shortens the buffer.\<close>

function try_extract_frame :: "socket_drv \<Rightarrow> sensor_payload option \<times> socket_drv" where
  "try_extract_frame drv = (case extract_step drv of (Some r, drv') \<Rightarrow> (r, drv') | (None, drv') \<Rightarrow> try_extract_frame drv')"
  by pat_completeness auto
termination
  by (relation "measure (\<lambda>drv. length (dv_rx drv))") (auto dest!: sym [of "(None, _)"] extract_step_length)

declare try_extract_frame.simps [simp del]

section \<open>Receiving\<close>

text \<open>One answer of \<^verbatim>\<open>poll\<close>, with that of \<^verbatim>\<open>recv\<close> where the socket is readable; \<open>PollBad\<close> is a hang-up or error
  in \<^verbatim>\<open>revents\<close>.\<close>

datatype poll_event = PollInterrupted | PollFailed | PollTimeout | PollBad
  | ReadInterrupted | ReadFailed | ReadClosed | ReadBytes bytes

definition make_room :: "socket_drv \<Rightarrow> socket_drv" where
  "make_room drv = (if RX_BUFFER_SIZE \<le> length (dv_rx drv)
     then (count_dropped (length (dv_rx drv)) drv)\<lparr>dv_rx := []\<rparr> else drv)"

text \<open>The code, the payload, the driver and the events left.\<close>

fun recv_poll :: "poll_event list \<Rightarrow> socket_drv \<Rightarrow> (int \<times> sensor_payload option \<times> socket_drv \<times> poll_event list) option" where
  "recv_poll [] drv = None"
| "recv_poll (PollInterrupted # evs) drv = recv_poll evs drv"
| "recv_poll (PollFailed # evs) drv = Some (- 1, None, drv, evs)"
| "recv_poll (PollTimeout # evs) drv = Some (0, None, drv, evs)"
| "recv_poll (PollBad # evs) drv = Some (- 1, None, drv, evs)"
| "recv_poll (ReadInterrupted # evs) drv = recv_poll evs (make_room drv)"
| "recv_poll (ReadFailed # evs) drv = Some (- 1, None, make_room drv, evs)"
| "recv_poll (ReadClosed # evs) drv = Some (- 1, None, make_room drv, evs)"
| "recv_poll (ReadBytes bs # evs) drv =
     (let drv = make_room drv; drv = drv\<lparr>dv_rx := dv_rx drv @ bs\<rparr> in
      case try_extract_frame drv of
        (Some p, drv) \<Rightarrow> Some (1, Some p, drv, evs)
      | (None, drv) \<Rightarrow> recv_poll evs drv)"

definition socket_drv_recv_sensor :: "poll_event list \<Rightarrow> socket_drv \<Rightarrow>
    (int \<times> sensor_payload option \<times> socket_drv \<times> poll_event list) option" where
  "socket_drv_recv_sensor evs drv = (case try_extract_frame drv of
     (Some p, drv) \<Rightarrow> Some (1, Some p, drv, evs)
   | (None, drv) \<Rightarrow> recv_poll evs drv)"

section \<open>The HAL\<close>

text \<open>The two static structs and the shared driver handle; \<open>None\<close> is the null pointer.\<close>

record hal =
  hl_drv :: "socket_drv option"
  hl_alive :: bool
  hl_timeouts :: "32 word"
  ha_initialised :: bool
  ha_frames_sent :: "32 word"
  ha_send_errors :: "32 word"

definition hal_reset :: hal where
  "hal_reset = \<lparr>hl_drv = None, hl_alive = False, hl_timeouts = 0, ha_initialised = False, ha_frames_sent = 0, ha_send_errors = 0\<rparr>"

definition hal_sensors_init :: "socket_drv option \<Rightarrow> hal \<Rightarrow> int \<times> hal" where
  "hal_sensors_init conn h = (case hl_drv h of
     Some _ \<Rightarrow> (0, h)
   | None \<Rightarrow> (case conn of
       None \<Rightarrow> (- 1, h)
     | Some drv \<Rightarrow> (0, h\<lparr>hl_drv := Some drv, hl_alive := True, hl_timeouts := 0\<rparr>)))"

definition hal_sensors_shutdown :: "hal \<Rightarrow> hal" where
  "hal_sensors_shutdown h = h\<lparr>hl_drv := None, hl_alive := False\<rparr>"

text \<open>\<^verbatim>\<open>hal_sensors_read\<close> at local time \<open>now\<close> into the sample \<open>out\<close>.\<close>

definition hal_sensors_read :: "poll_event list \<Rightarrow> 32 word \<Rightarrow> sensors_data \<Rightarrow> hal \<Rightarrow>
    (int \<times> sensors_data \<times> hal \<times> poll_event list) option" where
  "hal_sensors_read evs now out h = (case hl_drv h of
     None \<Rightarrow> Some (- 1, out, h, evs)
   | Some drv \<Rightarrow> map_option (\<lambda>(rc, raw, drv, evs). let h = h\<lparr>hl_drv := Some drv\<rparr> in
       if rc = 0 then (- 1, out\<lparr>sd_valid := False\<rparr>, h\<lparr>hl_timeouts := hl_timeouts h + 1\<rparr>, evs)
       else if rc < 0 then (- 1, out\<lparr>sd_valid := False\<rparr>, h\<lparr>hl_alive := False\<rparr>, evs)
       else let p = the raw in
         (0, out\<lparr>sd_timestamp_ms := sp_timestamp_ms p, sd_rx_time_ms := now, sd_v_vehicle := sp_v_vehicle p,
            sd_omega_wheel := sp_omega_wheel p, sd_brake_pressure := sp_brake_pressure p,
            sd_fault_flags := sp_fault_flags p, sd_valid := True\<rparr>, h, evs)) (socket_drv_recv_sensor evs drv))"

definition hal_errors_crc :: "hal \<Rightarrow> 32 word" where
  "hal_errors_crc h = (case hl_drv h of None \<Rightarrow> 0 | Some drv \<Rightarrow> ds_errors_crc (dv_stats drv))"

definition hal_actuators_init :: "hal \<Rightarrow> int \<times> hal" where
  "hal_actuators_init h = (if hl_drv h = None then (- 1, h)
     else (0, h\<lparr>ha_initialised := True, ha_frames_sent := 0, ha_send_errors := 0\<rparr>))"

definition hal_actuators_shutdown :: "hal \<Rightarrow> hal" where
  "hal_actuators_shutdown h = h\<lparr>ha_initialised := False\<rparr>"

text \<open>The code, the bytes that went out, the HAL and the events left.\<close>

definition hal_actuators_write :: "send_result list \<Rightarrow> actuator_payload \<Rightarrow> hal \<Rightarrow> (int \<times> bytes \<times> hal \<times> send_result list) option" where
  "hal_actuators_write evs cmd h = (if \<not> ha_initialised h then Some (- 1, [], h, evs)
     else case hl_drv h of
       None \<Rightarrow> Some (- 1, [], h, evs)
     | Some drv \<Rightarrow> map_option (\<lambda>(rc, out, drv, evs). let h = h\<lparr>hl_drv := Some drv\<rparr> in
         if rc \<noteq> 0 then (- 1, out, h\<lparr>ha_send_errors := ha_send_errors h + 1\<rparr>, evs)
         else (0, out, h\<lparr>ha_frames_sent := ha_frames_sent h + 1\<rparr>, evs)) (socket_drv_send_actuator evs drv cmd))"

end
