(* ===== verification/Ecu_Main.thy ===== *)
theory Ecu_Main
  imports Ecu_Controller Ecu_Diagnostic_Properties Ecu_Driver "HOL-Library.Signed_Division"
begin

unbundle bit_operations_syntax

text \<open>
  The super loop of the ECU, \<^verbatim>\<open>controller/src/main.c\<close>, with the time helpers of \<^verbatim>\<open>time_utils.h\<close>: 10 ms grid,
  jitter statistics, sensor read, diagnosis, slip, state machine, controller, actuator frame.
  \<open>ecu_control\<close> is the part of a cycle without input and output; \<open>ecu_tick\<close> is the whole cycle.  The
  log line and the printed summary are left out.  What the operating system does in a cycle (sleep,
  clocks, SIGINT) is a record, and its answers to \<^verbatim>\<open>poll\<close>, \<^verbatim>\<open>recv\<close> and \<^verbatim>\<open>send\<close> are lists of events.
\<close>

section \<open>Time\<close>

record timespec =
  tv_sec :: int
  tv_nsec :: int

definition timespec_add_ns :: "timespec \<Rightarrow> int \<Rightarrow> timespec" where
  "timespec_add_ns ts ns = (let total_ns = tv_nsec ts + ns;
     ts = ts\<lparr>tv_sec := tv_sec ts + total_ns sdiv 1000000000, tv_nsec := total_ns smod 1000000000\<rparr>
     in if tv_nsec ts < 0 then ts\<lparr>tv_nsec := tv_nsec ts + 1000000000, tv_sec := tv_sec ts - 1\<rparr> else ts)"

definition timespec_diff_us :: "timespec \<Rightarrow> timespec \<Rightarrow> int" where
  "timespec_diff_us a b = (tv_sec b - tv_sec a) * 1000000 + (tv_nsec b - tv_nsec a) sdiv 1000"

definition now_ms_mono :: "timespec \<Rightarrow> 32 word" where
  "now_ms_mono ts = ucast ((of_int (tv_sec ts) :: 64 word) * 1000 + of_int (tv_nsec ts sdiv 1000000))"

section \<open>Jitter\<close>

text \<open>Welford's accumulator, in double.\<close>

record jitter_stats =
  js_n :: "64 word"
  js_mean_us :: pyfloat
  js_m2_us :: pyfloat
  js_min_us :: int
  js_max_us :: int

definition jitter_init :: jitter_stats where
  "jitter_init = \<lparr>js_n = 0, js_mean_us = flit 0 1, js_m2_us = flit 0 1, js_min_us = 2 ^ 63 - 1, js_max_us = - (2 ^ 63)\<rparr>"

definition jitter_add :: "jitter_stats \<Rightarrow> int \<Rightarrow> jitter_stats" where
  "jitter_add j us =
    (let n = js_n j + 1;
         delta = fsub (flit us 1) (js_mean_us j);
         mean = fadd (js_mean_us j) (fl_div B64 delta (flit (uint n) 1));
         delta2 = fsub (flit us 1) mean
     in \<lparr>js_n = n, js_mean_us = mean, js_m2_us = fadd (js_m2_us j) (fmul delta delta2),
         js_min_us = (if us < js_min_us j then us else js_min_us j),
         js_max_us = (if js_max_us j < us then us else js_max_us j)\<rparr>)"

section \<open>State\<close>

definition LOOP_PERIOD_NS :: int where "LOOP_PERIOD_NS = 10 * 1000 * 1000"
definition WATCHDOG_TIMEOUT_MS :: "32 word" where "WATCHDOG_TIMEOUT_MS = 50"
definition WHEEL_RADIUS_M :: pyfloat where "WHEEL_RADIUS_M = clit 30 100"
definition SLIP_V_MIN_MPS :: pyfloat where "SLIP_V_MIN_MPS = clit 1 1"

definition zero_sample :: sensors_data where
  "zero_sample = \<lparr>sd_timestamp_ms = 0, sd_rx_time_ms = 0, sd_v_vehicle = clit 0 1, sd_omega_wheel = clit 0 1,
     sd_brake_pressure = clit 0 1, sd_fault_flags = 0, sd_valid = False\<rparr>"

record ecu =
  eu_st :: abs_state_ctx
  eu_cc :: abs_controller_ctx
  eu_dg :: diagnostic_ctx
  eu_last_good :: sensors_data
  eu_cur :: sensors_data
  eu_cycles_since_valid :: "32 word"

definition ecu_init :: ecu where
  "ecu_init = \<lparr>eu_st = abs_state_init, eu_cc = abs_controller_init, eu_dg = diagnostic_init,
     eu_last_good = zero_sample, eu_cur = zero_sample, eu_cycles_since_valid = 0\<rparr>"

section \<open>One cycle of control\<close>

text \<open>After the read: its code and the sample it left in \<^verbatim>\<open>cur\<close>.\<close>

definition ecu_sense :: "int \<Rightarrow> sensors_data \<Rightarrow> ecu \<Rightarrow> ecu" where
  "ecu_sense r cur e = (let e = e\<lparr>eu_cur := cur\<rparr> in
     if r = 0 then e\<lparr>eu_last_good := cur, eu_cycles_since_valid := 0\<rparr>
     else e\<lparr>eu_cycles_since_valid := eu_cycles_since_valid e + 1, eu_cur := cur\<lparr>sd_valid := False\<rparr>\<rparr>)"

definition for_state :: "ecu \<Rightarrow> sensors_data" where
  "for_state e = (if sd_valid (eu_cur e) then eu_cur e
     else if eu_cycles_since_valid e * word_of_int (LOOP_PERIOD_NS div 1000000) \<le> WATCHDOG_TIMEOUT_MS then eu_last_good e
     else eu_cur e)"

text \<open>Diagnosis, slip, state and command; the link's CRC error count is \<open>crc\<close>.\<close>

definition ecu_decide :: "pyfloat \<Rightarrow> 32 word \<Rightarrow> ecu \<Rightarrow> (ecu_status_t \<times> dtc \<times> pyfloat) \<times> ecu" where
  "ecu_decide req crc e =
    (let s = for_state e;
         (d, dg) = diagnostic_step (eu_dg e) s WHEEL_RADIUS_M (eu_cycles_since_valid e) crc;
         slip = abs_controller_slip_protected (sd_v_vehicle s) (sd_omega_wheel s) WHEEL_RADIUS_M SLIP_V_MIN_MPS;
         st = state_step (eu_st e) (Some s) slip d;
         (cmd, cc) = controller_step (eu_cc e) (st_current st) s slip req
     in ((st_current st, d, cmd), e\<lparr>eu_st := st, eu_cc := cc, eu_dg := dg\<rparr>))"

definition ecu_control :: "pyfloat \<Rightarrow> int \<Rightarrow> sensors_data \<Rightarrow> 32 word \<Rightarrow> ecu \<Rightarrow> (ecu_status_t \<times> dtc \<times> pyfloat) \<times> ecu" where
  "ecu_control req r cur crc e = ecu_decide req crc (ecu_sense r cur e)"

section \<open>The loop\<close>

record os_tick =
  ot_stop :: bool
  ot_sleep_failed :: bool
  ot_wake :: timespec
  ot_rx_time :: timespec
  ot_tx_time :: timespec

record ecu_process =
  ep_ecu :: ecu
  ep_jitter :: jitter_stats
  ep_hal :: hal
  ep_next :: timespec
  ep_cycle :: "64 word"
  ep_polls :: "poll_event list"
  ep_sends :: "send_result list"
  ep_sent :: bytes

datatype ecu_flow = EcuGo | EcuBreak

definition ecu_tick :: "pyfloat \<Rightarrow> os_tick \<Rightarrow> ecu_process \<Rightarrow> (ecu_flow \<times> ecu_process) option" where
  "ecu_tick req ot p =
    (let p = p\<lparr>ep_next := timespec_add_ns (ep_next p) LOOP_PERIOD_NS\<rparr> in
     if ot_sleep_failed ot then Some (EcuBreak, p)
     else let p = p\<lparr>ep_jitter := jitter_add (ep_jitter p) (timespec_diff_us (ep_next p) (ot_wake ot))\<rparr> in
     case hal_sensors_read (ep_polls p) (now_ms_mono (ot_rx_time ot)) (eu_cur (ep_ecu p)) (ep_hal p) of
       None \<Rightarrow> None
     | Some (r, cur, hal, polls) \<Rightarrow>
        let ((mode, d, cmd), e) = ecu_control req r cur (hal_errors_crc hal) (ep_ecu p);
            p = p\<lparr>ep_ecu := e, ep_polls := polls\<rparr>;
            out = \<lparr>ap_timestamp_ms = now_ms_mono (ot_tx_time ot), ap_brake_command = cmd,
                   ap_ecu_status = status_code mode, ap_dtc_code = d\<rparr>
        in map_option (\<lambda>(rc, sent, hal, sends).
             let p = p\<lparr>ep_hal := hal, ep_sends := sends, ep_sent := ep_sent p @ sent\<rparr> in
             if rc \<noteq> 0 then (EcuBreak, p) else (EcuGo, p\<lparr>ep_cycle := ep_cycle p + 1\<rparr>))
           (hal_actuators_write (ep_sends p) out hal))"

text \<open>The loop with \<open>max_cycles\<close>, 0 for no limit; past the last tick it is still running.\<close>

fun ecu_loop :: "pyfloat \<Rightarrow> 32 word \<Rightarrow> os_tick list \<Rightarrow> ecu_process \<Rightarrow> ecu_process option" where
  "ecu_loop req max_cycles [] p = None"
| "ecu_loop req max_cycles (ot # ots) p = (if ot_stop ot then Some p
     else case ecu_tick req ot p of
       None \<Rightarrow> None
     | Some (EcuBreak, p) \<Rightarrow> Some p
     | Some (EcuGo, p) \<Rightarrow> if max_cycles \<noteq> 0 \<and> ucast max_cycles \<le> ep_cycle p then Some p else ecu_loop req max_cycles ots p)"

text \<open>\<^verbatim>\<open>main\<close>, from the parsed arguments and the driver that \<^verbatim>\<open>connect\<close> gave, to the exit code and the final process.\<close>

definition ecu_main :: "pyfloat \<Rightarrow> 32 word \<Rightarrow> socket_drv option \<Rightarrow> timespec \<Rightarrow> os_tick list \<Rightarrow> poll_event list \<Rightarrow> send_result list \<Rightarrow>
    (int \<times> ecu_process) option" where
  "ecu_main req max_cycles conn start ots polls sends =
    (let (rc, hal) = hal_sensors_init conn hal_reset;
         p = \<lparr>ep_ecu = ecu_init, ep_jitter = jitter_init, ep_hal = hal, ep_next = start, ep_cycle = 0,
              ep_polls = polls, ep_sends = sends, ep_sent = []\<rparr>
     in if rc \<noteq> 0 then Some (1, p)
     else let (rc, hal) = hal_actuators_init hal; p = p\<lparr>ep_hal := hal\<rparr>
     in if rc \<noteq> 0 then Some (1, p\<lparr>ep_hal := hal_sensors_shutdown hal\<rparr>)
     else map_option (\<lambda>p. (0, p\<lparr>ep_hal := hal_sensors_shutdown (hal_actuators_shutdown (ep_hal p))\<rparr>)) (ecu_loop req max_cycles ots p))"

end
