(* ===== verification/Ecu_Driver_Properties.thy ===== *)
theory Ecu_Driver_Properties
  imports Ecu_Driver Link
begin

unbundle bit_operations_syntax

text \<open>
  The C driver against the Python protocol module: on a buffer without actuator headers the C extraction
  and the Python decoder take the same steps, so they find the same frames and count the same errors;
  a Python sensor frame arrives in C whatever the chunks; a C actuator frame is the one Python would
  have encoded; and the receive buffer never fills up.
\<close>

section \<open>One step of the two decoders\<close>

lemma word_of_mod: "(word_of_int (k mod 2 ^ 32) :: 32 word) = word_of_int k" "(word_of_int (k mod 2 ^ 16) :: 16 word) = word_of_int k"
  by (simp_all add: word_of_int_eq_iff take_bit_eq_mod)

lemma crc_c_uint: "crc16_ccitt bs = uint (c_crc16_ccitt bs)"
  using crc_fold_uint [of "0xFFFF" bs] by (simp add: crc16_ccitt_def c_crc16_ccitt_def)

lemma uint_byte16: "uint (ucast x :: 16 word) = uint x" for x :: byte
proof -
  have "uint x < 256" using uint_lt2p [of x] by simp
  then show ?thesis by (simp add: unsigned_ucast_eq take_bit_int_eq_self)
qed

lemma c_le16: "uint ((ucast lo :: 16 word) OR push_bit 8 (ucast hi)) = le16 lo hi" for lo hi :: byte
proof -
  have "uint hi < 256" using uint_lt2p [of hi] by simp
  then have "take_bit 16 (push_bit 8 (uint hi)) = push_bit 8 (uint hi)"
    by (simp add: take_bit_int_eq_self push_bit_eq_mult)
  then show ?thesis
    by (simp add: le16_def unsigned_or_eq unsigned_push_bit_eq uint_byte16)
qed

lemma c_le16_nat: "unat ((ucast lo :: 16 word) OR push_bit 8 (ucast hi)) = nat (le16 lo hi)" for lo hi :: byte
  unfolding c_le16 [symmetric] by simp

lemma scan_find: "find_magic 0 b = (if magic_scan b + 1 < length b then Some (magic_scan b) else None)"
proof (induction b rule: magic_scan.induct)
  case (1 x y bs)
  have "(ucast x :: 16 word) = 0x55 \<longleftrightarrow> uint x = 0x55" "(ucast y :: 16 word) = 0xAA \<longleftrightarrow> uint y = 0xAA"
    by (simp_all add: word_uint_eq_iff uint_byte16)
  then show ?case
    using 1 find_magic_shift [of 0 1 "y # bs"] by (auto simp: MAGIC_def PROTO_MAGIC_def)
qed simp_all

text \<open>Same buffer, and counters equal modulo 2^32; \<open>n\<close> frames delivered, \<open>k\<close> refused for their size by C only.\<close>

definition agree :: "nat \<Rightarrow> nat \<Rightarrow> socket_drv \<Rightarrow> decoder \<Rightarrow> bool" where
  "agree n k drv d \<longleftrightarrow> dv_rx drv = dc_buf d \<and> ds_frames_received_ok (dv_stats drv) = of_nat n \<and>
     ds_errors_crc (dv_stats drv) = of_nat (dc_errors_crc d) \<and>
     ds_errors_size (dv_stats drv) = of_nat (dc_errors_size d + k) \<and>
     ds_errors_type (dv_stats drv) = of_nat (dc_errors_type d) \<and>
     ds_bytes_dropped (dv_stats drv) = of_nat (dc_bytes_dropped d)"

lemmas c_counters = count_dropped_def count_error_size_def count_error_type_def count_error_crc_def count_frame_def drop_rx_def

definition payload_ok :: "decoded_frame \<Rightarrow> bool" where
  "payload_ok f \<longleftrightarrow> length (fr_payload f) = 18"

text \<open>What the C step answers where the Python step answers \<open>r\<close>.\<close>

definition c_answer :: "decoded_frame option option \<Rightarrow> sensor_payload option option" where
  "c_answer r = (case r of
     Some (Some f) \<Rightarrow> if payload_ok f then Some (Some (sensor_payload_of (fr_payload f))) else None
   | Some None \<Rightarrow> Some None
   | None \<Rightarrow> None)"

definition good :: "decoded_frame option option \<Rightarrow> nat" where
  "good r = (case r of Some (Some f) \<Rightarrow> if payload_ok f then 1 else 0 | _ \<Rightarrow> 0)"

definition wrong :: "decoded_frame option option \<Rightarrow> nat" where
  "wrong r = (case r of Some (Some f) \<Rightarrow> if payload_ok f then 0 else 1 | _ \<Rightarrow> 0)"

lemma extract_frame_agrees:
  assumes "agree n k drv d" and "7 \<le> length (dc_buf d) \<longrightarrow> dc_buf d ! 2 \<noteq> 2" and "try_frame d = (r, d')"
  shows "\<exists>drv'. extract_frame drv = (c_answer r, drv') \<and> agree (n + good r) (k + wrong r) drv' d'"
proof (cases "length (dc_buf d) < 7")
  case True
  then show ?thesis
    using assms by (auto simp: extract_frame_def try_frame_def agree_def c_answer_def good_def wrong_def
        c_proto_consts protocol_consts Let_def)
next
  case False
  define b where "b = dc_buf d"
  define len where "len = (ucast (b ! 3) :: 16 word) OR push_bit 8 (ucast (b ! 4))"
  have rx: "dv_rx drv = b" using assms(1) by (simp add: agree_def b_def)
  have bd: "dc_buf d = b" by (simp add: b_def)
  have n: "nat (le16 (b ! 3) (b ! 4)) = unat len" by (simp add: len_def c_le16_nat)
  have l18: "len = 18 \<longleftrightarrow> unat len = 18" by (simp add: word_unat_eq_iff)
  have l64: "64 < len \<longleftrightarrow> 64 < unat len" by (simp add: word_less_nat_alt)
  have ty: "uint (b ! 2) \<in> {1, 2} \<longleftrightarrow> b ! 2 = 1"
    using assms(2) False by (auto simp: b_def word_uint_eq_iff)
  have crc: "(ucast lo :: 16 word) OR push_bit 8 (ucast hi) = c_crc16_ccitt bs \<longleftrightarrow> le16 lo hi = crc16_ccitt bs"
    for lo hi :: byte and bs unfolding word_uint_eq_iff c_le16 crc_c_uint ..
  have pay: "take 18 (drop 5 b) = take (unat len) (drop 5 b)" if "unat len = 18" using that by simp
  show ?thesis
    using assms(1,3) False
    unfolding extract_frame_def try_frame_def Let_def rx bd len_def [symmetric] n c_proto_consts protocol_consts
      crc l18 l64 ty add_diff_cancel_left'
    by (auto simp: bd rx agree_def c_counters c_answer_def good_def wrong_def payload_ok_def ty split: if_splits)
      (simp_all add: b_def)
qed

text \<open>The type byte after the first magic pair is not that of an actuator frame.\<close>

definition no_actuator_head :: "bytes \<Rightarrow> bool" where
  "no_actuator_head b \<longleftrightarrow> (case find_magic 0 b of Some i \<Rightarrow> i + 7 \<le> length b \<longrightarrow> b ! (i + 2) \<noteq> 2 | None \<Rightarrow> True)"

lemma extract_step_agrees:
  assumes "agree n k drv d" and "no_actuator_head (dc_buf d)" and "try_step d = (r, d')"
  shows "\<exists>drv'. extract_step drv = (c_answer r, drv') \<and> agree (n + good r) (k + wrong r) drv' d'"
proof (cases "magic_scan (dc_buf d) + 1 < length (dc_buf d)")
  case False
  have rx: "dv_rx drv = dc_buf d" using assms(1) by (simp add: agree_def)
  have "try_step d = (Some None, skip_to (length (dc_buf d) - 1) d)"
    using False scan_find [of "dc_buf d"] by (simp add: try_step_alt)
  then show ?thesis
    using False assms(1,3) rx drop_last [of "dc_buf d"]
    by (auto simp: extract_step_def Let_def agree_def c_counters c_answer_def good_def wrong_def skip_to_def)
next
  case True
  let ?i = "magic_scan (dc_buf d)"
  have rx: "dv_rx drv = dc_buf d" using assms(1) by (simp add: agree_def)
  have f: "find_magic 0 (dc_buf d) = Some ?i" using True scan_find [of "dc_buf d"] by simp
  have t: "try_frame (skip_to ?i d) = (r, d')" using assms(3) f by (simp add: try_step_alt)
  have h: "7 \<le> length (dc_buf (skip_to ?i d)) \<longrightarrow> dc_buf (skip_to ?i d) ! 2 \<noteq> 2"
    using assms(2) f True by (auto simp: no_actuator_head_def)
  have a: "agree n k (if 0 < ?i then drop_rx ?i (count_dropped ?i drv) else drv) (skip_to ?i d)"
    using assms(1) by (auto simp: agree_def c_counters skip_to_def)
  have "extract_step drv = extract_frame (if 0 < ?i then drop_rx ?i (count_dropped ?i drv) else drv)"
    using True by (simp add: extract_step_def Let_def rx)
  with extract_frame_agrees [OF a h t] show ?thesis by simp
qed

lemma step_answer: "try_step d = (Some (Some f), d') \<Longrightarrow>
  \<exists>i. find_magic 0 (dc_buf d) = Some i \<and> i + 7 \<le> length (dc_buf d) \<and> uint (dc_buf d ! (i + 2)) = fr_frame_type f"
  by (auto simp: try_step_alt try_frame_def Let_def protocol_consts split: option.splits if_splits)

section \<open>All frames of a buffer\<close>

text \<open>What repeated calls of \<^verbatim>\<open>try_extract_frame\<close> deliver until one returns 0.\<close>

lemma try_extract_length:
  "try_extract_frame drv = (Some p, drv') \<Longrightarrow> length (dv_rx drv') + 2 \<le> length (dv_rx drv)"
proof (induction drv rule: try_extract_frame.induct)
  case (1 drv)
  obtain r drv1 where s: "extract_step drv = (r, drv1)" by force
  with 1 extract_step_length [OF s] show ?case
    by (cases r) (force simp: try_extract_frame.simps [of drv])+
qed

function extract_all :: "socket_drv \<Rightarrow> sensor_payload list \<times> socket_drv" where
  "extract_all drv = (case try_extract_frame drv of
     (None, drv') \<Rightarrow> ([], drv')
   | (Some p, drv') \<Rightarrow> map_prod ((#) p) id (extract_all drv'))"
  by pat_completeness auto
termination
  by (relation "measure (\<lambda>drv. length (dv_rx drv))") (auto dest!: sym [of "(Some _, _)"] try_extract_length)

declare extract_all.simps [simp del]

lemma extract_all_step:
  "extract_all drv = (case extract_step drv of
     (None, drv') \<Rightarrow> extract_all drv'
   | (Some None, drv') \<Rightarrow> ([], drv')
   | (Some (Some p), drv') \<Rightarrow> map_prod ((#) p) id (extract_all drv'))"
proof (cases "extract_step drv")
  case (Pair r drv1)
  then show ?thesis
    by (cases r) (simp_all add: extract_all.simps [of drv] try_extract_frame.simps [of drv] extract_all.simps [of drv1]
        split: option.split)
qed

lemma drain_step:
  "drain d = (case try_step d of
     (None, d') \<Rightarrow> drain d'
   | (Some None, d') \<Rightarrow> ([], d')
   | (Some (Some f), d') \<Rightarrow> map_prod ((#) f) id (drain d'))"
proof (cases "try_step d")
  case (Pair r d1)
  then show ?thesis
    by (cases r) (simp_all add: drain.simps [of d] try_one.simps [of d] drain.simps [of d1] map_prod_def
        split: option.split prod.split)
qed

text \<open>No actuator header anywhere in the buffer.\<close>

definition no_actuator :: "bytes \<Rightarrow> bool" where
  "no_actuator b \<longleftrightarrow> (\<forall>i. i + 2 < length b \<longrightarrow> \<not> (b ! i = 0x55 \<and> b ! (i + 1) = 0xAA \<and> b ! (i + 2) = 2))"

lemma no_actuator_head: "no_actuator b \<Longrightarrow> no_actuator_head b"
  using find_magic_Some [of 0 b] by (fastforce simp: no_actuator_def no_actuator_head_def split: option.split)

lemma no_actuator_drop: "no_actuator b \<Longrightarrow> no_actuator (drop n b)"
proof (unfold no_actuator_def, intro allI impI)
  fix i
  assume a: "\<forall>i. i + 2 < length b \<longrightarrow> \<not> (b ! i = 0x55 \<and> b ! (i + 1) = 0xAA \<and> b ! (i + 2) = 2)"
    and l: "i + 2 < length (drop n b)"
  from a [rule_format, of "n + i"] l show
    "\<not> (drop n b ! i = 0x55 \<and> drop n b ! (i + 1) = 0xAA \<and> drop n b ! (i + 2) = 2)"
    by (simp add: add.assoc)
qed

lemma try_step_suffix: "try_step d = (r, d') \<Longrightarrow> \<exists>n. dc_buf d' = drop n (dc_buf d)"
  by (auto simp: try_step_alt try_frame_def Let_def split: option.splits if_splits)

lemma extract_all_drain:
  assumes "agree n k drv d" and "no_actuator (dc_buf d)" and "drain d = (fs, d')"
  shows "\<exists>drv'. extract_all drv = (map (sensor_payload_of \<circ> fr_payload) (filter payload_ok fs), drv') \<and>
    agree (n + length (filter payload_ok fs)) (k + length (filter (\<lambda>f. \<not> payload_ok f) fs)) drv' d'"
  using assms
proof (induction "length (dc_buf d)" arbitrary: n k drv d fs rule: less_induct)
  case less
  obtain r d1 where s: "try_step d = (r, d1)" by force
  obtain drv1 where c: "extract_step drv = (c_answer r, drv1)" "agree (n + good r) (k + wrong r) drv1 d1"
    using extract_step_agrees [OF less.prems(1) no_actuator_head [OF less.prems(2)] s] by blast
  have na: "no_actuator (dc_buf d1)" using try_step_suffix [OF s] no_actuator_drop [OF less.prems(2)] by auto
  show ?case
  proof (cases "r = Some None")
    case True
    then show ?thesis using less.prems(3) c s
      by (auto simp: drain_step [of d] extract_all_step [of drv] c_answer_def good_def wrong_def)
  next
    case False
    have l: "length (dc_buf d1) < length (dc_buf d)" using try_step_length [OF s False] by simp
    obtain gs where g: "drain d1 = (gs, d')" "fs = (case r of Some (Some f) \<Rightarrow> f # gs | _ \<Rightarrow> gs)"
      using less.prems(3) s False
      by (cases "drain d1") (auto simp: drain_step [of d] split: option.splits)
    from less.hyps [OF l c(2) na g(1)] show ?thesis
      using False c(1) unfolding g(2) extract_all_step [of drv]
      by (auto simp: c_answer_def good_def wrong_def map_prod_def split: option.splits)
  qed
qed

section \<open>The buffer\<close>

lemma extract_stops:
  assumes "try_extract_frame drv = (None, drv')"
  shows "length (dv_rx drv') \<le> 70"
  using assms
proof (induction drv rule: try_extract_frame.induct)
  case (1 drv)
  obtain r drv1 where s: "extract_step drv = (r, drv1)" by force
  show ?case
  proof (cases r)
    case None
    then show ?thesis using 1 s by (simp add: try_extract_frame.simps [of drv])
  next
    case (Some x)
    then have e: "extract_step drv = (Some None, drv')" using 1(2) s by (simp add: try_extract_frame.simps [of drv])
    have f: "length (dv_rx drv') \<le> 70" if "extract_frame d = (Some None, drv')" for d
      using that by (auto simp: extract_frame_def Let_def c_proto_consts word_less_nat_alt split: if_splits)
    show ?thesis
    proof (cases "length (dv_rx drv) \<le> magic_scan (dv_rx drv) + 1")
      case True
      then show ?thesis using e by (auto simp: extract_step_def Let_def)
    next
      case False
      then show ?thesis using e by (intro f) (simp add: extract_step_def Let_def)
    qed
  qed
qed

text \<open>C39: The receive buffer never fills: whenever \<^verbatim>\<open>try_extract_frame\<close> asks for more, at most 70 of the 256 bytes are
  in use, so the branch that throws a full buffer away is dead, and the answer of \<^verbatim>\<open>recv\<close> into the free
  space stays inside the array.\<close>

theorem rx_buffer_bounded:
  assumes "try_extract_frame drv = (None, drv')" and "length bs \<le> 256 - length (dv_rx drv')"
  shows "length (dv_rx drv') \<le> 70 \<and> make_room drv' = drv' \<and>
    recv_poll (ReadBytes bs # evs) drv' =
      (case try_extract_frame (drv'\<lparr>dv_rx := dv_rx drv' @ bs\<rparr>) of
        (Some p, d) \<Rightarrow> Some (1, Some p, d, evs) | (None, d) \<Rightarrow> recv_poll evs d) \<and>
    length (dv_rx (drv'\<lparr>dv_rx := dv_rx drv' @ bs\<rparr>)) \<le> 256"
  using extract_stops [OF assms(1)] assms(2) by (simp add: make_room_def RX_BUFFER_SIZE_def Let_def)

theorem rx_buffer_bounded_witness:
  "\<exists>drv'. try_extract_frame (socket_drv_connect\<lparr>dv_rx := [1, 2, 0x55]\<rparr>) = (None, drv') \<and>
    dv_rx drv' = [0x55] \<and> make_room drv' = drv'"
proof -
  let ?d = "socket_drv_connect\<lparr>dv_rx := [1, 2, 0x55]\<rparr>"
  have e: "try_extract_frame ?d = (None, (count_dropped 2 ?d)\<lparr>dv_rx := [0x55]\<rparr>)"
    by (subst try_extract_frame.simps) (simp add: extract_step_def Let_def PROTO_MAGIC_def, simp add: eval_nat_numeral)
  from rx_buffer_bounded [OF e, of "[]"] have "make_room ((count_dropped 2 ?d)\<lparr>dv_rx := [0x55]\<rparr>) = (count_dropped 2 ?d)\<lparr>dv_rx := [0x55]\<rparr>"
    by (simp only: list.size le0 simp_thms)
  moreover have "dv_rx ((count_dropped 2 ?d)\<lparr>dv_rx := [0x55]\<rparr>) = [0x55]" by simp
  ultimately show ?thesis using e by blast
qed

text \<open>C11: The two decoders agree: on a buffer that holds no actuator header, the C loop delivers the payloads of exactly
  the frames the Python decoder finds whose length is 18, in the same order, leaves the same rest, and
  counts the same errors and dropped bytes (modulo 2^32), a frame of another length being one more size error.\<close>

theorem c_decoder_eq_python:
  assumes "no_actuator (dc_buf d)" and "drain d = (fs, d')" and "dv_rx drv = dc_buf d"
    and "ds_frames_received_ok (dv_stats drv) = 0" and "ds_errors_crc (dv_stats drv) = of_nat (dc_errors_crc d)"
    and "ds_errors_size (dv_stats drv) = of_nat (dc_errors_size d)"
    and "ds_errors_type (dv_stats drv) = of_nat (dc_errors_type d)"
    and "ds_bytes_dropped (dv_stats drv) = of_nat (dc_bytes_dropped d)"
  shows "fst (extract_all drv) = map (sensor_payload_of \<circ> fr_payload) (filter (\<lambda>f. length (fr_payload f) = 18) fs) \<and>
    (let drv' = snd (extract_all drv) in dv_rx drv' = dc_buf d' \<and>
      ds_frames_received_ok (dv_stats drv') = of_nat (length (filter (\<lambda>f. length (fr_payload f) = 18) fs)) \<and>
      ds_errors_crc (dv_stats drv') = of_nat (dc_errors_crc d') \<and>
      ds_errors_type (dv_stats drv') = of_nat (dc_errors_type d') \<and>
      ds_errors_size (dv_stats drv') = of_nat (dc_errors_size d' + length (filter (\<lambda>f. length (fr_payload f) \<noteq> 18) fs)) \<and>
      ds_bytes_dropped (dv_stats drv') = of_nat (dc_bytes_dropped d'))"
proof -
  have "agree 0 0 drv d" using assms by (simp add: agree_def)
  note * = extract_all_drain [OF this assms(1,2)]
  have p: "payload_ok = (\<lambda>f. length (fr_payload f) = 18)" by (simp add: fun_eq_iff payload_ok_def)
  show ?thesis using * unfolding p by (auto simp: agree_def Let_def)
qed

theorem c_decoder_eq_python_witness:
  "fst (extract_all (socket_drv_connect\<lparr>dv_rx := frame_bytes 1 (replicate 18 0)\<rparr>)) =
    [sensor_payload_of (replicate 18 0)]"
proof -
  let ?w = "frame_bytes 1 (replicate 18 0)"
  let ?d = "feed ?w FrameDecoder"
  have w: "?w = [0x55, 0xAA, 1, 18, 0] @ replicate 18 0 @ le_bytes 2 (crc16_ccitt ([1, 18, 0] @ replicate 18 0))"
    by (simp add: frame_bytes_def)
  have c: "le_bytes 2 (crc16_ccitt ([1, 18, 0] @ replicate 18 0)) = [26, 226]" by code_simp
  let ?v = "[0x55, 0xAA, 1, 18, 0] @ replicate 18 0 @ [26, 226] :: bytes"
  have "\<forall>i \<in> set [0..<length ?v - 2]. \<not> (?v ! i = 0x55 \<and> ?v ! (i + 1) = 0xAA \<and> ?v ! (i + 2) = 2)" by code_simp
  then have "no_actuator ?w" unfolding w c no_actuator_def set_upt Ball_def atLeastLessThan_iff less_diff_conv by blast
  then have n: "no_actuator (dc_buf ?d)" by (simp add: FrameDecoder_def)
  have d: "drain ?d = ([\<lparr>fr_frame_type = 1, fr_payload = replicate 18 0\<rparr>], FrameDecoder)"
    using drain_frame [of 1 "replicate 18 0" FrameDecoder "[]"] drain_no_bytes [of FrameDecoder]
    by (simp add: FrameDecoder_def feed_def)
  show ?thesis
    using c_decoder_eq_python [OF n d, of "socket_drv_connect\<lparr>dv_rx := ?w\<rparr>"]
    by (simp add: socket_drv_connect_def FrameDecoder_def feed_def)
qed

section \<open>From Python to C\<close>

lemma try_extract_answer:
  "extract_step drv = (Some r, drv') \<Longrightarrow> try_extract_frame drv = (r, drv')"
  by (simp add: try_extract_frame.simps [of drv])

text \<open>A prefix of a stream whose whole is one frame: the Python step waits, and so does the C step.\<close>

lemma prefix_waits:
  assumes "try_step (feed ys d) = (Some (Some f), e)" "dc_buf e = []" "ys \<noteq> []"
  obtains d' where "try_step d = (Some None, d')" "try_step (feed ys d') = (Some (Some f), e)"
proof -
  obtain r d' where s: "try_step d = (r, d')" by force
  have "r = Some None"
  proof (rule ccontr)
    assume "r \<noteq> Some None"
    with try_step_feed [OF s, of ys] assms(1) have "e = feed ys d'" by simp
    with assms(2,3) show False by simp
  qed
  with try_step_feed [OF s, of ys] assms(1) s that show thesis by simp
qed

lemma prefix_head:
  assumes "try_step (feed ys d) = (Some (Some f), e)" "fr_frame_type f = 1"
  shows "no_actuator_head (dc_buf d)"
proof (cases "find_magic 0 (dc_buf d)")
  case (Some i)
  then have "find_magic 0 (dc_buf (feed ys d)) = Some i" by (simp add: find_magic_append_Some)
  then have "uint (dc_buf (feed ys d) ! (i + 2)) = 1" using step_answer [OF assms(1)] assms(2) by auto
  then show ?thesis using Some by (auto simp: no_actuator_head_def nth_append)
qed (simp add: no_actuator_head_def)

lemma recv_poll_stream:
  assumes "try_step (feed (concat cs) d) = (Some (Some f), e)" "dc_buf e = []" "fr_frame_type f = 1" "payload_ok f"
    and "agree n k drv d" and "length (dc_buf d) \<le> 70" and "concat cs \<noteq> []"
  shows "\<exists>drv' evs'. recv_poll (map ReadBytes cs @ evs) drv =
    Some (1, Some (sensor_payload_of (fr_payload f)), drv', evs') \<and> agree (n + 1) k drv' e \<and>
    (\<exists>ds. evs' = map ReadBytes ds @ evs \<and> concat ds = [])"
  using assms(1,5-)
proof (induction cs arbitrary: drv d)
  case (Cons c cs)
  have room: "make_room drv = drv" using Cons.prems(2,3) by (simp add: make_room_def RX_BUFFER_SIZE_def agree_def)
  let ?drv = "drv\<lparr>dv_rx := dv_rx drv @ c\<rparr>" and ?d = "feed c d"
  have a: "agree n k ?drv ?d" using Cons.prems(2) by (simp add: agree_def feed_def)
  have whole: "try_step (feed (concat cs) ?d) = (Some (Some f), e)" using Cons.prems(1) by (simp add: feed_feed)
  note head = prefix_head [OF whole assms(3)]
  have poll: "recv_poll (map ReadBytes (c # cs) @ evs) drv = (case try_extract_frame ?drv of
      (Some p, drv) \<Rightarrow> Some (1, Some p, drv, map ReadBytes cs @ evs) | (None, drv) \<Rightarrow> recv_poll (map ReadBytes cs @ evs) drv)"
    by (simp add: room Let_def)
  show ?case
  proof (cases "concat cs = []")
    case True
    then have "try_step ?d = (Some (Some f), e)" using whole by (simp only: True feed_Nil)
    have "\<exists>ds. map ReadBytes cs @ evs = map ReadBytes ds @ evs \<and> concat ds = []" using True by blast
    with extract_step_agrees [OF a head \<open>try_step ?d = (Some (Some f), e)\<close>] assms(4) show ?thesis
      unfolding poll by (auto simp: c_answer_def good_def wrong_def simp del: append_same_eq dest!: try_extract_answer)
  next
    case False
    from prefix_waits [OF whole assms(2) False]
    obtain d' where d': "try_step ?d = (Some None, d')" "try_step (feed (concat cs) d') = (Some (Some f), e)" .
    from extract_step_agrees [OF a head d'(1)] obtain drv' where
      e: "try_extract_frame ?drv = (None, drv')" and a': "agree n k drv' d'"
      by (auto simp: c_answer_def good_def wrong_def dest!: try_extract_answer)
    have "length (dc_buf d') \<le> 70" using extract_stops [OF e] a' by (simp add: agree_def)
    from Cons.IH [OF d'(2) a' this False] show ?thesis unfolding poll e by simp
  qed
qed simp

text \<open>A frame from Python, after garbage, in any chunks.\<close>

lemma python_frame_in_c:
  assumes "sensor_ok s" and "sensor_pack s = Inr payload" and "encode_frame TYPE_SENSOR payload = Inr wire"
    and "magic_free g" and "concat cs = g @ wire" and "dv_rx drv = []"
  shows "\<exists>p drv' evs'. socket_drv_recv_sensor (map ReadBytes cs @ evs) drv = Some (1, Some p, drv', evs') \<and>
    sp_timestamp_ms p = word_of_int (sf_timestamp_ms s) \<and> widen (sp_v_vehicle p) = f32_round (sf_v_vehicle s) \<and>
    widen (sp_omega_wheel p) = f32_round (sf_omega_wheel s) \<and>
    widen (sp_brake_pressure p) = f32_round (sf_brake_pressure s) \<and>
    sp_fault_flags p = word_of_int (sf_fault_flags s) \<and> dv_rx drv' = [] \<and>
    ds_bytes_dropped (dv_stats drv') = ds_bytes_dropped (dv_stats drv) + of_nat (length g) \<and>
    ds_errors_crc (dv_stats drv') = ds_errors_crc (dv_stats drv) \<and>
    ds_errors_size (dv_stats drv') = ds_errors_size (dv_stats drv) \<and>
    ds_errors_type (dv_stats drv') = ds_errors_type (dv_stats drv) \<and> canon B32 (sp_v_vehicle p) \<and>
    (\<exists>ds. evs' = map ReadBytes ds @ evs \<and> concat ds = [])"
proof -
  have l: "length payload = 18" using sensor_pack_size [OF assms(1,2)] by (simp add: SENSOR_SIZE_def)
  have w: "wire = frame_bytes 1 payload" using assms(3) by (auto simp: encode_frame_eq act_types split: if_splits)
  let ?f = "\<lparr>fr_frame_type = 1, fr_payload = payload\<rparr>" and ?s = "dv_stats drv"
  let ?d = "\<lparr>dc_buf = [], dc_errors_crc = unat (ds_errors_crc ?s), dc_errors_size = unat (ds_errors_size ?s),
     dc_errors_type = unat (ds_errors_type ?s), dc_bytes_dropped = unat (ds_bytes_dropped ?s)\<rparr>"
  have a: "agree (unat (ds_frames_received_ok ?s)) 0 drv ?d" using assms(6) by (simp add: agree_def)
  let ?e = "(skip_to (length g) (feed (g @ wire) ?d))\<lparr>dc_buf := []\<rparr>"
  have "find_magic 0 (g @ wire) = Some (length g)" unfolding w frame_bytes_def using find_magic_garbage [OF assms(4)] by simp
  then have "try_step (feed (g @ wire) ?d) = try_frame (skip_to (length g) (feed (g @ wire) ?d))" by (simp add: try_step_alt)
  also have "\<dots> = (Some (Some ?f), ?e)" by (rule try_frame_accept) (simp_all add: l w)
  finally have st: "try_step (feed (concat cs) ?d) = (Some (Some ?f), ?e)" unfolding assms(5) .
  have ne: "concat cs \<noteq> []" unfolding assms(5) by (simp add: w frame_bytes_def)
  have "try_extract_frame drv = (None, drv)"
    by (rule try_extract_answer) (simp add: extract_step_def Let_def assms(6) count_dropped_def)
  then have idle: "socket_drv_recv_sensor (map ReadBytes cs @ evs) drv = recv_poll (map ReadBytes cs @ evs) drv"
    by (simp add: socket_drv_recv_sensor_def)
  from recv_poll_stream [OF st _ _ _ a _ ne, of evs] l obtain drv' evs' where
    r: "recv_poll (map ReadBytes cs @ evs) drv = Some (1, Some (sensor_payload_of payload), drv', evs')"
      "agree (unat (ds_frames_received_ok ?s) + 1) 0 drv' ?e" "\<exists>ds. evs' = map ReadBytes ds @ evs \<and> concat ds = []"
    by (auto simp: payload_ok_def)
  have u: "le_int (take 4 payload) = sf_timestamp_ms s mod 2 ^ 32" "le_int (drop 16 payload) = sf_fault_flags s mod 2 ^ 16"
    "unpack_f (take 4 (drop 4 payload)) = f32_round (sf_v_vehicle s)" "unpack_f (take 4 (drop 8 payload)) = f32_round (sf_omega_wheel s)"
    "unpack_f (take 4 (drop 12 payload)) = f32_round (sf_brake_pressure s)"
    using sensor_unpack_pack [OF assms(1,2)] l by (simp_all add: sensor_unpack_def sensor_wire_def SENSOR_SIZE_def)
  have t: "take 2 (drop 16 payload) = drop 16 payload" using l by simp
  let ?p = "sensor_payload_of payload"
  have "sp_timestamp_ms ?p = word_of_int (sf_timestamp_ms s)" "sp_fault_flags ?p = word_of_int (sf_fault_flags s)"
    by (simp_all only: sensor_payload_of_def sensor_payload.simps u t word_of_mod)
  moreover have "widen (sp_v_vehicle ?p) = f32_round (sf_v_vehicle s)" "widen (sp_omega_wheel ?p) = f32_round (sf_omega_wheel s)"
    "widen (sp_brake_pressure ?p) = f32_round (sf_brake_pressure s)"
    by (simp_all only: sensor_payload_of_def sensor_payload.simps u [symmetric] unpack_f_def)
  moreover have "canon B32 (sp_v_vehicle ?p)"
    using bits_f32_canon(1) [of "le_int (take 4 (drop 4 payload))"] le_int_bounds [of "take 4 (drop 4 payload)"] l
    by (simp add: sensor_payload_of_def)
  ultimately show ?thesis using r idle
    by (intro exI [of _ ?p] exI [of _ drv'] exI [of _ evs'] conjI) (auto simp: agree_def skip_to_def feed_def)
qed

text \<open>C19: From the plant to the ECU: a sensor frame packed and encoded by Python, after garbage without a magic pair (nor the first
  byte of one at its end) and cut into chunks in any way, is what the next \<^verbatim>\<open>socket_drv_recv_sensor\<close> of a driver with an empty receive buffer returns, with each
  field as the wire carries it; nothing is left in the buffer and exactly the garbage is counted as dropped.\<close>

theorem c_receives_python_frame:
  assumes "sensor_ok s" and "sensor_pack s = Inr payload" and "encode_frame TYPE_SENSOR payload = Inr wire"
    and "magic_free g" and "concat cs = g @ wire" and "dv_rx drv = []"
  shows "\<exists>p drv' evs'. socket_drv_recv_sensor (map ReadBytes cs @ evs) drv = Some (1, Some p, drv', evs') \<and>
    sp_timestamp_ms p = word_of_int (sf_timestamp_ms s) \<and> widen (sp_v_vehicle p) = f32_round (sf_v_vehicle s) \<and>
    widen (sp_omega_wheel p) = f32_round (sf_omega_wheel s) \<and>
    widen (sp_brake_pressure p) = f32_round (sf_brake_pressure s) \<and>
    sp_fault_flags p = word_of_int (sf_fault_flags s) \<and> dv_rx drv' = [] \<and>
    ds_bytes_dropped (dv_stats drv') = ds_bytes_dropped (dv_stats drv) + of_nat (length g) \<and>
    ds_errors_crc (dv_stats drv') = ds_errors_crc (dv_stats drv)"
  using python_frame_in_c [OF assms, of evs] by blast

theorem c_receives_python_frame_witness:
  "\<exists>wire p drv' evs'. sensor_pack \<lparr>sf_timestamp_ms = 5, sf_v_vehicle = NaN, sf_omega_wheel = NaN, sf_brake_pressure = NaN,
      sf_fault_flags = 3\<rparr> = Inr wire \<and>
    socket_drv_recv_sensor [ReadBytes [0x55], ReadBytes (frame_bytes 1 wire)] socket_drv_connect = Some (1, Some p, drv', evs') \<and>
    sp_timestamp_ms p = 5 \<and> widen (sp_v_vehicle p) = NaN"
proof -
  let ?s = "\<lparr>sf_timestamp_ms = 5, sf_v_vehicle = NaN, sf_omega_wheel = NaN, sf_brake_pressure = NaN, sf_fault_flags = 3\<rparr>"
  have ok: "sensor_ok ?s" by (simp add: sensor_ok_def)
  obtain w where w: "sensor_pack ?s = Inr w" using pack_f_special(3) by (auto simp: sensor_pack_def)
  have "length w = 18" using sensor_pack_size [OF ok w] by (simp add: SENSOR_SIZE_def)
  then have e: "encode_frame TYPE_SENSOR w = Inr (frame_bytes 1 w)" by (simp add: encode_frame_eq act_types)
  show ?thesis
    using c_receives_python_frame [OF ok w e, of "[0x55]" "[[0x55], frame_bytes 1 w]" socket_drv_connect "[]"] w
    by (auto simp: pack_f_special socket_drv_connect_def)
qed

section \<open>From C to Python\<close>

lemma ucast_word: "(ucast x :: byte) = word_of_int (uint x)" for x :: "16 word"
  by (simp add: word_uint_eq_iff unsigned_ucast_eq uint_word_of_int take_bit_eq_mod)

lemma and_byte: "n AND 0xFF = n mod 256" for n :: int
  using take_bit_eq_mask [of 8 n] by (simp add: take_bit_eq_mod mask_eq_exp_minus_1)

lemma actuator_wire_frame: "actuator_wire_bytes p = frame_bytes 2 (actuator_payload_bytes p)"
proof -
  have l: "length (actuator_payload_bytes p) = 12" by (simp add: actuator_payload_bytes_def)
  have crc: "[ucast (c AND 0xFF), ucast (drop_bit 8 c AND 0xFF)] = le_bytes 2 (uint c)" for c :: "16 word"
    by (simp add: le_bytes_2 ucast_word unsigned_and_eq unsigned_drop_bit_eq and_byte drop_bit_eq_div uint_div)
  show ?thesis
    unfolding actuator_wire_bytes_def Let_def crc frame_bytes_def crc_c_uint
    by (simp add: PROTO_MAGIC_def PROTO_TYPE_ACTUATOR_def l le_bytes_2)
qed

text \<open>The Python frame for the fields of a C payload.\<close>

definition as_actuator_frame :: "actuator_payload \<Rightarrow> actuator_frame" where
  "as_actuator_frame p = \<lparr>af_timestamp_ms = uint (ap_timestamp_ms p), af_brake_command = widen (ap_brake_command p),
     af_ecu_status = uint (ap_ecu_status p), af_dtc_code = uint (ap_dtc_code p)\<rparr>"

lemma actuator_payload_pack:
  assumes "canon B32 (ap_brake_command p)"
  shows "actuator_pack (as_actuator_frame p) = Inr (actuator_payload_bytes p)"
    "actuator_unpack (actuator_payload_bytes p) = Inr (as_actuator_frame p)"
proof -
  have m: "uint (ap_timestamp_ms p) mod 4294967296 = uint (ap_timestamp_ms p)"
    "uint (ap_ecu_status p) mod 65536 = uint (ap_ecu_status p)" "uint (ap_dtc_code p) mod 65536 = uint (ap_dtc_code p)"
    using uint_lt2p [of "ap_timestamp_ms p"] uint_lt2p [of "ap_ecu_status p"] uint_lt2p [of "ap_dtc_code p"] by simp_all
  show pk: "actuator_pack (as_actuator_frame p) = Inr (actuator_payload_bytes p)"
    by (simp add: actuator_pack_def as_actuator_frame_def pack_f_def to_f32_widen [OF assms] and_masks m
        actuator_payload_bytes_def del: le_bytes.simps)
  have "actuator_ok (as_actuator_frame p)" using assms by (simp add: actuator_ok_def as_actuator_frame_def canon_widen)
  moreover have "actuator_wire (as_actuator_frame p) = as_actuator_frame p"
    by (simp add: actuator_wire_def as_actuator_frame_def m f32_round_def to_f32_widen [OF assms])
  ultimately show "actuator_unpack (actuator_payload_bytes p) = Inr (as_actuator_frame p)"
    using actuator.unpack_pack [OF _ pk] by simp
qed

text \<open>C20: An actuator frame built by the C driver is byte for byte the frame Python would encode for the same fields.\<close>

theorem c_actuator_wire_is_python:
  assumes "canon B32 (ap_brake_command p)"
  shows "\<exists>payload. actuator_pack \<lparr>af_timestamp_ms = uint (ap_timestamp_ms p), af_brake_command = widen (ap_brake_command p),
      af_ecu_status = uint (ap_ecu_status p), af_dtc_code = uint (ap_dtc_code p)\<rparr> = Inr payload \<and>
    encode_frame TYPE_ACTUATOR payload = Inr (actuator_wire_bytes p)"
  using actuator_payload_pack(1) [OF assms] actuator_wire_frame [of p]
  by (intro exI [of _ "actuator_payload_bytes p"])
    (simp add: as_actuator_frame_def encode_frame_eq act_types actuator_payload_bytes_def)

theorem c_actuator_wire_is_python_witness:
  "\<exists>payload. actuator_pack \<lparr>af_timestamp_ms = 7, af_brake_command = widen (clit 100 1), af_ecu_status = 3, af_dtc_code = 4\<rparr> =
      Inr payload \<and>
    encode_frame TYPE_ACTUATOR payload = Inr (actuator_wire_bytes \<lparr>ap_timestamp_ms = 7, ap_brake_command = clit 100 1,
      ap_ecu_status = 3, ap_dtc_code = 4\<rparr>)"
proof -
  have "canon B32 (clit 100 1)" by code_simp
  with c_actuator_wire_is_python [of "\<lparr>ap_timestamp_ms = 7, ap_brake_command = clit 100 1, ap_ecu_status = 3, ap_dtc_code = 4\<rparr>"]
  show ?thesis by simp
qed

text \<open>What \<^verbatim>\<open>send_all\<close> has put out: everything where it reports success, else a proper prefix.\<close>

theorem send_all_prefix:
  "send_all evs buf = Some (rc, out, evs') \<Longrightarrow>
    (\<exists>rest. buf = out @ rest \<and> (rc = 0 \<longleftrightarrow> rest = [])) \<and> rc \<in> {0, - 1}"
proof (induction evs buf arbitrary: out rule: send_all.induct)
  case (5 n evs v va)
  show ?case
  proof (cases "n = 0")
    case True
    then show ?thesis using 5 by auto
  next
    case False
    let ?buf = "v # va"
    from 5(2) False obtain out1 where o: "send_all evs (drop n ?buf) = Some (rc, out1, evs')" "out = take n ?buf @ out1"
      by auto
    from 5(1) [OF False o(1)] obtain rest where "drop n ?buf = out1 @ rest" "rc = 0 \<longleftrightarrow> rest = []" "rc \<in> {0, - 1}" by blast
    then show ?thesis unfolding o(2) by (metis append.assoc append_take_drop_id)
  qed
qed auto

theorem send_all_prefix_witness:
  "send_all [SentBytes 1, SendInterrupted, SendError] [1, 2] = Some (- 1, [1], []) \<and> (\<exists>rest. [1, 2 :: byte] = [1] @ rest)"
proof -
  have "send_all [SentBytes 1, SendInterrupted, SendError] [1, 2] = Some (- 1, [1], [])" by simp
  from send_all_prefix [OF this] this show ?thesis by blast
qed

end
