(* ===== verification/Ecu_Main_Properties.thy ===== *)
theory Ecu_Main_Properties
  imports Ecu_Main Ecu_Driver_Properties
begin

unbundle bit_operations_syntax

text \<open>
  The ECU as a whole: it releases the brake only on fresh, valid, plausible data; a silent link brings it
  to FAULT_LATCHED with the driver's pedal in command, at start-up already after ten cycles; and what a
  cycle sends is what the plant receives.
\<close>

section \<open>Time\<close>

text \<open>Adding nanoseconds to a timespec is exact and leaves the nanoseconds normalised, for any sign and size.\<close>

theorem timespec_add_exact:
  "tv_sec (timespec_add_ns ts ns) * 1000000000 + tv_nsec (timespec_add_ns ts ns) = tv_sec ts * 1000000000 + tv_nsec ts + ns \<and>
   0 \<le> tv_nsec (timespec_add_ns ts ns) \<and> tv_nsec (timespec_add_ns ts ns) < 1000000000"
proof -
  let ?t = "tv_nsec ts + ns"
  have d: "?t sdiv 1000000000 * 1000000000 + ?t smod 1000000000 = ?t" by (rule sdiv_mult_smod_eq)
  have "?t smod 1000000000 < 1000000000" "- 1000000000 < ?t smod 1000000000"
    using smod_int_range [of 1000000000 ?t] by simp_all
  then show ?thesis using d by (simp add: timespec_add_ns_def Let_def algebra_simps)
qed

section \<open>One cycle\<close>

lemma state_step_mode:
  assumes "st_current (state_step c (Some s) slip d) \<notin> {S_FAULT_DEGRADED, S_FAULT_LATCHED}"
  shows "d = C_DTC_NONE \<and> sensors_usable (Some s)"
proof -
  have "\<not> bad (Some s, slip, d)" using step_bad(2) [of "Some s" slip d c] assms by (auto split: if_splits)
  then show ?thesis by (auto simp: bad_def)
qed

lemma diagnostic_timeout:
  "WATCHDOG_TIMEOUT_CYCLES < n \<Longrightarrow> bit (fst (diagnostic_step ctx s r n crc)) 2"
  by (simp add: diagnostic_step_def Let_def C_DTC_COMM_TIMEOUT_def C_DTC_NONE_def bit_simps split: prod.split)

lemma diagnostic_range:
  "sd_valid s \<Longrightarrow> diagnostic_out_of_range (sd_v_vehicle s) (sd_omega_wheel s) \<Longrightarrow> bit (fst (diagnostic_step ctx s r n crc)) 4"
  by (simp add: diagnostic_step_def Let_def C_DTC_SENSOR_RANGE_def bit_simps split: prod.split)

lemma controller_releases:
  assumes "controller_step c mode s slip req = (cmd, c')" "cmd \<noteq> req"
  shows "mode \<in> {S_MONITOR, S_ACTIVE}" "\<not> flt (sd_v_vehicle s) ABS_LOW_SPEED_BYPASS_MPS"
  using assms by (cases mode; auto simp: controller_step_def split: if_splits)+

lemma ecu_decide_parts:
  assumes "ecu_decide req crc e = ((mode, d, cmd), e')"
  defines "s \<equiv> for_state e"
  defines "slip \<equiv> abs_controller_slip_protected (sd_v_vehicle s) (sd_omega_wheel s) WHEEL_RADIUS_M SLIP_V_MIN_MPS"
  shows "d = fst (diagnostic_step (eu_dg e) s WHEEL_RADIUS_M (eu_cycles_since_valid e) crc)"
    "eu_st e' = state_step (eu_st e) (Some s) slip d" "mode = st_current (eu_st e')"
    "controller_step (eu_cc e) mode s slip req = (cmd, eu_cc e')"
    "eu_cycles_since_valid e' = eu_cycles_since_valid e" "eu_last_good e' = eu_last_good e" "eu_cur e' = eu_cur e"
  using assms(1) by (auto simp: ecu_decide_def Let_def s_def slip_def split: prod.splits)

lemma for_state_age:
  assumes "eu_cycles_since_valid e \<le> WATCHDOG_TIMEOUT_CYCLES"
  shows "for_state e = (if sd_valid (eu_cur e) then eu_cur e else eu_last_good e)"
proof -
  have "unat (eu_cycles_since_valid e) \<le> 5" using assms by (simp add: WATCHDOG_TIMEOUT_CYCLES_def word_le_nat_alt)
  then have "unat (eu_cycles_since_valid e * 10) \<le> 50" by (simp add: unat_word_ariths)
  then show ?thesis by (simp add: for_state_def LOOP_PERIOD_NS_def WATCHDOG_TIMEOUT_MS_def word_le_nat_alt)
qed

text \<open>C10: The ECU takes the brake away from the driver only on evidence: if a cycle commands anything but the driver's
  request, then the machine is in MONITOR or ACTIVE, no DTC is raised, and the sample used is the one just
  read or the last good one, read at most five cycles ago; it is valid, its speeds are finite and in range,
  and the vehicle is not below the bypass speed.\<close>

theorem release_needs_evidence:
  assumes "ecu_control req r cur crc e = ((mode, d, cmd), e')" and "cmd \<noteq> req"
  shows "mode \<in> {S_MONITOR, S_ACTIVE} \<and> d = C_DTC_NONE \<and> eu_cycles_since_valid e' \<le> 5 \<and>
    (\<exists>s \<in> {cur, eu_last_good e}. (s = cur \<longrightarrow> r = 0 \<or> cur = eu_last_good e) \<and> sd_valid s \<and>
      \<not> diagnostic_out_of_range (sd_v_vehicle s) (sd_omega_wheel s) \<and> \<not> flt (sd_v_vehicle s) ABS_LOW_SPEED_BYPASS_MPS)"
proof -
  let ?e = "ecu_sense r cur e" and ?s = "for_state (ecu_sense r cur e)"
  have c: "ecu_decide req crc ?e = ((mode, d, cmd), e')" using assms(1) by (simp add: ecu_control_def)
  note p = ecu_decide_parts [OF c]
  note k = controller_releases [OF p(4) assms(2)]
  have "st_current (eu_st e') \<notin> {S_FAULT_DEGRADED, S_FAULT_LATCHED}" using k(1) unfolding p(3) by auto
  then have d: "d = C_DTC_NONE" and u: "sensors_usable (Some ?s)" using state_step_mode unfolding p(2) by blast+
  have v: "sd_valid ?s" using u by (simp add: sensors_usable_def split: if_splits)
  have b: "\<not> bit d n" for n using d by (simp add: C_DTC_NONE_def)
  have n: "eu_cycles_since_valid ?e \<le> WATCHDOG_TIMEOUT_CYCLES" using diagnostic_timeout b p(1) not_le by metis
  have o: "\<not> diagnostic_out_of_range (sd_v_vehicle ?s) (sd_omega_wheel ?s)" using diagnostic_range v b p(1) by metis
  have "?s = cur \<and> r = 0 \<or> ?s = eu_last_good e"
    unfolding for_state_age [OF n] using v by (auto simp: for_state_age [OF n] ecu_sense_def Let_def)
  then show ?thesis using k d n p(5) v o by (auto simp: WATCHDOG_TIMEOUT_CYCLES_def)
qed

theorem release_needs_evidence_witness:
  "\<exists>e'. ecu_control (clit 100 1) 0 (zero_sample\<lparr>sd_valid := True, sd_v_vehicle := clit 20 1\<rparr>) 0
      (ecu_init\<lparr>eu_st := abs_state_init\<lparr>st_current := S_MONITOR\<rparr>\<rparr>) = ((S_ACTIVE, C_DTC_NONE, clit 0 1), e') \<and>
    eu_cycles_since_valid e' \<le> 5"
proof -
  let ?c = "ecu_control (clit 100 1) 0 (zero_sample\<lparr>sd_valid := True, sd_v_vehicle := clit 20 1\<rparr>) 0
      (ecu_init\<lparr>eu_st := abs_state_init\<lparr>st_current := S_MONITOR\<rparr>\<rparr>)"
  have "fst ?c = (S_ACTIVE, C_DTC_NONE, clit 0 1)" by code_simp
  then obtain e' where c: "?c = ((S_ACTIVE, C_DTC_NONE, clit 0 1), e')" by (metis prod.collapse)
  have "clit 0 1 \<noteq> clit 100 1" by code_simp
  from release_needs_evidence [OF c this] c show ?thesis by blast
qed

section \<open>Runs\<close>

text \<open>The reads of a run (code, sample, CRC error count), the outputs of its cycles and the final state.\<close>

type_synonym ecu_read = "int \<times> sensors_data \<times> 32 word"

fun ecu_run :: "pyfloat \<Rightarrow> ecu_read list \<Rightarrow> ecu \<Rightarrow> (ecu_status_t \<times> dtc \<times> pyfloat) list \<times> ecu" where
  "ecu_run req [] e = ([], e)"
| "ecu_run req ((r, cur, crc) # xs) e =
     (let (out, e) = ecu_control req r cur crc e; (outs, e) = ecu_run req xs e in (out # outs, e))"

text \<open>What the state machine is stepped with in a cycle, and over a run.\<close>

definition cycle_input :: "ecu_read \<Rightarrow> ecu \<Rightarrow> ecu_input" where
  "cycle_input = (\<lambda>(r, cur, crc) e. let e = ecu_sense r cur e; s = for_state e in
     (Some s, abs_controller_slip_protected (sd_v_vehicle s) (sd_omega_wheel s) WHEEL_RADIUS_M SLIP_V_MIN_MPS,
      fst (diagnostic_step (eu_dg e) s WHEEL_RADIUS_M (eu_cycles_since_valid e) crc)))"

fun run_inputs :: "pyfloat \<Rightarrow> ecu_read list \<Rightarrow> ecu \<Rightarrow> ecu_input list" where
  "run_inputs req [] e = []"
| "run_inputs req ((r, cur, crc) # xs) e =
     cycle_input (r, cur, crc) e # run_inputs req xs (snd (ecu_control req r cur crc e))"

lemma ecu_run_append:
  "ecu_run req (xs @ ys) e =
    (fst (ecu_run req xs e) @ fst (ecu_run req ys (snd (ecu_run req xs e))), snd (ecu_run req ys (snd (ecu_run req xs e))))"
  by (induction req xs e rule: ecu_run.induct) (simp_all add: Let_def split: prod.splits)

lemma run_inputs_append: "run_inputs req (xs @ ys) e = run_inputs req xs e @ run_inputs req ys (snd (ecu_run req xs e))"
  by (induction req xs e rule: ecu_run.induct) (simp_all add: Let_def split: prod.splits)

lemma run_inputs_length [simp]: "length (run_inputs req xs e) = length xs"
  by (induction req xs e rule: run_inputs.induct) simp_all

lemma ecu_control_parts:
  assumes "ecu_control req r cur crc e = ((mode, d, cmd), e')"
  shows "eu_st e' = state_step (eu_st e) (fst (cycle_input (r, cur, crc) e)) (fst (snd (cycle_input (r, cur, crc) e))) d"
    "d = snd (snd (cycle_input (r, cur, crc) e))" "mode = st_current (eu_st e')"
    "mode \<in> {S_FAULT_DEGRADED, S_FAULT_LATCHED} \<Longrightarrow> cmd = req"
    "eu_cycles_since_valid e' = (if r = 0 then 0 else eu_cycles_since_valid e + 1)"
    "eu_last_good e' = (if r = 0 then cur else eu_last_good e)" "r \<noteq> 0 \<Longrightarrow> \<not> sd_valid (eu_cur e')"
proof -
  have c: "ecu_decide req crc (ecu_sense r cur e) = ((mode, d, cmd), e')" using assms by (simp add: ecu_control_def)
  note p = ecu_decide_parts [OF c]
  have st: "eu_st (ecu_sense r cur e) = eu_st e" by (simp add: ecu_sense_def Let_def)
  show "eu_st e' = state_step (eu_st e) (fst (cycle_input (r, cur, crc) e)) (fst (snd (cycle_input (r, cur, crc) e))) d"
    "d = snd (snd (cycle_input (r, cur, crc) e))"
    using p(1,2) st by (simp_all add: cycle_input_def Let_def)
  show "mode = st_current (eu_st e')" by (rule p(3))
  show "mode \<in> {S_FAULT_DEGRADED, S_FAULT_LATCHED} \<Longrightarrow> cmd = req" using controller_releases(1) [OF p(4)] by auto
  show "eu_cycles_since_valid e' = (if r = 0 then 0 else eu_cycles_since_valid e + 1)"
    "eu_last_good e' = (if r = 0 then cur else eu_last_good e)" "r \<noteq> 0 \<Longrightarrow> \<not> sd_valid (eu_cur e')"
    using p(5-7) by (simp_all add: ecu_sense_def Let_def)
qed

lemma run_state: "eu_st (snd (ecu_run req xs e)) = state_run (eu_st e) (run_inputs req xs e)"
proof (induction req xs e rule: ecu_run.induct)
  case (2 req r cur crc xs e)
  obtain mode d cmd e1 where c: "ecu_control req r cur crc e = ((mode, d, cmd), e1)" by (metis prod.exhaust)
  obtain outs e2 where r: "ecu_run req xs e1 = (outs, e2)" by force
  have "eu_st e2 = state_run (eu_st e1) (run_inputs req xs e1)" using 2 [OF c [symmetric] refl] r by simp
  then show ?case using ecu_control_parts(1,2) [OF c] by (simp add: c r Let_def)
qed simp

text \<open>The last cycle of a run.\<close>

lemma run_last:
  assumes "ys \<noteq> []" "last (fst (ecu_run req ys e)) = (mode, d, cmd)"
  shows "mode = st_current (eu_st (snd (ecu_run req ys e)))" "d = snd (snd (last (run_inputs req ys e)))"
    "mode \<in> {S_FAULT_DEGRADED, S_FAULT_LATCHED} \<Longrightarrow> cmd = req"
proof -
  obtain zs r cur crc where ys: "ys = zs @ [(r, cur, crc)]" using assms(1) by (cases ys rule: rev_cases) auto
  let ?e = "snd (ecu_run req zs e)"
  obtain m' d' c' e' where c: "ecu_control req r cur crc ?e = ((m', d', c'), e')" by (metis prod.exhaust)
  have run: "last (fst (ecu_run req ys e)) = (m', d', c')" "snd (ecu_run req ys e) = e'"
    "last (run_inputs req ys e) = cycle_input (r, cur, crc) ?e"
    unfolding ys ecu_run_append run_inputs_append by (simp_all add: c Let_def)
  have eq: "mode = m'" "d = d'" "cmd = c'" using assms(2) run(1) by simp_all
  show "mode = st_current (eu_st (snd (ecu_run req ys e)))" "d = snd (snd (last (run_inputs req ys e)))"
    "mode \<in> {S_FAULT_DEGRADED, S_FAULT_LATCHED} \<Longrightarrow> cmd = req"
    unfolding eq run(2,3) using ecu_control_parts(2-4) [OF c] by simp_all
qed

section \<open>A silent link\<close>

definition failed :: "ecu_read list \<Rightarrow> bool" where
  "failed ys \<longleftrightarrow> (\<forall>(r, cur, crc) \<in> set ys. r \<noteq> 0)"

lemma cycles_bound: "length xs < 2 ^ 32 \<Longrightarrow> unat (eu_cycles_since_valid (snd (ecu_run req xs ecu_init))) \<le> length xs"
proof (induction xs rule: rev_induct)
  case Nil
  show ?case by (simp add: ecu_init_def)
next
  case (snoc x xs)
  obtain r cur crc where x: "x = (r, cur, crc)" by (cases x) auto
  let ?e = "snd (ecu_run req xs ecu_init)"
  obtain m d c e' where c: "ecu_control req r cur crc ?e = ((m, d, c), e')" by (metis prod.exhaust)
  have IH: "unat (eu_cycles_since_valid ?e) \<le> length xs" "length xs < 2 ^ 32 - 1" using snoc by simp_all
  then have "unat (eu_cycles_since_valid ?e + 1) = Suc (unat (eu_cycles_since_valid ?e))"
    by (subst unat_add_lem [THEN iffD1]) auto
  then show ?case using ecu_control_parts(5) [OF c] IH unfolding ecu_run_append by (simp add: x c Let_def)
qed

lemma timeout_inputs:
  assumes "failed ys" "unat (eu_cycles_since_valid e) + length ys < 2 ^ 32" "i < length ys"
    and "5 \<le> unat (eu_cycles_since_valid e) + i"
  shows "bit (snd (snd (run_inputs req ys e ! i))) 2"
  using assms
proof (induction req ys e arbitrary: i rule: run_inputs.induct)
  case (2 req r cur crc xs e)
  obtain m d c e' where c: "ecu_control req r cur crc e = ((m, d, c), e')" by (metis prod.exhaust)
  have r: "r \<noteq> 0" "failed xs" using 2(2) by (auto simp: failed_def)
  have u: "unat (eu_cycles_since_valid e + 1) = Suc (unat (eu_cycles_since_valid e))"
    using 2(3) by (subst unat_add_lem [THEN iffD1]) auto
  have e': "unat (eu_cycles_since_valid e') = Suc (unat (eu_cycles_since_valid e))"
    using ecu_control_parts(5) [OF c] r(1) u by simp
  show ?case
  proof (cases i)
    case 0
    then have "WATCHDOG_TIMEOUT_CYCLES < eu_cycles_since_valid e + 1"
      using 2(5) u by (simp add: WATCHDOG_TIMEOUT_CYCLES_def word_less_nat_alt)
    then show ?thesis using 0 r(1) diagnostic_timeout by (simp add: cycle_input_def ecu_sense_def Let_def)
  next
    case (Suc j)
    then show ?thesis using 2(1) [of j] 2(3-5) r(2) e' by (simp add: c)
  qed
qed simp

lemma bad_dtc: "bit (snd (snd x)) n \<Longrightarrow> bad x"
  by (cases x) (auto simp: bad_def C_DTC_NONE_def)

text \<open>The part of a run in which reads fail.\<close>

lemma failed_stretch:
  assumes "failed ys" "length xs + length ys < 2 ^ 32" "i < length ys" "5 \<le> i"
  shows "bit (snd (snd (run_inputs req ys (snd (ecu_run req xs ecu_init)) ! i))) 2"
  using timeout_inputs [OF assms(1) _ assms(3)] cycles_bound [of xs req] assms(2,4) by simp

lemma last_input:
  assumes "ys \<noteq> []"
  shows "last (run_inputs req (xs @ ys) ecu_init) = run_inputs req ys (snd (ecu_run req xs ecu_init)) ! (length ys - 1)"
proof -
  have "run_inputs req ys (snd (ecu_run req xs ecu_init)) \<noteq> []" using assms run_inputs_length by (metis length_0_conv)
  then show ?thesis by (metis last_appendR last_conv_nth run_inputs_append run_inputs_length)
qed

lemma failed_ten:
  assumes "failed ys" "length xs + length ys < 2 ^ 32" "15 \<le> length ys"
  shows "ten_in_a_row (map bad (run_inputs req (xs @ ys @ zs) ecu_init))"
proof -
  let ?ys = "run_inputs req ys (snd (ecu_run req xs ecu_init))"
  have r: "map bad (drop 5 ?ys) = replicate (length ys - 5) True"
    using bad_dtc [OF failed_stretch [OF assms(1,2)]] by (intro nth_equalityI) simp_all
  have "length ys - 5 = 10 + (length ys - 15)" using assms(3) by simp
  then have "map bad ?ys = map bad (take 5 ?ys) @ replicate 10 True @ replicate (length ys - 15) True"
    using r by (metis append_take_drop_id map_append replicate_add)
  then show ?thesis unfolding ten_in_a_row_def run_inputs_append map_append by (metis append.assoc)
qed

lemma run_mode:
  assumes "xs \<noteq> []" "length xs < 2 ^ 32" "last (fst (ecu_run req xs ecu_init)) = (mode, d, cmd)"
  shows "mode = S_FAULT_LATCHED \<longleftrightarrow> ten_in_a_row (map bad (run_inputs req xs ecu_init))"
    "mode = S_FAULT_DEGRADED \<longleftrightarrow> \<not> ten_in_a_row (map bad (run_inputs req xs ecu_init)) \<and> bad (last (run_inputs req xs ecu_init))"
proof -
  have "eu_st ecu_init = abs_state_init" by (simp add: ecu_init_def)
  note m = run_last(1) [OF assms(1,3), unfolded run_state this]
  have "length (run_inputs req xs ecu_init) < 2 ^ 32" using assms(2) by simp
  note inv = latch_invariant [OF this]
  have "run_inputs req xs ecu_init \<noteq> []" using assms(1) run_inputs_length [of req xs ecu_init] by (metis length_0_conv)
  then show "mode = S_FAULT_LATCHED \<longleftrightarrow> ten_in_a_row (map bad (run_inputs req xs ecu_init))"
    "mode = S_FAULT_DEGRADED \<longleftrightarrow> \<not> ten_in_a_row (map bad (run_inputs req xs ecu_init)) \<and> bad (last (run_inputs req xs ecu_init))"
    using inv m by auto
qed

text \<open>The last cycle of a failed stretch, and any cycle after one that was long enough.\<close>

lemma failed_last:
  assumes "failed ys" "6 \<le> length ys" "length xs + length ys < 2 ^ 32"
    and o: "last (fst (ecu_run req (xs @ ys) ecu_init)) = (mode, d, cmd)"
  shows "bit d 2 \<and> mode \<in> {S_FAULT_DEGRADED, S_FAULT_LATCHED} \<and> cmd = req"
proof -
  have ne: "xs @ ys \<noteq> []" "ys \<noteq> []" using assms(2) by auto
  have "bit (snd (snd (last (run_inputs req (xs @ ys) ecu_init)))) 2"
    unfolding last_input [OF ne(2)] using failed_stretch [OF assms(1,3), of "length ys - 1"] assms(2) by simp
  then have d: "bit d 2" and lb: "bad (last (run_inputs req (xs @ ys) ecu_init))"
    using run_last(2) [OF ne(1) o] bad_dtc by auto
  have "length (xs @ ys) < 2 ^ 32" using assms(3) by simp
  from run_mode [OF ne(1) this o] lb have m: "mode \<in> {S_FAULT_DEGRADED, S_FAULT_LATCHED}" by blast
  from d m run_last(3) [OF ne(1) o m] show ?thesis by blast
qed

lemma failed_latched:
  assumes "failed ys" "15 \<le> length ys" "length (xs @ ys @ zs) < 2 ^ 32"
    and o: "last (fst (ecu_run req (xs @ ys @ zs) ecu_init)) = (mode, d, cmd)"
  shows "mode = S_FAULT_LATCHED \<and> cmd = req"
proof -
  have ne: "xs @ ys @ zs \<noteq> []" using assms(2) by auto
  have "ten_in_a_row (map bad (run_inputs req (xs @ ys @ zs) ecu_init))"
    by (rule failed_ten [OF assms(1)]) (use assms(2,3) in simp_all)
  then have m: "mode = S_FAULT_LATCHED" using run_mode(1) [OF ne assms(3) o] by simp
  then show ?thesis using run_last(3) [OF ne o] by simp
qed

text \<open>Before it latches, the machine is degraded.\<close>

lemma first_ten:
  assumes "ten_in_a_row bs"
  shows "\<exists>m. 0 < m \<and> m < length bs \<and> \<not> ten_in_a_row (take m bs) \<and> last (take m bs)"
  using assms
proof (induction bs rule: rev_induct)
  case (snoc b bs)
  show ?case
  proof (cases "ten_in_a_row bs")
    case True
    with snoc.IH obtain m where "0 < m" "m < length bs" "\<not> ten_in_a_row (take m bs)" "last (take m bs)" by blast
    then show ?thesis by (intro exI [of _ m]) simp
  next
    case False
    then have s: "9 \<le> streak bs" using snoc.prems ten_snoc by blast
    then have "bs \<noteq> []" by auto
    then obtain cs c where "bs = cs @ [c]" by (cases bs rule: rev_cases) auto
    with s False show ?thesis by (intro exI [of _ "length bs"]) (auto simp: streak_snoc split: if_splits)
  qed
qed (simp add: ten_in_a_row_def)

lemma ecu_run_length [simp]: "length (fst (ecu_run req xs e)) = length xs"
proof (induction xs arbitrary: e)
  case (Cons x xs)
  obtain r cur crc where x: "x = (r, cur, crc)" by (cases x) auto
  obtain out e1 where c: "ecu_control req r cur crc e = (out, e1)" by (metis prod.exhaust)
  obtain outs e2 where r: "ecu_run req xs e1 = (outs, e2)" by force
  from Cons [of e1] show ?case by (simp add: x c r)
qed simp

lemma run_outs:
  assumes "i < length xs"
  shows "fst (ecu_run req xs e) ! i = last (fst (ecu_run req (take (Suc i) xs) e))"
proof -
  have "fst (ecu_run req xs e) = fst (ecu_run req (take (Suc i) xs) e) @
      fst (ecu_run req (drop (Suc i) xs) (snd (ecu_run req (take (Suc i) xs) e)))"
    using ecu_run_append [of req "take (Suc i) xs" "drop (Suc i) xs" e] by simp
  then have "fst (ecu_run req xs e) ! i = fst (ecu_run req (take (Suc i) xs) e) ! i"
    using assms by (simp add: nth_append)
  also have "\<dots> = last (fst (ecu_run req (take (Suc i) xs) e))"
  proof -
    have l: "length (fst (ecu_run req (take (Suc i) xs) e)) = Suc i" using assms by simp
    then have "fst (ecu_run req (take (Suc i) xs) e) \<noteq> []" by (metis list.size(3) nat.distinct(1))
    with l show ?thesis by (simp add: last_conv_nth)
  qed
  finally show ?thesis .
qed

lemma degraded_before_latched:
  assumes "length xs < 2 ^ 32" "last (fst (ecu_run req xs ecu_init)) = (S_FAULT_LATCHED, d, cmd)" "xs \<noteq> []"
  shows "\<exists>i < length xs. fst (fst (ecu_run req xs ecu_init) ! i) = S_FAULT_DEGRADED"
proof -
  let ?in = "run_inputs req xs ecu_init"
  have "ten_in_a_row (map bad ?in)" using run_mode(1) [OF assms(3,1,2)] by simp
  from first_ten [OF this] obtain m where
    m: "0 < m" "m < length xs" "\<not> ten_in_a_row (take m (map bad ?in))" "last (take m (map bad ?in))" by auto
  have t: "run_inputs req (take m xs) ecu_init = take m ?in"
    using run_inputs_append [of req "take m xs" "drop m xs" ecu_init] run_inputs_length [of req "take m xs" ecu_init] m(2) by simp
  obtain mode d' c' where o: "last (fst (ecu_run req (take m xs) ecu_init)) = (mode, d', c')" by (metis prod.exhaust)
  have ne: "take m xs \<noteq> []" using m(1,2) by auto
  have "take m ?in \<noteq> []" using m(1,2) run_inputs_length [of req xs ecu_init] by (cases ?in) auto
  then have "bad (last (take m ?in))" using m(4) by (simp add: take_map last_map)
  then have "mode = S_FAULT_DEGRADED"
    using run_mode(2) [OF ne _ o] assms(1) m(3) by (simp add: t take_map)
  moreover have "fst (ecu_run req xs ecu_init) ! (m - 1) = (mode, d', c')"
    using run_outs [of "m - 1" xs req ecu_init] m(1,2) o by simp
  ultimately show ?thesis using m(2) by (intro exI [of _ "m - 1"]) simp
qed

text \<open>C12: Liveness of the fault reaction: after any reads, if the link then fails for six cycles or more, each such cycle
  reports DTC_COMM_TIMEOUT, a fault mode and the driver's request; from fifteen cycles on the machine is in
  FAULT_LATCHED.  (Below 2^32 cycles in all, 497 days.)\<close>

theorem silent_link_latches:
  assumes "failed ys" and "6 \<le> length ys" and "length xs + length ys < 2 ^ 32"
  shows "case last (fst (ecu_run req (xs @ ys) ecu_init)) of (mode, d, cmd) \<Rightarrow>
    bit d 2 \<and> mode \<in> {S_FAULT_DEGRADED, S_FAULT_LATCHED} \<and> (15 \<le> length ys \<longrightarrow> mode = S_FAULT_LATCHED) \<and> cmd = req"
proof -
  obtain mode d cmd where o: "last (fst (ecu_run req (xs @ ys) ecu_init)) = (mode, d, cmd)" by (metis prod.exhaust)
  have "mode = S_FAULT_LATCHED" if "15 \<le> length ys"
    using failed_latched [OF assms(1) that, of xs "[]"] assms(3) o by simp
  then show ?thesis using failed_last [OF assms o] o by simp
qed

theorem silent_link_latches_witness:
  "case last (fst (ecu_run (clit 100 1) ([] @ replicate 15 (- 1, zero_sample, 0)) ecu_init)) of (mode, d, cmd) \<Rightarrow>
    mode = S_FAULT_LATCHED \<and> cmd = clit 100 1"
proof -
  define n :: nat where "n = 15"
  have "failed (replicate n (- 1, zero_sample, 0))" by (simp add: failed_def)
  moreover have "6 \<le> length (replicate n (- 1 :: int, zero_sample, 0 :: 32 word))" "15 \<le> n"
    "length ([] :: ecu_read list) + length (replicate n (- 1 :: int, zero_sample, 0 :: 32 word)) < 2 ^ 32" by (simp_all add: n_def)
  ultimately show ?thesis
    using silent_link_latches [of "replicate n (- 1, zero_sample, 0)" "[]" "clit 100 1"] unfolding n_def [symmetric]
    by (auto split: prod.splits)
qed

text \<open>Without a first frame no sample is usable.\<close>

lemma startup_inputs:
  assumes "failed ys" "\<not> sd_valid (eu_last_good e)" "x \<in> set (run_inputs req ys e)"
  shows "bad x"
  using assms
proof (induction req ys e rule: run_inputs.induct)
  case (2 req r cur crc xs e)
  obtain m d c e' where c: "ecu_control req r cur crc e = ((m, d, c), e')" by (metis prod.exhaust)
  have r: "r \<noteq> 0" "failed xs" using 2(2) by (auto simp: failed_def)
  have g: "\<not> sd_valid (eu_last_good e')" using ecu_control_parts(6) [OF c] r(1) 2(3) by simp
  have "bad (cycle_input (r, cur, crc) e)"
    using r(1) 2(3) by (simp add: cycle_input_def Let_def bad_def sensors_usable_def ecu_sense_def for_state_def)
  then show ?case using 2(1) r(2) g 2(4) by (auto simp: c)
qed simp

text \<open>C33: Start-up: the machine does not wait in INIT for the first frame: the first cycle without one reports
  FAULT_DEGRADED, and from the tenth on (100 ms) it is FAULT_LATCHED, for good; the driver's request is passed on.\<close>

theorem startup_latches:
  assumes "failed ys" and "ys \<noteq> []" and "length ys < 2 ^ 32"
  shows "case last (fst (ecu_run req ys ecu_init)) of (mode, d, cmd) \<Rightarrow>
    mode = (if length ys < 10 then S_FAULT_DEGRADED else S_FAULT_LATCHED) \<and> cmd = req"
proof -
  let ?in = "run_inputs req ys ecu_init"
  obtain mode d cmd where o: "last (fst (ecu_run req ys ecu_init)) = (mode, d, cmd)" by (metis prod.exhaust)
  have "\<not> sd_valid (eu_last_good ecu_init)" by (simp add: ecu_init_def zero_sample_def)
  note b = startup_inputs [OF assms(1) this]
  have m: "map bad ?in = replicate (length ys) True" using b [OF nth_mem] by (intro nth_equalityI) simp_all
  have "?in \<noteq> []" using assms(2) run_inputs_length [of req ys ecu_init] by (metis length_0_conv)
  then have lb: "bad (last ?in)" by (rule b [OF last_in_set])
  have t: "ten_in_a_row (map bad ?in) \<longleftrightarrow> 10 \<le> length ys"
  proof
    assume "ten_in_a_row (map bad ?in)"
    then obtain us vs where "map bad ?in = us @ replicate 10 True @ vs" unfolding ten_in_a_row_def by blast
    then have "length (map bad ?in) = length (us @ replicate 10 True @ vs)" by (rule arg_cong)
    then show "10 \<le> length ys" by simp
  next
    assume "10 \<le> length ys"
    then have "length ys = 10 + (length ys - 10)" by simp
    then have "map bad ?in = [] @ replicate 10 True @ replicate (length ys - 10) True"
      unfolding m append_Nil by (metis replicate_add)
    then show "ten_in_a_row (map bad ?in)" unfolding ten_in_a_row_def by blast
  qed
  note mode = run_mode [OF assms(2,3) o]
  then have "mode = (if length ys < 10 then S_FAULT_DEGRADED else S_FAULT_LATCHED)" using t lb by simp
  then show ?thesis unfolding o using run_last(3) [OF assms(2) o] by (auto split: if_splits)
qed

theorem startup_latches_witness:
  "case last (fst (ecu_run (clit 100 1) [(- 1, zero_sample, 0)] ecu_init)) of (mode, d, cmd) \<Rightarrow> mode = S_FAULT_DEGRADED"
  using startup_latches [of "[(- 1, zero_sample, 0)]" "clit 100 1"] by (auto simp: failed_def split: prod.splits)

section \<open>The answer on the wire\<close>

lemma ecu_tick_parts:
  assumes "ecu_tick req ot p = Some (EcuGo, p')"
  obtains r cur hal polls mode d cmd hal' sends sent where
    "ecu_control req r cur (hal_errors_crc hal) (ep_ecu p) = ((mode, d, cmd), ep_ecu p')"
    "hal_actuators_write (ep_sends p) \<lparr>ap_timestamp_ms = now_ms_mono (ot_tx_time ot), ap_brake_command = cmd,
       ap_ecu_status = status_code mode, ap_dtc_code = d\<rparr> hal = Some (0, sent, hal', sends)"
    "ep_sent p' = ep_sent p @ sent"
  using assms
  by (auto simp: ecu_tick_def Let_def split: if_splits option.splits prod.splits)

lemma write_complete:
  assumes "hal_actuators_write evs a h = Some (0, sent, h', evs')"
  shows "sent = actuator_wire_bytes a"
proof -
  have "\<exists>drv drv'. socket_drv_send_actuator evs drv a = Some (0, sent, drv', evs')"
    using assms by (auto simp: hal_actuators_write_def Let_def split: if_splits option.splits)
  then have "send_all evs (actuator_wire_bytes a) = Some (0, sent, evs')"
    by (auto simp: socket_drv_send_actuator_def split: if_splits)
  from send_all_prefix [OF this] show ?thesis by auto
qed

lemma control_admissible:
  assumes "ecu_control req r cur crc e = ((mode, d, cmd), e')" "c_holds req (eu_cc e)"
  shows "cmd \<in> {clit 0 1, req}" "c_holds req (eu_cc e')"
proof -
  have c: "ecu_decide req crc (ecu_sense r cur e) = ((mode, d, cmd), e')" using assms(1) by (simp add: ecu_control_def)
  have cc: "eu_cc (ecu_sense r cur e) = eu_cc e" by (simp add: ecu_sense_def Let_def)
  from ecu_decide_parts(4) [OF c] assms(2) show "cmd \<in> {clit 0 1, req}" "c_holds req (eu_cc e')"
    unfolding cc using controller_admissible by blast+
qed

text \<open>End to end: a cycle that goes on has put exactly one frame on the wire, and the plant, if its link is idle,
  receives it, whatever the chunks: the mode and the DTCs the cycle decided, and a brake command that is
  0 or the driver's request (for a binary32 request).\<close>

theorem ecu_answer_reaches_plant:
  assumes "ecu_tick req ot p = Some (EcuGo, p')" and "canon B32 req" and "c_holds req (eu_cc (ep_ecu p))"
    and "pl_conn l" and "dc_buf (pl_decoder l) = []" and "ep_sent p @ concat cs = ep_sent p'"
  shows "c_holds req (eu_cc (ep_ecu p')) \<and>
    (\<exists>a l' evs'. recv_actuator (map Chunk cs @ evs) l = Some (Inr (Some a), l', evs') \<and>
      af_brake_command a \<in> {f0, widen req} \<and>
      af_ecu_status a = uint (status_code (st_current (eu_st (ep_ecu p')))))"
proof -
  from ecu_tick_parts [OF assms(1)] obtain r cur hal polls mode d cmd hal' sends sent where
    c: "ecu_control req r cur (hal_errors_crc hal) (ep_ecu p) = ((mode, d, cmd), ep_ecu p')"
    and w: "hal_actuators_write (ep_sends p) \<lparr>ap_timestamp_ms = now_ms_mono (ot_tx_time ot), ap_brake_command = cmd,
       ap_ecu_status = status_code mode, ap_dtc_code = d\<rparr> hal = Some (0, sent, hal', sends)"
    and s: "ep_sent p' = ep_sent p @ sent" .
  let ?a = "\<lparr>ap_timestamp_ms = now_ms_mono (ot_tx_time ot), ap_brake_command = cmd,
       ap_ecu_status = status_code mode, ap_dtc_code = d\<rparr>"
  note adm = control_admissible [OF c assms(3)]
  have can: "canon B32 (ap_brake_command ?a)" using adm(1) assms(2) clit_eval(2) by auto
  have cs: "concat cs = frame_bytes 2 (actuator_payload_bytes ?a)"
    using assms(6) s write_complete [OF w] actuator_wire_frame [of ?a] by simp
  have l: "length (actuator_payload_bytes ?a) \<le> 64" by (simp add: actuator_payload_bytes_def)
  from recv_encoded [OF assms(4,5) l cs, of evs] actuator_payload_pack(2) [OF can]
  obtain l' evs' where "recv_actuator (map Chunk cs @ evs) l = Some (Inr (Some (as_actuator_frame ?a)), l', evs')" by auto
  moreover have "af_brake_command (as_actuator_frame ?a) \<in> {f0, widen req}"
    using adm(1) clit_eval(1) by (auto simp: as_actuator_frame_def)
  moreover have "af_ecu_status (as_actuator_frame ?a) = uint (status_code (st_current (eu_st (ep_ecu p'))))"
    using ecu_control_parts(3) [OF c] by (simp add: as_actuator_frame_def)
  ultimately show ?thesis using adm(2) by blast
qed

text \<open>A connected process at rest, for the witness.\<close>

definition idle_process :: ecu_process where
  "idle_process = \<lparr>ep_ecu = ecu_init, ep_jitter = jitter_init,
     ep_hal = snd (hal_actuators_init (snd (hal_sensors_init (Some socket_drv_connect) hal_reset))),
     ep_next = \<lparr>tv_sec = 0, tv_nsec = 0\<rparr>, ep_cycle = 0, ep_polls = [PollTimeout], ep_sends = [SentBytes 19], ep_sent = []\<rparr>"

definition first_tick :: os_tick where
  "first_tick = \<lparr>ot_stop = False, ot_sleep_failed = False, ot_wake = \<lparr>tv_sec = 0, tv_nsec = 10000000\<rparr>,
     ot_rx_time = \<lparr>tv_sec = 0, tv_nsec = 15000000\<rparr>, ot_tx_time = \<lparr>tv_sec = 0, tv_nsec = 15000000\<rparr>\<rparr>"

lemma actuator_wire_length: "length (actuator_wire_bytes a) = 19"
  by (simp add: actuator_wire_frame actuator_payload_bytes_def)

lemma send_all_once: "length buf = n \<Longrightarrow> 0 < n \<Longrightarrow> send_all (SentBytes n # evs) buf = Some (0, buf, evs)"
  by (cases buf) auto

lemma write_idle:
  assumes "hl_drv h = Some drv" "ha_initialised h"
  shows "\<exists>h'. hal_actuators_write [SentBytes 19] a h = Some (0, actuator_wire_bytes a, h', [])"
  using assms send_all_once [OF actuator_wire_length [of a], of "[]"]
  by (simp add: hal_actuators_write_def socket_drv_send_actuator_def Let_def)

lemma idle_tick: "\<exists>p'. ecu_tick req first_tick idle_process = Some (EcuGo, p')"
proof -
  let ?h = "ep_hal idle_process"
  have h: "hl_drv ?h = Some socket_drv_connect" "ha_initialised ?h"
    by (simp_all add: idle_process_def hal_actuators_init_def hal_sensors_init_def hal_reset_def)
  have "extract_step socket_drv_connect = (Some None, socket_drv_connect)"
    by (simp add: extract_step_def Let_def socket_drv_connect_def count_dropped_def)
  from try_extract_answer [OF this] have "\<exists>cur h'. hal_sensors_read [PollTimeout] now c ?h = Some (- 1, cur, h', []) \<and>
      hl_drv h' = Some socket_drv_connect \<and> ha_initialised h'" for now c
    using h by (simp add: hal_sensors_read_def socket_drv_recv_sensor_def Let_def)
  then obtain cur h' where r: "hal_sensors_read [PollTimeout] (now_ms_mono (ot_rx_time first_tick)) (eu_cur ecu_init) ?h =
      Some (- 1, cur, h', [])" "hl_drv h' = Some socket_drv_connect" "ha_initialised h'" by blast
  obtain mode d cmd e where c: "ecu_control req (- 1) cur (hal_errors_crc h') ecu_init = ((mode, d, cmd), e)" by (metis prod.exhaust)
  obtain h2 where "hal_actuators_write [SentBytes 19] \<lparr>ap_timestamp_ms = now_ms_mono (ot_tx_time first_tick), ap_brake_command = cmd,
      ap_ecu_status = status_code mode, ap_dtc_code = d\<rparr> h' = Some (0, actuator_wire_bytes \<lparr>ap_timestamp_ms =
      now_ms_mono (ot_tx_time first_tick), ap_brake_command = cmd, ap_ecu_status = status_code mode, ap_dtc_code = d\<rparr>, h2, [])"
    using write_idle [OF r(2,3)] by blast
  then show ?thesis using r(1) c
    by (simp add: ecu_tick_def Let_def first_tick_def idle_process_def)
qed

theorem ecu_answer_reaches_plant_witness:
  "\<exists>p' a l' evs'. ecu_tick (clit 100 1) first_tick idle_process = Some (EcuGo, p') \<and>
    recv_actuator [Chunk (ep_sent p')] fresh_link = Some (Inr (Some a), l', evs') \<and>
    af_brake_command a \<in> {f0, widen (clit 100 1)}"
proof -
  obtain p' where t: "ecu_tick (clit 100 1) first_tick idle_process = Some (EcuGo, p')" using idle_tick by blast
  have c: "canon B32 (clit 100 1)" by code_simp
  have h: "c_holds (clit 100 1) (eu_cc (ep_ecu idle_process))"
    by (simp add: idle_process_def ecu_init_def c_holds_def abs_controller_init_def)
  have e: "ep_sent idle_process @ concat [ep_sent p'] = ep_sent p'" by (simp add: idle_process_def)
  from ecu_answer_reaches_plant [OF t c h _ _ e, of fresh_link "[]"] t show ?thesis by auto
qed

end
