(* ===== verification/Ecu_Termination.thy ===== *)
theory Ecu_Termination
  imports Ecu_Main_Properties
begin

unbundle bit_operations_syntax

text \<open>
  The end of a run of the ECU.  With a duration, \<^verbatim>\<open>main\<close> returns after as many cycles at most, as long as every wait in
  \<^verbatim>\<open>poll\<close> ends and every \<^verbatim>\<open>send\<close> does something in the end; interrupted calls are retried.  A positive duration below one
  cycle is truncated to 0, which means no limit.
\<close>

section \<open>Duration and jitter\<close>

text \<open>\<^verbatim>\<open>max_cycles\<close> from the duration in seconds; converting a double outside the range of the integer is undefined (\<open>None\<close>).\<close>

definition max_cycles_of :: "pyfloat \<Rightarrow> 32 word option" where
  "max_cycles_of duration_s = (if flt (flit 0 1) duration_s
     then case fl_div B64 (fmul duration_s (flit (10 ^ 9) 1)) (flit LOOP_PERIOD_NS 1) of
         Fin s m e \<Rightarrow> let n = m * 2 ^ nat e div 2 ^ nat (- e) in if n < 2 ^ 32 then Some (of_int n) else None
       | _ \<Rightarrow> None
     else Some 0)"

text \<open>The square root of the mathematics library is a parameter.\<close>

definition jitter_stddev_us :: "(pyfloat \<Rightarrow> pyfloat) \<Rightarrow> jitter_stats \<Rightarrow> pyfloat" where
  "jitter_stddev_us c_sqrt j = (if js_n j < 2 then flit 0 1
     else c_sqrt (fl_div B64 (js_m2_us j) (flit (uint (js_n j - 1)) 1)))"

lemma jitter_add_parts:
  "js_n (jitter_add j us) = js_n j + 1" "js_min_us (jitter_add j us) = min us (js_min_us j)"
  "js_max_us (jitter_add j us) = max us (js_max_us j)"
  by (auto simp: jitter_add_def Let_def)

lemma jitter_extremes:
  "\<forall>x \<in> set xs. \<bar>x\<bar> < 2 ^ 63 \<Longrightarrow> js_n (fold (\<lambda>x j. jitter_add j x) xs jitter_init) = of_nat (length xs) \<and>
    (xs \<noteq> [] \<longrightarrow> js_min_us (fold (\<lambda>x j. jitter_add j x) xs jitter_init) = Min (set xs) \<and>
      js_max_us (fold (\<lambda>x j. jitter_add j x) xs jitter_init) = Max (set xs))"
proof (induction xs rule: rev_induct)
  case (snoc x xs)
  show ?case
  proof (cases "xs = []")
    case True
    then show ?thesis using snoc.prems by (auto simp: jitter_add_parts jitter_init_def abs_less_iff)
  next
    case False
    then show ?thesis using snoc by (simp add: jitter_add_parts)
  qed
qed (simp add: jitter_init_def)

section \<open>Events that end a call\<close>

definition poll_ends :: "poll_event list \<Rightarrow> nat" where
  "poll_ends evs = length (filter (\<lambda>e. e \<in> {PollFailed, PollTimeout, PollBad, ReadFailed, ReadClosed}) evs)"

definition writes :: "send_result list \<Rightarrow> nat" where
  "writes evs = length (filter (\<lambda>e. e \<noteq> SendInterrupted) evs)"

lemma recv_poll_returns:
  "0 < poll_ends evs \<Longrightarrow> \<exists>rc raw drv' evs'. recv_poll evs drv = Some (rc, raw, drv', evs') \<and> poll_ends evs \<le> Suc (poll_ends evs')"
proof (induction evs drv rule: recv_poll.induct)
  case (9 bs evs drv)
  obtain p d where x: "try_extract_frame ((make_room drv)\<lparr>dv_rx := dv_rx (make_room drv) @ bs\<rparr>) = (p, d)" by force
  have e: "poll_ends (ReadBytes bs # evs) = poll_ends evs" by (simp add: poll_ends_def)
  show ?case
  proof (cases p)
    case None
    from 9(1) [OF refl refl x [symmetric] None] 9(2) e show ?thesis using x None by simp
  qed (use x e in simp)
qed (simp_all add: poll_ends_def)

lemma send_all_returns:
  "length buf \<le> writes evs \<Longrightarrow> \<exists>rc out evs'. send_all evs buf = Some (rc, out, evs') \<and> writes evs \<le> length buf + writes evs'"
proof (induction evs buf rule: send_all.induct)
  case (5 n evs b bs)
  show ?case
  proof (cases "n = 0")
    case False
    then have l: "length (drop n (b # bs)) \<le> writes evs" "writes (SentBytes n # evs) = Suc (writes evs)"
      using 5(2) by (cases n; simp add: writes_def)+
    from 5(1) [OF False l(1)] obtain rc out evs' where
      "send_all evs (drop n (b # bs)) = Some (rc, out, evs')" "writes evs \<le> length (drop n (b # bs)) + writes evs'" by blast
    with False l(2) show ?thesis by (cases n) auto
  qed (simp add: writes_def)
qed (simp_all add: writes_def)

lemma hal_read_returns:
  assumes "0 < poll_ends evs"
  shows "\<exists>r cur h' evs'. hal_sensors_read evs now out h = Some (r, cur, h', evs') \<and> poll_ends evs \<le> Suc (poll_ends evs')"
proof (cases "hl_drv h")
  case (Some drv)
  obtain q d where x: "try_extract_frame drv = (q, d)" by force
  obtain rc raw drv' evs' where
    "socket_drv_recv_sensor evs drv = Some (rc, raw, drv', evs')" "poll_ends evs \<le> Suc (poll_ends evs')"
    using recv_poll_returns [OF assms, of d] x by (cases q) (auto simp: socket_drv_recv_sensor_def)
  then show ?thesis using Some by (cases "rc = 0"; cases "rc < 0") (simp_all add: hal_sensors_read_def Let_def)
qed (simp add: hal_sensors_read_def)

lemma hal_write_returns:
  assumes "19 \<le> writes evs"
  shows "\<exists>rc out h' evs'. hal_actuators_write evs a h = Some (rc, out, h', evs') \<and> writes evs \<le> 19 + writes evs'"
proof -
  obtain rc out evs' where "send_all evs (actuator_wire_bytes a) = Some (rc, out, evs')" "writes evs \<le> 19 + writes evs'"
    using send_all_returns [of "actuator_wire_bytes a" evs] assms actuator_wire_length [of a] by auto
  then show ?thesis by (cases "hl_drv h") (auto simp: hal_actuators_write_def socket_drv_send_actuator_def Let_def)
qed

lemma ecu_tick_returns:
  assumes "0 < poll_ends (ep_polls p)" "19 \<le> writes (ep_sends p)"
  shows "\<exists>flow p'. ecu_tick req ot p = Some (flow, p') \<and>
    (flow = EcuGo \<longrightarrow> poll_ends (ep_polls p) \<le> Suc (poll_ends (ep_polls p')) \<and> writes (ep_sends p) \<le> 19 + writes (ep_sends p')) \<and>
    ep_cycle p' = ep_cycle p + (if flow = EcuGo then 1 else 0)"
proof (cases "ot_sleep_failed ot")
  case False
  obtain r cur h polls where
    rd: "hal_sensors_read (ep_polls p) (now_ms_mono (ot_rx_time ot)) (eu_cur (ep_ecu p)) (ep_hal p) = Some (r, cur, h, polls)"
      "poll_ends (ep_polls p) \<le> Suc (poll_ends polls)" using hal_read_returns [OF assms(1)] by blast
  obtain mode d cmd e where c: "ecu_control req r cur (hal_errors_crc h) (ep_ecu p) = ((mode, d, cmd), e)" by (metis prod.exhaust)
  obtain rc sent h' sends where
    w: "hal_actuators_write (ep_sends p) \<lparr>ap_timestamp_ms = now_ms_mono (ot_tx_time ot), ap_brake_command = cmd,
      ap_ecu_status = status_code mode, ap_dtc_code = d\<rparr> h = Some (rc, sent, h', sends)" "writes (ep_sends p) \<le> 19 + writes sends"
    using hal_write_returns [OF assms(2)] by blast
  show ?thesis using False rd c w by (simp add: ecu_tick_def Let_def)
qed (simp add: ecu_tick_def)

section \<open>The loop ends\<close>

lemma ecu_loop_returns:
  "mx \<noteq> 0 \<Longrightarrow> unat (ep_cycle p) + k = unat mx \<Longrightarrow> 0 < k \<Longrightarrow> k \<le> length ots \<Longrightarrow> k \<le> poll_ends (ep_polls p) \<Longrightarrow>
    19 * k \<le> writes (ep_sends p) \<Longrightarrow> \<exists>q. ecu_loop req mx ots p = Some q \<and> unat (ep_cycle q) \<le> unat mx"
proof (induction k arbitrary: ots p)
  case (Suc k)
  obtain ot ots' where o: "ots = ot # ots'" using Suc.prems(4) by (cases ots) auto
  show ?case
  proof (cases "ot_stop ot")
    case True
    then show ?thesis using Suc.prems(2) o by simp
  next
    case False
    obtain flow p' where t: "ecu_tick req ot p = Some (flow, p')"
      "flow = EcuGo \<longrightarrow> poll_ends (ep_polls p) \<le> Suc (poll_ends (ep_polls p')) \<and> writes (ep_sends p) \<le> 19 + writes (ep_sends p')"
      "ep_cycle p' = ep_cycle p + (if flow = EcuGo then 1 else 0)"
      using ecu_tick_returns [of p req ot] Suc.prems(5,6) by auto
    show ?thesis
    proof (cases flow)
      case EcuBreak
      then show ?thesis using False o t Suc.prems(2) by simp
    next
      case EcuGo
      have "unat mx < 2 ^ LENGTH(32)" by (rule unsigned_less)
      then have um: "unat (ucast mx :: 64 word) = unat mx" and "unat (ep_cycle p + 1) = unat (ep_cycle p) + 1"
        using Suc.prems(2) by (simp_all add: unsigned_ucast_eq take_bit_eq_mod unat_plus_simple [THEN iffD1] no_olen_add_nat)
      then have cyc: "unat (ep_cycle p') + k = unat mx" using Suc.prems(2) t(3) EcuGo by simp
      have le: "ucast mx \<le> ep_cycle p' \<longleftrightarrow> k = 0" unfolding word_le_nat_alt um using cyc by arith
      have step: "ecu_loop req mx ots p = (if ucast mx \<le> ep_cycle p' then Some p' else ecu_loop req mx ots' p')"
        using False o t(1) EcuGo Suc.prems(1) by simp
      show ?thesis
      proof (cases "k = 0")
        case True
        then show ?thesis using step le cyc by simp
      next
        case False
        then show ?thesis using step le Suc.IH [OF Suc.prems(1) cyc, of ots'] Suc.prems(4-6) o t(2) EcuGo by simp
      qed
    qed
  qed
qed simp

section \<open>The number of cycles of a duration\<close>

text \<open>The product and the quotient of \<^verbatim>\<open>max_cycles\<close> are rounded, but whole numbers of cycles stay bounds.\<close>

lemma max_cycles_between:
  assumes d: "fwithin (of_int a / 100) (of_int b / 100) d" and a: "1 \<le> a" and b: "b < 2 ^ 32"
  shows "\<exists>mx. max_cycles_of d = Some mx \<and> a \<le> uint mx \<and> uint mx \<le> b"
proof -
  have ab: "a \<le> b" using fwithinD(4,5) [OF d] by simp
  have big: "bnd (of_int (k * 10 ^ 7))" if "1 \<le> k" "k \<le> b" for k
  proof -
    have k: "(of_int (k * 10 ^ 7) :: rat) = of_int (k * 5 ^ 7) * p2 7" by (simp add: p2_nat)
    have "k * 5 ^ 7 \<le> 2 ^ 32 * 5 ^ 7" by (rule mult_right_mono) (use that b in simp_all)
    then have fits: "k * 5 ^ 7 < 2 ^ 53" by simp
    then have "of_int (k * 5 ^ 7) \<le> (of_int (2 ^ 53) :: rat)" by (simp only: of_int_le_iff less_imp_le)
    then have "of_int (k * 5 ^ 7) * p2 7 \<le> (of_int (2 ^ 53) :: rat) * p2 7" by (rule mult_right_mono) simp
    also have "\<dots> = p2 60" by (simp add: p2_nat)
    also have "\<dots> \<le> p2 1000" by simp
    finally have le: "of_int (k * 10 ^ 7) \<le> p2 1000" unfolding k .
    have "repr B64 (of_int (k * 10 ^ 7))" unfolding k by (rule repr_dyadic) (use fits that(1) in simp_all)
    then show ?thesis using le that(1) by (simp add: bnd_def)
  qed
  have "fwithin (10 ^ 9) (10 ^ 9) (flit (10 ^ 9) 1)" using fwithin_int [of "10 ^ 9"] by simp
  from fwithin_fmul [OF d this, of "of_int (a * 10 ^ 7)" "of_int (b * 10 ^ 7)"]
  have p: "fwithin (of_int (a * 10 ^ 7)) (of_int (b * 10 ^ 7)) (fmul d (flit (10 ^ 9) 1))"
    using a ab big [of a] big [of b] by simp
  have "fwithin (10 ^ 7) (10 ^ 7) (flit LOOP_PERIOD_NS 1)"
    using fwithin_int [of "10 ^ 7"] by (simp add: LOOP_PERIOD_NS_def)
  from fwithin_fl_div [OF p this, of "of_int a" "of_int b"]
  have q: "fwithin (of_int a) (of_int b) (fl_div B64 (fmul d (flit (10 ^ 9) 1)) (flit LOOP_PERIOD_NS 1))"
    using a ab b bnd_of_int [of a] bnd_of_int [of b] by simp
  then obtain s m e where r: "fl_div B64 (fmul d (flit (10 ^ 9) 1)) (flit LOOP_PERIOD_NS 1) = Fin s m e"
    "of_int a \<le> sgnr s * of_int m * p2 e" "sgnr s * of_int m * p2 e \<le> of_int b" "0 \<le> m"
    by (cases "fl_div B64 (fmul d (flit (10 ^ 9) 1)) (flit LOOP_PERIOD_NS 1)") (auto simp: fwithin_def)
  have s: "\<not> s"
  proof
    assume s
    then have "sgnr s * of_int m * p2 e \<le> 0" using r(4) by simp
    with r(2) a show False by simp
  qed
  define n where "n = m * 2 ^ nat e div 2 ^ nat (- e)"
  have "n = \<lfloor>(of_int (m * 2 ^ nat e) :: rat) / of_int (2 ^ nat (- e))\<rfloor>"
    unfolding n_def by (rule floor_divide_of_int_eq [symmetric])
  also have "\<dots> = \<lfloor>of_int m * p2 e\<rfloor>" unfolding fround_exp_ratio ..
  finally have n: "a \<le> n" "n \<le> b" using r(2,3) s by (simp_all add: le_floor_iff floor_le_iff)
  have "fwithin 0 0 (flit 0 1)" using fwithin_int [of 0] by simp
  then have "flt (flit 0 1) d" using fwithin_flt [OF _ d] fwithinD(4) [OF d] fwithinD(4,5) a by force
  then have "max_cycles_of d = Some (of_int n)"
    using n b unfolding max_cycles_of_def r(1) pyfloat.case Let_def n_def [symmetric] by simp
  moreover have "uint (of_int n :: 32 word) = n" using n a b by (simp add: unsigned_of_int take_bit_int_eq_self)
  ultimately show ?thesis using n by auto
qed

lemma max_cycles_of_duration:
  assumes "fwithin (1/100) 42949672 d"
  shows "\<exists>mx. max_cycles_of d = Some mx \<and> \<lfloor>100 * fval d\<rfloor> \<le> uint mx \<and> uint mx \<le> \<lceil>100 * fval d\<rceil> \<and> 0 < mx"
proof -
  have x: "1 \<le> 100 * fval d" "100 * fval d \<le> 4294967200" using fwithinD(4,5) [OF assms] by simp_all
  have "of_int \<lfloor>100 * fval d\<rfloor> / 100 \<le> fval d" "fval d \<le> of_int \<lceil>100 * fval d\<rceil> / 100" by linarith+
  then have "fwithin (of_int \<lfloor>100 * fval d\<rfloor> / 100) (of_int \<lceil>100 * fval d\<rceil> / 100) d" using assms by (simp add: fwithin_def)
  moreover have "1 \<le> \<lfloor>100 * fval d\<rfloor>" "\<lceil>100 * fval d\<rceil> < 2 ^ 32" using x by (simp_all add: le_floor_iff ceiling_less_iff)
  ultimately obtain mx where "max_cycles_of d = Some mx" "\<lfloor>100 * fval d\<rfloor> \<le> uint mx" "uint mx \<le> \<lceil>100 * fval d\<rceil>"
    using max_cycles_between by blast
  moreover have "0 < uint mx" using order.trans [OF \<open>1 \<le> \<lfloor>100 * fval d\<rfloor>\<close> calculation(2)] by simp
  then have "0 < mx" by (simp add: word_less_def)
  ultimately show ?thesis by blast
qed

lemma max_cycles_of_short:
  assumes "fwithin 0 (9/1000) d"
  shows "max_cycles_of d = Some 0"
proof -
  have "fwithin (10 ^ 9) (10 ^ 9) (flit (10 ^ 9) 1)" using fwithin_int [of "10 ^ 9"] by simp
  from fwithin_fmul [OF assms this, of 0 "9 * 10 ^ 6"]
  have p: "fwithin 0 (9 * 10 ^ 6) (fmul d (flit (10 ^ 9) 1))" using bnd_of_int [of "9 * 10 ^ 6"] by simp
  have "fwithin (10 ^ 7) (10 ^ 7) (flit LOOP_PERIOD_NS 1)"
    using fwithin_int [of "10 ^ 7"] by (simp add: LOOP_PERIOD_NS_def)
  from fwithin_fl_div [OF p this, of 0 "15/16"]
  have q: "fwithin 0 (15/16) (fl_div B64 (fmul d (flit (10 ^ 9) 1)) (flit LOOP_PERIOD_NS 1))"
    using bnd_dyadic [of 15 4] by simp
  then obtain s m e where r: "fl_div B64 (fmul d (flit (10 ^ 9) 1)) (flit LOOP_PERIOD_NS 1) = Fin s m e"
    "0 \<le> sgnr s * of_int m * p2 e" "sgnr s * of_int m * p2 e \<le> 15/16" "0 \<le> m"
    by (cases "fl_div B64 (fmul d (flit (10 ^ 9) 1)) (flit LOOP_PERIOD_NS 1)") (auto simp: fwithin_def)
  have "m * 2 ^ nat e div 2 ^ nat (- e) = \<lfloor>(of_int (m * 2 ^ nat e) :: rat) / of_int (2 ^ nat (- e))\<rfloor>"
    by (rule floor_divide_of_int_eq [symmetric])
  also have "\<dots> = \<lfloor>of_int m * p2 e\<rfloor>" unfolding fround_exp_ratio ..
  also have "\<dots> = 0"
  proof -
    have "0 \<le> of_int m * p2 e" using r(4) by simp
    moreover have "of_int m * p2 e \<le> 15/16" using r(2,3) \<open>0 \<le> of_int m * p2 e\<close> by (cases s) auto
    ultimately show ?thesis by (simp add: floor_eq_iff)
  qed
  finally have z: "m * 2 ^ nat e div 2 ^ nat (- e) = 0" .
  show ?thesis unfolding max_cycles_of_def r(1) pyfloat.case Let_def z by simp
qed

section \<open>Runs with and without a limit\<close>

lemma ecu_main_bounded:
  assumes "0 < mx" and "unat mx \<le> length ots" and "unat mx \<le> poll_ends polls" and "19 * unat mx \<le> writes sends"
  shows "\<exists>rc q. ecu_main req mx conn start ots polls sends = Some (rc, q) \<and> (rc = 0 \<longleftrightarrow> conn \<noteq> None) \<and>
    unat (ep_cycle q) \<le> unat mx"
proof (cases conn)
  case None
  then show ?thesis by (simp add: ecu_main_def hal_sensors_init_def hal_reset_def)
next
  case (Some drv)
  let ?hal = "snd (hal_actuators_init (snd (hal_sensors_init conn hal_reset)))"
  let ?p = "\<lparr>ep_ecu = ecu_init, ep_jitter = jitter_init, ep_hal = ?hal, ep_next = start, ep_cycle = 0,
    ep_polls = polls, ep_sends = sends, ep_sent = []\<rparr>"
  have "mx \<noteq> 0" "0 < unat mx" using assms(1) by (simp_all add: word_greater_zero_iff unat_gt_0)
  from ecu_loop_returns [OF this(1) _ this(2) assms(2), of ?p req] assms(3,4) obtain q where
    "ecu_loop req mx ots ?p = Some q" "unat (ep_cycle q) \<le> unat mx" by auto
  then show ?thesis using Some
    by (simp add: ecu_main_def hal_sensors_init_def hal_reset_def hal_actuators_init_def Let_def)
qed

text \<open>Without a limit, a signal or an error of a call, the loop has no way out.\<close>

definition sends_work :: "send_result list \<Rightarrow> bool" where
  "sends_work evs \<longleftrightarrow> SendError \<notin> set evs \<and> SentBytes 0 \<notin> set evs"

lemma send_all_works:
  "send_all evs buf = Some (rc, out, evs') \<Longrightarrow> sends_work evs \<Longrightarrow> rc = 0 \<and> sends_work evs'"
  by (induction evs buf arbitrary: rc out evs' rule: send_all.induct)
    (auto simp: sends_work_def split: if_splits)

lemma hal_write_works:
  assumes "hal_actuators_write evs a h = Some (rc, out, h', evs')" "sends_work evs" "ha_initialised h" "hl_drv h \<noteq> None"
  shows "rc = 0 \<and> sends_work evs' \<and> ha_initialised h' \<and> hl_drv h' \<noteq> None"
  using assms by (fastforce simp: hal_actuators_write_def socket_drv_send_actuator_def Let_def
    dest: send_all_works split: option.splits prod.splits if_splits)

lemma hal_read_keeps:
  assumes "hal_sensors_read evs now out h = Some (r, cur, h', evs')"
  shows "ha_initialised h' = ha_initialised h \<and> (hl_drv h' = None \<longleftrightarrow> hl_drv h = None)"
  using assms by (auto simp: hal_sensors_read_def Let_def split: option.splits prod.splits if_splits)

lemma ecu_tick_works:
  assumes t: "ecu_tick req ot p = Some (flow, p')" and ot: "\<not> ot_sleep_failed ot"
    and p: "sends_work (ep_sends p)" "ha_initialised (ep_hal p)" "hl_drv (ep_hal p) \<noteq> None"
  shows "flow = EcuGo \<and> sends_work (ep_sends p') \<and> ha_initialised (ep_hal p') \<and> hl_drv (ep_hal p') \<noteq> None"
proof -
  obtain r cur h polls where
    rd: "hal_sensors_read (ep_polls p) (now_ms_mono (ot_rx_time ot)) (eu_cur (ep_ecu p)) (ep_hal p) = Some (r, cur, h, polls)"
    using t ot by (cases "hal_sensors_read (ep_polls p) (now_ms_mono (ot_rx_time ot)) (eu_cur (ep_ecu p)) (ep_hal p)")
      (auto simp: ecu_tick_def Let_def)
  obtain mode d cmd e where c: "ecu_control req r cur (hal_errors_crc h) (ep_ecu p) = ((mode, d, cmd), e)" by (metis prod.exhaust)
  obtain rc sent h' sends where
    w: "hal_actuators_write (ep_sends p) \<lparr>ap_timestamp_ms = now_ms_mono (ot_tx_time ot), ap_brake_command = cmd,
      ap_ecu_status = status_code mode, ap_dtc_code = d\<rparr> h = Some (rc, sent, h', sends)"
    using t ot rd c by (auto simp: ecu_tick_def Let_def)
  have "ha_initialised h" "hl_drv h \<noteq> None" using hal_read_keeps [OF rd] p by simp_all
  from hal_write_works [OF w p(1) this] show ?thesis using t ot rd c w by (auto simp: ecu_tick_def Let_def)
qed

lemma ecu_loop_no_limit:
  "\<forall>ot \<in> set ots. \<not> ot_stop ot \<and> \<not> ot_sleep_failed ot \<Longrightarrow> sends_work (ep_sends p) \<Longrightarrow> ha_initialised (ep_hal p) \<Longrightarrow>
    hl_drv (ep_hal p) \<noteq> None \<Longrightarrow> ecu_loop req 0 ots p = None"
proof (induction ots arbitrary: p)
  case (Cons ot ots)
  show ?case
  proof (cases "ecu_tick req ot p")
    case (Some x)
    obtain flow p' where x: "x = (flow, p')" by force
    from ecu_tick_works [OF Some [unfolded x]] Cons.prems have "flow = EcuGo" "ecu_loop req 0 ots p' = None"
      by (simp_all add: Cons.IH)
    then show ?thesis using Some x Cons.prems(1) by simp
  qed (use Cons.prems in simp)
qed simp

section \<open>Properties\<close>

text \<open>C8: A run of the ECU with a duration of at least 10 ms (and below \<open>2 ^ 32\<close> cycles) ends.  The number of cycles that \<^verbatim>\<open>main\<close> computes
  from the duration \<open>d\<close> in seconds is positive and \<open>100 d\<close> rounded down or up.  If in that many cycles no wait for a frame lasts for ever
  and no write is interrupted for ever, then whatever arrives, whatever the clocks show and whether or not the connection
  was made, \<^verbatim>\<open>main\<close> returns, with exit code 0 exactly if it was connected, after at most that many cycles.\<close>

theorem ecu_main_ends:
  assumes "fwithin (1/100) 42949672 d" and "nat \<lceil>100 * fval d\<rceil> \<le> length ots"
    and "nat \<lceil>100 * fval d\<rceil> \<le> poll_ends polls" and "19 * nat \<lceil>100 * fval d\<rceil> \<le> writes sends"
  shows "\<exists>mx rc q. max_cycles_of d = Some mx \<and> \<lfloor>100 * fval d\<rfloor> \<le> uint mx \<and> uint mx \<le> \<lceil>100 * fval d\<rceil> \<and> 0 < mx \<and>
    ecu_main req mx conn start ots polls sends = Some (rc, q) \<and> (rc = 0 \<longleftrightarrow> conn \<noteq> None) \<and> unat (ep_cycle q) \<le> unat mx"
proof -
  obtain mx where mx: "max_cycles_of d = Some mx" "\<lfloor>100 * fval d\<rfloor> \<le> uint mx" "uint mx \<le> \<lceil>100 * fval d\<rceil>" "0 < mx"
    using max_cycles_of_duration [OF assms(1)] by blast
  have "unat mx \<le> nat \<lceil>100 * fval d\<rceil>" using mx(3) by (simp add: nat_mono flip: nat_uint_eq)
  then show ?thesis using ecu_main_bounded [of mx ots polls sends req conn start] mx assms(2-4) by fastforce
qed

text \<open>A quarter of a second is exactly 25 cycles.\<close>

theorem ecu_main_ends_witness:
  "\<exists>q. max_cycles_of (flit 1 4) = Some 25 \<and>
    ecu_main (clit 100 1) 25 (Some socket_drv_connect) \<lparr>tv_sec = 0, tv_nsec = 0\<rparr> (replicate 25 first_tick)
    ([ReadBytes [0x55, 0xAA], PollInterrupted] @ replicate 25 PollTimeout)
    (concat (replicate 475 [SendInterrupted, SentBytes 1])) = Some (0, q) \<and> unat (ep_cycle q) \<le> 25"
proof -
  let ?polls = "[ReadBytes [0x55, 0xAA], PollInterrupted] @ replicate 25 PollTimeout"
  let ?sends = "concat (replicate 475 [SendInterrupted, SentBytes 1])"
  have "fwithin (1/4) (1/4) (flit 1 4)" by (rule fwithin_flit) (use bnd_dyadic [of 1 2] in simp_all)
  then have d: "fwithin (1/100) 42949672 (flit 1 4)" "100 * fval (flit 1 4) = 25"
    using fwithinD(4,5) [of "1/4" "1/4" "flit 1 4"] by (auto intro: fwithin_weaken)
  have "writes (concat (replicate n [SendInterrupted, SentBytes 1])) = n" for n by (induction n) (simp_all add: writes_def)
  then have e: "nat \<lceil>100 * fval (flit 1 4)\<rceil> \<le> length (replicate 25 first_tick)" "nat \<lceil>100 * fval (flit 1 4)\<rceil> \<le> poll_ends ?polls"
    "19 * nat \<lceil>100 * fval (flit 1 4)\<rceil> \<le> writes ?sends" by (simp_all add: d(2) poll_ends_def)
  from ecu_main_ends [OF d(1) e, of "clit 100 1" "Some socket_drv_connect" "\<lparr>tv_sec = 0, tv_nsec = 0\<rparr>"]
  obtain mx rc q where m: "max_cycles_of (flit 1 4) = Some mx"
    "ecu_main (clit 100 1) mx (Some socket_drv_connect) \<lparr>tv_sec = 0, tv_nsec = 0\<rparr> (replicate 25 first_tick) ?polls ?sends = Some (rc, q)"
    "unat (ep_cycle q) \<le> unat mx" and r: "rc = 0 \<longleftrightarrow> Some socket_drv_connect \<noteq> None"
    and b: "\<lfloor>100 * fval (flit 1 4)\<rfloor> \<le> uint mx" "uint mx \<le> \<lceil>100 * fval (flit 1 4)\<rceil>" by blast
  have mx: "mx = 25" using b unfolding d(2) by (simp add: word_uint_eq_iff)
  have rc: "rc = 0" using r by simp
  have u: "unat (25 :: 32 word) = 25" by simp
  show ?thesis by (rule exI [of _ q], intro conjI) (rule m [unfolded mx rc u])+
qed

text \<open>A positive duration of at most 9 ms is not a short run but an endless one: it is truncated to zero cycles, which the
  loop reads as no limit.  Connected, and as long as no signal stops it and neither the wait for the clock nor a write fails,
  the loop never returns, whatever arrives and however long it is watched.\<close>

theorem short_duration_never_ends:
  assumes "fwithin 0 (9/1000) d" and "\<forall>ot \<in> set ots. \<not> ot_stop ot \<and> \<not> ot_sleep_failed ot"
    and "SendError \<notin> set sends" and "SentBytes 0 \<notin> set sends"
  shows "\<exists>mx. max_cycles_of d = Some mx \<and> ecu_main req mx (Some drv) start ots polls sends = None"
  using max_cycles_of_short [OF assms(1)] assms(3,4)
  by (simp add: ecu_main_def hal_sensors_init_def hal_reset_def hal_actuators_init_def Let_def sends_work_def
    ecu_loop_no_limit [OF assms(2)])

text \<open>A run of 5 ms was asked for; the ECU is still running after 100 cycles.\<close>

theorem short_duration_never_ends_witness:
  "flt (flit 0 1) (flit 5 1000) \<and> (\<exists>mx. max_cycles_of (flit 5 1000) = Some mx \<and>
    ecu_main (clit 100 1) mx (Some socket_drv_connect) \<lparr>tv_sec = 0, tv_nsec = 0\<rparr> (replicate 100 first_tick)
      (replicate 100 PollTimeout) (replicate 100 (SentBytes 19)) = None)"
proof -
  have d: "fwithin (1/256) (1/128) (flit 5 1000)" by (rule fwithin_flit) (use bnd_dyadic [of 1 8] bnd_dyadic [of 1 7] in simp_all)
  then have "fwithin 0 (9/1000) (flit 5 1000)" by (rule fwithin_weaken) simp_all
  from short_duration_never_ends [OF this, of "replicate 100 first_tick" "replicate 100 (SentBytes 19)"]
  have "\<exists>mx. max_cycles_of (flit 5 1000) = Some mx \<and>
    ecu_main (clit 100 1) mx (Some socket_drv_connect) \<lparr>tv_sec = 0, tv_nsec = 0\<rparr> (replicate 100 first_tick)
      (replicate 100 PollTimeout) (replicate 100 (SentBytes 19)) = None" by (simp add: first_tick_def)
  moreover have "fwithin 0 0 (flit 0 1)" using fwithin_int [of 0] by simp
  then have "flt (flit 0 1) (flit 5 1000)" using fwithin_flt [OF _ d] fwithinD(4) [OF d] fwithinD(4,5) by force
  ultimately show ?thesis by blast
qed

end
