(* ===== verification/Milestone.thy ===== *)
theory Milestone
  imports Link
begin

unbundle bit_operations_syntax

text \<open>
  \<^verbatim>\<open>scripts/milestone_w1.py\<close>: sensor frames to an echoing client, latency statistics, the verdict.  The clock
  readings and \<^verbatim>\<open>sendall\<close> outcomes per frame are a \<open>milestone_env\<close>; the functions of the \<^verbatim>\<open>statistics\<close>
  module are parameters.  Only whether the checks fail is kept of the printed text.
\<close>

section \<open>The run\<close>

record py_statistics =
  py_fmean :: "pyfloat list \<Rightarrow> pyfloat py"
  py_median :: "pyfloat list \<Rightarrow> pyfloat py"
  py_quantiles :: "pyfloat list \<Rightarrow> int \<Rightarrow> pyfloat list py"

record milestone_env =
  me_monotonic :: "int \<Rightarrow> pyfloat"
  me_t_start :: pyfloat
  me_t_send :: "int \<Rightarrow> pyfloat"
  me_t_recv :: "int \<Rightarrow> pyfloat"
  me_t_sleep :: "int \<Rightarrow> pyfloat"
  me_t_end :: pyfloat
  me_send :: "int \<Rightarrow> send_event"

record milestone =
  ml_link :: plant_link
  ml_latencies :: "pyfloat list"
  ml_mismatches :: int
  ml_next_tick :: pyfloat
  ml_slept :: "pyfloat list"
  ml_recv :: "recv_event list"

definition milestone_speed :: "int \<Rightarrow> pyfloat" where
  "milestone_speed i = fadd (flit 20 1) (fmul (flit 1 1000) (flit i 1))"

definition milestone_frame :: "milestone_env \<Rightarrow> int \<Rightarrow> sensor_frame py" where
  "milestone_frame env i =
     py_bind (fdiv (milestone_speed i) (flit 30 100)) (\<lambda>omega.
     py_bind (now_ms (me_monotonic env i)) (\<lambda>ms.
     Inr \<lparr>sf_timestamp_ms = ms, sf_v_vehicle = milestone_speed i, sf_omega_wheel = omega,
          sf_brake_pressure = flit 0 1, sf_fault_flags = 0\<rparr>))"

text \<open>An answer that is not the echo.\<close>

definition echo_mismatch :: "int \<Rightarrow> actuator_frame \<Rightarrow> bool" where
  "echo_mismatch i a \<longleftrightarrow> flt (flit 1 1000) (fabs (fsub (af_brake_command a) (milestone_speed i)))"

text \<open>After the answer: count, latency, pace.\<close>

definition milestone_note :: "milestone_env \<Rightarrow> pyfloat \<Rightarrow> int \<Rightarrow> actuator_frame \<Rightarrow> milestone \<Rightarrow> milestone" where
  "milestone_note env period i a m =
    (let m = (if echo_mismatch i a then m\<lparr>ml_mismatches := ml_mismatches m + 1\<rparr> else m);
         m = m\<lparr>ml_latencies := ml_latencies m @ [fmul (fsub (me_t_recv env i) (me_t_send env i)) (flit 1000 1)]\<rparr>;
         m = m\<lparr>ml_next_tick := fadd (ml_next_tick m) period\<rparr>;
         sleep = fsub (ml_next_tick m) (me_t_sleep env i)
     in if flt (flit 0 1) sleep then m\<lparr>ml_slept := ml_slept m @ [sleep]\<rparr> else m)"

text \<open>One frame; \<open>Some 1\<close> is the early return.\<close>

definition milestone_tick :: "milestone_env \<Rightarrow> pyfloat \<Rightarrow> int \<Rightarrow> milestone \<Rightarrow> (int option \<times> milestone) py option" where
  "milestone_tick env period i m =
    (case py_bind (milestone_frame env i) (\<lambda>s. send_sensor (me_send env i) s (ml_link m)) of
       Inl e \<Rightarrow> Some (Inl e)
     | Inr (out, link) \<Rightarrow> (case recv_actuator (ml_recv m) link of
         None \<Rightarrow> None
       | Some (r, link, evs) \<Rightarrow> let m = m\<lparr>ml_link := link, ml_recv := evs\<rparr> in
           Some (py_bind r (\<lambda>a. case a of
               None \<Rightarrow> Inr (Some 1, m)
             | Some a \<Rightarrow> Inr (None, milestone_note env period i a m)))))"

fun milestone_loop :: "milestone_env \<Rightarrow> pyfloat \<Rightarrow> int list \<Rightarrow> milestone \<Rightarrow> (int option \<times> milestone) py option" where
  "milestone_loop env period [] m = Some (Inr (None, m))"
| "milestone_loop env period (i # is) m = (case milestone_tick env period i m of
     None \<Rightarrow> None
   | Some (Inl e) \<Rightarrow> Some (Inl e)
   | Some (Inr (Some rc, m)) \<Rightarrow> Some (Inr (Some rc, m))
   | Some (Inr (None, m)) \<Rightarrow> milestone_loop env period is m)"

section \<open>The verdict\<close>

definition py_index :: "'a list \<Rightarrow> nat \<Rightarrow> 'a py" where
  "py_index xs n = (if n < length xs then Inr (xs ! n) else Inl IndexError)"

definition milestone_crit :: "pyfloat \<Rightarrow> pyfloat \<Rightarrow> milestone \<Rightarrow> string list" where
  "milestone_crit max_mean mean m =
     (if 0 < ml_mismatches m then [''echo mismatches > 0''] else []) @
     (if 0 < ls_errors_crc (pl_stats (ml_link m)) then [''server CRC errors > 0''] else []) @
     (if flt max_mean mean then [''mean latency over target''] else [])"

definition milestone_report :: "py_statistics \<Rightarrow> milestone_env \<Rightarrow> int \<Rightarrow> pyfloat \<Rightarrow> milestone \<Rightarrow> int py" where
  "milestone_report stats env frames max_mean m =
    (let elapsed = fsub (me_t_end env) (me_t_start env); m = m\<lparr>ml_link := link_close (ml_link m)\<rparr> in
     py_bind (py_fmean stats (ml_latencies m)) (\<lambda>mean.
     py_bind (py_median stats (ml_latencies m)) (\<lambda>p50.
     py_bind (py_bind (py_quantiles stats (ml_latencies m) 20) (\<lambda>q. py_index q 18)) (\<lambda>p95.
     py_bind (py_bind (py_quantiles stats (ml_latencies m) 100) (\<lambda>q. py_index q 98)) (\<lambda>p99.
     py_bind (fdiv (flit frames 1) elapsed) (\<lambda>rate.
     Inr (if milestone_crit max_mean mean m \<noteq> [] then 1 else 0)))))))"

definition milestone_run :: "py_statistics \<Rightarrow> milestone_env \<Rightarrow> listen_event \<Rightarrow> accept_event \<Rightarrow> recv_event list \<Rightarrow> int \<Rightarrow> pyfloat \<Rightarrow>
    int \<Rightarrow> string \<Rightarrow> pyfloat \<Rightarrow> int py option" where
  "milestone_run stats env lsn acc evs frames rate_hz port host max_mean =
    (case py_bind (link_listen lsn (PlantLink host port)) (\<lambda>link.
          py_bind (link_accept acc link) (\<lambda>link.
          py_bind (fdiv (flit 1 1) rate_hz) (\<lambda>period. Inr (link, period)))) of
       Inl e \<Rightarrow> Some (Inl e)
     | Inr (link, period) \<Rightarrow>
         map_option (\<lambda>r. py_bind r (\<lambda>(rc, m). case rc of
             Some rc \<Rightarrow> Inr rc
           | None \<Rightarrow> milestone_report stats env frames max_mean m))
           (milestone_loop env period [0..frames - 1] \<lparr>ml_link = link, ml_latencies = [], ml_mismatches = 0,
              ml_next_tick = me_t_start env, ml_slept = [], ml_recv = evs\<rparr>))"

section \<open>Properties\<close>

text \<open>The exchanges of the link alone: every frame is sent and answered, or there is no session.\<close>

fun link_session :: "milestone_env \<Rightarrow> int list \<Rightarrow> plant_link \<Rightarrow> recv_event list \<Rightarrow>
    ((int \<times> actuator_frame) list \<times> plant_link \<times> recv_event list) option" where
  "link_session env [] link evs = Some ([], link, evs)"
| "link_session env (i # is) link evs =
    (case py_bind (milestone_frame env i) (\<lambda>s. send_sensor (me_send env i) s link) of
       Inr (out, link) \<Rightarrow> (case recv_actuator evs link of
         Some (Inr (Some a), link, evs) \<Rightarrow>
           map_option (\<lambda>(answers, rest). ((i, a) # answers, rest)) (link_session env is link evs)
       | _ \<Rightarrow> None)
     | Inl e \<Rightarrow> None)"

lemma milestone_note_simps [simp]:
  "ml_link (milestone_note env period i a m) = ml_link m" "ml_recv (milestone_note env period i a m) = ml_recv m"
  "length (ml_latencies (milestone_note env period i a m)) = Suc (length (ml_latencies m))"
  "ml_mismatches (milestone_note env period i a m) = ml_mismatches m + (if echo_mismatch i a then 1 else 0)"
  by (simp_all add: milestone_note_def Let_def)

lemma milestone_loop_session:
  "(case milestone_loop env period is m of
      Some (Inr (None, m')) \<Rightarrow> \<exists>answers. link_session env is (ml_link m) (ml_recv m) = Some (answers, ml_link m', ml_recv m') \<and>
        ml_mismatches m' = ml_mismatches m + int (length (filter (\<lambda>(i, a). echo_mismatch i a) answers)) \<and>
        length (ml_latencies m') = length (ml_latencies m) + length is \<and> map fst answers = is
    | Some (Inr (Some rc, m')) \<Rightarrow> rc = 1 \<and> link_session env is (ml_link m) (ml_recv m) = None
    | _ \<Rightarrow> link_session env is (ml_link m) (ml_recv m) = None)"
proof (induction "is" arbitrary: m)
  case (Cons i "is")
  show ?case
  proof (cases "py_bind (milestone_frame env i) (\<lambda>s. send_sensor (me_send env i) s (ml_link m))")
    case (Inl e)
    then show ?thesis by (simp add: milestone_tick_def)
  next
    case (Inr q)
    obtain out link where q: "q = (out, link)" by force
    show ?thesis
    proof (cases "recv_actuator (ml_recv m) link")
      case None
      then show ?thesis using Inr q by (simp add: milestone_tick_def)
    next
      case (Some w)
      obtain r link' evs where w: "w = (r, link', evs)" by (cases w) auto
      show ?thesis
      proof (cases r)
        case (Inl e)
        then show ?thesis using Inr q Some w by (simp add: milestone_tick_def Let_def)
      next
        case r: (Inr a)
        show ?thesis
        proof (cases a)
          case None
          then show ?thesis using Inr q Some w r by (simp add: milestone_tick_def Let_def)
        next
          case a: (Some a')
          let ?m = "milestone_note env period i a' (m\<lparr>ml_link := link', ml_recv := evs\<rparr>)"
          have t: "milestone_tick env period i m = Some (Inr (None, ?m))"
            using Inr q Some w r a by (simp add: milestone_tick_def Let_def)
          have s: "link_session env (i # is) (ml_link m) (ml_recv m) =
              map_option (\<lambda>(answers, rest). ((i, a') # answers, rest)) (link_session env is link' evs)"
            using Inr q Some w r a by simp
          have e: "milestone_loop env period (i # is) m = milestone_loop env period is ?m" by (simp add: t)
          show ?thesis using Cons.IH [of ?m] unfolding s e
            by (cases "link_session env is link' evs") (auto split: option.splits sum.splits prod.splits)
        qed
      qed
    qed
  qed
qed simp

lemma close_stats [simp]: "pl_stats (link_close l) = pl_stats l"
  by (simp add: link_close_def Let_def)

lemma milestone_report_zero:
  "milestone_report stats env frames max_mean m = Inr 0 \<longleftrightarrow>
    returns (milestone_report stats env frames max_mean m) \<and> ml_mismatches m \<le> 0 \<and>
    ls_errors_crc (pl_stats (ml_link m)) = 0 \<and> (\<exists>mean. py_fmean stats (ml_latencies m) = Inr mean \<and> \<not> flt max_mean mean)"
  by (auto simp: milestone_report_def milestone_crit_def Let_def py_bind_Inr_iff returns_bind split: if_splits)

text \<open>The verdict of the milestone: when the client connects, the script returns 0 exactly if every frame was sent
  and answered, every answer echoed the speed within 1e-3, the server counted no CRC error, the
  statistics can be computed and the mean latency is not over the target.  Dropped bytes and size or type
  errors are printed but not judged.\<close>

theorem milestone_passes_iff:
  "milestone_run stats env Bound ClientConnected evs frames rate_hz port host max_mean = Some (Inr 0) \<longleftrightarrow>
   (\<exists>period m answers. fdiv (flit 1 1) rate_hz = Inr period \<and>
     milestone_loop env period [0..frames - 1]
       \<lparr>ml_link = (PlantLink host port)\<lparr>pl_listener := True, pl_conn := True\<rparr>, ml_latencies = [], ml_mismatches = 0,
        ml_next_tick = me_t_start env, ml_slept = [], ml_recv = evs\<rparr> = Some (Inr (None, m)) \<and>
     link_session env [0..frames - 1] ((PlantLink host port)\<lparr>pl_listener := True, pl_conn := True\<rparr>) evs =
       Some (answers, ml_link m, ml_recv m) \<and> map fst answers = [0..frames - 1] \<and>
     (\<forall>(i, a) \<in> set answers. \<not> echo_mismatch i a) \<and> ls_errors_crc (pl_stats (ml_link m)) = 0 \<and>
     returns (milestone_report stats env frames max_mean m) \<and>
     (\<exists>mean. py_fmean stats (ml_latencies m) = Inr mean \<and> \<not> flt max_mean mean))"
proof (cases "fdiv (flit 1 1) rate_hz")
  case (Inl e)
  then show ?thesis by (simp add: milestone_run_def link_listen_def link_accept_def PlantLink_def)
next
  case (Inr period)
  let ?l = "(PlantLink host port)\<lparr>pl_listener := True, pl_conn := True\<rparr>"
  let ?m = "\<lparr>ml_link = ?l, ml_latencies = [], ml_mismatches = 0, ml_next_tick = me_t_start env, ml_slept = [], ml_recv = evs\<rparr>"
  have run: "milestone_run stats env Bound ClientConnected evs frames rate_hz port host max_mean =
      map_option (\<lambda>r. py_bind r (\<lambda>(rc, m). case rc of Some rc \<Rightarrow> Inr rc
        | None \<Rightarrow> milestone_report stats env frames max_mean m)) (milestone_loop env period [0..frames - 1] ?m)"
    using Inr by (simp add: milestone_run_def link_listen_def link_accept_def PlantLink_def)
  note s = milestone_loop_session [of env "[0..frames - 1]" ?m period]
  show ?thesis
  proof (cases "\<exists>m. milestone_loop env period [0..frames - 1] ?m = Some (Inr (None, m))")
    case True
    then obtain m where m: "milestone_loop env period [0..frames - 1] ?m = Some (Inr (None, m))" by blast
    from s m obtain answers where a: "link_session env [0..frames - 1] ?l evs = Some (answers, ml_link m, ml_recv m)"
      "ml_mismatches m = int (length (filter (\<lambda>(i, a). echo_mismatch i a) answers))" "map fst answers = [0..frames - 1]"
      by auto
    have "milestone_run stats env Bound ClientConnected evs frames rate_hz port host max_mean = Some (Inr 0) \<longleftrightarrow>
        milestone_report stats env frames max_mean m = Inr 0" unfolding run m by simp
    also have "\<dots> \<longleftrightarrow> returns (milestone_report stats env frames max_mean m) \<and> (\<forall>(i, a) \<in> set answers. \<not> echo_mismatch i a) \<and>
        ls_errors_crc (pl_stats (ml_link m)) = 0 \<and> (\<exists>mean. py_fmean stats (ml_latencies m) = Inr mean \<and> \<not> flt max_mean mean)"
      unfolding milestone_report_zero a(2) by (auto simp: filter_empty_conv)
    finally show ?thesis using m a Inr by auto
  next
    case False
    have "milestone_run stats env Bound ClientConnected evs frames rate_hz port host max_mean \<noteq> Some (Inr 0)"
      unfolding run using False s by (auto simp: py_bind_Inr_iff split: option.splits)
    then show ?thesis using False Inr by auto
  qed
qed

end
