(* ===== verification/Closed_Loop.thy ===== *)
theory Closed_Loop
  imports Harness_Properties Ecu_Main_Properties
begin

unbundle bit_operations_syntax

text \<open>
  Plant and ECU together: the tick of \<^verbatim>\<open>scripts/scenarios/harness.py\<close> and the cycle of
  \<^verbatim>\<open>controller/src/main.c\<close>, joined by the bytes on the wire.  In a joint tick the ECU reads what the
  harness puts out, in any chunks, and the harness reads what the ECU answers, in any chunks.
\<close>

section \<open>The composition\<close>

text \<open>The bytes the harness puts on the wire in a tick: none where a fault withholds the frame or \<^verbatim>\<open>sendall\<close> fails.\<close>

definition plant_wire :: "gauss \<Rightarrow> bench_env \<Rightarrow> int \<Rightarrow> bench \<Rightarrow> bytes py" where
  "plant_wire gauss env k b =
    (let t_s = fmul (flit k 1) CONTROL_PERIOD_S in
     py_bind (tick_sense gauss env k t_s b) (\<lambda>(filtered, b). case filtered of
       None \<Rightarrow> Inr []
     | Some frame \<Rightarrow>
         py_bind (sensor_pack frame) (\<lambda>payload.
         py_bind (encode_frame TYPE_SENSOR payload) (\<lambda>wire.
         py_bind (filter_wire t_s (bn_faults b) wire) (\<lambda>(wire, faults).
         Inr (case be_send env k of Sent \<Rightarrow> wire | SendFailed e \<Rightarrow> []))))))"

text \<open>\<open>chop\<close> is how TCP splits a write into reads; what the other side has not read yet stays in front of it, and
  after it comes a timeout.\<close>

definition unread :: "poll_event list \<Rightarrow> poll_event list" where
  "unread evs = takeWhile (\<lambda>e. e \<noteq> PollTimeout) evs"

definition unheard :: "recv_event list \<Rightarrow> recv_event list" where
  "unheard evs = takeWhile (\<lambda>e. e \<noteq> RecvTimeout) evs"

definition closed_tick :: "libm \<Rightarrow> gauss \<Rightarrow> bench_env \<Rightarrow> (int \<Rightarrow> os_tick) \<Rightarrow> (bytes \<Rightarrow> bytes list) \<Rightarrow> pyfloat \<Rightarrow> int \<Rightarrow>
    bench \<times> ecu_process \<Rightarrow> (bool \<times> bench \<times> ecu_process) option" where
  "closed_tick lm gauss env os chop req k = (\<lambda>(b, p). case plant_wire gauss env k b of
     Inl e \<Rightarrow> None
   | Inr wire \<Rightarrow> (case ecu_tick req (os k) (p\<lparr>ep_polls := unread (ep_polls p) @ map ReadBytes (chop wire) @ [PollTimeout],
         ep_sends := [SentBytes 19], ep_sent := []\<rparr>) of
       Some (EcuGo, p) \<Rightarrow>
         (case bench_tick lm gauss env k (b\<lparr>bn_recv := unheard (bn_recv b) @ map Chunk (chop (ep_sent p)) @ [RecvTimeout]\<rparr>) of
           Some (Inr (go, b)) \<Rightarrow> Some (go, b, p)
         | _ \<Rightarrow> None)
     | _ \<Rightarrow> None))"

fun closed_run :: "libm \<Rightarrow> gauss \<Rightarrow> bench_env \<Rightarrow> (int \<Rightarrow> os_tick) \<Rightarrow> (bytes \<Rightarrow> bytes list) \<Rightarrow> pyfloat \<Rightarrow> int list \<Rightarrow>
    bench \<times> ecu_process \<Rightarrow> (bench \<times> ecu_process) option" where
  "closed_run lm gauss env os chop req [] s = Some s"
| "closed_run lm gauss env os chop req (k # ks) s = (case closed_tick lm gauss env os chop req k s of
     None \<Rightarrow> None
   | Some (go, s) \<Rightarrow> if go then closed_run lm gauss env os chop req ks s else Some s)"

section \<open>The harness receives\<close>

lemma recv_loop_frame:
  assumes "recv_loop evs l = Some (r, l', evs')"
  shows "pl_conn l' = pl_conn l \<and> length evs' < length evs"
  using assms
proof (induction evs l rule: recv_loop.induct)
  case (5 chunk evs l)
  obtain fs d where d: "drain (feed chunk (pl_decoder l)) = (fs, d)" by force
  show ?case
  proof (cases "first_actuator fs")
    case None
    with 5(2) d have "recv_loop evs (l\<lparr>pl_decoder := d\<rparr>) = Some (r, l', evs')" by simp
    from 5(1) [OF refl d [symmetric] refl None this] show ?thesis by simp
  next
    case (Some f)
    with 5(2) d show ?thesis by (auto simp: merge_stats_def count_received_def)
  qed
qed (auto simp: merge_stats_def split: if_splits)

lemma try_step_encoded:
  assumes "t \<in> {1, 2}" "length p \<le> 64" "dc_buf d = []"
  shows "try_step (feed (frame_bytes t p) d) = (Some (Some \<lparr>fr_frame_type = t, fr_payload = p\<rparr>), d)"
proof -
  have "find_magic 0 (frame_bytes t p) = Some 0" by (simp add: frame_bytes_def MAGIC_def)
  then have "try_step (feed (frame_bytes t p) d) = try_frame (feed (frame_bytes t p) d)"
    by (simp add: try_step_alt skip_to_def assms(3) feed_def)
  also have "\<dots> = (Some (Some \<lparr>fr_frame_type = t, fr_payload = p\<rparr>), (feed (frame_bytes t p) d)\<lparr>dc_buf := []\<rparr>)"
    by (rule try_frame_accept) (use assms in simp_all)
  also have "(feed (frame_bytes t p) d)\<lparr>dc_buf := []\<rparr> = d" using assms(3) by (simp add: feed_def)
  finally show ?thesis .
qed

text \<open>No proper prefix of a frame is a frame.\<close>

lemma frame_prefix:
  assumes "try_step (feed (w @ rest) d) = (Some (Some f), e)" "dc_buf e = []" "fst (drain (feed w d)) \<noteq> []"
  shows "rest = []"
proof (rule ccontr)
  assume "rest \<noteq> []"
  from assms(1) have "try_step (feed rest (feed w d)) = (Some (Some f), e)" by (simp add: feed_feed)
  from prefix_waits [OF this assms(2) \<open>rest \<noteq> []\<close>] obtain d' where "try_step (feed w d) = (Some None, d')" by blast
  with assms(3) show False by (simp add: drain_step [of "feed w d"])
qed

lemma recv_loop_merged: "recv_loop evs l = Some (r, l', evs') \<Longrightarrow> ls_errors_crc (pl_stats l') = dc_errors_crc (pl_decoder l')"
proof (induction evs l rule: recv_loop.induct)
  case (5 chunk evs l)
  obtain fs d where d: "drain (feed chunk (pl_decoder l)) = (fs, d)" by force
  show ?case
  proof (cases "first_actuator fs")
    case None
    with 5(2) d have "recv_loop evs (l\<lparr>pl_decoder := d\<rparr>) = Some (r, l', evs')" by simp
    from 5(1) [OF refl d [symmetric] refl None this] show ?thesis .
  next
    case (Some f)
    with 5(2) d show ?thesis by (auto simp: merge_stats_def count_received_def)
  qed
qed (auto simp: merge_stats_def split: if_splits)

text \<open>The idle link receives a frame, and is idle again.\<close>

lemma recv_encoded_idle:
  assumes "pl_conn l" "dc_buf (pl_decoder l) = []" "length p \<le> 64" "concat cs = frame_bytes 2 p"
  shows "\<exists>l' evs'. recv_actuator (map Chunk cs @ evs) l = Some (map_sum id Some (actuator_unpack p), l', evs') \<and>
    pl_conn l' \<and> dc_buf (pl_decoder l') = [] \<and> pl_decoder l' = pl_decoder l \<and>
    ls_errors_crc (pl_stats l') = dc_errors_crc (pl_decoder l) \<and>
    ls_actuator_frames_received (pl_stats l') = ls_actuator_frames_received (pl_stats l) + 1 \<and>
    (\<exists>ds. evs' = map Chunk ds @ evs \<and> concat ds = [])"
proof -
  let ?f = "\<lparr>fr_frame_type = 2, fr_payload = p\<rparr>" and ?d = "pl_decoder l"
  have dr: "drain (feed (frame_bytes 2 p) ?d) = ([?f], ?d)"
    using stream_of_frames [of "[(2, p)]" ?d] assms(2-3) by simp
  have "run_chunks cs ?d = ([?f], ?d)"
    using run_chunks_drain [of cs ?d] dr drain_no_bytes [OF assms(2)] assms(4) by (cases "run_chunks cs ?d") simp
  from recv_loop_chunks [OF this, of evs] obtain k l' where
    r: "recv_loop (map Chunk cs @ evs) l = Some (map_sum id Some (actuator_unpack p), l', map Chunk (drop k cs) @ evs)"
    "pl_decoder l' = snd (run_chunks (take k cs) ?d)"
    "ls_actuator_frames_received (pl_stats l') = Suc (ls_actuator_frames_received (pl_stats l))"
    by (auto simp: act_types)
  let ?w = "concat (take k cs)" and ?rest = "concat (drop k cs)"
  obtain outs dk where k: "run_chunks (take k cs) ?d = (outs, dk)" by force
  have w: "?w @ ?rest = frame_bytes 2 p" using assms(4) by (metis append_take_drop_id concat_append)
  have one: "try_step (feed (?w @ ?rest) ?d) = (Some (Some ?f), ?d)"
    unfolding w by (rule try_step_encoded [OF _ assms(3,2)]) simp
  have "drain ?d = ([], ?d)" using quiet_fresh [OF assms(2)] by (simp add: quiet_def)
  then have dk: "drain (feed ?w ?d) = (outs, dk)" using run_chunks_drain [of "take k cs" ?d] k by simp
  have "outs \<noteq> []"
  proof
    assume "outs = []"
    with recv_loop_chunks [OF k, of "map Chunk (drop k cs) @ evs"] r(1)
    have "recv_loop (map Chunk (drop k cs) @ evs) (l\<lparr>pl_decoder := dk\<rparr>) =
      Some (map_sum id Some (actuator_unpack p), l', map Chunk (drop k cs) @ evs)"
      by (simp add: append.assoc [symmetric] map_append [symmetric] del: append_assoc map_append)
    from recv_loop_frame [OF this] show False by simp
  qed
  then have rest: "?rest = []" using frame_prefix [OF one assms(2)] dk by simp
  then have "?w = frame_bytes 2 p" using w by (simp only: append_Nil2)
  then have "dk = ?d" using dk dr by simp
  then have "pl_decoder l' = ?d" using r(2) k by simp
  moreover have "\<exists>ds. map Chunk (drop k cs) @ evs = map Chunk ds @ evs \<and> concat ds = []" using rest by blast
  ultimately show ?thesis
    using r recv_loop_frame [OF r(1)] recv_loop_merged [OF r(1)] recv_actuator_quiet [OF assms(1) quiet_fresh [OF assms(2)]] assms(1,2)
    by simp
qed

text \<open>A frame without faults: what \<open>plant_wire\<close> is, and that the harness sends it.\<close>

definition raw_frame :: "int \<Rightarrow> bench \<Rightarrow> sensor_frame" where
  "raw_frame ms b = \<lparr>sf_timestamp_ms = ms, sf_v_vehicle = vs_v (vh_state (bn_veh b)),
     sf_omega_wheel = vs_omega (vh_state (bn_veh b)), sf_brake_pressure = bn_last_brake b, sf_fault_flags = 0\<rparr>"

lemma pack_f_widen: "canon B32 y \<Longrightarrow> \<exists>bs. pack_f (widen y) = Inr bs"
  by (simp add: pack_f_def to_f32_widen)

lemma raw_frame_packs:
  assumes "bench_ok n b" "canon B32 y" "bn_last_brake b = widen y"
  shows "\<exists>payload. sensor_pack (raw_frame ms b) = Inr payload \<and> sensor_ok (raw_frame ms b)"
proof -
  have v: "fwithin 0 128 (vs_v (vh_state (bn_veh b)))" "fwithin 0 4096 (vs_omega (vh_state (bn_veh b)))"
    using assms(1) by (simp_all add: bench_ok_def vehicle_ok_def)
  from pack_f_within [OF fwithin_weaken [OF v(1)]] pack_f_within [OF fwithin_weaken [OF v(2)]] pack_f_widen [OF assms(2)] show ?thesis
    using assms(3) fwithinD(3) [OF v(1)] fwithinD(3) [OF v(2)] canon_widen [OF assms(2)]
    by (auto simp: raw_frame_def sensor_pack_def sensor_ok_def)
qed

section \<open>The ECU answers\<close>

definition ecu_ready :: "pyfloat \<Rightarrow> ecu_process \<Rightarrow> bool" where
  "ecu_ready req p \<longleftrightarrow> (case hl_drv (ep_hal p) of
       None \<Rightarrow> False | Some drv \<Rightarrow> dv_rx drv = [] \<and> ds_errors_crc (dv_stats drv) = 0) \<and>
     ha_initialised (ep_hal p) \<and> c_holds req (eu_cc (ep_ecu p)) \<and>
     dg_crc_errors_in_window (eu_dg (ep_ecu p)) = 0 \<and> dg_last_crc_errors_seen (eu_dg (ep_ecu p)) = 0"

lemma diagnostic_no_comm:
  assumes "dg_crc_errors_in_window ctx = 0" "dg_last_crc_errors_seen ctx = 0" "\<not> WATCHDOG_TIMEOUT_CYCLES < n"
    and "diagnostic_step ctx s r n 0 = (d, ctx')"
  shows "\<not> bit d 2" "\<not> bit d 3" "dg_crc_errors_in_window ctx' = 0" "dg_last_crc_errors_seen ctx' = 0"
proof -
  obtain ctx1 where c: "crc_rate_step ctx 0 = (False, ctx1)" "dg_crc_errors_in_window ctx1 = 0" "dg_last_crc_errors_seen ctx1 = 0"
    using assms(1,2) by (simp add: crc_rate_step_def Let_def DIAG_CRC_ERROR_RATE_THRESHOLD_def)
  show "\<not> bit d 2" "\<not> bit d 3" "dg_crc_errors_in_window ctx' = 0" "dg_last_crc_errors_seen ctx' = 0"
    using assms(3,4) c
    by (auto simp: diagnostic_step_def Let_def diagnostic_is_stuck_def diagnostic_implausible_def C_DTC_NONE_def
        C_DTC_SENSOR_RANGE_def C_DTC_SENSOR_STUCK_def C_DTC_PLAUSIBILITY_def bit_simps split: if_splits)
qed

lemma decide_diagnosis:
  "ecu_decide req crc e = ((mode, d, cmd), e') \<Longrightarrow>
    diagnostic_step (eu_dg e) (for_state e) WHEEL_RADIUS_M (eu_cycles_since_valid e) crc = (d, eu_dg e')"
  by (auto simp: ecu_decide_def Let_def split: prod.splits)

lemma hal_read_frame:
  assumes "sensor_ok s" "sensor_pack s = Inr payload" "encode_frame TYPE_SENSOR payload = Inr wire" "concat cs = wire"
    and "hl_drv h = Some drv" "dv_rx drv = []"
  shows "\<exists>cur h' drv' evs'. hal_sensors_read (map ReadBytes cs @ evs) now out h = Some (0, cur, h', evs') \<and>
    hl_drv h' = Some drv' \<and> dv_rx drv' = [] \<and> ds_errors_crc (dv_stats drv') = ds_errors_crc (dv_stats drv) \<and>
    ha_initialised h' = ha_initialised h \<and> (\<exists>ds. evs' = map ReadBytes ds @ evs \<and> concat ds = [])"
proof -
  have "magic_free []" by (simp add: magic_free_def)
  from python_frame_in_c [OF assms(1-3) this _ assms(6), of cs evs] assms(4) obtain p drv' evs' where
    "socket_drv_recv_sensor (map ReadBytes cs @ evs) drv = Some (1, Some p, drv', evs')" "dv_rx drv' = []"
    "ds_errors_crc (dv_stats drv') = ds_errors_crc (dv_stats drv)" "\<exists>ds. evs' = map ReadBytes ds @ evs \<and> concat ds = []" by auto
  then show ?thesis using assms(5) by (simp add: hal_sensors_read_def Let_def)
qed

lemma write_frame:
  assumes "hl_drv h = Some drv" "ha_initialised h"
  shows "\<exists>h'. hal_actuators_write [SentBytes 19] a h = Some (0, actuator_wire_bytes a, h', []) \<and>
    (\<exists>drv'. hl_drv h' = Some drv' \<and> dv_rx drv' = dv_rx drv \<and> ds_errors_crc (dv_stats drv') = ds_errors_crc (dv_stats drv)) \<and>
    ha_initialised h'"
  using assms send_all_once [OF actuator_wire_length [of a], of "[]"]
  by (simp add: hal_actuators_write_def socket_drv_send_actuator_def Let_def)

lemma diagnostic_crc_quiet:
  assumes "dg_crc_errors_in_window ctx = 0" "dg_last_crc_errors_seen ctx = 0"
    and "diagnostic_step ctx s r n 0 = (d, ctx')"
  shows "dg_crc_errors_in_window ctx' = 0" "dg_last_crc_errors_seen ctx' = 0"
proof -
  obtain ctx1 where c: "crc_rate_step ctx 0 = (False, ctx1)" "dg_crc_errors_in_window ctx1 = 0" "dg_last_crc_errors_seen ctx1 = 0"
    using assms(1,2) by (simp add: crc_rate_step_def Let_def DIAG_CRC_ERROR_RATE_THRESHOLD_def)
  then show "dg_crc_errors_in_window ctx' = 0" "dg_last_crc_errors_seen ctx' = 0"
    using assms(3)
    by (auto simp: diagnostic_step_def Let_def diagnostic_is_stuck_def diagnostic_implausible_def split: if_splits)
qed

text \<open>A cycle after a read that left the driver idle.\<close>

lemma ecu_tick_read:
  assumes "ecu_ready req p" "\<not> ot_sleep_failed ot"
    and "hal_sensors_read evs (now_ms_mono (ot_rx_time ot)) (eu_cur (ep_ecu p)) (ep_hal p) = Some (r, cur, h1, evs1)"
    and "hl_drv h1 = Some drv1" "dv_rx drv1 = []" "ds_errors_crc (dv_stats drv1) = 0" "ha_initialised h1"
    and c: "ecu_control req r cur 0 (ep_ecu p) = ((mode, d, cmd), e)"
  shows "\<exists>p'. ecu_tick req ot (p\<lparr>ep_polls := evs, ep_sends := [SentBytes 19], ep_sent := []\<rparr>) = Some (EcuGo, p') \<and>
    ecu_ready req p' \<and> ep_ecu p' = e \<and> cmd \<in> {clit 0 1, req} \<and>
    ep_polls p' = evs1 \<and> ep_sent p' = actuator_wire_bytes \<lparr>ap_timestamp_ms = now_ms_mono (ot_tx_time ot), ap_brake_command = cmd,
      ap_ecu_status = status_code mode, ap_dtc_code = d\<rparr>"
proof -
  have crc: "hal_errors_crc h1 = 0" using assms(4,6) by (simp add: hal_errors_crc_def)
  let ?a = "\<lparr>ap_timestamp_ms = now_ms_mono (ot_tx_time ot), ap_brake_command = cmd, ap_ecu_status = status_code mode, ap_dtc_code = d\<rparr>"
  obtain h2 drv2 where w: "hal_actuators_write [SentBytes 19] ?a h1 = Some (0, actuator_wire_bytes ?a, h2, [])"
    "hl_drv h2 = Some drv2" "dv_rx drv2 = []" "ds_errors_crc (dv_stats drv2) = 0" "ha_initialised h2"
    using write_frame [OF assms(4,7), of ?a] assms(5,6) by metis
  have "ecu_decide req 0 (ecu_sense r cur (ep_ecu p)) = ((mode, d, cmd), e)" using c by (simp add: ecu_control_def)
  note dg = decide_diagnosis [OF this]
  have s: "eu_dg (ecu_sense r cur (ep_ecu p)) = eu_dg (ep_ecu p)" by (simp add: ecu_sense_def Let_def)
  have nc: "dg_crc_errors_in_window (eu_dg e) = 0" "dg_last_crc_errors_seen (eu_dg e) = 0"
    using diagnostic_crc_quiet [OF _ _ dg [unfolded s]] assms(1) by (simp_all add: ecu_ready_def)
  have adm: "cmd \<in> {clit 0 1, req}" "c_holds req (eu_cc e)"
    using control_admissible [OF c] assms(1) by (simp_all add: ecu_ready_def)
  define p0 where "p0 = p\<lparr>ep_polls := evs, ep_sends := [SentBytes 19], ep_sent := []\<rparr>"
  have p0: "ep_polls p0 = evs" "ep_sends p0 = [SentBytes 19]" "ep_sent p0 = []" "ep_ecu p0 = ep_ecu p" "ep_hal p0 = ep_hal p"
    by (simp_all add: p0_def)
  have "\<exists>p'. ecu_tick req ot p0 = Some (EcuGo, p') \<and> ep_ecu p' = e \<and> ep_hal p' = h2 \<and> ep_polls p' = evs1 \<and>
      ep_sent p' = actuator_wire_bytes ?a"
    using assms(2,3) c w(1) by (simp add: ecu_tick_def Let_def p0 crc)
  then show ?thesis unfolding p0_def [symmetric] using w(2-) nc adm by (auto simp: ecu_ready_def)
qed

text \<open>Fresh frames raise no DTC of the link.\<close>

lemma fresh_no_comm:
  assumes "\<forall>x \<in> set xs. fst x = 0 \<and> snd (snd x) = 0"
  shows "(\<forall>(mode, d, cmd) \<in> set (fst (ecu_run req xs ecu_init)). \<not> bit d 2 \<and> \<not> bit d 3) \<and>
    dg_crc_errors_in_window (eu_dg (snd (ecu_run req xs ecu_init))) = 0 \<and>
    dg_last_crc_errors_seen (eu_dg (snd (ecu_run req xs ecu_init))) = 0"
  using assms
proof (induction xs rule: rev_induct)
  case Nil
  then show ?case by (simp add: ecu_init_def diagnostic_init_def)
next
  case (snoc x xs)
  obtain cur where x: "x = (0, cur, 0)" using snoc.prems by (cases x) auto
  let ?e = "snd (ecu_run req xs ecu_init)"
  obtain mode d cmd e where c: "ecu_control req 0 cur 0 ?e = ((mode, d, cmd), e)" by (metis prod.exhaust)
  have "ecu_decide req 0 (ecu_sense 0 cur ?e) = ((mode, d, cmd), e)" using c by (simp add: ecu_control_def)
  note dg = decide_diagnosis [OF this]
  have s: "eu_dg (ecu_sense 0 cur ?e) = eu_dg ?e" "eu_cycles_since_valid (ecu_sense 0 cur ?e) = 0"
    by (simp_all add: ecu_sense_def Let_def)
  have z: "dg_crc_errors_in_window (eu_dg ?e) = 0" "dg_last_crc_errors_seen (eu_dg ?e) = 0" using snoc by simp_all
  have "\<not> bit d 2" "\<not> bit d 3" "dg_crc_errors_in_window (eu_dg e) = 0" "dg_last_crc_errors_seen (eu_dg e) = 0"
    using diagnostic_no_comm [OF z _ dg [unfolded s]] by simp_all
  then show ?case using snoc by (simp add: ecu_run_append x c Let_def)
qed

section \<open>A tick\<close>

text \<open>Nothing is left to be heard or read.\<close>

definition heard :: "bench \<Rightarrow> bool" where
  "heard b \<longleftrightarrow> (\<exists>ds. unheard (bn_recv b) = map Chunk ds \<and> concat ds = [])"

definition all_read :: "ecu_process \<Rightarrow> bool" where
  "all_read p \<longleftrightarrow> (\<exists>ds. unread (ep_polls p) = map ReadBytes ds \<and> concat ds = [])"

lemma unheard_chunks: "unheard (map Chunk ds @ RecvTimeout # evs) = map Chunk ds"
  by (induction ds) (simp_all add: unheard_def)

lemma unread_chunks: "unread (map ReadBytes ds @ PollTimeout # evs) = map ReadBytes ds"
  by (induction ds) (simp_all add: unread_def)

lemma heardI: "bn_recv b = map Chunk ds @ [RecvTimeout] \<Longrightarrow> concat ds = [] \<Longrightarrow> heard b"
  unfolding heard_def using unheard_chunks [of ds "[]"] by auto

lemma all_readI: "ep_polls p = map ReadBytes ds @ [PollTimeout] \<Longrightarrow> concat ds = [] \<Longrightarrow> all_read p"
  unfolding all_read_def using unread_chunks [of ds "[]"] by auto

text \<open>What the outside world does in a tick: the write goes out, the clock is a number, the sleep is not broken off.\<close>

definition undisturbed :: "bench_env \<Rightarrow> (int \<Rightarrow> os_tick) \<Rightarrow> int \<Rightarrow> bool" where
  "undisturbed env os k \<longleftrightarrow> be_send env k = Sent \<and> returns (now_ms (be_clock env k)) \<and> \<not> ot_sleep_failed (os k)"

lemma no_comm_bits:
  fixes d :: dtc
  assumes "\<not> bit d 2" "\<not> bit d 3"
  shows "uint d AND (DTC_COMM_TIMEOUT OR DTC_COMM_CRC) = 0"
proof -
  have "uint d AND 2 ^ 2 = 0" "uint d AND 2 ^ 3 = 0"
    using assms by (simp_all only: and_exp_eq_0_iff_not_bit bit_uint_iff) simp_all
  then show ?thesis
    unfolding DTC_COMM_TIMEOUT_def DTC_COMM_CRC_def push_bit_eq_mult mult_1 bit.conj_disj_distrib by simp
qed

lemma brake_source:
  assumes "x \<in> {f0, widen req}" "canon B32 req"
  obtains y where "canon B32 y" "x = widen y"
  using assms clit_eval by (metis insertE singletonD)

lemma harness_receives:
  assumes "pl_conn (bn_link b)" "dc_buf (pl_decoder (bn_link b)) = []" "canon B32 (ap_brake_command a)"
    and "bn_recv b = map Chunk cs @ evs" "concat cs = actuator_wire_bytes a"
  shows "\<exists>b'. tick_receive env k b = Some (Inr (as_actuator_frame a, b')) \<and> pl_conn (bn_link b') \<and>
    dc_buf (pl_decoder (bn_link b')) = [] \<and>
    ls_actuator_frames_received (pl_stats (bn_link b')) = ls_actuator_frames_received (pl_stats (bn_link b)) + 1 \<and>
    (\<exists>ds. bn_recv b' = map Chunk ds @ evs \<and> concat ds = [])"
proof -
  have "length (actuator_payload_bytes a) \<le> 64" by (simp add: actuator_payload_bytes_def)
  from recv_encoded_idle [OF assms(1,2) this, of cs evs] assms(4,5) actuator_wire_frame [of a]
    actuator_payload_pack(2) [OF assms(3)]
  obtain l' evs' where "recv_actuator (bn_recv b) (bn_link b) = Some (Inr (Some (as_actuator_frame a)), l', evs')"
    "pl_conn l'" "dc_buf (pl_decoder l') = []"
    "ls_actuator_frames_received (pl_stats l') = ls_actuator_frames_received (pl_stats (bn_link b)) + 1"
    "\<exists>ds. evs' = map Chunk ds @ evs \<and> concat ds = []" by auto
  then show ?thesis by (simp add: tick_receive_def Let_def)
qed

section \<open>Safety under faults\<close>

definition loop_safe :: "pyfloat \<Rightarrow> nat \<Rightarrow> bench \<times> ecu_process \<Rightarrow> bool" where
  "loop_safe req n = (\<lambda>(b, p). bench_ok n b \<and> pl_conn (bn_link b) \<and> dc_buf (pl_decoder (bn_link b)) = [] \<and>
     set (sr_brake_cmd (bn_result b)) \<subseteq> {f0, widen req} \<and> c_holds req (eu_cc (ep_ecu p)))"

lemma tick_send_link:
  "tick_send env k t fr b = Inr (go, b') \<Longrightarrow> bn_link b' = bn_link b \<or> bn_link b' = count_sent (bn_link b)"
  by (cases fr; cases "be_send env k") (auto simp: tick_send_def sendall_def py_bind_Inr_iff Let_def split: if_splits)

lemma ecu_tick_answers:
  assumes "ecu_tick req ot p = Some (EcuGo, p')" "c_holds req (eu_cc (ep_ecu p))" "ep_sent p = []"
  obtains a where "ep_sent p' = actuator_wire_bytes a" "ap_brake_command a \<in> {clit 0 1, req}"
    "c_holds req (eu_cc (ep_ecu p'))"
proof -
  from ecu_tick_parts [OF assms(1)] obtain r cur hal polls mode d cmd hal' sends sent where
    c: "ecu_control req r cur (hal_errors_crc hal) (ep_ecu p) = ((mode, d, cmd), ep_ecu p')"
    and w: "hal_actuators_write (ep_sends p) \<lparr>ap_timestamp_ms = now_ms_mono (ot_tx_time ot), ap_brake_command = cmd,
       ap_ecu_status = status_code mode, ap_dtc_code = d\<rparr> hal = Some (0, sent, hal', sends)"
    and s: "ep_sent p' = ep_sent p @ sent" .
  from that [OF _ _ control_admissible(2) [OF c assms(2)]] show thesis
    using s assms(3) write_complete [OF w] control_admissible(1) [OF c assms(2)] by simp
qed

text \<open>Whatever the faults and the chunks: a joint tick that goes on logs a command that is 0 or the request.\<close>

lemma closed_tick_safe:
  assumes lm: "libm_ok lm" and ok: "loop_safe req n (b, p)" "heard b" and req: "canon B32 req" "widen req \<noteq> NaN"
    and chop: "\<And>bs. concat (chop bs) = bs"
    and t: "closed_tick lm gauss env os chop req k (b, p) = Some (go, b', p')"
  shows "\<exists>m. n \<le> m \<and> m \<le> Suc n \<and> loop_safe req m (b', p') \<and> (go \<longrightarrow> heard b')"
proof -
  have b: "bench_ok n b" "pl_conn (bn_link b)" "dc_buf (pl_decoder (bn_link b)) = []"
    "set (sr_brake_cmd (bn_result b)) \<subseteq> {f0, widen req}" "c_holds req (eu_cc (ep_ecu p))"
    using ok by (simp_all add: loop_safe_def)
  obtain es where es: "unheard (bn_recv b) = map Chunk es" "concat es = []" using ok(2) by (auto simp: heard_def)
  from t obtain wire where
    e: "ecu_tick req (os k) (p\<lparr>ep_polls := unread (ep_polls p) @ map ReadBytes (chop wire) @ [PollTimeout],
      ep_sends := [SentBytes 19], ep_sent := []\<rparr>) = Some (EcuGo, p')" and
    t': "bench_tick lm gauss env k (b\<lparr>bn_recv := map Chunk (es @ chop (ep_sent p')) @ [RecvTimeout]\<rparr>) = Some (Inr (go, b'))"
    by (auto simp: closed_tick_def es split: sum.splits option.splits ecu_flow.splits)
  obtain a where a: "ep_sent p' = actuator_wire_bytes a" "ap_brake_command a \<in> {clit 0 1, req}" "c_holds req (eu_cc (ep_ecu p'))"
    using ecu_tick_answers [OF e] b(5) by auto
  have can: "canon B32 (ap_brake_command a)" using a(2) req(1) clit_eval(2) by auto
  have cmd: "af_brake_command (as_actuator_frame a) \<in> {f0, widen req}" using a(2) clit_eval(1) by (auto simp: as_actuator_frame_def)
  let ?b = "b\<lparr>bn_recv := map Chunk (es @ chop (ep_sent p')) @ [RecvTimeout]\<rparr>"
  have ok1: "bench_ok n ?b" using b(1) by (simp add: bench_ok_def)
  show ?thesis using t'
  proof (cases rule: bench_tick_parts)
    case (1 fr b0)
    note s = tick_sense_ok [OF 1(1) ok1]
    note s1 = tick_send_ok [OF 1(2) conjunct1 [OF s]]
    have "pl_conn (bn_link b')" "dc_buf (pl_decoder (bn_link b')) = []"
      using tick_send_link [OF 1(2)] s b(2,3) by (auto simp: count_sent_def)
    then have "loop_safe req n (b', p')" using s s1 b(4) a(3) by (simp add: loop_safe_def)
    then show ?thesis using 1(3) by (intro exI [of _ n]) simp
  next
    case (2 fr b0 b1 a' b2)
    note s = tick_sense_ok [OF 2(1) ok1]
    note s1 = tick_send_ok [OF 2(2) conjunct1 [OF s]]
    have l: "pl_conn (bn_link b1)" "dc_buf (pl_decoder (bn_link b1)) = []"
      using tick_send_link [OF 2(2)] s b(2,3) by (auto simp: count_sent_def)
    have rv: "bn_recv b1 = map Chunk (es @ chop (ep_sent p')) @ [RecvTimeout]" using s s1 by simp
    have "concat (es @ chop (ep_sent p')) = actuator_wire_bytes a" using es(2) chop a(1) by (simp only: concat_append append_Nil)
    from harness_receives [OF l can rv this, of env k] 2(3) have
      r: "a' = as_actuator_frame a" "pl_conn (bn_link b2)" "dc_buf (pl_decoder (bn_link b2)) = []"
        "\<exists>ds. bn_recv b2 = map Chunk ds @ [RecvTimeout] \<and> concat ds = []" by auto
    have "af_brake_command a' \<noteq> NaN" using cmd req(2) r(1) by auto
    with tick_receive_ok [OF 2(3) conjunct1 [OF s1]] have r2: "bench_ok n b2" "bn_result b2 = bn_result b1" by blast+
    from tick_plant_ok [OF lm r2(1), of "fmul (flit k 1) CONTROL_PERIOD_S" a'] 2(4) have
      q: "bench_ok (Suc n) b'" "sr_brake_cmd (bn_result b') = sr_brake_cmd (bn_result b2) @ [af_brake_command a']" by auto
    have q2: "bn_link b' = bn_link b2" "bn_recv b' = bn_recv b2" using 2(4) by (auto simp: tick_plant_def py_bind_Inr_iff)
    then have "heard b'" using r(4) heardI by metis
    moreover have "loop_safe req (Suc n) (b', p')" using q q2 r r2(2) s s1 b(4) a(3) cmd by (simp add: loop_safe_def)
    ultimately show ?thesis by (intro exI [of _ "Suc n"]) simp
  qed
qed

lemma closed_run_safe:
  assumes lm: "libm_ok lm" and req: "canon B32 req" "widen req \<noteq> NaN" and chop: "\<And>bs. concat (chop bs) = bs"
  shows "loop_safe req n (b, p) \<Longrightarrow> heard b \<Longrightarrow> closed_run lm gauss env os chop req ks (b, p) = Some (b', p') \<Longrightarrow>
    \<exists>m. m \<le> n + length ks \<and> loop_safe req m (b', p')"
proof (induction ks arbitrary: n b p)
  case (Cons k ks)
  obtain go b1 p1 where t: "closed_tick lm gauss env os chop req k (b, p) = Some (go, b1, p1)"
    "if go then closed_run lm gauss env os chop req ks (b1, p1) = Some (b', p') else (b', p') = (b1, p1)"
    using Cons.prems(3) by (auto split: option.splits prod.splits if_splits)
  from closed_tick_safe [OF lm Cons.prems(1,2) req chop t(1)] obtain m where
    m: "m \<le> Suc n" "loop_safe req m (b1, p1)" "go \<longrightarrow> heard b1" by blast
  show ?case
  proof (cases go)
    case True
    then obtain m' where "m' \<le> m + length ks" "loop_safe req m' (b', p')" using Cons.IH [OF m(2)] m(3) t(2) by auto
    with m(1) show ?thesis by (intro exI [of _ m']) simp
  next
    case False
    with t(2) m show ?thesis by (intro exI [of _ m]) simp
  qed
qed auto

text \<open>The start of a joint run.\<close>

definition loop_start :: "vehicle \<Rightarrow> fault_injector \<Rightarrow> scenario_config \<Rightarrow> bench \<times> ecu_process" where
  "loop_start veh injector cfg = (\<lparr>bn_veh = veh, bn_link = fresh_link, bn_faults = injector, bn_last_brake = f0,
     bn_result = ScenarioResult cfg, bn_recv = []\<rparr>, idle_process)"

end
