(* ===== verification/Both_Programs.thy ===== *)
theory Both_Programs
  imports Closed_Loop
begin

text \<open>
  The joint run of \<open>Closed_Loop\<close> taken apart again: each program, given the events of its own side, does the same
  alone.  A tick of either side looks at no more events than it uses (the lemmas \<open>_used\<close>), so the events of the ticks
  can be put one after the other.
\<close>

section \<open>The tick of the harness looks at no more events than it uses\<close>

lemma recv_loop_used:
  "recv_loop evs l = Some (r, l', evs') \<Longrightarrow> \<exists>used. evs = used @ evs' \<and> (\<forall>rest. recv_loop (used @ rest) l = Some (r, l', rest))"
proof (induction evs l rule: recv_loop.induct)
  case (2 evs l)
  then show ?case by (intro exI [of _ "[RecvTimeout]"]) auto
next
  case (3 evs l)
  then show ?case by (intro exI [of _ "[PeerClosed]"]) auto
next
  case (4 e evs l)
  then show ?case by (intro exI [of _ "[RecvFailed e]"]) (auto split: if_splits)
next
  case (5 chunk evs l)
  obtain fs d where d: "drain (feed chunk (pl_decoder l)) = (fs, d)" by force
  show ?case
  proof (cases "first_actuator fs")
    case None
    with 5(2) d have "recv_loop evs (l\<lparr>pl_decoder := d\<rparr>) = Some (r, l', evs')" by simp
    from 5(1) [OF refl d [symmetric] refl None this] obtain used where
      "evs = used @ evs'" "\<forall>rest. recv_loop (used @ rest) (l\<lparr>pl_decoder := d\<rparr>) = Some (r, l', rest)" by blast
    then show ?thesis using d None by (intro exI [of _ "Chunk chunk # used"]) simp
  next
    case (Some f)
    with 5(2) d show ?thesis by (intro exI [of _ "[Chunk chunk]"]) auto
  qed
qed simp

lemma recv_actuator_used:
  assumes "recv_actuator evs l = Some (r, l', evs')"
  shows "\<exists>used. evs = used @ evs' \<and> (\<forall>rest. recv_actuator (used @ rest) l = Some (r, l', rest))"
proof -
  obtain fs d where d: "drain (pl_decoder l) = (fs, d)" by force
  show ?thesis
  proof (cases "pl_conn l \<and> first_actuator fs = None")
    case True
    with assms d have "recv_loop evs (l\<lparr>pl_decoder := d\<rparr>) = Some (r, l', evs')" by (simp add: recv_actuator_def)
    from recv_loop_used [OF this] show ?thesis using True d by (simp add: recv_actuator_def)
  next
    case False
    with assms d show ?thesis
      by (cases "pl_conn l"; cases "first_actuator fs"; intro exI [of _ "[]"]) (auto simp: recv_actuator_def)
  qed
qed

lemma tick_receive_used:
  assumes "tick_receive env k b = Some (Inr (a, b'))"
  shows "\<exists>used. bn_recv b = used @ bn_recv b' \<and>
    (\<forall>rest. tick_receive env k (b\<lparr>bn_recv := used @ rest\<rparr>) = Some (Inr (a, b'\<lparr>bn_recv := rest\<rparr>)))"
proof -
  obtain r link evs where v: "recv_actuator (bn_recv b) (bn_link b) = Some (r, link, evs)"
    using assms by (auto simp: tick_receive_def split: option.splits)
  from recv_actuator_used [OF this] obtain used where
    u: "bn_recv b = used @ evs" "\<And>rest. recv_actuator (used @ rest) (bn_link b) = Some (r, link, rest)" by blast
  obtain x where x: "r = Inr x" using assms v by (cases r) (auto simp: tick_receive_def)
  show ?thesis
    by (intro exI [of _ used]; cases x) (use assms v u x in \<open>auto simp: tick_receive_def Let_def py_bind_Inr_iff\<close>)
qed

lemma tick_sense_recv:
  "tick_sense gauss env k t b = Inr (fr, b') \<Longrightarrow> tick_sense gauss env k t (b\<lparr>bn_recv := e\<rparr>) = Inr (fr, b'\<lparr>bn_recv := e\<rparr>) \<and> bn_recv b' = bn_recv b"
  by (cases "apply_environment t (bn_faults b) (vh_tire (bn_veh b))"; cases "now_ms (be_clock env k)")
    (auto simp: tick_sense_def Let_def split: prod.splits)

lemma tick_send_recv:
  "tick_send env k t fr b = Inr (go, b') \<Longrightarrow> tick_send env k t fr (b\<lparr>bn_recv := e\<rparr>) = Inr (go, b'\<lparr>bn_recv := e\<rparr>) \<and> bn_recv b' = bn_recv b"
  by (cases fr; cases "be_send env k") (auto simp: tick_send_def sendall_def py_bind_Inr_iff Let_def split: if_splits)

lemma tick_plant_recv:
  "tick_plant lm t a b = Inr b' \<Longrightarrow> tick_plant lm t a (b\<lparr>bn_recv := e\<rparr>) = Inr (b'\<lparr>bn_recv := e\<rparr>) \<and> bn_recv b' = bn_recv b"
  by (auto simp: tick_plant_def py_bind_Inr_iff)

lemma bench_tick_used:
  assumes "bench_tick lm gauss env k b = Some (Inr (go, b'))"
  shows "\<exists>used. bn_recv b = used @ bn_recv b' \<and>
    (\<forall>rest. bench_tick lm gauss env k (b\<lparr>bn_recv := used @ rest\<rparr>) = Some (Inr (go, b'\<lparr>bn_recv := rest\<rparr>)))"
  using assms
proof (cases rule: bench_tick_parts)
  case (1 fr b0)
  then show ?thesis using tick_sense_recv [OF 1(1)] tick_send_recv [OF 1(2)]
    by (intro exI [of _ "[]"]) (simp add: bench_tick_def Let_def)
next
  case (2 fr b0 b1 a b2)
  from tick_receive_used [OF 2(3)] obtain used where
    u: "bn_recv b1 = used @ bn_recv b2" "\<And>rest. tick_receive env k (b1\<lparr>bn_recv := used @ rest\<rparr>) = Some (Inr (a, b2\<lparr>bn_recv := rest\<rparr>))" by blast
  then show ?thesis using tick_sense_recv [OF 2(1)] tick_send_recv [OF 2(2)] tick_plant_recv [OF 2(4)] 2(5)
    by (intro exI [of _ used]) (simp add: bench_tick_def Let_def)
qed

section \<open>The cycle of the ECU looks at no more events than it uses\<close>

lemma recv_poll_used:
  "recv_poll evs drv = Some (rc, raw, drv', evs') \<Longrightarrow>
    \<exists>used. evs = used @ evs' \<and> (\<forall>rest. recv_poll (used @ rest) drv = Some (rc, raw, drv', rest))"
proof (induction evs drv rule: recv_poll.induct)
  case (2 evs drv)
  then obtain used where "evs = used @ evs'" "\<forall>rest. recv_poll (used @ rest) drv = Some (rc, raw, drv', rest)" by auto
  then show ?case by (intro exI [of _ "PollInterrupted # used"]) simp
next
  case (6 evs drv)
  then obtain used where "evs = used @ evs'" "\<forall>rest. recv_poll (used @ rest) (make_room drv) = Some (rc, raw, drv', rest)" by auto
  then show ?case by (intro exI [of _ "ReadInterrupted # used"]) simp
next
  case (9 bs evs drv)
  obtain p d where x: "try_extract_frame ((make_room drv)\<lparr>dv_rx := dv_rx (make_room drv) @ bs\<rparr>) = (p, d)" by force
  show ?case
  proof (cases p)
    case None
    then have "recv_poll evs d = Some (rc, raw, drv', evs')" using x 9(2) by simp
    from 9(1) [OF refl refl x [symmetric] None this] obtain used where
      "evs = used @ evs'" "\<forall>rest. recv_poll (used @ rest) d = Some (rc, raw, drv', rest)" by blast
    then show ?thesis using x None by (intro exI [of _ "ReadBytes bs # used"]) simp
  next
    case (Some q)
    with x 9(2) show ?thesis by (intro exI [of _ "[ReadBytes bs]"]) auto
  qed
qed (auto intro: exI [of _ "[e]" for e])

lemma socket_recv_used:
  assumes "socket_drv_recv_sensor evs drv = Some (rc, raw, drv', evs')"
  shows "\<exists>used. evs = used @ evs' \<and> (\<forall>rest. socket_drv_recv_sensor (used @ rest) drv = Some (rc, raw, drv', rest))"
proof -
  obtain q d where x: "try_extract_frame drv = (q, d)" by force
  show ?thesis
  proof (cases q)
    case None
    then show ?thesis using recv_poll_used [of evs d] assms x by (simp add: socket_drv_recv_sensor_def)
  qed (use assms x in \<open>auto simp: socket_drv_recv_sensor_def\<close>)
qed

lemma hal_read_used:
  assumes "hal_sensors_read evs now out h = Some (r, cur, h', evs')"
  shows "\<exists>used. evs = used @ evs' \<and> (\<forall>rest. hal_sensors_read (used @ rest) now out h = Some (r, cur, h', rest))"
proof (cases "hl_drv h")
  case None
  then show ?thesis using assms by (auto simp: hal_sensors_read_def)
next
  case (Some drv)
  obtain rc raw drv' where "socket_drv_recv_sensor evs drv = Some (rc, raw, drv', evs')"
    using assms Some by (auto simp: hal_sensors_read_def Let_def split: if_splits)
  with socket_recv_used [OF this] assms Some show ?thesis
    by (auto simp: hal_sensors_read_def Let_def split: if_splits)
qed

lemma write_one:
  assumes "hal_actuators_write [SentBytes 19] a h = Some (0, sent, h', sends)"
  shows "sends = [] \<and> hal_actuators_write (SentBytes 19 # rest) a h = Some (0, sent, h', rest)"
proof -
  have "send_all (SentBytes 19 # evs) (actuator_wire_bytes a) = Some (0, actuator_wire_bytes a, evs)" for evs
    using actuator_wire_length [of a] by (cases "actuator_wire_bytes a") simp_all
  then show ?thesis using assms
    by (auto simp: hal_actuators_write_def socket_drv_send_actuator_def Let_def split: if_splits option.splits)
qed

lemma ecu_tick_used:
  assumes "ecu_tick req ot (p\<lparr>ep_polls := evs, ep_sends := [SentBytes 19], ep_sent := []\<rparr>) = Some (EcuGo, p')"
  shows "ep_sends p' = [] \<and> (\<exists>used. evs = used @ ep_polls p' \<and> (\<forall>rest sends out.
    ecu_tick req ot (p\<lparr>ep_polls := used @ rest, ep_sends := SentBytes 19 # sends, ep_sent := out\<rparr>) =
      Some (EcuGo, p'\<lparr>ep_polls := rest, ep_sends := sends, ep_sent := out @ ep_sent p'\<rparr>)))"
proof -
  have sl: "\<not> ot_sleep_failed ot" using assms by (auto simp: ecu_tick_def)
  obtain r cur h polls where
    rd: "hal_sensors_read evs (now_ms_mono (ot_rx_time ot)) (eu_cur (ep_ecu p)) (ep_hal p) = Some (r, cur, h, polls)"
    using assms sl by (auto simp: ecu_tick_def Let_def split: option.splits)
  obtain mode d cmd e where c: "ecu_control req r cur (hal_errors_crc h) (ep_ecu p) = ((mode, d, cmd), e)" by (metis prod.exhaust)
  let ?a = "\<lparr>ap_timestamp_ms = now_ms_mono (ot_tx_time ot), ap_brake_command = cmd, ap_ecu_status = status_code mode, ap_dtc_code = d\<rparr>"
  obtain sent h' sends where w: "hal_actuators_write [SentBytes 19] ?a h = Some (0, sent, h', sends)"
    using assms sl rd c by (auto simp: ecu_tick_def Let_def split: if_splits)
  note w1 = conjunct1 [OF write_one [OF w]] and w2 = conjunct2 [OF write_one [OF w]]
  obtain used where u: "evs = used @ polls"
    "\<And>rest. hal_sensors_read (used @ rest) (now_ms_mono (ot_rx_time ot)) (eu_cur (ep_ecu p)) (ep_hal p) = Some (r, cur, h, rest)"
    using hal_read_used [OF rd] by blast
  have p': "ep_polls p' = polls" "ep_sends p' = []" using assms sl rd c w w1 by (auto simp: ecu_tick_def Let_def)
  moreover have "ecu_tick req ot (p\<lparr>ep_polls := used @ rest, ep_sends := SentBytes 19 # sends, ep_sent := out\<rparr>) =
      Some (EcuGo, p'\<lparr>ep_polls := rest, ep_sends := sends, ep_sent := out @ ep_sent p'\<rparr>)" for rest sends out
    using assms sl rd c w w1 w2 u(2) by (auto simp: ecu_tick_def Let_def)
  ultimately show ?thesis using u(1) by blast
qed

section \<open>The bytes of a run\<close>

definition chunk_bytes :: "recv_event list \<Rightarrow> bytes" where
  "chunk_bytes evs = concat (map (\<lambda>e. case e of Chunk bs \<Rightarrow> bs | _ \<Rightarrow> []) evs)"

definition poll_bytes :: "poll_event list \<Rightarrow> bytes" where
  "poll_bytes evs = concat (map (\<lambda>e. case e of ReadBytes bs \<Rightarrow> bs | _ \<Rightarrow> []) evs)"

text \<open>What a run of the harness puts on the wire.\<close>

fun bench_bytes :: "libm \<Rightarrow> gauss \<Rightarrow> bench_env \<Rightarrow> int list \<Rightarrow> bench \<Rightarrow> bytes" where
  "bench_bytes lm gauss env [] b = []"
| "bench_bytes lm gauss env (k # ks) b = (case plant_wire gauss env k b of Inl e \<Rightarrow> [] | Inr wire \<Rightarrow> wire) @
     (case bench_tick lm gauss env k b of Some (Inr (True, b)) \<Rightarrow> bench_bytes lm gauss env ks b | _ \<Rightarrow> [])"

lemma chunk_bytes_simps [simp]:
  "chunk_bytes [] = []" "chunk_bytes (xs @ ys) = chunk_bytes xs @ chunk_bytes ys"
  "chunk_bytes (map Chunk cs) = concat cs" "chunk_bytes [RecvTimeout] = []"
  by (simp_all add: chunk_bytes_def comp_def)

lemma poll_bytes_simps [simp]:
  "poll_bytes [] = []" "poll_bytes (xs @ ys) = poll_bytes xs @ poll_bytes ys"
  "poll_bytes (map ReadBytes cs) = concat cs" "poll_bytes [PollTimeout] = []"
  by (simp_all add: poll_bytes_def comp_def)

text \<open>Nothing is lost between two ticks.\<close>

lemma takeWhile_rest:
  assumes "used @ rest = xs @ [t]" "t \<notin> set xs"
  shows "used @ takeWhile (\<lambda>e. e \<noteq> t) rest = xs \<or> used = xs @ [t] \<and> rest = []"
proof (cases rest rule: rev_cases)
  case (snoc ys y)
  with assms have "used @ ys = xs" "y = t" by simp_all
  moreover from this have "takeWhile (\<lambda>e. e \<noteq> t) rest = ys" using assms(2) snoc by (auto simp: takeWhile_append)
  ultimately show ?thesis by simp
qed (use assms in simp)

lemma unheard_rest:
  assumes "unheard evs @ map Chunk cs @ [RecvTimeout] = used @ rest"
  shows "chunk_bytes used @ chunk_bytes (unheard rest) = chunk_bytes (unheard evs) @ concat cs"
proof -
  let ?xs = "unheard evs @ map Chunk cs"
  have "RecvTimeout \<notin> set ?xs" by (auto simp: unheard_def dest: set_takeWhileD)
  moreover have "used @ rest = ?xs @ [RecvTimeout]" using assms by simp
  ultimately have "used @ unheard rest = ?xs \<or> used = ?xs @ [RecvTimeout] \<and> rest = []" unfolding unheard_def by (rule takeWhile_rest [rotated])
  then have "chunk_bytes (used @ unheard rest) = chunk_bytes ?xs"
  proof
    assume "used = ?xs @ [RecvTimeout] \<and> rest = []"
    then show ?thesis by (simp add: unheard_def)
  qed (simp only:)
  then show ?thesis by simp
qed

lemma unread_rest:
  assumes "unread evs @ map ReadBytes cs @ [PollTimeout] = used @ rest"
  shows "poll_bytes used @ poll_bytes (unread rest) = poll_bytes (unread evs) @ concat cs"
proof -
  let ?xs = "unread evs @ map ReadBytes cs"
  have "PollTimeout \<notin> set ?xs" by (auto simp: unread_def dest: set_takeWhileD)
  moreover have "used @ rest = ?xs @ [PollTimeout]" using assms by simp
  ultimately have "used @ unread rest = ?xs \<or> used = ?xs @ [PollTimeout] \<and> rest = []" unfolding unread_def by (rule takeWhile_rest [rotated])
  then have "poll_bytes (used @ unread rest) = poll_bytes ?xs"
  proof
    assume "used = ?xs @ [PollTimeout] \<and> rest = []"
    then show ?thesis by (simp add: unread_def)
  qed (simp only:)
  then show ?thesis by simp
qed

lemma plant_wire_recv:
  assumes "plant_wire gauss env k b = Inr wire"
  shows "plant_wire gauss env k (b\<lparr>bn_recv := e\<rparr>) = Inr wire"
proof -
  obtain fr b1 where t: "tick_sense gauss env k (fmul (flit k 1) CONTROL_PERIOD_S) b = Inr (fr, b1)"
    using assms by (auto simp: plant_wire_def Let_def py_bind_Inr_iff)
  from conjunct1 [OF tick_sense_recv [OF this]] t assms show ?thesis
    by (cases fr) (simp_all add: plant_wire_def Let_def)
qed

section \<open>A joint run is a run of both programs\<close>

lemma closed_tick_both:
  assumes "closed_tick lm gauss env os chop req k (b, p) = Some (go, b', p')" "\<And>bs. concat (chop bs) = bs"
  shows "\<exists>recvs polls wire.
    (\<forall>rest. bench_tick lm gauss env k (b\<lparr>bn_recv := recvs @ rest\<rparr>) = Some (Inr (go, b'\<lparr>bn_recv := rest\<rparr>))) \<and>
    (\<forall>rest sends out. ecu_tick req (os k) (p\<lparr>ep_polls := polls @ rest, ep_sends := SentBytes 19 # sends, ep_sent := out\<rparr>) =
      Some (EcuGo, p'\<lparr>ep_polls := rest, ep_sends := sends, ep_sent := out @ ep_sent p'\<rparr>)) \<and>
    chunk_bytes recvs @ chunk_bytes (unheard (bn_recv b')) = chunk_bytes (unheard (bn_recv b)) @ ep_sent p' \<and>
    poll_bytes polls @ poll_bytes (unread (ep_polls p')) = poll_bytes (unread (ep_polls p)) @ wire \<and>
    (\<forall>e. plant_wire gauss env k (b\<lparr>bn_recv := e\<rparr>) = Inr wire)"
proof -
  from assms(1) obtain wire where w: "plant_wire gauss env k b = Inr wire"
    and e: "ecu_tick req (os k) (p\<lparr>ep_polls := unread (ep_polls p) @ map ReadBytes (chop wire) @ [PollTimeout],
      ep_sends := [SentBytes 19], ep_sent := []\<rparr>) = Some (EcuGo, p')"
    and t: "bench_tick lm gauss env k (b\<lparr>bn_recv := unheard (bn_recv b) @ map Chunk (chop (ep_sent p')) @ [RecvTimeout]\<rparr>) =
      Some (Inr (go, b'))"
    by (auto simp: closed_tick_def split: sum.splits option.splits ecu_flow.splits)
  from conjunct2 [OF ecu_tick_used [OF e]] obtain polls where
    p: "unread (ep_polls p) @ map ReadBytes (chop wire) @ [PollTimeout] = polls @ ep_polls p'"
    "\<And>rest sends out. ecu_tick req (os k) (p\<lparr>ep_polls := polls @ rest, ep_sends := SentBytes 19 # sends, ep_sent := out\<rparr>) =
      Some (EcuGo, p'\<lparr>ep_polls := rest, ep_sends := sends, ep_sent := out @ ep_sent p'\<rparr>)" by blast
  from bench_tick_used [OF t] obtain recvs where
    r: "unheard (bn_recv b) @ map Chunk (chop (ep_sent p')) @ [RecvTimeout] = recvs @ bn_recv b'"
    "\<And>rest. bench_tick lm gauss env k (b\<lparr>bn_recv := recvs @ rest\<rparr>) = Some (Inr (go, b'\<lparr>bn_recv := rest\<rparr>))" by auto
  show ?thesis using r(2) p(2) plant_wire_recv [OF w]
    by (intro exI [of _ recvs] exI [of _ polls] exI [of _ wire]) (use unheard_rest [OF r(1)] unread_rest [OF p(1)] assms(2) in simp)
qed

text \<open>Where no cycle is told to stop, the loop goes through the ticks of the joint run.\<close>

lemma closed_run_both:
  assumes chop: "\<And>bs. concat (chop bs) = bs"
  shows "closed_run lm gauss env os chop req ks (b, p) = Some (b', p') \<Longrightarrow> \<exists>n recvs polls sent. n \<le> length ks \<and>
      (\<forall>rest. bench_loop lm gauss env ks (b\<lparr>bn_recv := recvs @ rest\<rparr>) = Some (Inr (b'\<lparr>bn_recv := rest\<rparr>))) \<and>
      (\<forall>rest sends out ots. (\<forall>k \<in> set ks. \<not> ot_stop (os k)) \<longrightarrow> ecu_loop req 0 (map os (take n ks) @ ots)
          (p\<lparr>ep_polls := polls @ rest, ep_sends := replicate n (SentBytes 19) @ sends, ep_sent := out\<rparr>) =
        ecu_loop req 0 ots (p'\<lparr>ep_polls := rest, ep_sends := sends, ep_sent := out @ sent\<rparr>)) \<and>
      chunk_bytes recvs @ chunk_bytes (unheard (bn_recv b')) = chunk_bytes (unheard (bn_recv b)) @ sent \<and>
      (\<forall>rest. poll_bytes polls @ poll_bytes (unread (ep_polls p')) =
        poll_bytes (unread (ep_polls p)) @ bench_bytes lm gauss env ks (b\<lparr>bn_recv := recvs @ rest\<rparr>))"
proof (induction ks arbitrary: b p)
  case Nil
  then show ?case by (intro exI [of _ 0] exI [of _ "[]"]) simp
next
  case (Cons k ks)
  obtain go b1 p1 where t: "closed_tick lm gauss env os chop req k (b, p) = Some (go, b1, p1)"
    "if go then closed_run lm gauss env os chop req ks (b1, p1) = Some (b', p') else (b', p') = (b1, p1)"
    using Cons.prems by (auto split: option.splits prod.splits if_splits)
  obtain recvs polls wire where
    u: "\<And>rest. bench_tick lm gauss env k (b\<lparr>bn_recv := recvs @ rest\<rparr>) = Some (Inr (go, b1\<lparr>bn_recv := rest\<rparr>))"
      "\<And>rest sends out. ecu_tick req (os k) (p\<lparr>ep_polls := polls @ rest, ep_sends := SentBytes 19 # sends, ep_sent := out\<rparr>) =
        Some (EcuGo, p1\<lparr>ep_polls := rest, ep_sends := sends, ep_sent := out @ ep_sent p1\<rparr>)"
      "chunk_bytes recvs @ chunk_bytes (unheard (bn_recv b1)) = chunk_bytes (unheard (bn_recv b)) @ ep_sent p1"
      "poll_bytes polls @ poll_bytes (unread (ep_polls p1)) = poll_bytes (unread (ep_polls p)) @ wire"
      "\<And>e. plant_wire gauss env k (b\<lparr>bn_recv := e\<rparr>) = Inr wire"
    using closed_tick_both [OF t(1) chop] by blast
  show ?case
  proof (cases go)
    case False
    then show ?thesis using u t(2)
      by (intro exI [of _ 1] exI [of _ recvs] exI [of _ polls] exI [of _ "ep_sent p1"]) simp
  next
    case True
    then have "closed_run lm gauss env os chop req ks (b1, p1) = Some (b', p')" using t(2) by simp
    from Cons.IH [OF this] obtain n recvs' polls' sent where
      i: "n \<le> length ks" "\<And>rest. bench_loop lm gauss env ks (b1\<lparr>bn_recv := recvs' @ rest\<rparr>) = Some (Inr (b'\<lparr>bn_recv := rest\<rparr>))"
      "\<forall>rest sends out ots. (\<forall>k \<in> set ks. \<not> ot_stop (os k)) \<longrightarrow> ecu_loop req 0 (map os (take n ks) @ ots)
          (p1\<lparr>ep_polls := polls' @ rest, ep_sends := replicate n (SentBytes 19) @ sends, ep_sent := out\<rparr>) =
        ecu_loop req 0 ots (p'\<lparr>ep_polls := rest, ep_sends := sends, ep_sent := out @ sent\<rparr>)"
      "chunk_bytes recvs' @ chunk_bytes (unheard (bn_recv b')) = chunk_bytes (unheard (bn_recv b1)) @ sent"
      "\<And>rest. poll_bytes polls' @ poll_bytes (unread (ep_polls p')) =
        poll_bytes (unread (ep_polls p1)) @ bench_bytes lm gauss env ks (b1\<lparr>bn_recv := recvs' @ rest\<rparr>)"
      by blast
    have h: "chunk_bytes (recvs @ recvs') @ chunk_bytes (unheard (bn_recv b')) = chunk_bytes (unheard (bn_recv b)) @ ep_sent p1 @ sent"
      using i(4) u(3) by (metis append.assoc chunk_bytes_simps(2))
    have r: "poll_bytes (polls @ polls') @ poll_bytes (unread (ep_polls p')) =
        poll_bytes (unread (ep_polls p)) @ bench_bytes lm gauss env (k # ks) (b\<lparr>bn_recv := (recvs @ recvs') @ rest\<rparr>)" for rest
    proof -
      have "bench_bytes lm gauss env (k # ks) (b\<lparr>bn_recv := (recvs @ recvs') @ rest\<rparr>) =
          wire @ bench_bytes lm gauss env ks (b1\<lparr>bn_recv := recvs' @ rest\<rparr>)" using u(1,5) True by simp
      then show ?thesis using i(5) [of rest] u(4) by (metis append.assoc poll_bytes_simps(2))
    qed
    show ?thesis using i(1-3) u(1,2) True h r
      by (intro exI [of _ "Suc n"] exI [of _ "recvs @ recvs'"] exI [of _ "polls @ polls'"] exI [of _ "ep_sent p1 @ sent"]) simp
  qed
qed

end
