(* ===== verification/Echo_Client.thy ===== *)
theory Echo_Client
  imports Milestone Both_Programs
begin

unbundle bit_operations_syntax

text \<open>
  \<^verbatim>\<open>controller/tests/ping_client.c\<close>: the client of the milestone test, on the driver of \<open>Ecu_Driver\<close>, and the milestone test
  of \<^verbatim>\<open>milestone_w1.py\<close> run against it.  The clock readings and \<^verbatim>\<open>g_stop\<close> per round are a list; what it prints is left out.
\<close>

section \<open>The client\<close>

record echo_client =
  ec_drv :: socket_drv
  ec_handled :: "32 word"
  ec_polls :: "poll_event list"
  ec_sends :: "send_result list"
  ec_sent :: bytes

definition echo_answer :: "timespec \<Rightarrow> sensor_payload \<Rightarrow> actuator_payload" where
  "echo_answer now s = \<lparr>ap_timestamp_ms = now_ms_mono now, ap_brake_command = sp_v_vehicle s,
     ap_ecu_status = status_code S_MONITOR, ap_dtc_code = C_DTC_NONE\<rparr>"

text \<open>One round of the loop; the flag says whether it goes on.\<close>

definition echo_tick :: "32 word \<Rightarrow> timespec \<Rightarrow> echo_client \<Rightarrow> (bool \<times> echo_client) option" where
  "echo_tick max_frames now c = (case socket_drv_recv_sensor (ec_polls c) (ec_drv c) of
     None \<Rightarrow> None
   | Some (rc, s, drv, polls) \<Rightarrow> let c = c\<lparr>ec_drv := drv, ec_polls := polls\<rparr> in
       if rc = 0 then Some (True, c)
       else if rc < 0 then Some (False, c)
       else map_option (\<lambda>(rc, out, drv, sends).
           let c = c\<lparr>ec_drv := drv, ec_sends := sends, ec_sent := ec_sent c @ out\<rparr> in
           if rc \<noteq> 0 then (False, c)
           else let c = c\<lparr>ec_handled := ec_handled c + 1\<rparr> in
             (\<not> (max_frames \<noteq> 0 \<and> max_frames \<le> ec_handled c), c))
         (socket_drv_send_actuator (ec_sends c) (ec_drv c) (echo_answer now (the s))))"

fun echo_loop :: "32 word \<Rightarrow> (bool \<times> timespec) list \<Rightarrow> echo_client \<Rightarrow> echo_client option" where
  "echo_loop max_frames [] c = None"
| "echo_loop max_frames ((stop, now) # ts) c = (if stop then Some c
     else case echo_tick max_frames now c of
       None \<Rightarrow> None
     | Some (go, c) \<Rightarrow> if go then echo_loop max_frames ts c else Some c)"

text \<open>The exit code and the bytes sent.\<close>

definition echo_main :: "32 word \<Rightarrow> socket_drv option \<Rightarrow> (bool \<times> timespec) list \<Rightarrow> poll_event list \<Rightarrow> send_result list \<Rightarrow>
    (int \<times> bytes) option" where
  "echo_main max_frames conn ts polls sends = (case conn of
     None \<Rightarrow> Some (1, [])
   | Some drv \<Rightarrow> map_option (\<lambda>c. let st = dv_stats (ec_drv c) in
         (if ds_errors_crc st \<noteq> 0 \<or> ds_errors_size st \<noteq> 0 \<or> ds_errors_type st \<noteq> 0 then 1 else 0, ec_sent c))
       (echo_loop max_frames ts \<lparr>ec_drv = drv, ec_handled = 0, ec_polls = polls, ec_sends = sends, ec_sent = []\<rparr>))"

section \<open>The echo is close enough\<close>

lemma f32_close:
  assumes "fwithin 1 16383 x"
  shows "fwithin 1 16384 (f32_round x)" "\<bar>fval (f32_round x) - fval x\<bar> \<le> 1 / 1024"
proof -
  have x: "1 \<le> fval x" "fval x \<le> 16383" using fwithinD [OF assms] by auto
  have "(16384 :: rat) \<le> of_int (2 ^ prec B32 - 1) * 1" by simp
  also have "\<dots> \<le> flim B32" unfolding flim_def
    by (rule mult_left_mono) (use p2_le_iff [of 0 "emax B32"] in simp_all)
  finally have "\<bar>fval x\<bar> \<le> flim B32" using x by simp
  note f = pack_f_finite [OF fwithinD(1,2) [OF assms] this]
  have r: "fval (f32_round x) = rndp B32 (fval x)" using f x by (simp add: rnd_def)
  have "flog2 (fval x) < 14" using x by (intro flog2_less) (simp_all add: p2_nat)
  then have "lsb B32 (fval x) \<le> - 10" by (simp add: lsb_def)
  then have "p2 (lsb B32 (fval x)) \<le> p2 (- 10)" by (simp only: p2_le_iff)
  also have "p2 (- 10) = 1 / 1024" by (simp add: power_int_minus)
  finally show e: "\<bar>fval (f32_round x) - fval x\<bar> \<le> 1 / 1024" using rndp_close [of "fval x" B32] x unfolding r by linarith
  have "1 \<le> fval (f32_round x)"
    using rnd_ge [of 1 "fval x" B32] x repr_of_int [of 1 B32] f by simp
  moreover have "fval (f32_round x) \<le> 16384"
    using rnd_le [of "fval x" 16384 B32] x repr_of_int [of 16384 B32] f by simp
  ultimately show "fwithin 1 16384 (f32_round x)"
    using f pyf_f32_round [OF fwithinD(3) [OF assms]] by (simp add: fwithin_def)
qed

lemma speed_within:
  assumes "0 \<le> i" "i \<le> 8000000"
  shows "fwithin 20 16383 (milestone_speed i)"
proof -
  have i: "fwithin 0 8000000 (flit i 1)" using fwithin_int [of i] assms by (simp add: fwithin_def)
  have k: "fwithin (1/1024) (1/512) (flit 1 1000)"
    using bnd_dyadic [of 1 9] by (intro fwithin_flit) simp_all
  have "fwithin 0 16000 (fmul (flit 1 1000) (flit i 1))" by (rule fwithin_fmul [OF k i]) simp_all
  from fwithin_fadd [OF _ this, of 20 20 "flit 20 1" 20 16383] show ?thesis
    using fwithin_int [of 20] by (simp add: milestone_speed_def)
qed

text \<open>So the rounding of the wire is never taken for a mismatch.\<close>

lemma f32_echo:
  assumes "fwithin 1 16383 x"
  shows "\<not> flt (flit 1 1000) (fabs (fsub (f32_round x) x))"
proof -
  note c = f32_close [OF assms]
  have b: "bnd (1 / 1024)" "bnd (- (1 / 1024))" using bnd_dyadic [of 1 10] by simp_all
  have d: "fwithin (- (1 / 1024)) (1 / 1024) (fsub (f32_round x) x)"
    by (rule fwithin_fsub [OF fwithin_fval [OF c(1)] fwithin_fval [OF assms] _ _ b(2,1)]) (use c(2) in linarith)+
  have a: "fval (fabs (fsub (f32_round x) x)) \<le> 1 / 1024" "is_fin (fabs (fsub (f32_round x) x))"
    unfolding fabs_spec(1) fabs_spec(4) [OF fwithinD(2) [OF d]] using fwithinD(1,4,5) [OF d] by (auto simp only: abs_le_iff)
  have k: "fwithin (1 / 1024) 1 (flit 1 1000)" by (rule fwithin_flit) (use b in simp_all)
  show ?thesis unfolding flt_fin [OF fwithinD(1) [OF k] a(2)] using fwithinD(4) [OF k] a(1) by linarith
qed

lemma echo_accepted:
  assumes "0 \<le> i" "i \<le> 8000000" "af_brake_command a = f32_round (milestone_speed i)"
  shows "\<not> echo_mismatch i a"
  unfolding echo_mismatch_def assms(3) by (rule f32_echo, rule fwithin_weaken [OF speed_within [OF assms(1,2)]]) simp_all

section \<open>The exchange of a frame\<close>

definition milestone_wire :: "milestone_env \<Rightarrow> int \<Rightarrow> bytes py" where
  "milestone_wire env i = py_bind (milestone_frame env i) (\<lambda>s. py_bind (sensor_pack s) (encode_frame TYPE_SENSOR))"

lemma milestone_wire_ok:
  assumes "0 \<le> i" "i \<le> 8000000" "returns (now_ms (me_monotonic env i))"
  obtains s payload wire where "milestone_frame env i = Inr s" "sf_v_vehicle s = milestone_speed i" "sensor_ok s"
    "sensor_pack s = Inr payload" "encode_frame TYPE_SENSOR payload = Inr wire" "milestone_wire env i = Inr wire"
proof -
  note v = speed_within [OF assms(1,2)]
  have r: "fwithin (1/4) (1/2) (flit 30 100)" by (rule fwithin_flit) simp_all
  obtain w where w: "fdiv (milestone_speed i) (flit 30 100) = Inr w" "fwithin 0 65536 w"
    using fwithin_fdiv [OF v r, of 0 65536] by auto
  obtain ms where ms: "now_ms (me_monotonic env i) = Inr ms" using assms(3) by (auto simp: returns_def split: sum.splits)
  let ?s = "\<lparr>sf_timestamp_ms = ms, sf_v_vehicle = milestone_speed i, sf_omega_wheel = w,
    sf_brake_pressure = flit 0 1, sf_fault_flags = 0\<rparr>"
  have b: "fwithin 0 0 (flit 0 1)" using fwithin_int [of 0] by simp
  obtain payload where p: "sensor_pack ?s = Inr payload" "length payload = 18"
    using sensor_pack_within [of ?s] fwithin_weaken [OF v] fwithin_weaken [OF w(2)] fwithin_weaken [OF b] by auto
  have "sensor_ok ?s" using fwithinD(3) [OF v] fwithinD(3) [OF w(2)] fwithinD(3) [OF b] by (simp add: sensor_ok_def)
  moreover have "encode_frame TYPE_SENSOR payload = Inr (frame_bytes 1 payload)" using p(2) by (simp add: encode_frame_eq act_types)
  moreover have "milestone_frame env i = Inr ?s" by (simp add: milestone_frame_def w(1) ms)
  ultimately show thesis using that [of ?s payload] p(1) by (simp add: milestone_wire_def)
qed

text \<open>Both sides between two frames: nothing buffered, no error counted.\<close>

definition echo_idle :: "echo_client \<Rightarrow> bool" where
  "echo_idle c \<longleftrightarrow> dv_rx (ec_drv c) = [] \<and> ds_errors_crc (dv_stats (ec_drv c)) = 0 \<and>
     ds_errors_size (dv_stats (ec_drv c)) = 0 \<and> ds_errors_type (dv_stats (ec_drv c)) = 0"

definition link_idle :: "plant_link \<Rightarrow> bool" where
  "link_idle l \<longleftrightarrow> pl_conn l \<and> dc_buf (pl_decoder l) = [] \<and> dc_errors_crc (pl_decoder l) = 0"

text \<open>A read of exactly one frame in nonempty chunks leaves nothing of it.\<close>

lemma no_empty_rest:
  assumes "map f cs @ evs = used @ rest" "rest = map f ds @ evs" "concat ds = []" "[] \<notin> set cs" "inj f"
  shows "rest = evs"
proof -
  have "map f cs = used @ map f ds" using assms(1,2) by simp
  then have "set (map f ds) \<subseteq> set (map f cs)" by simp
  then have "set ds \<subseteq> set cs" using assms(5) by (simp add: inj_image_subset_iff)
  then have "ds = []" using assms(3,4) by (cases ds) auto
  then show ?thesis using assms(2) by simp
qed

lemma echo_tick_frame:
  assumes "echo_idle c" "sensor_ok s" "sensor_pack s = Inr payload" "encode_frame TYPE_SENSOR payload = Inr wire"
    and "concat cs = wire" "[] \<notin> set cs" "ec_polls c = map ReadBytes cs @ polls" "ec_sends c = SentBytes 19 # sends"
  shows "\<exists>c' a. echo_tick mx now c = Some (\<not> (mx \<noteq> 0 \<and> mx \<le> ec_handled c + 1), c') \<and> echo_idle c' \<and>
    ec_handled c' = ec_handled c + 1 \<and> ec_polls c' = polls \<and> ec_sends c' = sends \<and>
    ec_sent c' = ec_sent c @ actuator_wire_bytes a \<and> canon B32 (ap_brake_command a) \<and>
    widen (ap_brake_command a) = f32_round (sf_v_vehicle s)"
proof -
  have "magic_free []" by (simp add: magic_free_def)
  from python_frame_in_c [OF assms(2-4) this, of cs "ec_drv c" polls] assms(1,5) obtain p drv ds evs where
    r: "socket_drv_recv_sensor (map ReadBytes cs @ polls) (ec_drv c) = Some (1, Some p, drv, evs)"
      "widen (sp_v_vehicle p) = f32_round (sf_v_vehicle s)" "dv_rx drv = []" "ds_errors_crc (dv_stats drv) = 0"
      "ds_errors_size (dv_stats drv) = 0" "ds_errors_type (dv_stats drv) = 0" "canon B32 (sp_v_vehicle p)"
      "evs = map ReadBytes ds @ polls" "concat ds = []"
    by (auto simp: echo_idle_def)
  from socket_recv_used [OF r(1)] obtain used where "map ReadBytes cs @ polls = used @ evs" by blast
  then have e: "evs = polls" using no_empty_rest r(8,9) assms(6) by (metis injI poll_event.inject)
  let ?a = "echo_answer now p"
  have "send_all (SentBytes 19 # sends) (actuator_wire_bytes ?a) = Some (0, actuator_wire_bytes ?a, sends)"
    by (rule send_all_once [OF actuator_wire_length]) simp
  then show ?thesis using r assms(7,8) e
    by (intro exI [of _ "c\<lparr>ec_drv := drv\<lparr>dv_stats := (dv_stats drv)\<lparr>ds_frames_sent_ok := ds_frames_sent_ok (dv_stats drv) + 1\<rparr>\<rparr>,
        ec_polls := polls, ec_sends := sends, ec_sent := ec_sent c @ actuator_wire_bytes ?a, ec_handled := ec_handled c + 1\<rparr>"]
        exI [of _ ?a])
      (simp add: echo_tick_def socket_drv_send_actuator_def Let_def echo_idle_def, simp add: echo_answer_def)
qed

definition latency_ms :: "milestone_env \<Rightarrow> int \<Rightarrow> pyfloat" where
  "latency_ms env i = fmul (fsub (me_t_recv env i) (me_t_send env i)) (flit 1000 1)"

lemma milestone_note_latency:
  "\<not> echo_mismatch i a \<Longrightarrow> ml_latencies (milestone_note env period i a m) = ml_latencies m @ [latency_ms env i]"
  by (simp add: milestone_note_def latency_ms_def Let_def)

lemma milestone_tick_echo:
  assumes "0 \<le> i" "i \<le> 8000000" "returns (now_ms (me_monotonic env i))" "me_send env i = Sent"
    and "link_idle (ml_link m)" "canon B32 (ap_brake_command a)" "widen (ap_brake_command a) = f32_round (milestone_speed i)"
    and "concat cs = actuator_wire_bytes a" "[] \<notin> set cs" "ml_recv m = map Chunk cs @ rest"
  shows "\<exists>m'. milestone_tick env period i m = Some (Inr (None, m')) \<and> link_idle (ml_link m') \<and>
    ls_errors_crc (pl_stats (ml_link m')) = 0 \<and> ml_recv m' = rest \<and> ml_mismatches m' = ml_mismatches m \<and>
    ml_latencies m' = ml_latencies m @ [latency_ms env i]"
proof -
  obtain s payload wire where w: "milestone_frame env i = Inr s" "sensor_pack s = Inr payload"
    "encode_frame TYPE_SENSOR payload = Inr wire" by (rule milestone_wire_ok [OF assms(1-3)])
  let ?l = "count_sent (ml_link m)" and ?a = "as_actuator_frame a"
  have l: "pl_conn ?l" "dc_buf (pl_decoder ?l) = []" "dc_errors_crc (pl_decoder ?l) = 0"
    using assms(5) by (simp_all add: link_idle_def count_sent_def)
  have send: "send_sensor (me_send env i) s (ml_link m) = Inr (wire, ?l)"
    using assms(4,5) w(2,3) by (simp add: send_sensor_def sendall_def link_idle_def)
  have "length (actuator_payload_bytes a) \<le> 64" by (simp add: actuator_payload_bytes_def)
  from recv_encoded_idle [OF l(1,2) this, of cs rest] assms(8) actuator_wire_frame [of a] actuator_payload_pack(2) [OF assms(6)]
  obtain l' ds evs where r: "recv_actuator (ml_recv m) ?l = Some (Inr (Some ?a), l', evs)" "pl_conn l'"
    "pl_decoder l' = pl_decoder ?l" "ls_errors_crc (pl_stats l') = 0" "evs = map Chunk ds @ rest" "concat ds = []"
    using l(3) assms(10) by auto
  from recv_actuator_used [OF r(1)] obtain used where "map Chunk cs @ rest = used @ evs" using assms(10) by auto
  then have e: "evs = rest" using no_empty_rest r(5,6) assms(9) by (metis injI recv_event.inject(1))
  have "\<not> echo_mismatch i ?a" using echo_accepted [OF assms(1,2)] assms(7) by (simp add: as_actuator_frame_def)
  then show ?thesis using w(1) send r(1-4) e l
    by (simp add: milestone_tick_def Let_def milestone_note_latency link_idle_def)
qed

section \<open>The exchange of all frames\<close>

definition echoes :: "int \<Rightarrow> actuator_payload \<Rightarrow> bool" where
  "echoes i a \<longleftrightarrow> canon B32 (ap_brake_command a) \<and> widen (ap_brake_command a) = f32_round (milestone_speed i)"

definition frame_in_scope :: "milestone_env \<Rightarrow> int \<Rightarrow> bool" where
  "frame_in_scope env i \<longleftrightarrow> 0 \<le> i \<and> i \<le> 8000000 \<and> returns (now_ms (me_monotonic env i)) \<and> me_send env i = Sent"

lemma milestone_wires: "\<forall>i \<in> set is. frame_in_scope env i \<Longrightarrow> \<exists>wires. map (milestone_wire env) is = map Inr wires"
proof (induction "is")
  case (Cons i "is")
  then obtain wires where w: "map (milestone_wire env) is = map Inr wires" by auto
  have "0 \<le> i" "i \<le> 8000000" "returns (now_ms (me_monotonic env i))" using Cons.prems by (simp_all add: frame_in_scope_def)
  from milestone_wire_ok [OF this] obtain wire where "milestone_wire env i = Inr wire" by blast
  with w show ?case by (intro exI [of _ "wire # wires"]) simp
qed simp

lemma one_more_frame:
  fixes h mx :: "32 word"
  assumes "unat h + Suc n = unat mx"
  shows "\<not> (mx \<noteq> 0 \<and> mx \<le> h + 1) \<longleftrightarrow> n \<noteq> 0" "unat (h + 1) + n = unat mx"
proof -
  have "unat mx < 2 ^ LENGTH(32)" by (rule unsigned_less)
  then have "unat (h + 1) = unat h + 1" using assms by (subst unat_plus_simple [THEN iffD1]) (simp_all add: no_olen_add_nat)
  then show "\<not> (mx \<noteq> 0 \<and> mx \<le> h + 1) \<longleftrightarrow> n \<noteq> 0" "unat (h + 1) + n = unat mx"
    using assms by (auto simp: word_le_nat_alt)
qed

text \<open>The client answers every frame, and stops after the last.\<close>

lemma echo_client_run:
  assumes "\<And>bs. concat (chop bs) = bs \<and> [] \<notin> set (chop bs)"
  shows "\<forall>i \<in> set is. frame_in_scope env i \<Longrightarrow> map (milestone_wire env) is = map Inr wires \<Longrightarrow> echo_idle c \<Longrightarrow> is \<noteq> [] \<Longrightarrow>
    unat (ec_handled c) + length is = unat mx \<Longrightarrow> ec_polls c = map ReadBytes (concat (map chop wires)) \<Longrightarrow>
    ec_sends c = replicate (length is) (SentBytes 19) \<Longrightarrow>
    \<exists>answers c'. list_all2 echoes is answers \<and> echo_loop mx (map (\<lambda>i. (False, now i)) is) c = Some c' \<and> echo_idle c' \<and>
      ec_sent c' = ec_sent c @ concat (map actuator_wire_bytes answers)"
proof (induction "is" arbitrary: wires c)
  case (Cons i "is")
  have i: "0 \<le> i" "i \<le> 8000000" "returns (now_ms (me_monotonic env i))" using Cons.prems(1) by (simp_all add: frame_in_scope_def)
  obtain s payload wire where w: "sf_v_vehicle s = milestone_speed i" "sensor_ok s" "sensor_pack s = Inr payload"
    "encode_frame TYPE_SENSOR payload = Inr wire" "milestone_wire env i = Inr wire" by (rule milestone_wire_ok [OF i])
  obtain rest where rest: "wires = wire # rest" "map (milestone_wire env) is = map Inr rest"
    using Cons.prems(2) w(5) by (cases wires) auto
  have "concat (chop wire) = wire" "[] \<notin> set (chop wire)" using assms by auto
  from echo_tick_frame [OF Cons.prems(3) w(2-4) this, of "map ReadBytes (concat (map chop rest))" "replicate (length is) (SentBytes 19)" mx "now i"]
  obtain c1 a where t: "echo_tick mx (now i) c = Some (\<not> (mx \<noteq> 0 \<and> mx \<le> ec_handled c + 1), c1)" "echo_idle c1"
    "ec_handled c1 = ec_handled c + 1" "ec_polls c1 = map ReadBytes (concat (map chop rest))"
    "ec_sends c1 = replicate (length is) (SentBytes 19)" "ec_sent c1 = ec_sent c @ actuator_wire_bytes a" "echoes i a"
    using Cons.prems(6,7) rest(1) w(1) by (auto simp: echoes_def)
  have n: "unat (ec_handled c) + Suc (length is) = unat mx" using Cons.prems(5) by simp
  note h = one_more_frame [OF n]
  show ?case
  proof (cases "is = []")
    case True
    then show ?thesis using t(1,2,6,7) h(1) by (intro exI [of _ "[a]"] exI [of _ c1]) simp
  next
    case False
    from Cons.IH [OF _ rest(2) t(2) False _ t(4,5)] Cons.prems(1) h(2) t(3) obtain answers c' where
      "list_all2 echoes is answers" "echo_loop mx (map (\<lambda>i. (False, now i)) is) c1 = Some c'" "echo_idle c'"
      "ec_sent c' = ec_sent c1 @ concat (map actuator_wire_bytes answers)" by auto
    then show ?thesis using t(1,6,7) h(1) False by (intro exI [of _ "a # answers"] exI [of _ c']) simp
  qed
qed simp

text \<open>The script takes every answer.\<close>

lemma milestone_answered:
  assumes "\<And>bs. concat (chop bs) = bs \<and> [] \<notin> set (chop bs)"
  shows "list_all2 echoes is answers \<Longrightarrow> \<forall>i \<in> set is. frame_in_scope env i \<Longrightarrow> link_idle (ml_link m) \<Longrightarrow>
    ls_errors_crc (pl_stats (ml_link m)) = 0 \<Longrightarrow> ml_recv m = map Chunk (concat (map (\<lambda>a. chop (actuator_wire_bytes a)) answers)) \<Longrightarrow>
    \<exists>m'. milestone_loop env period is m = Some (Inr (None, m')) \<and> ls_errors_crc (pl_stats (ml_link m')) = 0 \<and>
      ml_mismatches m' = ml_mismatches m \<and> ml_latencies m' = ml_latencies m @ map (latency_ms env) is"
proof (induction "is" answers arbitrary: m rule: list_all2_induct)
  case (Cons i "is" a answers)
  have i: "0 \<le> i" "i \<le> 8000000" "returns (now_ms (me_monotonic env i))" "me_send env i = Sent"
    using Cons.prems(1) by (simp_all add: frame_in_scope_def)
  have a: "canon B32 (ap_brake_command a)" "widen (ap_brake_command a) = f32_round (milestone_speed i)"
    using Cons.hyps(1) by (simp_all add: echoes_def)
  have c: "concat (chop (actuator_wire_bytes a)) = actuator_wire_bytes a" "[] \<notin> set (chop (actuator_wire_bytes a))"
    using assms by auto
  from milestone_tick_echo [OF i Cons.prems(2) a c, of "map Chunk (concat (map (\<lambda>a. chop (actuator_wire_bytes a)) answers))" period] Cons.prems(4)
  obtain m1 where t: "milestone_tick env period i m = Some (Inr (None, m1))" "link_idle (ml_link m1)"
    "ls_errors_crc (pl_stats (ml_link m1)) = 0" "ml_recv m1 = map Chunk (concat (map (\<lambda>a. chop (actuator_wire_bytes a)) answers))"
    "ml_mismatches m1 = ml_mismatches m" "ml_latencies m1 = ml_latencies m @ [latency_ms env i]" by auto
  from Cons.IH [OF _ t(2-4)] Cons.prems(1) t show ?case by auto
qed auto

section \<open>Properties\<close>

text \<open>What the verdict asks of the \<^verbatim>\<open>statistics\<close> module: on these latencies its functions return, and \<^verbatim>\<open>quantiles\<close> gives
  one cut point less than \<open>n\<close>.\<close>

definition statistics_ok :: "py_statistics \<Rightarrow> pyfloat list \<Rightarrow> bool" where
  "statistics_ok stats xs \<longleftrightarrow> returns (py_fmean stats xs) \<and> returns (py_median stats xs) \<and>
     (\<forall>n \<in> {20, 100}. \<exists>q. py_quantiles stats xs n = Inr q \<and> length q = nat (n - 1))"

lemma milestone_report_mean:
  assumes "statistics_ok stats (ml_latencies m)" "ml_mismatches m = 0" "ls_errors_crc (pl_stats (ml_link m)) = 0"
    and "returns (fdiv (flit frames 1) (fsub (me_t_end env) (me_t_start env)))"
  obtains mean where "py_fmean stats (ml_latencies m) = Inr mean"
    "milestone_report stats env frames max_mean m = Inr (if flt max_mean mean then 1 else 0)"
  using assms
  by (auto simp: statistics_ok_def returns_def milestone_report_def milestone_crit_def py_index_def Let_def split: sum.splits)

text \<open>C7: The milestone test against its real client.  If the connection, the clocks and the writes work and TCP cuts the streams
  into any nonempty chunks, then for up to eight million frames the script and \<^verbatim>\<open>ping_client\<close> (told to handle as
  many) finish together: the client answers the frames that the script has sent, frame by frame, and exits with 0; the script takes all
  the answers, none of which the rounding to a 4-byte float makes a mismatch, and its exit code depends
  on the mean latency alone.\<close>

theorem milestone_with_echo_client:
  assumes "statistics_ok stats (map (latency_ms env) [0..frames - 1])" and "0 < frames" and "frames \<le> 8000000"
    and "\<forall>i \<in> {0..<frames}. returns (now_ms (me_monotonic env i)) \<and> me_send env i = Sent"
    and "returns (fdiv (flit 1 1) rate_hz)" and "returns (fdiv (flit frames 1) (fsub (me_t_end env) (me_t_start env)))"
    and "\<forall>bs. concat (chop bs) = bs \<and> [] \<notin> set (chop bs)"
  shows "\<exists>wires answers mean. map (milestone_wire env) [0..frames - 1] = map Inr wires \<and> length answers = nat frames \<and>
    py_fmean stats (map (latency_ms env) [0..frames - 1]) = Inr mean \<and>
    milestone_run stats env Bound ClientConnected (map Chunk (concat (map chop answers))) frames rate_hz port host max_mean =
      Some (Inr (if flt max_mean mean then 1 else 0)) \<and>
    echo_main (of_int frames) (Some socket_drv_connect) (map (\<lambda>i. (False, now i)) [0..frames - 1])
      (map ReadBytes (concat (map chop wires))) (replicate (nat frames) (SentBytes 19)) = Some (0, concat answers)"
proof -
  let ?is = "[0..frames - 1]"
  have sc: "\<forall>i \<in> set ?is. frame_in_scope env i" using assms(3,4) by (simp add: frame_in_scope_def)
  obtain wires where w: "map (milestone_wire env) ?is = map Inr wires" using milestone_wires [OF sc] by blast
  let ?c = "\<lparr>ec_drv = socket_drv_connect, ec_handled = 0, ec_polls = map ReadBytes (concat (map chop wires)),
    ec_sends = replicate (nat frames) (SentBytes 19), ec_sent = []\<rparr>"
  have mx: "unat (ec_handled ?c) + length ?is = unat (of_int frames :: 32 word)"
    using assms(2,3) by (simp add: unat_eq_nat_uint uint_word_of_int_eq take_bit_int_eq_self)
  have idle: "echo_idle ?c" by (simp add: echo_idle_def socket_drv_connect_def)
  from echo_client_run [OF _ sc w idle _ mx, of chop now] assms(2,7) obtain answers c' where
    e: "list_all2 echoes ?is answers" "echo_loop (of_int frames) (map (\<lambda>i. (False, now i)) ?is) ?c = Some c'" "echo_idle c'"
      "ec_sent c' = concat (map actuator_wire_bytes answers)" by auto
  obtain period where per: "fdiv (flit 1 1) rate_hz = Inr period" using assms(5) by (auto simp: returns_def split: sum.splits)
  let ?m = "\<lparr>ml_link = (PlantLink host port)\<lparr>pl_listener := True, pl_conn := True\<rparr>, ml_latencies = [], ml_mismatches = 0,
    ml_next_tick = me_t_start env, ml_slept = [], ml_recv = map Chunk (concat (map (\<lambda>a. chop (actuator_wire_bytes a)) answers))\<rparr>"
  have l: "link_idle (ml_link ?m)" "ls_errors_crc (pl_stats (ml_link ?m)) = 0"
    by (simp_all add: link_idle_def PlantLink_def FrameDecoder_def LinkStats_def)
  from milestone_answered [OF _ e(1) sc l, of chop period] assms(7) obtain m' where
    m: "milestone_loop env period ?is ?m = Some (Inr (None, m'))" "ls_errors_crc (pl_stats (ml_link m')) = 0"
      "ml_mismatches m' = 0" "ml_latencies m' = map (latency_ms env) ?is" by auto
  obtain mean where mean: "py_fmean stats (ml_latencies m') = Inr mean"
    "milestone_report stats env frames max_mean m' = Inr (if flt max_mean mean then 1 else 0)"
    by (rule milestone_report_mean [of stats m' frames env max_mean]) (use assms(1,6) m in simp_all)
  have run: "milestone_run stats env Bound ClientConnected (map Chunk (concat (map chop (map actuator_wire_bytes answers)))) frames
      rate_hz port host max_mean = Some (Inr (if flt max_mean mean then 1 else 0))"
    using per m(1) mean(2) by (simp add: milestone_run_def link_listen_def link_accept_def PlantLink_def comp_def)
  have main: "echo_main (of_int frames) (Some socket_drv_connect) (map (\<lambda>i. (False, now i)) ?is)
      (map ReadBytes (concat (map chop wires))) (replicate (nat frames) (SentBytes 19)) = Some (0, concat (map actuator_wire_bytes answers))"
    using e(2-4) by (simp add: echo_main_def echo_idle_def Let_def)
  have "length (map actuator_wire_bytes answers) = nat frames" using list_all2_lengthD [OF e(1)] by simp
  then show ?thesis using w run main mean(1) m(4)
    by (intro exI [of _ wires] exI [of _ "map actuator_wire_bytes answers"] exI [of _ mean]) simp
qed

definition constant_statistics :: py_statistics where
  "constant_statistics = \<lparr>py_fmean = (\<lambda>xs. Inr (flit 1 2)), py_median = (\<lambda>xs. Inr (flit 1 2)),
     py_quantiles = (\<lambda>xs n. Inr (replicate (nat (n - 1)) (flit 1 2)))\<rparr>"

definition steady_milestone :: milestone_env where
  "steady_milestone = \<lparr>me_monotonic = (\<lambda>i. f0), me_t_start = f0, me_t_send = (\<lambda>i. f0), me_t_recv = (\<lambda>i. f0),
     me_t_sleep = (\<lambda>i. f0), me_t_end = flit 1 1, me_send = (\<lambda>i. Sent)\<rparr>"

theorem milestone_with_echo_client_witness:
  "\<exists>evs polls sent. milestone_run constant_statistics steady_milestone Bound ClientConnected evs 3 (flit 100 1) 1 ''h'' (flit 1 1) =
      Some (Inr 0) \<and>
    echo_main 3 (Some socket_drv_connect) (map (\<lambda>i. (False, \<lparr>tv_sec = 0, tv_nsec = 0\<rparr>)) [0..2]) polls
      (replicate 3 (SentBytes 19)) = Some (0, sent)"
proof -
  have s: "statistics_ok constant_statistics xs" for xs
    by (simp add: statistics_ok_def constant_statistics_def)
  have one: "fwithin 1 1 (flit 1 1)" "fwithin 100 100 (flit 100 1)" using fwithin_int [of 1] fwithin_int [of 100] by simp_all
  have half: "fwithin 0 (1/2) (flit 1 2)" by (rule fwithin_flit) simp_all
  have d: "fwithin 1 1 (fsub (flit 1 1) f0)" by (rule fwithin_fsub [OF one(1) fwithin_f0]) simp_all
  have "\<not> fzero x" if "fwithin a b x" "0 < a" for a b x
    using fwithinD(4) [OF that(1)] that(2) fzero_fval [OF fwithinD(2) [OF that(1)]] by linarith
  from this [OF one(2)] this [OF d] have c: "returns (fdiv (flit 1 1) (flit 100 1))"
      "returns (fdiv (flit 3 1) (fsub (me_t_end steady_milestone) (me_t_start steady_milestone)))"
    by (simp_all add: fdiv_def returns_def steady_milestone_def)
  have "\<not> fval (flit 1 1) < fval (flit 1 2)" using fwithinD(4) [OF one(1)] fwithinD(5) [OF half] by linarith
  then have lt: "\<not> flt (flit 1 1) (flit 1 2)" using fwithin_flt [OF one(1) half] by blast
  have now: "returns (now_ms f0)" by code_simp
  have u: "\<forall>i \<in> {0..<3}. returns (now_ms (me_monotonic steady_milestone i)) \<and> me_send steady_milestone i = Sent"
    using now by (simp add: steady_milestone_def)
  have "concat (map (\<lambda>b. [b]) bs) = bs" for bs :: bytes by (induction bs) simp_all
  then have chop: "\<forall>bs :: bytes. concat (map (\<lambda>b. [b]) bs) = bs \<and> [] \<notin> set (map (\<lambda>b. [b]) bs)" by auto
  from milestone_with_echo_client [OF s _ _ u c chop,
      where port = 1 and host = "''h''" and max_mean = "flit 1 1" and now = "\<lambda>i. \<lparr>tv_sec = 0, tv_nsec = 0\<rparr>"] lt
  show ?thesis by (auto simp: constant_statistics_def)
qed

end
