(* ===== verification/Comm_Loss.thy ===== *)
theory Comm_Loss
  imports Both_Programs Scenario_Properties
begin

unbundle bit_operations_syntax

text \<open>
  Plant and ECU together while the link loses frames.  The log that the harness keeps of such a run is, entry by
  entry, what the ECU's control computes from reads that fail exactly while a loss is active; what is known of the
  ECU alone (\<open>Ecu_Main_Properties\<close>) therefore holds of the joint run.
\<close>

section \<open>Loss of frames\<close>

definition only_loss :: "fault_injector \<Rightarrow> bool" where
  "only_loss fs \<longleftrightarrow> (\<forall>f \<in> set fs. ft_kind f = CommLossFault)"

definition lost :: "fault_injector \<Rightarrow> int \<Rightarrow> bool" where
  "lost fs k \<longleftrightarrow> (\<exists>f \<in> set fs. is_active f (fmul (flit k 1) CONTROL_PERIOD_S))"

lemma only_loss_Cons [simp]: "only_loss (f # fs) \<longleftrightarrow> ft_kind f = CommLossFault \<and> only_loss fs"
  by (simp add: only_loss_def)

lemma loss_environment: "only_loss fs \<Longrightarrow> apply_environment t fs tire = Inr (tire, fs)"
  by (induction fs) simp_all

lemma loss_wire: "only_loss fs \<Longrightarrow> filter_wire t fs w = Inr (w, fs)"
  by (induction fs) simp_all

lemma loss_sensor:
  "only_loss fs \<Longrightarrow> filter_sensor gauss t fs (Some fr) = (if \<exists>f \<in> set fs. is_active f t then None else Some fr, fs)"
proof (induction fs)
  case (Cons f fs)
  have "filter_sensor gauss t fs None = (None, fs)" by (cases fs) simp_all
  then show ?case using Cons by (auto simp: apply_to_sensor_def comm_loss_apply_def)
qed simp

lemma loss_sense:
  assumes "only_loss (bn_faults b)" "now_ms (be_clock env k) = Inr ms"
  shows "tick_sense gauss env k (fmul (flit k 1) CONTROL_PERIOD_S) b =
    Inr (if lost (bn_faults b) k then None else Some (raw_frame ms b), b)"
  using assms by (simp add: tick_sense_def loss_environment loss_sensor raw_frame_def lost_def Let_def)

section \<open>The ECU reads\<close>

lemma extract_nothing: "dv_rx drv = [] \<Longrightarrow> try_extract_frame drv = (None, drv)"
  by (subst try_extract_frame.simps; cases drv; cases "dv_stats drv") (simp add: extract_step_def count_dropped_def Let_def)

lemma poll_nothing:
  assumes "concat cs = []" "dv_rx drv = []"
  shows "recv_poll (map ReadBytes cs @ PollTimeout # evs) drv = Some (0, None, drv, evs)"
  using assms
proof (induction cs)
  case (Cons c cs)
  have "make_room drv = drv" using Cons.prems by (simp add: make_room_def RX_BUFFER_SIZE_def)
  with Cons show ?case by (simp add: extract_nothing)
qed simp

lemma hal_read_silent:
  assumes "concat cs = []" "hl_drv h = Some drv" "dv_rx drv = []"
  shows "hal_sensors_read (map ReadBytes cs @ [PollTimeout]) now out h =
    Some (- 1, out\<lparr>sd_valid := False\<rparr>, h\<lparr>hl_drv := Some drv, hl_timeouts := hl_timeouts h + 1\<rparr>, [])"
  using assms poll_nothing [of cs drv "[]"]
  by (simp add: hal_sensors_read_def socket_drv_recv_sensor_def extract_nothing)

section \<open>The joint invariant\<close>

text \<open>What the harness logs of the outputs of the ECU's control.\<close>

definition logged :: "(ecu_status_t \<times> dtc \<times> pyfloat) list \<Rightarrow> scenario_result \<Rightarrow> bool" where
  "logged outs r \<longleftrightarrow> sr_state r = map (\<lambda>(mode, d, cmd). uint (status_code mode)) outs \<and>
     sr_dtc r = map (\<lambda>(mode, d, cmd). uint d) outs \<and> sr_brake_cmd r = map (\<lambda>(mode, d, cmd). widen cmd) outs"

definition joint_ok :: "pyfloat \<Rightarrow> fault_injector \<Rightarrow> ecu_read list \<Rightarrow> bench \<times> ecu_process \<Rightarrow> bool" where
  "joint_ok req fs xs = (\<lambda>(b, p). bench_ok (length xs) b \<and> bn_faults b = fs \<and> pl_conn (bn_link b) \<and>
     dc_buf (pl_decoder (bn_link b)) = [] \<and> bn_last_brake b \<in> {f0, widen req} \<and> ecu_ready req p \<and>
     vh_params (bn_veh b) = VehicleParams \<and> heard b \<and> all_read p \<and> ls_actuator_frames_received (pl_stats (bn_link b)) = length xs \<and>
     ep_ecu p = snd (ecu_run req xs ecu_init) \<and> logged (fst (ecu_run req xs ecu_init)) (bn_result b))"

text \<open>The wire of a tick, and how the harness gets to the receive.\<close>

lemma loss_wire_of_tick:
  assumes "bench_ok n b" "bn_last_brake b \<in> {f0, widen req}" "canon B32 req" "only_loss (bn_faults b)" "undisturbed env os k"
  obtains ms wire b1 where "plant_wire gauss env k b = Inr wire" "lost (bn_faults b) k \<Longrightarrow> wire = []"
    "\<not> lost (bn_faults b) k \<Longrightarrow> \<exists>payload. sensor_ok (raw_frame ms b) \<and> sensor_pack (raw_frame ms b) = Inr payload \<and>
      encode_frame TYPE_SENSOR payload = Inr wire"
    "\<And>evs. py_bind (tick_sense gauss env k (fmul (flit k 1) CONTROL_PERIOD_S) (b\<lparr>bn_recv := evs\<rparr>))
      (\<lambda>(fr, b). tick_send env k (fmul (flit k 1) CONTROL_PERIOD_S) fr b) = Inr (True, b1\<lparr>bn_recv := evs\<rparr>)"
    "\<exists>link \<in> {bn_link b, count_sent (bn_link b)}. b1 = b\<lparr>bn_link := link\<rparr>"
proof -
  let ?t = "fmul (flit k 1) CONTROL_PERIOD_S"
  have e: "be_send env k = Sent" using assms(5) by (simp add: undisturbed_def)
  obtain ms where ms: "now_ms (be_clock env k) = Inr ms"
    using assms(5) by (auto simp: undisturbed_def returns_def split: sum.splits)
  obtain y where y: "canon B32 y" "bn_last_brake b = widen y" using brake_source [OF assms(2,3)] .
  from raw_frame_packs [OF assms(1) y] obtain payload where
    p: "sensor_pack (raw_frame ms b) = Inr payload" "sensor_ok (raw_frame ms b)" by blast
  have "length payload = 18" using sensor_pack_size [OF p(2,1)] by (simp add: SENSOR_SIZE_def)
  then have enc: "encode_frame TYPE_SENSOR payload = Inr (frame_bytes 1 payload)" by (simp add: encode_frame_eq act_types)
  have sense: "tick_sense gauss env k ?t (b\<lparr>bn_recv := evs\<rparr>) =
      Inr (if lost (bn_faults b) k then None else Some (raw_frame ms b), b\<lparr>bn_recv := evs\<rparr>)" for evs
    using loss_sense [of "b\<lparr>bn_recv := evs\<rparr>" env k ms gauss] assms(4) ms by (simp add: raw_frame_def)
  have sense0: "tick_sense gauss env k ?t b = Inr (if lost (bn_faults b) k then None else Some (raw_frame ms b), b)"
    using loss_sense [OF assms(4) ms] .
  show thesis
  proof (cases "lost (bn_faults b) k")
    case True
    then show thesis using sense0 sense
      by (intro that [of "[]" ms b]) (simp_all add: plant_wire_def Let_def tick_send_def)
  next
    case False
    then show thesis using sense0 sense p enc e loss_wire [OF assms(4)]
      by (intro that [of "frame_bytes 1 payload" ms "b\<lparr>bn_link := count_sent (bn_link b)\<rparr>"])
        (simp_all add: plant_wire_def Let_def tick_send_def sendall_def)
  qed
qed

text \<open>What the ECU does in a tick.\<close>

lemma ecu_tick_loss:
  assumes "ecu_ready req p" "\<not> ot_sleep_failed ot" "concat cs = wire"
    and "lost fs k \<Longrightarrow> wire = []"
    and "\<not> lost fs k \<Longrightarrow> \<exists>payload. sensor_ok s \<and> sensor_pack s = Inr payload \<and> encode_frame TYPE_SENSOR payload = Inr wire"
  shows "\<exists>p' r cur mode d cmd now. ecu_tick req ot (p\<lparr>ep_polls := map ReadBytes cs @ [PollTimeout],
      ep_sends := [SentBytes 19], ep_sent := []\<rparr>) = Some (EcuGo, p') \<and> ecu_ready req p' \<and> (r = 0 \<longleftrightarrow> \<not> lost fs k) \<and>
    ecu_control req r cur 0 (ep_ecu p) = ((mode, d, cmd), ep_ecu p') \<and> cmd \<in> {clit 0 1, req} \<and> all_read p' \<and>
    ep_sent p' = actuator_wire_bytes \<lparr>ap_timestamp_ms = now, ap_brake_command = cmd,
      ap_ecu_status = status_code mode, ap_dtc_code = d\<rparr>"
proof -
  obtain drv where h: "hl_drv (ep_hal p) = Some drv" "dv_rx drv = []" "ds_errors_crc (dv_stats drv) = 0" "ha_initialised (ep_hal p)"
    using assms(1) by (auto simp: ecu_ready_def split: option.splits)
  let ?now = "now_ms_mono (ot_rx_time ot)" and ?evs = "map ReadBytes cs @ [PollTimeout]"
  have "\<exists>r cur h1 drv1 evs1. hal_sensors_read ?evs ?now (eu_cur (ep_ecu p)) (ep_hal p) = Some (r, cur, h1, evs1) \<and>
    (r = 0 \<longleftrightarrow> \<not> lost fs k) \<and> hl_drv h1 = Some drv1 \<and> dv_rx drv1 = [] \<and> ds_errors_crc (dv_stats drv1) = 0 \<and> ha_initialised h1 \<and>
    (\<exists>ds. evs1 = [] \<or> evs1 = map ReadBytes ds @ [PollTimeout] \<and> concat ds = [])"
  proof (cases "lost fs k")
    case True
    then have "concat cs = []" using assms(3,4) by simp
    from hal_read_silent [OF this h(1,2)] show ?thesis using True h by simp
  next
    case False
    then obtain payload where "sensor_ok s" "sensor_pack s = Inr payload" "encode_frame TYPE_SENSOR payload = Inr wire"
      using assms(5) by blast
    from hal_read_frame [OF this assms(3) h(1,2), of "[PollTimeout]" ?now "eu_cur (ep_ecu p)"] show ?thesis
      using False h by auto
  qed
  then obtain r cur h1 drv1 evs1 where
    rd: "hal_sensors_read ?evs ?now (eu_cur (ep_ecu p)) (ep_hal p) = Some (r, cur, h1, evs1)" "r = 0 \<longleftrightarrow> \<not> lost fs k"
      "hl_drv h1 = Some drv1" "dv_rx drv1 = []" "ds_errors_crc (dv_stats drv1) = 0" "ha_initialised h1"
      "\<exists>ds. evs1 = [] \<or> evs1 = map ReadBytes ds @ [PollTimeout] \<and> concat ds = []" by blast
  obtain mode d cmd e where c: "ecu_control req r cur 0 (ep_ecu p) = ((mode, d, cmd), e)" by (metis prod.exhaust)
  have ra: "all_read p'" if "ep_polls p' = evs1" for p'
    using rd(7) that all_readI [of p'] by (auto simp: all_read_def unread_def)
  from ecu_tick_read [OF assms(1,2) rd(1,3-6) c] obtain p' where
    "ecu_tick req ot (p\<lparr>ep_polls := ?evs, ep_sends := [SentBytes 19], ep_sent := []\<rparr>) = Some (EcuGo, p')"
    "ecu_ready req p'" "ep_ecu p' = e" "cmd \<in> {clit 0 1, req}" "ep_polls p' = evs1"
    "ep_sent p' = actuator_wire_bytes \<lparr>ap_timestamp_ms = now_ms_mono (ot_tx_time ot), ap_brake_command = cmd,
      ap_ecu_status = status_code mode, ap_dtc_code = d\<rparr>" by blast
  with rd(2) c ra [of p'] show ?thesis by blast
qed

lemma joint_tick:
  assumes lm: "libm_ok lm" and ok: "joint_ok req fs xs (b, p)" and fs: "only_loss fs" and u: "undisturbed env os k"
    and req: "canon B32 req" "widen req \<noteq> NaN" and chop: "\<And>bs. concat (chop bs) = bs"
  shows "\<exists>b' p' x. closed_tick lm gauss env os chop req k (b, p) = Some (\<not> stopped (bn_veh b'), b', p') \<and>
    joint_ok req fs (xs @ [x]) (b', p') \<and> (fst x = 0 \<longleftrightarrow> \<not> lost fs k) \<and> snd (snd x) = 0 \<and>
    (\<forall>j. fwithin (of_int j / 1024) 128 (vs_v (vh_state (bn_veh b))) \<and> 1134 \<le> j \<and> j < 2 ^ 53 \<longrightarrow>
      fwithin (of_int (j - 110) / 1024) 128 (vs_v (vh_state (bn_veh b'))))"
proof -
  let ?t = "fmul (flit k 1) CONTROL_PERIOD_S"
  have b: "bench_ok (length xs) b" "bn_faults b = fs" "pl_conn (bn_link b)" "dc_buf (pl_decoder (bn_link b)) = []"
    "bn_last_brake b \<in> {f0, widen req}" "ecu_ready req p" "ls_actuator_frames_received (pl_stats (bn_link b)) = length xs"
    "ep_ecu p = snd (ecu_run req xs ecu_init)" "logged (fst (ecu_run req xs ecu_init)) (bn_result b)"
    "vh_params (bn_veh b) = VehicleParams"
    using ok by (simp_all add: joint_ok_def)
  obtain es where es: "unheard (bn_recv b) = map Chunk es" "concat es = []" using ok by (auto simp: joint_ok_def heard_def)
  obtain rs where rs: "unread (ep_polls p) = map ReadBytes rs" "concat rs = []" using ok by (auto simp: joint_ok_def all_read_def)
  have sl: "\<not> ot_sleep_failed (os k)" using u by (simp add: undisturbed_def)
  obtain ms wire b1 where w: "plant_wire gauss env k b = Inr wire" "lost fs k \<Longrightarrow> wire = []"
    "\<not> lost fs k \<Longrightarrow> \<exists>payload. sensor_ok (raw_frame ms b) \<and> sensor_pack (raw_frame ms b) = Inr payload \<and>
      encode_frame TYPE_SENSOR payload = Inr wire"
    and send: "\<And>evs. py_bind (tick_sense gauss env k ?t (b\<lparr>bn_recv := evs\<rparr>)) (\<lambda>(fr, b). tick_send env k ?t fr b) =
      Inr (True, b1\<lparr>bn_recv := evs\<rparr>)"
    and b1: "\<exists>link \<in> {bn_link b, count_sent (bn_link b)}. b1 = b\<lparr>bn_link := link\<rparr>"
    by (rule loss_wire_of_tick [OF b(1,5) req(1) _ u]) (use fs b(2) in blast)+
  have "concat (rs @ chop wire) = wire" using rs(2) chop by (simp only: concat_append append_Nil)
  from ecu_tick_loss [OF b(6) sl this w(2,3)] obtain p' r cur mode d cmd now where
    p: "ecu_tick req (os k) (p\<lparr>ep_polls := map ReadBytes (rs @ chop wire) @ [PollTimeout],
        ep_sends := [SentBytes 19], ep_sent := []\<rparr>) = Some (EcuGo, p')" "ecu_ready req p'" "r = 0 \<longleftrightarrow> \<not> lost fs k"
      "ecu_control req r cur 0 (ep_ecu p) = ((mode, d, cmd), ep_ecu p')" "cmd \<in> {clit 0 1, req}"
      "ep_sent p' = actuator_wire_bytes \<lparr>ap_timestamp_ms = now, ap_brake_command = cmd,
        ap_ecu_status = status_code mode, ap_dtc_code = d\<rparr>" "all_read p'" by blast
  let ?a = "\<lparr>ap_timestamp_ms = now, ap_brake_command = cmd, ap_ecu_status = status_code mode, ap_dtc_code = d\<rparr>"
  let ?evs = "map Chunk (es @ chop (ep_sent p')) @ [RecvTimeout]"
  let ?b1 = "b1\<lparr>bn_recv := ?evs\<rparr>"
  have can: "canon B32 (ap_brake_command ?a)" using p(5) req(1) clit_eval(2) by auto
  have l1: "pl_conn (bn_link ?b1)" "dc_buf (pl_decoder (bn_link ?b1)) = []"
    "ls_actuator_frames_received (pl_stats (bn_link ?b1)) = length xs" "bench_ok (length xs) ?b1"
    "bn_result ?b1 = bn_result b" "bn_faults ?b1 = fs"
    using b1 b by (auto simp: count_sent_def bench_ok_def)
  have "concat (es @ chop (ep_sent p')) = actuator_wire_bytes ?a" using es(2) chop p(6) by (simp only: concat_append append_Nil)
  from harness_receives [OF l1(1,2) can _ this, of "[RecvTimeout]" env k] obtain b2 where
    rc: "tick_receive env k ?b1 = Some (Inr (as_actuator_frame ?a, b2))" "pl_conn (bn_link b2)"
      "dc_buf (pl_decoder (bn_link b2)) = []" "ls_actuator_frames_received (pl_stats (bn_link b2)) = Suc (length xs)"
      "\<exists>ds. bn_recv b2 = map Chunk ds @ [RecvTimeout] \<and> concat ds = []"
    using l1(3) by auto
  have cmd: "af_brake_command (as_actuator_frame ?a) \<in> {f0, widen req}" using p(5) clit_eval(1) by (auto simp: as_actuator_frame_def)
  then have "af_brake_command (as_actuator_frame ?a) \<noteq> NaN" using req(2) by auto
  note r2 = tick_receive_ok [OF rc(1) l1(4)]
  have ok2: "bench_ok (length xs) b2" using r2 \<open>af_brake_command (as_actuator_frame ?a) \<noteq> NaN\<close> by blast
  from tick_plant_ok [OF lm ok2, of ?t "as_actuator_frame ?a"] obtain b' where
    q: "tick_plant lm ?t (as_actuator_frame ?a) b2 = Inr b'" "bench_ok (Suc (length xs)) b'"
      "sr_brake_cmd (bn_result b') = sr_brake_cmd (bn_result b2) @ [af_brake_command (as_actuator_frame ?a)]"
      "sr_state (bn_result b') = sr_state (bn_result b2) @ [af_ecu_status (as_actuator_frame ?a)]"
      "sr_dtc (bn_result b') = sr_dtc (bn_result b2) @ [af_dtc_code (as_actuator_frame ?a)]"
      "bn_last_brake b' = bn_last_brake b2" by blast
  have q2: "bn_link b' = bn_link b2" "bn_faults b' = bn_faults b2" "plant_steps lm 10 (bn_last_brake b2) (bn_veh b2) = Inr (bn_veh b')"
    "bn_recv b' = bn_recv b2"
    using q(1) by (auto simp: tick_plant_def py_bind_Inr_iff steps_per_tick)
  have hb: "heard b'" using rc(5) q2(4) heardI by metis
  have v2: "bn_veh b2 = bn_veh b" "vehicle_ok (bn_veh b2)" "pyf (bn_last_brake b2)" "bn_last_brake b2 \<noteq> NaN"
    using r2 b1 ok2 by (auto simp: bench_ok_def)
  have params: "vh_params (bn_veh b') = VehicleParams"
    using plant_steps_ok [OF lm v2(2-4), of 10] q2(3) v2(1) b(10) by auto
  have slow: "\<forall>j. fwithin (of_int j / 1024) 128 (vs_v (vh_state (bn_veh b))) \<and> 1134 \<le> j \<and> j < 2 ^ 53 \<longrightarrow>
      fwithin (of_int (j - 110) / 1024) 128 (vs_v (vh_state (bn_veh b')))"
    using plant_steps_decel [OF lm v2(3,4,2) _ _ _ _ q2(3)] v2(1) b(10) by auto
  have "bench_tick lm gauss env k (b\<lparr>bn_recv := ?evs\<rparr>) = Some (Inr (\<not> stopped (bn_veh b'), b'))"
    using rc(1) q(1) by (simp add: bench_tick_def Let_def send)
  then have t: "closed_tick lm gauss env os chop req k (b, p) = Some (\<not> stopped (bn_veh b'), b', p')"
    using w(1) p(1) es rs by (simp add: closed_tick_def)
  have run: "ecu_run req (xs @ [(r, cur, 0)]) ecu_init = (fst (ecu_run req xs ecu_init) @ [(mode, d, cmd)], ep_ecu p')"
    using p(4) b(8) by (simp add: ecu_run_append)
  have "logged (fst (ecu_run req (xs @ [(r, cur, 0)]) ecu_init)) (bn_result b')"
    using q(3-5) r2 l1(5) b(9) unfolding run by (simp add: logged_def as_actuator_frame_def)
  then have "joint_ok req fs (xs @ [(r, cur, 0)]) (b', p')"
    using q q2 rc r2 l1(6) cmd p(2,7) params hb by (auto simp: joint_ok_def run as_actuator_frame_def)
  then show ?thesis using t p(3) slow by (intro exI [of _ b'] exI [of _ p'] exI [of _ "(r, cur, 0)"]) simp
qed

text \<open>The reads of a stretch of ticks.\<close>

definition reads_of :: "fault_injector \<Rightarrow> int list \<Rightarrow> ecu_read list \<Rightarrow> bool" where
  "reads_of fs ks ys \<longleftrightarrow> length ys \<le> length ks \<and>
     (\<forall>i < length ys. (fst (ys ! i) = 0 \<longleftrightarrow> \<not> lost fs (ks ! i)) \<and> snd (snd (ys ! i)) = 0)"

text \<open>Fast enough not to stop within \<open>N\<close> ticks: a tick takes at most 110/1024 m/s.\<close>

definition moving :: "nat \<Rightarrow> bench \<Rightarrow> bool" where
  "moving N b \<longleftrightarrow> fwithin (of_int (1024 + 110 * int N) / 1024) 128 (vs_v (vh_state (bn_veh b)))"

lemma joint_run:
  assumes lm: "libm_ok lm" and fs: "only_loss fs" and u: "\<forall>k \<in> set ks. undisturbed env os k"
    and req: "canon B32 req" "widen req \<noteq> NaN" and chop: "\<And>bs. concat (chop bs) = bs"
  shows "joint_ok req fs xs (b, p) \<Longrightarrow> \<exists>b' p' ys. closed_run lm gauss env os chop req ks (b, p) = Some (b', p') \<and>
    joint_ok req fs (xs @ ys) (b', p') \<and> reads_of fs ks ys \<and> (length ys < length ks \<longrightarrow> stopped (bn_veh b')) \<and>
    (\<forall>N. moving N b \<and> N < 2 ^ 32 \<longrightarrow> min N (length ks) \<le> length ys)"
  using u
proof (induction ks arbitrary: xs b p)
  case Nil
  then show ?case by (intro exI [of _ b] exI [of _ p] exI [of _ "[]"]) (simp add: reads_of_def)
next
  case (Cons k ks)
  have "undisturbed env os k" using Cons.prems(2) by simp
  from joint_tick [OF lm Cons.prems(1) fs this req chop] obtain b1 p1 x where
    t: "closed_tick lm gauss env os chop req k (b, p) = Some (\<not> stopped (bn_veh b1), b1, p1)"
      "joint_ok req fs (xs @ [x]) (b1, p1)" "fst x = 0 \<longleftrightarrow> \<not> lost fs k" "snd (snd x) = 0"
    and slow: "\<forall>j. fwithin (of_int j / 1024) 128 (vs_v (vh_state (bn_veh b))) \<and> 1134 \<le> j \<and> j < 2 ^ 53 \<longrightarrow>
      fwithin (of_int (j - 110) / 1024) 128 (vs_v (vh_state (bn_veh b1)))" by blast
  have speed: "moving N b1"
    if "moving (Suc N) b" "Suc N < 2 ^ 32" for N
  proof -
    have e: "1024 + 110 * int (Suc N) - 110 = 1024 + 110 * int N" by simp
    have "1134 \<le> 1024 + 110 * int (Suc N)" "1024 + 110 * int (Suc N) < 2 ^ 53" using that(2) by simp_all
    then show ?thesis using slow that(1) e unfolding moving_def by metis
  qed
  show ?case
  proof (cases "stopped (bn_veh b1)")
    case True
    have "N \<le> 1" if "moving N b" "N < 2 ^ 32" for N
    proof (cases N)
      case (Suc M)
      then have w: "fwithin (of_int (1024 + 110 * int M) / 1024) 128 (vs_v (vh_state (bn_veh b1)))"
        using speed that unfolding moving_def [symmetric] by simp
      have "1 \<le> (of_int (1024 + 110 * int M) :: rat) / 1024" by simp
      then have "\<not> stopped (bn_veh b1)"
        using fwithin_flt [OF w ms_within] fwithinD(4) [OF w] fwithinD(5) [OF ms_within] by (auto simp: stopped_def)
      with True show ?thesis by simp
    qed simp
    then have "\<forall>N. moving N b \<and> N < 2 ^ 32 \<longrightarrow> min N (length (k # ks)) \<le> length [x]" by fastforce
    moreover have "reads_of fs (k # ks) [x]" using t(3,4) by (simp add: reads_of_def)
    ultimately show ?thesis using t(1,2) True by (intro exI [of _ b1] exI [of _ p1] exI [of _ "[x]"]) simp
  next
    case False
    from Cons.IH [OF t(2)] Cons.prems(2) obtain b' p' ys where
      r: "closed_run lm gauss env os chop req ks (b1, p1) = Some (b', p')" "joint_ok req fs ((xs @ [x]) @ ys) (b', p')"
        "reads_of fs ks ys" "length ys < length ks \<longrightarrow> stopped (bn_veh b')"
      and mv: "\<forall>N. moving N b1 \<and> N < 2 ^ 32 \<longrightarrow> min N (length ks) \<le> length ys"
      by auto
    have "reads_of fs (k # ks) (x # ys)" using r(3) t(3,4) by (auto simp: reads_of_def nth_Cons')
    moreover have "min N (length (k # ks)) \<le> length (x # ys)"
      if "moving N b" "N < 2 ^ 32" for N
      using speed [of "N - 1"] mv [rule_format, of "N - 1"] that by (cases N) auto
    ultimately show ?thesis using t(1) r(1,2,4) False
      by (intro exI [of _ b'] exI [of _ p'] exI [of _ "x # ys"]) simp
  qed
qed

lemma joint_start:
  assumes "fwithin 0 128 v0" "PacejkaTire surface = Inr tire" "Vehicle VehicleParams tire v0 = Inr veh"
  shows "joint_ok req fs [] (loop_start veh fs cfg)"
proof -
  have "ecu_ready req idle_process"
    by (simp add: ecu_ready_def idle_process_def hal_sensors_init_def hal_actuators_init_def hal_reset_def socket_drv_connect_def
        ecu_init_def c_holds_def abs_controller_init_def diagnostic_init_def)
  moreover have "ls_actuator_frames_received (pl_stats fresh_link) = 0" by (simp add: fresh_link_def PlantLink_def LinkStats_def)
  moreover have "ep_ecu idle_process = ecu_init" by (simp add: idle_process_def)
  moreover have "all_read idle_process" by (simp add: all_read_def unread_def idle_process_def)
  moreover have "vh_params veh = VehicleParams" using Vehicle_ok [OF assms(2,1)] assms(3) by auto
  ultimately show ?thesis using start_ok [OF assms(2,1,3)]
    by (simp add: joint_ok_def loop_start_def logged_def ScenarioResult_def heard_def unheard_def)
qed

section \<open>What the log shows\<close>

lemma logged_nth:
  assumes "logged outs r" "i < length outs" "outs ! i = (mode, d, cmd)"
  shows "sr_state r ! i = uint (status_code mode)" "sr_dtc r ! i = uint d" "sr_brake_cmd r ! i = widen cmd"
  using assms by (simp_all add: logged_def)

lemma timeout_bit: "bit d 2 \<Longrightarrow> uint d AND DTC_COMM_TIMEOUT \<noteq> 0" for d :: dtc
  using and_exp_eq_0_iff_not_bit [of "uint d" 2] unfolding DTC_COMM_TIMEOUT_def push_bit_eq_mult mult_1 bit_uint_iff by simp

lemma fault_codes: "uint (status_code S_FAULT_DEGRADED) = ECU_FAULT_DEGRADED" "uint (status_code S_FAULT_LATCHED) = ECU_FAULT_LATCHED"
  by (simp_all add: ECU_FAULT_DEGRADED_def ECU_FAULT_LATCHED_def)

lemma undisturbed_still: "undisturbed still_env (\<lambda>k. first_tick) k"
proof -
  have "be_send still_env k = Sent" by (simp add: still_env_def)
  moreover have "\<not> ot_sleep_failed first_tick" by (simp add: first_tick_def)
  ultimately show ?thesis unfolding undisturbed_def returns_def still_env_clock by simp
qed

text \<open>The invariant of safety from the start of a run.\<close>

lemma closed_start_safe:
  assumes "libm_ok lm" and "fwithin 0 128 v0" and "PacejkaTire surface = Inr tire" and "Vehicle VehicleParams tire v0 = Inr veh"
    and "canon B32 req" and "widen req \<noteq> NaN" and "\<forall>bs. concat (chop bs) = bs"
    and "closed_run lm gauss env os chop req ks (loop_start veh injector cfg) = Some (b, p)"
  shows "\<exists>m \<le> length ks. loop_safe req m (b, p)"
proof -
  have "c_holds req (eu_cc (ep_ecu idle_process))" by (simp add: idle_process_def ecu_init_def c_holds_def abs_controller_init_def)
  then have "loop_safe req 0 (loop_start veh injector cfg)"
    using start_ok [OF assms(3,2,4)] by (simp add: loop_safe_def loop_start_def ScenarioResult_def)
  from closed_run_safe [OF assms(1,5,6) _ this [unfolded loop_start_def] _ assms(8) [unfolded loop_start_def]] assms(7)
  show ?thesis by (auto simp: heard_def unheard_def)
qed

section \<open>Properties\<close>

text \<open>A loss of fifteen ticks from tick \<open>j\<close> on, seen in the log.\<close>

lemma loss_in_log:
  assumes "logged (fst (ecu_run req ys ecu_init)) r" "reads_of fs ks ys" "length ks < 2 ^ 32"
    and lost: "\<forall>i < length ks. j \<le> i \<and> i < j + 15 \<longrightarrow> lost fs (ks ! i)"
    and i: "i < length ys" "j + 5 \<le> i"
  shows "i < j + 15 \<Longrightarrow> sr_dtc r ! i AND DTC_COMM_TIMEOUT \<noteq> 0 \<and> sr_state r ! i \<in> {ECU_FAULT_DEGRADED, ECU_FAULT_LATCHED}"
    "j + 14 \<le> i \<Longrightarrow> sr_state r ! i = ECU_FAULT_LATCHED" "sr_brake_cmd r ! i = widen req"
proof -
  obtain mode d cmd where o: "fst (ecu_run req ys ecu_init) ! i = (mode, d, cmd)" by (metis prod.exhaust)
  have last: "last (fst (ecu_run req (take (Suc i) ys) ecu_init)) = (mode, d, cmd)" using run_outs [OF i(1)] o by metis
  have "i < length (fst (ecu_run req ys ecu_init))" using i(1) by simp
  note log = logged_nth [OF assms(1) this o]
  have n: "length ys \<le> length ks" using assms(2) by (simp add: reads_of_def)
  have failed: "failed (take m (drop j ys))" if "m \<le> 15" for m
  proof -
    have nz: "fst (ys ! l) \<noteq> 0" if "j \<le> l" "l < j + m" "l < length ys" for l
      using assms(2) lost that \<open>m \<le> 15\<close> n by (auto simp: reads_of_def)
    have "fst x \<noteq> 0" if x: "x \<in> set (take m (drop j ys))" for x
    proof -
      from x obtain l where "l < length ys - j" "l < m" "x = ys ! (j + l)" by (auto simp: in_set_conv_nth)
      then show ?thesis using nz [of "j + l"] by simp
    qed
    then show ?thesis by (fastforce simp: failed_def)
  qed
  have A: "bit d 2 \<and> mode \<in> {S_FAULT_DEGRADED, S_FAULT_LATCHED} \<and> cmd = req" if "i < j + 15"
  proof -
    let ?m = "Suc i - j"
    have "take (Suc i) ys = take j ys @ take ?m (drop j ys)" using i(2) by (metis le_add_diff_inverse le_SucI add_leD1 take_add)
    moreover have "failed (take ?m (drop j ys))" by (rule failed) (use that in simp)
    moreover have "6 \<le> length (take ?m (drop j ys))" using i by simp
    moreover have "length (take j ys) + length (take ?m (drop j ys)) < 2 ^ 32" using n assms(3) i by simp
    ultimately show ?thesis using failed_last last by metis
  qed
  have B: "mode = S_FAULT_LATCHED \<and> cmd = req" if "j + 14 \<le> i"
  proof -
    have "take (Suc i) ys = take j ys @ take 15 (drop j ys) @ drop (j + 15) (take (Suc i) ys)"
      using append_take_drop_id [of "j + 15" "take (Suc i) ys"] that by (simp add: take_add min_def del: append_take_drop_id)
    moreover have "failed (take 15 (drop j ys))" by (rule failed) simp
    moreover have "15 \<le> length (take 15 (drop j ys))" using that i by simp
    moreover have "length (take (Suc i) ys) < 2 ^ 32" using n assms(3) by simp
    ultimately show ?thesis using failed_latched last by metis
  qed
  have codes: "mode = S_FAULT_DEGRADED \<Longrightarrow> sr_state r ! i = ECU_FAULT_DEGRADED" "mode = S_FAULT_LATCHED \<Longrightarrow> sr_state r ! i = ECU_FAULT_LATCHED"
    using log(1) fault_codes by metis+
  show "i < j + 15 \<Longrightarrow> sr_dtc r ! i AND DTC_COMM_TIMEOUT \<noteq> 0 \<and> sr_state r ! i \<in> {ECU_FAULT_DEGRADED, ECU_FAULT_LATCHED}"
    using A codes timeout_bit [of d] unfolding log(2) by blast
  show "j + 14 \<le> i \<Longrightarrow> sr_state r ! i = ECU_FAULT_LATCHED" using B codes by blast
  show "sr_brake_cmd r ! i = widen req" using A B log(3) by (cases "i < j + 15") auto
qed

section \<open>Joint runs under losses\<close>

text \<open>The start of a joint run under losses.\<close>

lemma loss_run:
  assumes "libm_ok lm" and "fwithin 0 128 v0" and "PacejkaTire surface = Inr tire" and "Vehicle VehicleParams tire v0 = Inr veh"
    and "canon B32 req" and "widen req \<noteq> NaN" and "\<forall>bs. concat (chop bs) = bs"
    and "\<forall>k \<in> set ks. be_send env k = Sent \<and> returns (now_ms (be_clock env k)) \<and> \<not> ot_sleep_failed (os k)"
    and "only_loss fs"
  obtains b p ys where "closed_run lm gauss env os chop req ks (loop_start veh fs cfg) = Some (b, p)"
    "bench_ok (length ys) b" "logged (fst (ecu_run req ys ecu_init)) (bn_result b)" "reads_of fs ks ys"
    "ls_actuator_frames_received (pl_stats (bn_link b)) = length ys" "length ys < length ks \<longrightarrow> stopped (bn_veh b)"
    "fwithin 27 128 v0 \<longrightarrow> min 240 (length ks) \<le> length ys"
proof -
  have u: "\<forall>k \<in> set ks. undisturbed env os k" using assms(8) by (simp add: undisturbed_def)
  obtain b0 p0 where l: "loop_start veh fs cfg = (b0, p0)" by force
  have "joint_ok req fs [] (b0, p0)" using joint_start [OF assms(2-4)] l by metis
  from joint_run [OF assms(1,9) u assms(5,6) _ this, of chop gauss] assms(7) obtain b p ys where
    r: "closed_run lm gauss env os chop req ks (b0, p0) = Some (b, p)" "joint_ok req fs ([] @ ys) (b, p)" "reads_of fs ks ys"
      "length ys < length ks \<longrightarrow> stopped (bn_veh b)" "\<forall>N. moving N b0 \<and> N < 2 ^ 32 \<longrightarrow> min N (length ks) \<le> length ys" by blast
  have "vs_v (vh_state (bn_veh b0)) = v0" using l Vehicle_ok [OF assms(3,2)] assms(4) by (auto simp: loop_start_def)
  then have "moving 240 b0" if "fwithin 27 128 v0" using fwithin_weaken [OF that] by (simp add: moving_def)
  then have "fwithin 27 128 v0 \<longrightarrow> min 240 (length ks) \<le> length ys" using r(5) by (auto dest: spec [of _ 240])
  then show thesis using that [of b p ys] r(1-4) l by (simp add: joint_ok_def)
qed

section \<open>Properties\<close>

text \<open>C1: Plant and ECU joined, under any injected faults, clocks and chunks and with any outcome of \<^verbatim>\<open>sendall\<close>: as long as the
  joint run goes on, every command on the brake is 0 or the driver's request, the speed stays in range
  and never increases, and slips stay in \<open>[0, 1]\<close>: no fault between the wheel sensor and the wire can brake harder than
  the driver or drive the plant out of its range.\<close>

theorem closed_loop_safe:
  assumes "libm_ok lm" and "fwithin 0 128 v0" and "PacejkaTire surface = Inr tire" and "Vehicle VehicleParams tire v0 = Inr veh"
    and "canon B32 req" and "widen req \<noteq> NaN" and "\<forall>bs. concat (chop bs) = bs"
    and "closed_run lm gauss env os chop req ks (loop_start veh injector cfg) = Some (b, p)"
  shows "set (sr_brake_cmd (bn_result b)) \<subseteq> {f0, widen req} \<and> length (sr_t (bn_result b)) \<le> length ks \<and>
    (\<forall>v \<in> set (sr_v (bn_result b)). fwithin 0 128 v) \<and> sorted_wrt (\<lambda>a b. fval b \<le> fval a) (sr_v (bn_result b)) \<and>
    (\<forall>s \<in> set (sr_slip (bn_result b)). fwithin 0 1 s)"
  using closed_start_safe [OF assms] by (auto simp: loop_safe_def bench_ok_def result_ok_def)

theorem closed_loop_safe_witness:
  "\<exists>veh b p. closed_run bhaskara (\<lambda>n s. f0) still_env (\<lambda>k. first_tick) (\<lambda>bs. [bs]) (clit 100 1) [0]
      (loop_start veh [lost_fault] (ScenarioConfig ''s'')) = Some (b, p) \<and>
    length (sr_t (bn_result b)) \<le> 1 \<and> set (sr_brake_cmd (bn_result b)) \<subseteq> {f0, widen (clit 100 1)}"
proof -
  obtain tire veh where t: "PacejkaTire ''dry_asphalt'' = Inr tire" "Vehicle VehicleParams tire (flit 2778 100) = Inr veh"
    by (rule one_tick_start)
  have v0: "fwithin 0 128 (flit 2778 100)" by (rule fwithin_weaken [OF v0_within]) simp_all
  have c: "canon B32 (clit 100 1)" "widen (clit 100 1) \<noteq> NaN" by code_simp+
  have w: "\<forall>bs :: bytes. concat [bs] = bs" by simp
  have u: "\<forall>k \<in> set [0]. be_send still_env k = Sent \<and> returns (now_ms (be_clock still_env k)) \<and> \<not> ot_sleep_failed first_tick"
    by (intro ballI) (rule undisturbed_still [unfolded undisturbed_def])
  have "only_loss [lost_fault]" by (simp add: only_loss_def lost_fault_def)
  from loss_run [OF bhaskara_ok v0 t c w u this] obtain b p where
    r: "closed_run bhaskara (\<lambda>n s. f0) still_env (\<lambda>k. first_tick) (\<lambda>bs. [bs]) (clit 100 1) [0]
      (loop_start veh [lost_fault] (ScenarioConfig ''s'')) = Some (b, p)" by metis
  from closed_loop_safe [OF bhaskara_ok v0 t c w r] r show ?thesis by auto
qed

text \<open>C2: Plant and ECU joined over an undisturbed link, from the start of a run, whatever the chunks, the clocks and the
  surface: the run never hangs or fails; every tick until the vehicle stops is answered by the ECU and
  logged; no DTC of the link is ever raised; every command is 0 or the driver's request; and the speed stays in
  range and never increases.  From 27 m/s it lasts at least 240 ticks: no brake takes more than 110/1024 m/s in a tick.\<close>

theorem closed_loop_nominal:
  assumes "libm_ok lm" and "fwithin 0 128 v0" and "PacejkaTire surface = Inr tire" and "Vehicle VehicleParams tire v0 = Inr veh"
    and "canon B32 req" and "widen req \<noteq> NaN" and "\<forall>bs. concat (chop bs) = bs"
    and "\<forall>k \<in> set ks. be_send env k = Sent \<and> returns (now_ms (be_clock env k)) \<and> \<not> ot_sleep_failed (os k)"
  shows "\<exists>b p n. closed_run lm gauss env os chop req ks (loop_start veh [] cfg) = Some (b, p) \<and>
    (let r = bn_result b in
      length (sr_t r) = n \<and> n \<le> length ks \<and> (n < length ks \<longrightarrow> stopped (bn_veh b)) \<and>
      (fwithin 27 128 v0 \<longrightarrow> min 240 (length ks) \<le> n) \<and>
      ls_actuator_frames_received (pl_stats (bn_link b)) = n \<and>
      (\<forall>d \<in> set (sr_dtc r). d AND (DTC_COMM_TIMEOUT OR DTC_COMM_CRC) = 0) \<and>
      set (sr_brake_cmd r) \<subseteq> {f0, widen req} \<and>
      (\<forall>v \<in> set (sr_v r). fwithin 0 128 v) \<and> sorted_wrt (\<lambda>a b. fval b \<le> fval a) (sr_v r))"
proof -
  have "only_loss []" by (simp add: only_loss_def)
  from loss_run [OF assms this, of gauss cfg] obtain b p ys where
    r: "closed_run lm gauss env os chop req ks (loop_start veh [] cfg) = Some (b, p)"
      "bench_ok (length ys) b" "logged (fst (ecu_run req ys ecu_init)) (bn_result b)" "reads_of [] ks ys"
      "ls_actuator_frames_received (pl_stats (bn_link b)) = length ys" "length ys < length ks \<longrightarrow> stopped (bn_veh b)"
      "fwithin 27 128 v0 \<longrightarrow> min 240 (length ks) \<le> length ys" .
  have "\<forall>x \<in> set ys. fst x = 0 \<and> snd (snd x) = 0" using r(4) by (simp add: reads_of_def lost_def all_set_conv_all_nth)
  note q = conjunct1 [OF fresh_no_comm [OF this, of req]]
  have "\<forall>d \<in> set (sr_dtc (bn_result b)). d AND (DTC_COMM_TIMEOUT OR DTC_COMM_CRC) = 0"
    using r(3) q no_comm_bits by (fastforce simp: logged_def)
  moreover have "set (sr_brake_cmd (bn_result b)) \<subseteq> {f0, widen req}" using closed_start_safe [OF assms(1-7) r(1)] by (auto simp: loop_safe_def)
  ultimately show ?thesis using r unfolding Let_def
    by (intro exI [of _ b] exI [of _ p] exI [of _ "length ys"]) (simp add: reads_of_def bench_ok_def result_ok_def)
qed

theorem closed_loop_nominal_witness:
  "\<exists>veh b p. closed_run bhaskara (\<lambda>n s. f0) still_env (\<lambda>k. first_tick) (\<lambda>bs. [bs]) (clit 100 1) [0, 1]
      (loop_start veh [] (ScenarioConfig ''s'')) = Some (b, p) \<and> set (sr_brake_cmd (bn_result b)) \<subseteq> {f0, widen (clit 100 1)}"
proof -
  obtain tire veh where t: "PacejkaTire ''dry_asphalt'' = Inr tire" "Vehicle VehicleParams tire (flit 2778 100) = Inr veh"
    by (rule one_tick_start)
  have v0: "fwithin 0 128 (flit 2778 100)" by (rule fwithin_weaken [OF v0_within]) simp_all
  have c: "canon B32 (clit 100 1)" "widen (clit 100 1) \<noteq> NaN" by code_simp+
  have u: "\<forall>k \<in> set [0, 1]. be_send still_env k = Sent \<and> returns (now_ms (be_clock still_env k)) \<and> \<not> ot_sleep_failed first_tick"
    by (intro ballI) (rule undisturbed_still [unfolded undisturbed_def])
  have "\<forall>bs :: bytes. concat [bs] = bs" by simp
  from closed_loop_nominal [OF bhaskara_ok v0 t c this u, of "\<lambda>n s. f0" "ScenarioConfig ''s''"]
  show ?thesis unfolding Let_def by blast
qed


text \<open>C3: The joint run is no more than the two programs.  Every joint run from the start, under any faults, clocks and
  chunks, is at once a run of the harness's loop and a run of the ECU's \<^verbatim>\<open>main\<close> over as many cycles, each on
  the events of its own side alone; what the one has read is what the other has sent, byte for byte and in order,
  except for what is still on the way at the end.\<close>

theorem joint_run_is_both_programs:
  assumes "closed_run lm gauss env os chop req ks (loop_start veh injector cfg) = Some (b, p)"
    and "\<forall>bs. concat (chop bs) = bs" and "\<forall>k \<in> set ks. \<not> ot_stop (os k)" and "ot_stop halt"
  shows "\<exists>n recvs polls q. n \<le> length ks \<and>
    (let start = (fst (loop_start veh injector cfg))\<lparr>bn_recv := recvs\<rparr> in
      bench_loop lm gauss env ks start = Some (Inr (b\<lparr>bn_recv := []\<rparr>)) \<and>
      ecu_main req 0 (Some socket_drv_connect) \<lparr>tv_sec = 0, tv_nsec = 0\<rparr> (map os (take n ks) @ [halt]) polls
        (replicate n (SentBytes 19)) = Some (0, q) \<and> ep_ecu q = ep_ecu p \<and>
      chunk_bytes recvs @ chunk_bytes (unheard (bn_recv b)) = ep_sent q \<and>
      poll_bytes polls @ poll_bytes (unread (ep_polls p)) = bench_bytes lm gauss env ks start)"
proof -
  obtain b0 where l: "loop_start veh injector cfg = (b0, idle_process)" "unheard (bn_recv b0) = []"
    by (simp add: loop_start_def unheard_def)
  have i: "unread (ep_polls idle_process) = []" by (simp add: idle_process_def unread_def)
  from closed_run_both [OF assms(2) [rule_format] assms(1) [unfolded l(1)]] obtain n recvs polls sent where
    r: "n \<le> length ks" "\<And>rest. bench_loop lm gauss env ks (b0\<lparr>bn_recv := recvs @ rest\<rparr>) = Some (Inr (b\<lparr>bn_recv := rest\<rparr>))"
    "\<And>rest sends out ots. ecu_loop req 0 (map os (take n ks) @ ots)
        (idle_process\<lparr>ep_polls := polls @ rest, ep_sends := replicate n (SentBytes 19) @ sends, ep_sent := out\<rparr>) =
      ecu_loop req 0 ots (p\<lparr>ep_polls := rest, ep_sends := sends, ep_sent := out @ sent\<rparr>)"
    "chunk_bytes recvs @ chunk_bytes (unheard (bn_recv b)) = sent"
    "\<And>rest. poll_bytes polls @ poll_bytes (unread (ep_polls p)) = bench_bytes lm gauss env ks (b0\<lparr>bn_recv := recvs @ rest\<rparr>)"
    using assms(3) unfolding l(2) i by auto
  let ?p = "p\<lparr>ep_polls := [], ep_sends := [], ep_sent := sent\<rparr>"
  have loop: "ecu_loop req 0 (map os (take n ks) @ [halt])
      (idle_process\<lparr>ep_polls := polls, ep_sends := replicate n (SentBytes 19), ep_sent := []\<rparr>) = Some ?p"
    using r(3) [of "[halt]" "[]" "[]" "[]"] assms(4) by simp
  have "ecu_main req 0 (Some socket_drv_connect) \<lparr>tv_sec = 0, tv_nsec = 0\<rparr> (map os (take n ks) @ [halt]) polls
      (replicate n (SentBytes 19)) = Some (0, ?p\<lparr>ep_hal := hal_sensors_shutdown (hal_actuators_shutdown (ep_hal ?p))\<rparr>)"
    using loop by (simp add: ecu_main_def idle_process_def hal_sensors_init_def hal_reset_def hal_actuators_init_def Let_def)
  then show ?thesis using r(1) r(2) [of "[]"] r(4) r(5) [of "[]"] unfolding Let_def l(1)
    by (intro exI [of _ n] exI [of _ recvs] exI [of _ polls] exI conjI) (assumption, simp+)
qed

theorem joint_run_is_both_programs_witness:
  "\<exists>veh b recvs. bench_loop bhaskara (\<lambda>n s. f0) still_env [0, 1]
    ((fst (loop_start veh [] (ScenarioConfig ''s'')))\<lparr>bn_recv := recvs\<rparr>) = Some (Inr b)"
proof -
  obtain tire veh where t: "PacejkaTire ''dry_asphalt'' = Inr tire" "Vehicle VehicleParams tire (flit 2778 100) = Inr veh"
    by (rule one_tick_start)
  have v0: "fwithin 0 128 (flit 2778 100)" by (rule fwithin_weaken [OF v0_within]) simp_all
  have c: "canon B32 (clit 100 1)" "widen (clit 100 1) \<noteq> NaN" by code_simp+
  have w: "\<forall>bs :: bytes. concat [bs] = bs" by simp
  have u: "\<forall>k \<in> set [0, 1]. be_send still_env k = Sent \<and> returns (now_ms (be_clock still_env k)) \<and> \<not> ot_sleep_failed first_tick"
    by (intro ballI) (rule undisturbed_still [unfolded undisturbed_def])
  have "only_loss []" by (simp add: only_loss_def)
  from loss_run [OF bhaskara_ok v0 t c w u this] obtain b p where
    r: "closed_run bhaskara (\<lambda>n s. f0) still_env (\<lambda>k. first_tick) (\<lambda>bs. [bs]) (clit 100 1) [0, 1]
      (loop_start veh [] (ScenarioConfig ''s'')) = Some (b, p)" by metis
  have "\<forall>k \<in> set [0, 1 :: int]. \<not> ot_stop first_tick" "ot_stop (first_tick\<lparr>ot_stop := True\<rparr>)" by (simp_all add: first_tick_def)
  from joint_run_is_both_programs [OF r w this] show ?thesis unfolding Let_def by blast
qed

text \<open>C4: A loss of frames in the joint system.  If only communication losses are injected and one covers the fifteen ticks
  from tick \<open>j\<close> on, then whatever happens before and after, from any chunks, clocks and surface: the run goes through;
  from the sixth lost tick on the harness logs DTC_COMM_TIMEOUT and a fault mode, from the fifteenth on
  FAULT_LATCHED until the run ends, also after the link has recovered; and from the sixth on the brake is the driver's
  request: the pedal is never taken away because of a dead link.  From 27 m/s the run lasts at least 240 ticks.\<close>

theorem closed_loop_comm_loss:
  assumes "libm_ok lm" and "fwithin 0 128 v0" and "PacejkaTire surface = Inr tire" and "Vehicle VehicleParams tire v0 = Inr veh"
    and "canon B32 req" and "widen req \<noteq> NaN" and "\<forall>bs. concat (chop bs) = bs"
    and "\<forall>k \<in> set ks. be_send env k = Sent \<and> returns (now_ms (be_clock env k)) \<and> \<not> ot_sleep_failed (os k)"
    and "only_loss injector" and "length ks < 2 ^ 32" and "\<forall>i < length ks. j \<le> i \<and> i < j + 15 \<longrightarrow> lost injector (ks ! i)"
  shows "\<exists>b p n. closed_run lm gauss env os chop req ks (loop_start veh injector cfg) = Some (b, p) \<and>
    (let r = bn_result b in
      length (sr_t r) = n \<and> n \<le> length ks \<and> (n < length ks \<longrightarrow> stopped (bn_veh b)) \<and>
      (fwithin 27 128 v0 \<longrightarrow> min 240 (length ks) \<le> n) \<and>
      (\<forall>i < n. j + 5 \<le> i \<and> i < j + 15 \<longrightarrow>
        sr_dtc r ! i AND DTC_COMM_TIMEOUT \<noteq> 0 \<and> sr_state r ! i \<in> {ECU_FAULT_DEGRADED, ECU_FAULT_LATCHED}) \<and>
      (\<forall>i < n. j + 14 \<le> i \<longrightarrow> sr_state r ! i = ECU_FAULT_LATCHED) \<and>
      (\<forall>i < n. j + 5 \<le> i \<longrightarrow> sr_brake_cmd r ! i = widen req))"
proof -
  obtain b p ys where r: "closed_run lm gauss env os chop req ks (loop_start veh injector cfg) = Some (b, p)"
    "bench_ok (length ys) b" "logged (fst (ecu_run req ys ecu_init)) (bn_result b)" "reads_of injector ks ys"
    "length ys < length ks \<longrightarrow> stopped (bn_veh b)" "fwithin 27 128 v0 \<longrightarrow> min 240 (length ks) \<le> length ys"
    by (rule loss_run [OF assms(1-9), of gauss cfg])
  note log = loss_in_log [OF r(3,4) assms(10,11)]
  have n: "length (sr_t (bn_result b)) = length ys" "length ys \<le> length ks"
    using r(2,4) by (simp_all add: bench_ok_def result_ok_def reads_of_def)
  have "\<forall>i < length ys. j + 5 \<le> i \<and> i < j + 15 \<longrightarrow> sr_dtc (bn_result b) ! i AND DTC_COMM_TIMEOUT \<noteq> 0 \<and>
      sr_state (bn_result b) ! i \<in> {ECU_FAULT_DEGRADED, ECU_FAULT_LATCHED}" using log(1) by blast
  moreover have "\<forall>i < length ys. j + 14 \<le> i \<longrightarrow> sr_state (bn_result b) ! i = ECU_FAULT_LATCHED"
    by (intro allI impI log(2)) simp_all
  moreover have "\<forall>i < length ys. j + 5 \<le> i \<longrightarrow> sr_brake_cmd (bn_result b) ! i = widen req" using log(3) by blast
  ultimately show ?thesis using r(1,5,6) n unfolding Let_def
    by (intro exI [of _ b] exI [of _ p] exI [of _ "length ys"]) blast
qed

theorem closed_loop_comm_loss_witness:
  "\<exists>veh b p n. closed_run bhaskara (\<lambda>n s. f0) still_env (\<lambda>k. first_tick) (\<lambda>bs. [bs]) (clit 100 1) (map int [0..<20])
      (loop_start veh [new_comm_loss f0 (flit 2 10)] (ScenarioConfig ''s'')) = Some (b, p) \<and> length (sr_t (bn_result b)) = n \<and>
    (\<forall>i < n. 14 \<le> i \<longrightarrow> sr_state (bn_result b) ! i = ECU_FAULT_LATCHED)"
proof -
  obtain tire veh where t: "PacejkaTire ''dry_asphalt'' = Inr tire" "Vehicle VehicleParams tire (flit 2778 100) = Inr veh"
    by (rule one_tick_start)
  have v0: "fwithin 0 128 (flit 2778 100)" by (rule fwithin_weaken [OF v0_within]) simp_all
  have c: "canon B32 (clit 100 1)" "widen (clit 100 1) \<noteq> NaN" by code_simp+
  have w: "\<forall>bs :: bytes. concat [bs] = bs" by simp
  have u: "\<forall>k \<in> set (map int [0..<20]). be_send still_env k = Sent \<and> returns (now_ms (be_clock still_env k)) \<and> \<not> ot_sleep_failed first_tick"
    by (intro ballI) (rule undisturbed_still [unfolded undisturbed_def])
  have o: "only_loss [new_comm_loss f0 (flit 2 10)]" by (simp add: only_loss_def new_comm_loss_def)
  have "list_all (\<lambda>i. is_active (new_comm_loss f0 (flit 2 10)) (fmul (flit (int i) 1) CONTROL_PERIOD_S)) [0..<15]" by code_simp
  then have "\<forall>i < 15. lost [new_comm_loss f0 (flit 2 10)] (int i)" by (auto simp: list_all_iff lost_def)
  then have l: "\<forall>i < length (map int [0..<20]). 0 \<le> i \<and> i < 0 + 15 \<longrightarrow> lost [new_comm_loss f0 (flit 2 10)] (map int [0..<20] ! i)" by simp
  have n: "length (map int [0..<20]) < 2 ^ 32" by simp
  from closed_loop_comm_loss [OF bhaskara_ok v0 t c w u o n l, of "\<lambda>n s. f0" "ScenarioConfig ''s''"]
  show ?thesis unfolding Let_def add_0 by blast
qed

section \<open>Scenario 4\<close>

lemma s4_ticks: "py_bind (fdiv (flit 8 1) CONTROL_PERIOD_S) py_int_round = Inr 800"
  unfolding CONTROL_PERIOD_S_def by code_simp

lemma s4_lost: "list_all (\<lambda>k. lost s4_injector k) [100..114]"
  unfolding lost_def s4_injector_def injector_add_def new_comm_loss_def CONTROL_PERIOD_S_def by code_simp

lemma s4_only_loss: "only_loss s4_injector"
  by (simp add: only_loss_def s4_injector_def injector_add_def new_comm_loss_def)

text \<open>A joint run from the start of scenario 4 is a run of \<^verbatim>\<open>run_scenario\<close>, with the answers of the ECU as its events.\<close>

lemma s4_run:
  assumes "PacejkaTire ''dry_asphalt'' = Inr tire" "Vehicle VehicleParams tire (flit 2778 100) = Inr veh"
    and "closed_run lm gauss env os chop req [0..799] (loop_start veh s4_injector s4_config) = Some (b, p)"
    and "\<forall>bs. concat (chop bs) = bs"
  shows "\<exists>evs. run_scenario lm gauss env Bound ClientConnected evs s4_config s4_injector =
    Some (Inr ((bn_result b)\<lparr>sr_last_pos := vs_x (vh_state (bn_veh b))\<rparr>))"
proof -
  obtain evs where "\<And>rest. bench_loop lm gauss env [0..799] (fst (loop_start veh s4_injector s4_config)\<lparr>bn_recv := evs @ rest\<rparr>) =
      Some (Inr (b\<lparr>bn_recv := rest\<rparr>))"
    using closed_run_both [OF assms(4) [rule_format] assms(3) [unfolded loop_start_def]] by (auto simp: loop_start_def)
  from this [of "[]"] have l: "bench_loop lm gauss env [0..799] \<lparr>bn_veh = veh, bn_link = fresh_link, bn_faults = s4_injector,
      bn_last_brake = f0, bn_result = ScenarioResult s4_config, bn_recv = evs\<rparr> = Some (Inr (b\<lparr>bn_recv := []\<rparr>))"
    by (simp add: loop_start_def)
  obtain q where q: "fdiv (flit 8 1) CONTROL_PERIOD_S = Inr q" "py_int_round q = Inr 800"
    using s4_ticks by (auto simp: py_bind_Inr_iff)
  have "run_scenario lm gauss env Bound ClientConnected evs s4_config s4_injector =
      Some (Inr ((bn_result b)\<lparr>sr_last_pos := vs_x (vh_state (bn_veh b))\<rparr>))"
    using assms(1,2) q l
    by (simp add: run_scenario_def s4_config_def ScenarioConfig_def link_accept_def link_listen_def PlantLink_def fresh_link_def)
  then show ?thesis by blast
qed

lemma dtc_seen:
  assumes "i < length (sr_dtc r)" "length (sr_t r) = length (sr_dtc r)" "sr_dtc r ! i AND m \<noteq> 0"
  shows "first_dtc_time r m \<noteq> None"
proof -
  have "(sr_t r ! i, sr_dtc r ! i) \<in> set (zip (sr_t r) (sr_dtc r))"
    using assms(1,2) by (force simp: in_set_zip)
  then show ?thesis using assms(3) unfolding first_dtc_time_def first_time_None by blast
qed

text \<open>With more than 114 answers the three checks on the fault reaction hold.\<close>

lemma s4_reaction:
  assumes "bench_ok (length ys) b" "logged (fst (ecu_run req ys ecu_init)) (bn_result b)" "reads_of s4_injector [0..799] ys"
    and n: "114 < length ys"
  shows "map fst (take 3 (s4_checks ((bn_result b)\<lparr>sr_last_pos := x\<rparr>))) = [True, True, True]"
proof -
  have lost: "\<forall>i < length [0..799 :: int]. 100 \<le> i \<and> i < 100 + 15 \<longrightarrow> lost s4_injector ([0..799] ! i)"
  proof (intro allI impI)
    fix i :: nat assume i: "i < length [0..799 :: int]" "100 \<le> i \<and> i < 100 + 15"
    then have "int i \<in> set [100..114]" unfolding set_upto by simp
    then have "lost s4_injector (int i)" using s4_lost unfolding list_all_iff by blast
    then show "lost s4_injector ([0..799] ! i)" using i by (simp add: nth_upto)
  qed
  have ks: "length [0..799 :: int] < 2 ^ 32" by simp
  note log = loss_in_log [OF assms(2,3) ks lost]
  have len: "length (sr_t (bn_result b)) = length ys" "length (sr_dtc (bn_result b)) = length ys"
      "length (sr_state (bn_result b)) = length ys" "length ys \<le> 800"
    using assms(1,3) by (simp_all add: bench_ok_def result_ok_def reads_of_def)
  have "sr_dtc (bn_result b) ! 105 AND DTC_COMM_TIMEOUT \<noteq> 0" using log(1) [of 105] n by simp
  from dtc_seen [OF _ _ this] have a: "first_dtc_time (bn_result b) DTC_COMM_TIMEOUT \<noteq> None" using n len by simp
  have s: "sr_state (bn_result b) ! 114 = ECU_FAULT_LATCHED" using log(2) [of 114] n by simp
  then have l: "ECU_FAULT_LATCHED \<in> states_visited (bn_result b)"
    using nth_mem [of 114 "sr_state (bn_result b)"] n len by (simp add: states_visited_def)
  obtain mode d cmd where o: "fst (ecu_run req ys ecu_init) ! 114 = (mode, d, cmd)" by (metis prod.exhaust)
  have "uint (status_code mode) = ECU_FAULT_LATCHED" using logged_nth(1) [OF assms(2) _ o] s n by simp
  then have "mode = S_FAULT_LATCHED" by (cases mode) (simp_all add: ECU_FAULT_LATCHED_def)
  then have "last (fst (ecu_run req (take 115 ys) ecu_init)) = (S_FAULT_LATCHED, d, cmd)"
    using run_outs [of 114 ys req ecu_init] o n by simp
  moreover have "take 115 ys \<noteq> []" "length (take 115 ys) < 2 ^ 32" using n by auto
  ultimately obtain i where
    i: "i < 115" "fst (fst (ecu_run req (take 115 ys) ecu_init) ! i) = S_FAULT_DEGRADED"
    using degraded_before_latched [of "take 115 ys" req d cmd] n by auto
  then have "fst (fst (ecu_run req ys ecu_init) ! i) = S_FAULT_DEGRADED"
    using run_outs [of i ys req ecu_init] run_outs [of i "take 115 ys" req ecu_init] n by (simp add: min_def)
  then obtain d' cmd' where "fst (ecu_run req ys ecu_init) ! i = (S_FAULT_DEGRADED, d', cmd')" by (metis prod.collapse)
  from logged_nth(1) [OF assms(2) _ this] have "sr_state (bn_result b) ! i = ECU_FAULT_DEGRADED"
    using i(1) n fault_codes by simp
  then have g: "ECU_FAULT_DEGRADED \<in> states_visited (bn_result b)"
    using nth_mem [of i "sr_state (bn_result b)"] i(1) n len by (simp add: states_visited_def)
  show ?thesis using a l g by (simp add: s4_checks_def first_dtc_time_def states_visited_def Let_def)
qed

text \<open>C5: Scenario 4 against the real ECU.  With the C code of the ECU at the other end of an undisturbed link, from any
  chunks and clocks, scenario 4 returns after at least 240 ticks (no brake stops the car sooner); its three checks
  on the fault reaction (DTC_COMM_TIMEOUT raised, FAULT_DEGRADED entered, FAULT_LATCHED reached) hold by the ECU's own
  answers, so that its exit code depends on the stopping distance alone.\<close>

theorem scenario4_with_ecu:
  assumes "libm_ok lm" and "canon B32 req" and "widen req \<noteq> NaN" and "\<forall>bs. concat (chop bs) = bs"
    and "\<forall>k \<in> {0..799}. be_send env k = Sent \<and> returns (now_ms (be_clock env k)) \<and> \<not> ot_sleep_failed (os k)"
  shows "\<exists>veh b p evs. closed_run lm gauss env os chop req [0..799] (loop_start veh s4_injector s4_config) = Some (b, p) \<and>
    (let r = (bn_result b)\<lparr>sr_last_pos := vs_x (vh_state (bn_veh b))\<rparr> in
      run_scenario lm gauss env Bound ClientConnected evs s4_config s4_injector = Some (Inr r) \<and>
      240 \<le> length (sr_t r) \<and> map fst (take 3 (s4_checks r)) = [True, True, True] \<and>
      s4_main lm gauss env Bound ClientConnected evs =
        Some (Inr (if flt (result_stopping_distance r) (flit 200 1) then 0 else 1)))"
proof -
  obtain tire veh where t: "PacejkaTire ''dry_asphalt'' = Inr tire" "Vehicle VehicleParams tire (flit 2778 100) = Inr veh"
    by (rule one_tick_start)
  have v0: "fwithin 0 128 (flit 2778 100)" by (rule fwithin_weaken [OF v0_within]) simp_all
  have u: "\<forall>k \<in> set [0..799]. be_send env k = Sent \<and> returns (now_ms (be_clock env k)) \<and> \<not> ot_sleep_failed (os k)"
    using assms(5) by simp
  obtain b p ys where c: "closed_run lm gauss env os chop req [0..799] (loop_start veh s4_injector s4_config) = Some (b, p)"
    "bench_ok (length ys) b" "logged (fst (ecu_run req ys ecu_init)) (bn_result b)" "reads_of s4_injector [0..799] ys"
    "fwithin 27 128 (flit 2778 100) \<longrightarrow> min 240 (length [0..799 :: int]) \<le> length ys"
    by (rule loss_run [OF assms(1) v0 t assms(2-4) u s4_only_loss, of gauss s4_config])
  obtain evs where run: "run_scenario lm gauss env Bound ClientConnected evs s4_config s4_injector =
      Some (Inr ((bn_result b)\<lparr>sr_last_pos := vs_x (vh_state (bn_veh b))\<rparr>))" using s4_run [OF t c(1) assms(4)] by blast
  let ?r = "(bn_result b)\<lparr>sr_last_pos := vs_x (vh_state (bn_veh b))\<rparr>"
  have len: "length (sr_t (bn_result b)) = length ys" using c(2) by (simp add: bench_ok_def result_ok_def)
  have w: "fwithin 27 128 (flit 2778 100)" by (rule fwithin_weaken [OF v0_within]) simp_all
  have long: "240 \<le> length ys" using c(5) w by simp
  have checks: "map fst (take 3 (s4_checks ?r)) = [True, True, True]"
    using s4_reaction [OF c(2-4)] long by simp
  have main: "s4_main lm gauss env Bound ClientConnected evs =
      Some (Inr (if flt (result_stopping_distance ?r) (flit 200 1) then 0 else 1))"
    using checks unfolding s4_main_def run scenario_exit_run assert_all_iff
    by (simp add: s4_checks_def Let_def eval_nat_numeral)
  show ?thesis unfolding Let_def using c(1) run checks main len long
    by (intro exI [of _ veh] exI [of _ b] exI [of _ p] exI [of _ evs]) simp
qed

theorem scenario4_with_ecu_witness:
  "\<exists>evs r. map fst (take 3 (s4_checks r)) = [True, True, True] \<and>
    s4_main bhaskara (\<lambda>n s. f0) still_env Bound ClientConnected evs =
      Some (Inr (if flt (result_stopping_distance r) (flit 200 1) then 0 else 1))"
proof -
  have c: "canon B32 (clit 100 1)" "widen (clit 100 1) \<noteq> NaN" by code_simp+
  have w: "\<forall>bs :: bytes. concat [bs] = bs" by simp
  have u: "\<forall>k \<in> {0..799}. be_send still_env k = Sent \<and> returns (now_ms (be_clock still_env k)) \<and> \<not> ot_sleep_failed first_tick"
    by (intro ballI) (rule undisturbed_still [unfolded undisturbed_def])
  from scenario4_with_ecu [OF bhaskara_ok c w u, of "\<lambda>n s. f0"] show ?thesis unfolding Let_def
    by (elim exE conjE) (intro exI conjI; assumption)
qed

end
