(* ===== verification/Number_Text_Properties.thy ===== *)
theory Number_Text_Properties
  imports Number_Text
begin

text \<open>
  Numbers written as text read back unchanged: \<^verbatim>\<open>int(str(i)) = i\<close> and \<^verbatim>\<open>float(repr(x)) = x\<close>, also for
  infinities, NaN, subnormal numbers and both zeros.  Seventeen digits are always enough, so the search
  for the shortest decimal always ends with one.
\<close>

section \<open>Digit strings\<close>

lemma of_char_digit [simp]: "n < 10 \<Longrightarrow> (of_char (char_of (48 + n :: nat) :: char) :: nat) = 48 + n"
  by simp

lemma of_char_digit_int: "n < 10 \<Longrightarrow> (of_char (char_of (48 + n :: nat) :: char) :: int) = 48 + int n"
  using of_char_digit [of n] by (metis of_nat_add of_nat_numeral of_nat_of_char)

lemma digit_char: "n < 10 \<Longrightarrow> is_digit (char_of (48 + n :: nat))"
  by (simp add: is_digit_def)

lemma digits_are_digits: "c \<in> set (digits n) \<Longrightarrow> is_digit c"
proof (induction n rule: digits.induct)
  case (1 n)
  then show ?case using digit_char by (subst (asm) (2) digits.simps) (auto split: if_splits)
qed

lemma digits_nonempty [simp]: "digits n \<noteq> []"
  by (subst digits.simps) simp

lemma digits_val_snoc: "digits_val (xs @ [c]) = 10 * digits_val xs + (of_char c - 48)"
  by (simp add: digits_val_def)

lemma digits_val_digits: "digits_val (digits n) = int n"
proof (induction n rule: digits.induct)
  case (1 n)
  show ?case
  proof (cases "n < 10")
    case True
    then show ?thesis using of_char_digit_int [OF True] by (subst digits.simps) (simp add: digits_val_def del: of_char_of)
  next
    case False
    have "digits n = digits (n div 10) @ [char_of (48 + n mod 10)]" using False by (subst digits.simps) simp
    then have "digits_val (digits n) = 10 * int (n div 10) + int (n mod 10)"
      using 1 [OF False] of_char_digit_int [of "n mod 10"] by (simp only: digits_val_snoc mod_less_divisor zero_less_numeral)
    also have "\<dots> = int (10 * (n div 10) + n mod 10)" by (simp only: of_nat_add of_nat_mult of_nat_numeral)
    finally show ?thesis by simp
  qed
qed

lemma digits_bounds: "n < 10 ^ length (digits n)" "0 < n \<Longrightarrow> 10 ^ (length (digits n) - 1) \<le> n"
proof (induction n rule: digits.induct)
  case (1 n)
  show "n < 10 ^ length (digits n)"
  proof (cases "n < 10")
    case True
    then show ?thesis by (subst digits.simps) simp
  next
    case False
    have "n div 10 < 10 ^ length (digits (n div 10))" by (rule 1(1) [OF False])
    then show ?thesis using False by (subst digits.simps) (simp add: div_less_iff_less_mult mult.commute)
  qed
  show "10 ^ (length (digits n) - 1) \<le> n" if "0 < n"
  proof (cases "n < 10")
    case True
    then show ?thesis using that by (subst digits.simps) simp
  next
    case False
    then have "10 ^ (length (digits (n div 10)) - 1) \<le> n div 10" by (intro 1(2)) auto
    moreover have "0 < length (digits (n div 10))" by simp
    ultimately have "10 ^ length (digits (n div 10)) \<le> (n div 10) * 10"
      by (metis Suc_diff_1 mult_le_mono1 power_Suc2)
    then have "10 ^ length (digits (n div 10)) \<le> n" using div_times_less_eq_dividend order_trans by blast
    then show ?thesis using False by (subst digits.simps) simp
  qed
qed

section \<open>Integers\<close>

lemma no_underscore: "CHR ''_'' \<notin> set s \<Longrightarrow> drop_underscores p s = Some s"
  by (induction p s rule: drop_underscores.induct) auto

lemma dropWhile_hd: "xs \<noteq> [] \<Longrightarrow> \<not> P (hd xs) \<Longrightarrow> dropWhile P xs = xs"
  by (cases xs) simp_all

lemma strip_id: "s \<noteq> [] \<Longrightarrow> \<not> is_space (hd s) \<Longrightarrow> \<not> is_space (last s) \<Longrightarrow> strip s = s"
  by (simp add: strip_def dropWhile_hd hd_rev)

lemma digit_facts:
  assumes "is_digit c"
  shows "\<not> is_space c" "c \<noteq> CHR ''_''" "c \<noteq> CHR ''-''" "c \<noteq> CHR ''+''" "c \<noteq> CHR ''.''"
    "c \<noteq> CHR ''e''" "c \<noteq> CHR ''E''" "c \<noteq> CHR '',''" "c \<noteq> CHR 0x22" "lower c = c"
  using assms by (auto simp: is_digit_def is_space_def lower_def Let_def)

lemma str_int_cases:
  obtains "py_str_int i = digits (nat i)" "0 \<le> i" | "py_str_int i = CHR ''-'' # digits (nat (- i))" "i < 0"
  by (cases "i < 0") (auto simp: py_str_int_def)

text \<open>A string of digits, with a sign in front or not, is not changed by \<^verbatim>\<open>strip\<close> and has no underscore.\<close>

lemma plain_digits:
  assumes "ds \<noteq> []" "\<forall>c \<in> set ds. is_digit c"
  shows "drop_underscores False (strip ds) = Some ds" "split_sign ds = (False, ds)"
    "drop_underscores False (strip (CHR ''-'' # ds)) = Some (CHR ''-'' # ds)"
proof -
  have e: "is_digit (hd ds)" "is_digit (last ds)" using assms by simp_all
  have u: "CHR ''_'' \<notin> set ds" using assms(2) digit_facts(2) by blast
  have "\<not> is_space (CHR ''-'')" by (simp add: is_space_def)
  then have "strip ds = ds" "strip (CHR ''-'' # ds) = CHR ''-'' # ds"
    using assms(1) e digit_facts(1) by (auto intro!: strip_id)
  then show "drop_underscores False (strip ds) = Some ds"
    "drop_underscores False (strip (CHR ''-'' # ds)) = Some (CHR ''-'' # ds)" using u by (simp_all add: no_underscore)
  show "split_sign ds = (False, ds)" using assms(1) e(1) digit_facts(3,4) by (cases ds) auto
qed

lemma int_round_trip:
  assumes "length (digits (nat \<bar>i\<bar>)) \<le> 4300"
  shows "py_int_of_str (py_str_int i) = Inr i"
proof (cases rule: str_int_cases [of i])
  case 1
  note p = plain_digits [of "digits (nat i)"]
  show ?thesis using 1 assms p digits_are_digits
    by (simp add: py_int_of_str_def sgi_def digits_val_digits)
next
  case 2
  note p = plain_digits [of "digits (nat (- i))"]
  show ?thesis using 2 assms p digits_are_digits
    by (simp add: py_int_of_str_def sgi_def digits_val_digits)
qed

section \<open>Decimals near a float\<close>

abbreviation p10 :: "int \<Rightarrow> rat" where "p10 k \<equiv> 10 powi k"

lemma p10_pos [simp]: "0 < p10 k" "p10 k \<noteq> 0"
  by simp_all

lemma p10_ratio: "(of_int (n * 10 ^ nat k) :: rat) / of_int (10 ^ nat (- k)) = of_int n * p10 k"
proof (cases "0 \<le> k")
  case True
  then show ?thesis by (simp add: power_int_def)
next
  case False
  then show ?thesis by (simp add: power_int_def field_simps)
qed

lemma dec_exp_lower:
  assumes "0 < n" "0 < d"
  shows "p10 (dec_exp n d) \<le> of_int n / of_int d"
proof (cases "d \<le> n")
  case True
  define q where "q = nat (n div d)"
  have q: "0 < q" "int q = n div d" using True assms by (simp_all add: q_def pos_imp_zdiv_pos_iff pos_imp_zdiv_nonneg_iff)
  have "(10::nat) ^ (length (digits q) - 1) \<le> q" by (rule digits_bounds(2) [OF q(1)])
  then have "(of_nat (10 ^ (length (digits q) - 1)) :: rat) \<le> of_nat q" by (rule of_nat_mono)
  also have "(of_nat q :: rat) = of_int (n div d)" by (metis of_int_of_nat_eq q(2))
  also have "\<dots> = of_int \<lfloor>of_int n / of_int d :: rat\<rfloor>" by (simp only: floor_divide_of_int_eq)
  also have "\<dots> \<le> of_int n / of_int d" by (rule of_int_floor_le)
  finally have "10 ^ (length (digits q) - 1) \<le> (of_int n / of_int d :: rat)" by simp
  moreover have "nat (int (length (digits q)) - 1) = length (digits q) - 1" by simp
  moreover have "0 < length (digits q)" by simp
  ultimately show ?thesis using True unfolding dec_exp_def q_def [symmetric] power_int_def by simp
next
  case False
  define q where "q = nat ((d - 1) div n)"
  have q: "int q = (d - 1) div n" using assms by (simp add: q_def pos_imp_zdiv_nonneg_iff)
  have "q < 10 ^ length (digits q)" by (rule digits_bounds(1))
  then have "(d - 1) div n < 10 ^ length (digits q)" unfolding q [symmetric] by (metis of_nat_less_iff of_nat_numeral of_nat_power)
  then have "((d - 1) div n + 1) * n \<le> 10 ^ length (digits q) * n" using assms(1) by (intro mult_right_mono) simp_all
  moreover have "d - 1 < ((d - 1) div n + 1) * n"
    unfolding distrib_right mult_1
    using div_mult_mod_eq [of "d - 1" n] pos_mod_bound [OF assms(1), of "d - 1"] by linarith
  ultimately have "d - 1 < n * 10 ^ length (digits q)" by (simp add: mult.commute)
  then have "(of_int d :: rat) \<le> of_int (n * 10 ^ length (digits q))" by (intro of_int_le_iff [THEN iffD2]) linarith
  then show ?thesis using False assms by (simp add: dec_exp_def q_def [symmetric] power_int_minus field_simps)
qed

lemma rhe_near: "\<bar>x - of_int j\<bar> < 1/2 \<Longrightarrow> rhe x = j"
proof -
  assume a: "\<bar>x - of_int j\<bar> < 1/2"
  show ?thesis
  proof (cases "of_int j \<le> x")
    case True
    then have "\<lfloor>x\<rfloor> = j" using a by (intro floor_unique) linarith+
    then show ?thesis using a True by (simp add: rhe_def Let_def)
  next
    case False
    then have "\<lfloor>x\<rfloor> = j - 1" using a by (intro floor_unique; unfold of_int_diff of_int_1; linarith)
    then show ?thesis using a False by (simp add: rhe_def Let_def)
  qed
qed

lemma fround_exact:
  assumes "0 < n" "0 < d"
  defines "x \<equiv> of_int n / of_int d"
  shows "fround f s n d = (if rhe (x / p2 (lsb f x)) = 2 ^ prec f then fpack f s (2 ^ (prec f - 1)) (lsb f x + 1)
    else fpack f s (rhe (x / p2 (lsb f x))) (lsb f x))"
  using assms by (simp add: fround_def Let_def fround_exponent half_even_scaled)

text \<open>A decimal within a relative distance of \<open>1 / (2 * 10 ^ 16)\<close> of a double rounds to it.\<close>

lemma near_reads_back:
  assumes c: "pyf (Fin False m e)" "0 < m" and nd: "0 < n" "0 < d"
    and near: "\<bar>of_int n / of_int d - of_int m * p2 e\<bar> \<le> of_int m * p2 e / 20000000000000000"
  shows "fround B64 s n d = Fin s m e"
proof -
  define x :: rat where "x = of_int m * p2 e"
  define y :: rat where "y = of_int n / of_int d"
  define L where "L = lsb B64 y"
  have m: "1 \<le> m" "m \<le> 2 ^ 53 - 1" "emin B64 \<le> e" "e \<le> emax B64" "2 ^ 52 \<le> m \<or> e = emin B64" using c by auto
  have x0: "0 < x" using m by (simp add: x_def)
  have y: "0 < y" using nd by (simp add: y_def)
  have near: "\<bar>y - x\<bar> \<le> x / 20000000000000000" using near by (simp add: x_def y_def)
  have L: "L \<le> e"
  proof -
    have "of_int m \<le> (of_int 9007199254740991 :: rat)" using m(2) by (intro of_int_le_iff [THEN iffD2]) simp
    then have "x \<le> 9007199254740991 * p2 e" unfolding x_def by (intro mult_right_mono) simp_all
    moreover have "0 < p2 e" by simp
    moreover have "y - x \<le> x / 20000000000000000" using near by (rule abs_le_D1)
    ultimately have "y < 9007199254740992 * p2 e" by linarith
    also have "9007199254740992 * p2 e = p2 (e + 53)" by (simp add: p2_add p2_nat)
    finally have "flog2 y < e + 53" by (rule flog2_less [OF y])
    then show ?thesis using m(3) by (simp add: L_def lsb_def)
  qed
  define j where "j = m * 2 ^ nat (e - L)"
  have "p2 (e - L + L) = of_int (2 ^ nat (e - L)) * p2 L" unfolding p2_add using L by (subst p2_nat) simp_all
  then have xj: "x = of_int j * p2 L" by (simp add: x_def j_def)
  have yL: "y < 2 ^ 53 * p2 L" using scaled_upper [OF y, of B64] by (simp add: L_def field_simps)
  have "\<bar>y - x\<bar> < p2 L / 2"
  proof -
    have "x - y \<le> x / 20000000000000000" using near by (metis abs_le_D1 abs_minus_commute)
    then have "2 ^ 53 * (x / 20000000000000000) < y / 2" using x0 by simp
    with near have "2 ^ 53 * \<bar>y - x\<bar> < y / 2" by simp
    with yL show ?thesis by simp
  qed
  then have "\<bar>y / p2 L - of_int j\<bar> < 1 / 2"
  proof -
    have "y / p2 L - of_int j = (y - x) / p2 L" by (simp add: xj field_simps)
    then show ?thesis using \<open>\<bar>y - x\<bar> < p2 L / 2\<close> by (simp add: abs_divide field_simps)
  qed
  then have r: "rhe (y / p2 L) = j" by (rule rhe_near)
  have j: "j \<le> 2 ^ 53" using scaled_upper [OF y, of B64] unfolding r [symmetric] L_def by (intro rhe_le_int) simp
  have fr: "fround B64 s n d = (if j = 2 ^ 53 then fpack B64 s (2 ^ 52) (L + 1) else fpack B64 s j L)"
    using fround_exact [OF nd, of B64 s] r by (simp add: y_def L_def)
  show ?thesis
  proof (cases "L = e")
    case True
    then show ?thesis using m by (simp add: fr j_def fpack_def)
  next
    case False
    then have less: "L < e" using L by simp
    have "emin B64 \<le> L" by (simp add: L_def lsb_def)
    then have m52: "2 ^ 52 \<le> m" using less m(5) by simp
    have "(2::int) ^ 1 \<le> 2 ^ nat (e - L)" using less by (intro power_increasing) auto
    then have "2 ^ 52 * 2 \<le> j" unfolding j_def using m52 by (intro mult_mono) simp_all
    then have j2: "j = 2 ^ 53" using j by simp
    have "nat (e - L) = 1"
    proof (rule ccontr)
      assume "nat (e - L) \<noteq> 1"
      then have "(2::int) ^ 2 \<le> 2 ^ nat (e - L)" using less by (intro power_increasing) auto
      then have "2 ^ 52 * 4 \<le> j" unfolding j_def using m52 by (intro mult_mono) simp_all
      with j show False by simp
    qed
    then have "m = 2 ^ 52" "L + 1 = e" using j2 less by (simp_all add: j_def)
    then show ?thesis using j2 m(4) by (simp add: fr fpack_def)
  qed
qed

section \<open>The shortest decimal\<close>

lemma fround_sign: "fround f False n d = Fin False m e \<Longrightarrow> fround f s n d = Fin s m e"
proof -
  assume a: "fround f False n d = Fin False m e"
  define e0 where "e0 = max (ilog2 n d - int (prec f) + 1) (emin f)"
  define m0 where "m0 = half_even (n * 2 ^ nat (- e0)) (d * 2 ^ nat e0)"
  have "fround f s n d = (if n = 0 then Fin s 0 (emin f) else
    if m0 = 2 ^ prec f then fpack f s (2 ^ (prec f - 1)) (e0 + 1) else fpack f s m0 e0)" for s
    by (simp add: fround_def Let_def e0_def m0_def)
  with a show ?thesis by (auto simp: fpack_def split: if_splits)
qed

lemma dec_float_sign: "dec_float False n k = Fin False m e \<Longrightarrow> dec_float s n k = Fin s m e"
  unfolding dec_float_def by (rule fround_sign)

lemma seventeen_digits:
  assumes "pyf (Fin False m e)" "0 < m"
  shows "shortest_try m e 17 \<noteq> None"
proof -
  let ?n = "m * 2 ^ nat e" and ?d = "2 ^ nat (- e) :: int"
  define k where "k = dec_exp ?n ?d - int 17 + 1"
  let ?n' = "?n * 10 ^ nat (- k)" and ?d' = "?d * 10 ^ nat k"
  define x :: rat where "x = of_int m * p2 e"
  define c where "c = half_even ?n' ?d'"
  have nd: "0 < ?n" "0 < ?d" using assms(2) by simp_all
  have x: "of_int ?n / of_int ?d = x" unfolding x_def by (rule fround_exp_ratio)
  have x0: "0 < x" using assms(2) by (simp add: x_def)
  have "p10 (k + 16) \<le> x" using dec_exp_lower [OF nd] unfolding x by (simp add: k_def)
  then have small: "p10 k * 10000000000000000 \<le> x" by (simp add: power_int_add)
  have s: "(of_int ?n' :: rat) / of_int ?d' = x / p10 k"
    unfolding x [symmetric] using p10_ratio [of 1 k] by (simp add: field_simps)
  have "0 < ?d'" by simp
  then have "c = rhe (x / p10 k)" unfolding c_def by (subst half_even_rhe) (simp_all only: s)
  then have "\<bar>of_int c - x / p10 k\<bar> \<le> 1/2" using rhe_close [of "x / p10 k"] by simp
  then have near: "\<bar>of_int c * p10 k - x\<bar> \<le> p10 k / 2"
  proof -
    have "of_int c * p10 k - x = (of_int c - x / p10 k) * p10 k" by (simp add: field_simps)
    then have "\<bar>of_int c * p10 k - x\<bar> = \<bar>of_int c - x / p10 k\<bar> * p10 k" by (simp add: abs_mult)
    also have "\<dots> \<le> 1/2 * p10 k" by (rule mult_right_mono) (use \<open>\<bar>of_int c - x / p10 k\<bar> \<le> 1/2\<close> in simp_all)
    finally show ?thesis by simp
  qed
  have "0 < of_int c * p10 k" using abs_le_D2 [OF near] small x0 by linarith
  then have c0: "0 < c" using p10_pos(1) [of k] by (simp only: zero_less_mult_iff of_int_0_less_iff) linarith
  have y: "(of_int (c * 10 ^ nat k) :: rat) / of_int (10 ^ nat (- k)) = of_int c * p10 k" by (rule p10_ratio)
  have "\<bar>of_int (c * 10 ^ nat k) / of_int (10 ^ nat (- k)) - of_int m * p2 e\<bar> \<le> of_int m * p2 e / 20000000000000000"
    unfolding y x_def [symmetric] using near small by linarith
  from near_reads_back [OF assms _ _ this, of False] c0 have "dec_float False c k = Fin False m e"
    by (simp add: dec_float_def)
  then show ?thesis by (simp add: shortest_try_def Let_def k_def c_def)
qed

lemma first_some_cases:
  "(case first_some f xs of None \<Rightarrow> \<forall>x \<in> set xs. f x = None | Some y \<Rightarrow> \<exists>x \<in> set xs. f x = Some y)"
  by (induction xs) (auto split: option.splits)

lemma shortest_try_sound:
  assumes "shortest_try m e len = Some (c, k)" "0 < m"
  shows "dec_float False c k = Fin False m e" "0 < c"
proof -
  define n' where "n' = m * 2 ^ nat e * 10 ^ nat (- k)"
  define d' where "d' = 2 ^ nat (- e) * (10::int) ^ nat k"
  have pos: "0 \<le> n'" "0 < d'" using assms(2) by (simp_all add: n'_def d'_def)
  have h: "0 \<le> half_even n' d'" using pos by (simp add: half_even_def Let_def pos_imp_zdiv_nonneg_iff)
  have "dec_float False c k = Fin False m e \<and> (c = half_even n' d' \<or> c = half_even n' d' + 1 \<or>
      n' < half_even n' d' * d' \<and> c = half_even n' d' - 1)"
    using assms(1) by (auto simp: shortest_try_def Let_def n'_def d'_def split: if_splits)
  moreover have "0 < half_even n' d'" if "n' < half_even n' d' * d'" using that h pos by (cases "half_even n' d' = 0") auto
  ultimately have c: "dec_float False c k = Fin False m e" "0 \<le> c" using h by auto
  then show "dec_float False c k = Fin False m e" by simp
  have "c \<noteq> 0" using c(1) assms(2) by (auto simp: dec_float_def fround_def)
  then show "0 < c" using c(2) by simp
qed

lemma repr_digits_some:
  assumes "pyf (Fin False m e)" "0 < m"
  obtains c k where "repr_digits m e = Some (c, k)" "dec_float False c k = Fin False m e" "0 < c"
proof -
  have "17 \<in> set [1..<18]" by simp
  then have "repr_digits m e \<noteq> None"
    using first_some_cases [where f = "shortest_try m e" and xs = "[1..<18]"] seventeen_digits [OF assms]
    unfolding repr_digits_def by (auto split: option.splits)
  then obtain c k where r: "repr_digits m e = Some (c, k)" by auto
  then obtain len where "shortest_try m e len = Some (c, k)"
    using first_some_cases [where f = "shortest_try m e" and xs = "[1..<18]"]
    unfolding repr_digits_def by auto
  from shortest_try_sound [OF this assms(2)] have "dec_float False c k = Fin False m e" "0 < c" .
  with r that show thesis by blast
qed

section \<open>Layout and parsing\<close>

abbreviation digit_string :: "string \<Rightarrow> bool" where
  "digit_string ds \<equiv> ds \<noteq> [] \<and> (\<forall>c \<in> set ds. is_digit c)"

lemma digits_val_append: "digits_val (xs @ ys) = digits_val xs * 10 ^ length ys + digits_val ys"
proof (induction ys rule: rev_induct)
  case (snoc y ys)
  have "digits_val ((xs @ ys) @ [y]) = 10 * digits_val (xs @ ys) + (of_char y - 48)" by (rule digits_val_snoc)
  then show ?case using snoc by (simp add: digits_val_snoc algebra_simps)
qed (simp add: digits_val_def)

lemma zero_char: "is_digit CHR ''0''" "(of_char CHR ''0'' :: int) = 48"
  by (simp_all add: is_digit_def)

lemma zeros_digits: "\<forall>c \<in> set (zeros n). is_digit c"
  by (simp add: zeros_def zero_char)

lemma digits_val_zeros: "digits_val (replicate n CHR ''0'') = 0"
  by (induction n) (simp_all add: digits_val_def zero_char)

lemma fround_ratio:
  assumes "0 < n" "0 < d" "0 < n'" "0 < d'" "n * d' = n' * d"
  shows "fround f s n d = fround f s n' d'"
proof -
  have "(of_int n / of_int d :: rat) = of_int n' / of_int d'"
    using assms by (simp add: frac_eq_eq) (metis of_int_mult)
  then show ?thesis using fround_exact [OF assms(1,2)] fround_exact [OF assms(3,4)] by simp
qed

lemma dec_float_shift:
  assumes "0 < n"
  shows "dec_float s (n * 10 ^ j) k = dec_float s n (k + int j)"
proof -
  have "(10::int) ^ j * 10 ^ nat k * 10 ^ nat (- (k + int j)) = 10 ^ nat (k + int j) * 10 ^ nat (- k)"
    unfolding power_add [symmetric] by (rule arg_cong [where f = "(^) 10"]) linarith
  then have "n * ((10::int) ^ j * 10 ^ nat k * 10 ^ nat (- (k + int j))) = n * (10 ^ nat (k + int j) * 10 ^ nat (- k))"
    by (simp only:)
  then have "n * 10 ^ j * 10 ^ nat k * 10 ^ nat (- (k + int j)) = n * 10 ^ nat (k + int j) * 10 ^ nat (- k)"
    by (simp only: mult.assoc)
  then show ?thesis unfolding dec_float_def using assms by (intro fround_ratio) simp_all
qed

lemma strip_zeros_append: "\<exists>j. ds = strip_zeros ds @ replicate j CHR ''0''"
proof -
  have "ds = rev (takeWhile ((=) CHR ''0'') (rev ds) @ dropWhile ((=) CHR ''0'') (rev ds))" by simp
  also have "\<dots> = strip_zeros ds @ rev (takeWhile ((=) CHR ''0'') (rev ds))" unfolding strip_zeros_def rev_append ..
  finally have "ds = strip_zeros ds @ rev (takeWhile ((=) CHR ''0'') (rev ds))" .
  moreover have "takeWhile ((=) CHR ''0'') xs = replicate (length (takeWhile ((=) CHR ''0'') xs)) CHR ''0''" for xs
    by (induction xs) auto
  ultimately show ?thesis by (metis rev_replicate)
qed

text \<open>What \<^verbatim>\<open>float\<close> makes of digits, point, digits and exponent.\<close>

lemma parse_point:
  assumes "digit_string ip" "\<forall>c \<in> set fp. is_digit c" "r = [] \<or> \<not> is_digit (hd r)" "parse_exponent r = Some x"
  shows "parse_decimal neg (ip @ ''.'' @ fp @ r) = Inr (dec_float neg (digits_val (ip @ fp)) (x - int (length fp)))"
proof -
  have t: "takeWhile is_digit (xs @ ys) = xs" "dropWhile is_digit (xs @ ys) = ys"
    if "\<forall>c \<in> set xs. is_digit c" "ys = [] \<or> \<not> is_digit (hd ys)" for xs ys
    using that by (cases ys; simp add: takeWhile_append2 dropWhile_append2)+
  have "\<not> is_digit CHR ''.''" by (simp add: is_digit_def)
  then show ?thesis using t [of ip "''.'' @ fp @ r"] t [of fp r] assms
    by (simp add: parse_decimal_def)
qed

lemma parse_no_point:
  assumes "digit_string ip" "r = [] \<or> \<not> is_digit (hd r) \<and> hd r \<noteq> CHR ''.''" "parse_exponent r = Some x"
  shows "parse_decimal neg (ip @ r) = Inr (dec_float neg (digits_val ip) x)"
proof -
  have "takeWhile is_digit (ip @ r) = ip" "dropWhile is_digit (ip @ r) = r"
    using assms(1,2) by (cases r; simp add: takeWhile_append2 dropWhile_append2)+
  then show ?thesis using assms by (auto simp: parse_decimal_def)
qed

lemma parse_exp_digits: "parse_exponent (CHR ''e'' # exp_digits x) = Some x"
proof -
  let ?ds = "digits (nat \<bar>x\<bar>)"
  define es where "es = (if length ?ds < 2 then CHR ''0'' # ?ds else ?ds)"
  have "digits_val (CHR ''0'' # ?ds) = digits_val ?ds"
    using digits_val_append [of "[CHR ''0'']" ?ds] digits_val_zeros [of 1] by simp
  then have v: "digits_val es = \<bar>x\<bar>" by (simp add: es_def digits_val_digits)
  have d: "\<forall>c \<in> set es. is_digit c" "es \<noteq> []" using digits_are_digits zero_char by (auto simp: es_def)
  have x: "exp_digits x = (if x < 0 then CHR ''-'' # es else CHR ''+'' # es)" by (simp add: exp_digits_def es_def Let_def)
  show ?thesis unfolding x using d v by (simp add: parse_exponent_def sgi_def)
qed

lemma parse_layout:
  assumes "digit_string ds" "0 < digits_val ds"
  shows "parse_decimal neg (layout ds point) = Inr (dec_float neg (digits_val ds) (point - int (length ds)))"
proof -
  have e0: "parse_exponent [] = Some 0" by (simp add: parse_exponent_def)
  consider "- 4 < point" "point \<le> 0" | "0 < point" "int (length ds) \<le> point" "point \<le> 16"
    | "0 < point" "point < int (length ds)" "point \<le> 16" | "\<not> (- 4 < point \<and> point \<le> 16)" by linarith
  then show ?thesis
  proof cases
    case 1
    then have l: "layout ds point = ''0'' @ ''.'' @ (zeros (- point) @ ds) @ []" by (simp add: layout_def)
    have z: "digits_val (''0'' @ zeros (- point) @ ds) = digits_val ds"
      using digits_val_append [of "''0'' @ zeros (- point)" ds] digits_val_zeros [of "Suc (nat (- point))"]
      by (simp add: zeros_def)
    have "digit_string ''0''" "\<forall>c \<in> set (zeros (- point) @ ds). is_digit c"
      using zero_char zeros_digits assms(1) by auto
    from parse_point [OF this _ e0, of neg] z 1 show ?thesis unfolding l by (simp add: zeros_def)
  next
    case 2
    then have l: "layout ds point = (ds @ zeros (point - int (length ds))) @ ''.'' @ ''0'' @ []" by (simp add: layout_def)
    define j where "j = Suc (nat (point - int (length ds)))"
    have "zeros (point - int (length ds)) @ ''0'' = replicate j CHR ''0''"
      by (simp add: zeros_def j_def replicate_append_same)
    then have z: "digits_val ((ds @ zeros (point - int (length ds))) @ ''0'') = digits_val ds * 10 ^ j"
      by (simp add: digits_val_append [of ds] digits_val_zeros)
    have "digit_string (ds @ zeros (point - int (length ds)))" "\<forall>c \<in> set ''0''. is_digit c"
      using zero_char zeros_digits assms(1) by auto
    from parse_point [OF this _ e0, of neg] have
      "parse_decimal neg (layout ds point) = Inr (dec_float neg (digits_val ds * 10 ^ j) (- 1))" unfolding l z by simp
    moreover have "- 1 + int j = point - int (length ds)" using 2 by (simp add: j_def)
    ultimately show ?thesis using dec_float_shift [OF assms(2), of neg j "- 1"] by simp
  next
    case 3
    then have l: "layout ds point = take (nat point) ds @ ''.'' @ drop (nat point) ds @ []" by (simp add: layout_def)
    have "digit_string (take (nat point) ds)" "\<forall>c \<in> set (drop (nat point) ds). is_digit c"
      using assms(1) 3 by (auto dest: in_set_takeD in_set_dropD)
    from parse_point [OF this _ e0, of neg] 3 show ?thesis unfolding l by simp
  next
    case 4
    obtain c cs where ds: "ds = c # cs" using assms(1) by (cases ds) auto
    have n: "\<not> is_digit CHR ''e''" by (simp add: is_digit_def)
    show ?thesis
    proof (cases "cs = []")
      case True
      then have l: "layout ds point = [c] @ (CHR ''e'' # exp_digits (point - 1))" using 4 ds by (auto simp: layout_def)
      have "digit_string [c]" using assms(1) ds by simp
      from parse_no_point [OF this _ parse_exp_digits, of "point - 1" neg] n True show ?thesis unfolding l by (simp add: ds)
    next
      case False
      then have l: "layout ds point = [c] @ ''.'' @ cs @ (CHR ''e'' # exp_digits (point - 1))"
        using 4 ds by (auto simp: layout_def)
      have "digit_string [c]" "\<forall>c \<in> set cs. is_digit c" using assms(1) ds by auto
      from parse_point [OF this _ parse_exp_digits, of "point - 1" neg] n show ?thesis unfolding l by (simp add: ds diff_diff_eq)
    qed
  qed
qed

section \<open>Floats\<close>

lemma layout_shape:
  assumes "digit_string ds"
  shows "layout ds point \<noteq> []" "is_digit (hd (layout ds point))" "is_digit (last (layout ds point))"
    "CHR ''_'' \<notin> set (layout ds point)"
proof -
  obtain c cs where ds: "ds = c # cs" using assms by (cases ds) auto
  have nu: "CHR ''_'' \<notin> set (digits n)" for n using digits_are_digits digit_facts(2) by blast
  have e: "exp_digits x \<noteq> []" "is_digit (last (exp_digits x))" "CHR ''_'' \<notin> set (exp_digits x)" for x
    using digits_are_digits [OF last_in_set [OF digits_nonempty [of "nat \<bar>x\<bar>"]]] nu
    by (auto simp: exp_digits_def Let_def zero_char)
  have u: "CHR ''_'' \<notin> set ds" using assms digit_facts(2) by blast
  have h: "is_digit (hd ds)" "is_digit (last ds)" using assms by simp_all
  show "layout ds point \<noteq> []" by (simp add: layout_def)
  show "is_digit (hd (layout ds point))"
    using h zero_char assms by (auto simp: layout_def ds hd_append take_Cons')
  show "is_digit (last (layout ds point))"
    using h e zero_char assms by (auto simp: layout_def last_append last_drop)
  show "CHR ''_'' \<notin> set (layout ds point)"
    using u e(3) by (auto simp: layout_def ds zeros_def dest: in_set_takeD in_set_dropD)
qed

text \<open>A number text, with a minus or not, reaches the decimal parser.\<close>

lemma float_of_number:
  assumes "u \<noteq> []" "is_digit (hd u)" "is_digit (last u)" "CHR ''_'' \<notin> set u"
  shows "py_float_of_str ((if s then ''-'' else []) @ u) = parse_decimal s u"
proof -
  let ?t = "(if s then ''-'' else []) @ u"
  obtain c cs where u: "u = c # cs" using assms(1) by (cases u) auto
  have m: "\<not> is_space CHR ''-''" by (simp add: is_space_def)
  have "strip ?t = ?t" using assms(1) m digit_facts(1) [OF assms(2)] digit_facts(1) [OF assms(3)] by (intro strip_id) auto
  moreover have "drop_underscores False ?t = Some ?t" using assms(4) by (intro no_underscore) auto
  moreover have "split_sign ?t = (s, u)" using digit_facts(3,4) [OF assms(2)] by (auto simp: u)
  moreover have "map lower u \<notin> {''inf'', ''infinity''}" "map lower u \<noteq> ''nan''"
    using assms(2) digit_facts(10) [OF assms(2)] by (auto simp: u is_digit_def)
  ultimately show ?thesis by (simp add: py_float_of_str_def)
qed

lemma float_round_trip:
  assumes "pyf x"
  shows "py_float_of_str (py_repr_float x) = Inr x"
proof (cases x)
  case NaN
  then show ?thesis by simp code_simp
next
  case (Infin s)
  then show ?thesis by (cases s; simp; code_simp)
next
  case (Fin s m e)
  show ?thesis
  proof (cases "m = 0")
    case True
    then have e: "e = - 1074" using assms Fin by simp
    then show ?thesis using Fin True by (cases s; simp; code_simp)
  next
    case False
    then have m: "0 < m" using assms Fin by simp
    have c: "pyf (Fin False m e)" using assms Fin by simp
    from repr_digits_some [OF c m] obtain n k where
      r: "repr_digits m e = Some (n, k)" "dec_float False n k = Fin False m e" and n: "0 < n" .
    define ds where "ds = strip_zeros (digits (nat n))"
    obtain j where j: "digits (nat n) = ds @ replicate j CHR ''0''" using strip_zeros_append unfolding ds_def by blast
    have v: "digits_val ds * 10 ^ j = n"
      using digits_val_digits [of "nat n"] n unfolding j digits_val_append by (simp add: digits_val_zeros)
    then have "0 < digits_val ds * 10 ^ j" using n by simp
    then have pos: "0 < digits_val ds" by (simp add: zero_less_mult_iff)
    then have ne: "ds \<noteq> []" by (auto simp: digits_val_def)
    have "\<forall>c \<in> set ds. is_digit c" using digits_are_digits [of _ "nat n"] unfolding j by simp
    with ne have d: "digit_string ds" by blast
    have shown: "py_repr_float x = (if s then ''-'' else []) @ layout ds (k + int (length (digits (nat n))))"
      using Fin False r(1) by (simp add: ds_def Let_def)
    have "py_float_of_str (py_repr_float x) = parse_decimal s (layout ds (k + int (length (digits (nat n)))))"
      unfolding shown by (rule float_of_number) (rule layout_shape [OF d])+
    also have "\<dots> = Inr (dec_float s (digits_val ds) (k + int (length (digits (nat n))) - int (length ds)))"
      by (rule parse_layout [OF d pos])
    also have "k + int (length (digits (nat n))) - int (length ds) = k + int j" unfolding j by simp
    also have "dec_float s (digits_val ds) (k + int j) = dec_float s n k"
      using dec_float_shift [OF pos, of s j k] v by simp
    also have "\<dots> = x" using dec_float_sign [OF r(2)] Fin by simp
    finally show ?thesis .
  qed
qed

section \<open>Text forms\<close>

text \<open>What the logs rely on: a value in scope is written as text without a carriage return, and read back.\<close>

locale text_form =
  fixes show_value :: "'a \<Rightarrow> string" and read_value :: "string \<Rightarrow> 'a py" and ok :: "'a \<Rightarrow> bool"
  assumes read_show: "ok x \<Longrightarrow> read_value (show_value x) = Inr x"
    and one_line: "ok x \<Longrightarrow> CHR 0x0D \<notin> set (show_value x)"
begin

lemma show_inj: "ok x \<Longrightarrow> ok y \<Longrightarrow> show_value x = show_value y \<Longrightarrow> x = y"
  using read_show by (metis sum.inject(2))

lemma read_all: "\<forall>x \<in> set xs. ok x \<Longrightarrow> map (\<lambda>x. read_value (show_value x)) xs = map Inr xs"
  using read_show by simp

end

definition short_int :: "int \<Rightarrow> bool" where
  "short_int i \<longleftrightarrow> length (digits (nat \<bar>i\<bar>)) \<le> 4300"

lemma u16_short: "0 \<le> i \<Longrightarrow> i < 65536 \<Longrightarrow> short_int i"
proof -
  assume i: "0 \<le> i" "i < 65536"
  show ?thesis
  proof (cases "i = 0")
    case True
    then show ?thesis by (simp add: short_int_def digits.simps [of 0])
  next
    case False
    then have "(10::nat) ^ (length (digits (nat i)) - 1) \<le> nat i" using i by (intro digits_bounds(2)) simp
    also have "nat i < 10 ^ 5" using i by simp
    finally have "length (digits (nat i)) - 1 < 5" by (rule power_less_imp_less_exp [rotated]) simp
    then show ?thesis using i by (simp add: short_int_def)
  qed
qed

lemma digits_one_line: "CHR 0x0D \<notin> set (digits n)"
proof
  assume "CHR 0x0D \<in> set (digits n)"
  then have "is_digit (CHR 0x0D)" by (rule digits_are_digits)
  then show False by (simp add: is_digit_def)
qed

lemma layout_one_line:
  assumes "CHR 0x0D \<notin> set ds"
  shows "CHR 0x0D \<notin> set (layout ds point)"
  using assms digits_one_line
  by (auto simp: layout_def zeros_def exp_digits_def Let_def dest: in_set_takeD in_set_dropD split: list.splits)

lemma strip_zeros_subset: "set (strip_zeros ds) \<subseteq> set ds"
  unfolding strip_zeros_def by (metis set_dropWhileD set_rev subsetI)

lemma float_one_line: "CHR 0x0D \<notin> set (py_repr_float x)"
proof (cases x)
  case (Fin s m e)
  have "CHR 0x0D \<notin> set (strip_zeros (digits n))" for n using strip_zeros_subset digits_one_line by blast
  then show ?thesis using layout_one_line by (auto simp: Fin Let_def split: option.splits)
qed auto

interpretation float_text: text_form py_repr_float py_float_of_str pyf
  by unfold_locales (simp_all add: float_round_trip float_one_line)

interpretation int_text: text_form py_str_int py_int_of_str short_int
proof
  show "py_int_of_str (py_str_int i) = Inr i" if "short_int i" for i
    using that int_round_trip by (simp add: short_int_def)
  show "CHR 0x0D \<notin> set (py_str_int i)" for i using digits_one_line by (simp add: py_str_int_def)
qed

section \<open>Properties\<close>

text \<open>The text of a float is exact: \<^verbatim>\<open>float(repr(x))\<close> is \<open>x\<close> for every double, infinities, NaN, subnormal numbers and the two
  zeros included, so two doubles with the same text are the same double.\<close>

theorem repr_round_trip:
  assumes "pyf x" and "pyf y"
  shows "py_float_of_str (py_repr_float x) = Inr x \<and> (py_repr_float x = py_repr_float y \<longleftrightarrow> x = y)"
  using float_text.read_show [OF assms(1)] float_text.show_inj [OF assms] by blast

theorem repr_round_trip_witness:
  "py_repr_float (Fin False 5404319552844595 (- 54)) = ''0.3'' \<and>
   py_float_of_str ''0.3'' = Inr (Fin False 5404319552844595 (- 54))"
proof -
  have p: "pyf (Fin False 5404319552844595 (- 54))" by simp
  have "py_repr_float (Fin False 5404319552844595 (- 54)) = ''0.3''" by code_simp
  with repr_round_trip [OF p p] show ?thesis by simp
qed

end
