(* ===== verification/Csv.thy ===== *)
theory Csv
  imports Number_Text_Properties "HOL-Library.AList"
begin

text \<open>
  What the program uses of Python's \<^verbatim>\<open>csv\<close> module: the writer (comma, minimal quoting, CRLF), a text file
  read with universal newlines, the reader as the module's state machine over the lines of the file, and
  \<^verbatim>\<open>DictReader\<close>.  The reader's field size limit is left out.  Rows whose fields hold no carriage return come back
  as they were written.
\<close>

section \<open>Writing\<close>

abbreviation CR :: char where "CR \<equiv> CHR 0x0D"
abbreviation LF :: char where "LF \<equiv> CHR 0x0A"
abbreviation QUOTE :: char where "QUOTE \<equiv> CHR 0x22"
abbreviation COMMA :: char where "COMMA \<equiv> CHR '',''"

definition needs_quotes :: "string \<Rightarrow> bool" where
  "needs_quotes s \<longleftrightarrow> (\<exists>c \<in> set s. c \<in> {COMMA, QUOTE, LF, CR})"

definition double_quotes :: "string \<Rightarrow> string" where
  "double_quotes s = concat (map (\<lambda>c. if c = QUOTE then [QUOTE, QUOTE] else [c]) s)"

definition csv_field :: "string \<Rightarrow> string" where
  "csv_field s = (if needs_quotes s then QUOTE # double_quotes s @ [QUOTE] else s)"

fun join :: "string \<Rightarrow> string list \<Rightarrow> string" where
  "join sep [] = []"
| "join sep [s] = s"
| "join sep (s # t # ts) = s @ sep @ join sep (t # ts)"

text \<open>\<^verbatim>\<open>writerow\<close>; a row of one empty field is quoted.\<close>

definition csv_row :: "string list \<Rightarrow> string" where
  "csv_row fields = (if fields = [[]] then [QUOTE, QUOTE] else join [COMMA] (map csv_field fields)) @ [CR, LF]"

definition csv_file :: "string list list \<Rightarrow> string" where
  "csv_file rows = concat (map csv_row rows)"

section \<open>Reading\<close>

fun universal_newlines :: "string \<Rightarrow> string" where
  "universal_newlines [] = []"
| "universal_newlines [c] = [if c = CR then LF else c]"
| "universal_newlines (c # d # cs) =
     (if c = CR then LF # (if d = LF then universal_newlines cs else universal_newlines (d # cs))
      else c # universal_newlines (d # cs))"

text \<open>The lines of a text, each with its newline.\<close>

fun file_lines :: "string \<Rightarrow> string list" where
  "file_lines [] = []"
| "file_lines (c # cs) = (if c = LF then [c] # file_lines cs
     else case file_lines cs of [] \<Rightarrow> [[c]] | l # ls \<Rightarrow> (c # l) # ls)"

datatype csv_state = StartRecord | StartField | InField | InQuotedField | QuoteInQuotedField | EatCrnl

record csv_reader =
  cr_state :: csv_state
  cr_field :: string
  cr_fields :: "string list"

definition csv_start :: csv_reader where
  "csv_start = \<lparr>cr_state = StartRecord, cr_field = [], cr_fields = []\<rparr>"

definition save_field :: "csv_state \<Rightarrow> csv_reader \<Rightarrow> csv_reader" where
  "save_field st r = \<lparr>cr_state = st, cr_field = [], cr_fields = cr_fields r @ [cr_field r]\<rparr>"

definition add_char :: "csv_state \<Rightarrow> char \<Rightarrow> csv_reader \<Rightarrow> csv_reader" where
  "add_char st c r = r\<lparr>cr_state := st, cr_field := cr_field r @ [c]\<rparr>"

text \<open>One character, or the end of the line (\<open>None\<close>).\<close>

fun start_field :: "char option \<Rightarrow> csv_reader \<Rightarrow> csv_reader" where
  "start_field None r = save_field StartRecord r"
| "start_field (Some c) r = (if c \<in> {LF, CR} then save_field EatCrnl r
     else if c = QUOTE then r\<lparr>cr_state := InQuotedField\<rparr>
     else if c = COMMA then save_field StartField r
     else add_char InField c r)"

definition csv_char :: "char option \<Rightarrow> csv_reader \<Rightarrow> csv_reader py" where
  "csv_char ev r = (case cr_state r of
     StartRecord \<Rightarrow> (case ev of
         None \<Rightarrow> Inr r
       | Some c \<Rightarrow> if c \<in> {LF, CR} then Inr (r\<lparr>cr_state := EatCrnl\<rparr>) else Inr (start_field ev r))
   | StartField \<Rightarrow> Inr (start_field ev r)
   | InField \<Rightarrow> (case ev of
         None \<Rightarrow> Inr (save_field StartRecord r)
       | Some c \<Rightarrow> if c \<in> {LF, CR} then Inr (save_field EatCrnl r)
           else if c = COMMA then Inr (save_field StartField r)
           else Inr (add_char InField c r))
   | InQuotedField \<Rightarrow> (case ev of
         None \<Rightarrow> Inr r
       | Some c \<Rightarrow> if c = QUOTE then Inr (r\<lparr>cr_state := QuoteInQuotedField\<rparr>) else Inr (add_char InQuotedField c r))
   | QuoteInQuotedField \<Rightarrow> (case ev of
         None \<Rightarrow> Inr (save_field StartRecord r)
       | Some c \<Rightarrow> if c = QUOTE then Inr (add_char InQuotedField c r)
           else if c = COMMA then Inr (save_field StartField r)
           else if c \<in> {LF, CR} then Inr (save_field EatCrnl r)
           else Inr (add_char InField c r))
   | EatCrnl \<Rightarrow> (case ev of
         None \<Rightarrow> Inr (r\<lparr>cr_state := StartRecord\<rparr>)
       | Some c \<Rightarrow> if c \<in> {LF, CR} then Inr r else Inl CsvError))"

fun csv_line :: "string \<Rightarrow> csv_reader \<Rightarrow> csv_reader py" where
  "csv_line [] r = csv_char None r"
| "csv_line (c # cs) r = py_bind (csv_char (Some c) r) (csv_line cs)"

text \<open>The next record, \<open>None\<close> at the end of the file, and the lines left.\<close>

fun csv_record :: "string list \<Rightarrow> csv_reader \<Rightarrow> (string list option \<times> string list) py" where
  "csv_record [] r = Inr (if cr_field r \<noteq> [] \<or> cr_state r = InQuotedField then Some (cr_fields r @ [cr_field r]) else None, [])"
| "csv_record (l # ls) r = py_bind (csv_line l r) (\<lambda>r.
     if cr_state r = StartRecord then Inr (Some (cr_fields r), ls) else csv_record ls r)"

lemma csv_record_length:
  "csv_record ls r = Inr (Some row, ls') \<Longrightarrow> ls = [] \<and> r \<noteq> csv_start \<or> length ls' < length ls"
proof (induction ls arbitrary: r)
  case (Cons l ls)
  then show ?case by (fastforce simp: py_bind_Inr_iff split: if_splits)
qed (auto simp: csv_start_def split: if_splits)

function csv_rows :: "string list \<Rightarrow> string list list py" where
  "csv_rows ls = (case csv_record ls csv_start of
     Inl e \<Rightarrow> Inl e
   | Inr (None, _) \<Rightarrow> Inr []
   | Inr (Some row, ls') \<Rightarrow> py_bind (csv_rows ls') (\<lambda>rows. Inr (row # rows)))"
  by pat_completeness auto
termination
  by (relation "measure length") (auto dest!: sym [of "Inr _"] csv_record_length)

declare csv_rows.simps [simp del]

definition csv_read :: "string \<Rightarrow> string list list py" where
  "csv_read text = csv_rows (file_lines (universal_newlines text))"

section \<open>DictReader\<close>

text \<open>A value is a field, \<^verbatim>\<open>None\<close> for a field the row lacks, or the list of the fields beyond the header
  (under the key \<^verbatim>\<open>None\<close>).\<close>

datatype cell = Text string | Missing | Extra "string list"

type_synonym dict_row = "(string option \<times> cell) list"

definition dict_row :: "string list \<Rightarrow> string list \<Rightarrow> dict_row" where
  "dict_row names row =
    (let d = foldl (\<lambda>d (k, v). AList.update (Some k) (Text v) d) [] (zip names row) in
     if length names < length row then AList.update None (Extra (drop (length names) row)) d
     else if length row < length names then foldl (\<lambda>d k. AList.update (Some k) Missing d) d (drop (length row) names)
     else d)"

definition dict_rows :: "string \<Rightarrow> dict_row list py" where
  "dict_rows text = py_bind (csv_read text) (\<lambda>rows. Inr (case rows of
     [] \<Rightarrow> []
   | names # rows \<Rightarrow> map (dict_row names) (filter (\<lambda>row. row \<noteq> []) rows)))"

section \<open>Reading what was written\<close>

lemma newlines_plain: "CR \<notin> set s \<Longrightarrow> universal_newlines (s @ t) = s @ universal_newlines t"
proof (induction s)
  case (Cons c s)
  have "c \<noteq> CR" using Cons.prems by auto
  then have "universal_newlines (c # u) = c # universal_newlines u" for u by (cases u) simp_all
  then show ?case using Cons by simp
qed simp

lemma newlines_crlf: "universal_newlines (CR # LF # t) = LF # universal_newlines t"
  by simp

text \<open>The reader, character by character.\<close>

lemma record_char:
  assumes "c \<noteq> LF" "t \<noteq> []"
  shows "csv_record (file_lines (c # t)) r = py_bind (csv_char (Some c) r) (csv_record (file_lines t))"
proof -
  have "file_lines t \<noteq> []" using assms(2) by (cases t) (auto split: list.splits)
  then obtain l ls where l: "file_lines t = l # ls" by (cases "file_lines t") auto
  then show ?thesis using assms(1) by (cases "csv_char (Some c) r") simp_all
qed

lemma record_newline:
  "csv_record (file_lines (LF # t)) r = py_bind (csv_char (Some LF) r) (\<lambda>r. py_bind (csv_char None r) (\<lambda>r.
     if cr_state r = StartRecord then Inr (Some (cr_fields r), file_lines t) else csv_record (file_lines t) r))"
  by (cases "csv_char (Some LF) r") simp_all

lemma record_unquoted:
  assumes "\<not> needs_quotes s" "t \<noteq> []" "cr_state r = InField"
  shows "csv_record (file_lines (s @ t)) r = csv_record (file_lines t) (r\<lparr>cr_state := InField, cr_field := cr_field r @ s\<rparr>)"
  using assms
proof (induction s arbitrary: r)
  case Nil
  then show ?case by (cases r) simp
next
  case (Cons c s)
  have c: "c \<noteq> LF" "c \<noteq> CR" "c \<noteq> COMMA" "\<not> needs_quotes s" using Cons.prems(1) by (auto simp: needs_quotes_def)
  have "csv_record (file_lines ((c # s) @ t)) r = csv_record (file_lines (s @ t)) (add_char InField c r)"
    using c Cons.prems(2,3) by (simp add: record_char csv_char_def del: file_lines.simps)
  also have "\<dots> = csv_record (file_lines t) (r\<lparr>cr_state := InField, cr_field := cr_field r @ c # s\<rparr>)"
    using Cons.IH [of "add_char InField c r"] c(4) Cons.prems(2,3) by (simp add: add_char_def)
  finally show ?case .
qed

lemma record_quoted:
  assumes "t \<noteq> []" "cr_state r = InQuotedField"
  shows "csv_record (file_lines (double_quotes s @ QUOTE # t)) r =
    csv_record (file_lines t) (r\<lparr>cr_field := cr_field r @ s, cr_state := QuoteInQuotedField\<rparr>)"
  using assms
proof (induction s arbitrary: r)
  case Nil
  then show ?case by (simp add: double_quotes_def record_char csv_char_def del: file_lines.simps)
next
  case (Cons c s)
  let ?u = "double_quotes s @ QUOTE # t"
  have dq: "double_quotes (c # s) = (if c = QUOTE then [QUOTE, QUOTE] else [c]) @ double_quotes s"
    by (simp add: double_quotes_def)
  have "csv_record (file_lines (double_quotes (c # s) @ QUOTE # t)) r = csv_record (file_lines ?u) (add_char InQuotedField c r)"
  proof (cases "c = QUOTE")
    case True
    then show ?thesis using Cons.prems(2) unfolding dq
      by (simp add: record_char csv_char_def add_char_def del: file_lines.simps)
  next
    case False
    show ?thesis
    proof (cases "c = LF")
      case True
      then show ?thesis using Cons.prems(2) unfolding dq
        by (simp add: record_newline csv_char_def add_char_def del: file_lines.simps)
    next
      case nl: False
      then show ?thesis using False Cons.prems(2) unfolding dq
        by (simp add: record_char csv_char_def del: file_lines.simps)
    qed
  qed
  also have "\<dots> = csv_record (file_lines t) (r\<lparr>cr_field := cr_field r @ c # s, cr_state := QuoteInQuotedField\<rparr>)"
    using Cons.IH [of "add_char InQuotedField c r"] Cons.prems by (simp add: add_char_def)
  finally show ?case .
qed

text \<open>After a field the reader is at its end, with the field in hand.\<close>

definition field_read :: "string \<Rightarrow> string list \<Rightarrow> csv_reader \<Rightarrow> bool" where
  "field_read s fs r \<longleftrightarrow> cr_field r = s \<and> cr_fields r = fs \<and>
     (cr_state r \<in> {InField, QuoteInQuotedField} \<or> cr_state r = StartField \<and> s = [])"

lemma record_field:
  assumes "t \<noteq> []" "cr_state r = StartField \<or> cr_state r = StartRecord \<and> s \<noteq> []" "cr_field r = []"
  shows "\<exists>r'. field_read s (cr_fields r) r' \<and>
    csv_record (file_lines (csv_field s @ t)) r = csv_record (file_lines t) r'"
proof (cases "needs_quotes s")
  case True
  have "csv_char (Some QUOTE) r = Inr (r\<lparr>cr_state := InQuotedField\<rparr>)" using assms(2) by (auto simp: csv_char_def)
  then have "csv_record (file_lines (csv_field s @ t)) r =
      csv_record (file_lines (double_quotes s @ QUOTE # t)) (r\<lparr>cr_state := InQuotedField\<rparr>)"
    using True by (simp add: csv_field_def record_char del: file_lines.simps)
  also have "\<dots> = csv_record (file_lines t) (r\<lparr>cr_field := s, cr_state := QuoteInQuotedField\<rparr>)"
    using record_quoted [OF assms(1), of "r\<lparr>cr_state := InQuotedField\<rparr>" s] assms(3) by simp
  finally show ?thesis by (intro exI [of _ "r\<lparr>cr_field := s, cr_state := QuoteInQuotedField\<rparr>"]) (simp add: field_read_def)
next
  case False
  show ?thesis
  proof (cases s)
    case Nil
    then show ?thesis using assms False by (intro exI [of _ r]) (auto simp: field_read_def csv_field_def)
  next
    case (Cons c u)
    have c: "c \<noteq> LF" "c \<noteq> CR" "c \<noteq> COMMA" "c \<noteq> QUOTE" "\<not> needs_quotes u" using False Cons by (auto simp: needs_quotes_def)
    have "csv_char (Some c) r = Inr (add_char InField c r)" using assms(2) c by (auto simp: csv_char_def)
    then have "csv_record (file_lines (csv_field s @ t)) r = csv_record (file_lines (u @ t)) (add_char InField c r)"
      using False Cons c assms(1) by (simp add: csv_field_def record_char del: file_lines.simps)
    also have "\<dots> = csv_record (file_lines t) (r\<lparr>cr_state := InField, cr_field := s\<rparr>)"
      using record_unquoted [OF c(5) assms(1), of "add_char InField c r"] assms(3) Cons by (simp add: add_char_def)
    finally show ?thesis by (intro exI [of _ "r\<lparr>cr_state := InField, cr_field := s\<rparr>"]) (simp add: field_read_def)
  qed
qed

lemma record_comma:
  assumes "field_read s fs r" "t \<noteq> []"
  shows "csv_record (file_lines (COMMA # t)) r =
    csv_record (file_lines t) \<lparr>cr_state = StartField, cr_field = [], cr_fields = fs @ [s]\<rparr>"
proof -
  have "csv_char (Some COMMA) r = Inr \<lparr>cr_state = StartField, cr_field = [], cr_fields = fs @ [s]\<rparr>"
    using assms(1) by (auto simp: csv_char_def field_read_def save_field_def)
  then show ?thesis using assms(2) by (simp add: record_char del: file_lines.simps)
qed

lemma record_end:
  assumes "field_read s fs r"
  shows "csv_record (file_lines (LF # t)) r = Inr (Some (fs @ [s]), file_lines t)"
proof -
  have "csv_char (Some LF) r = Inr \<lparr>cr_state = EatCrnl, cr_field = [], cr_fields = fs @ [s]\<rparr>"
    using assms(1) by (auto simp: csv_char_def field_read_def save_field_def)
  then show ?thesis by (simp add: record_newline csv_char_def del: file_lines.simps)
qed

lemma record_fields:
  assumes "fs \<noteq> []" "cr_state r = StartField \<or> cr_state r = StartRecord \<and> hd fs \<noteq> []" "cr_field r = []"
  shows "csv_record (file_lines (join [COMMA] (map csv_field fs) @ LF # t)) r = Inr (Some (cr_fields r @ fs), file_lines t)"
  using assms
proof (induction fs arbitrary: r rule: induct_list012)
  case (2 s)
  obtain r' where "field_read s (cr_fields r) r'"
    "csv_record (file_lines (csv_field s @ LF # t)) r = csv_record (file_lines (LF # t)) r'"
    using record_field [of "LF # t" r s] 2 by auto
  then show ?case using record_end [of s "cr_fields r" r' t] by simp
next
  case (3 s u us)
  let ?t = "join [COMMA] (map csv_field (u # us)) @ LF # t"
  let ?r = "\<lparr>cr_state = StartField, cr_field = [], cr_fields = cr_fields r @ [s]\<rparr>"
  obtain r' where "field_read s (cr_fields r) r'"
    "csv_record (file_lines (csv_field s @ COMMA # ?t)) r = csv_record (file_lines (COMMA # ?t)) r'"
    using record_field [of "COMMA # ?t" r s] 3(4,5) by auto
  then have "csv_record (file_lines (csv_field s @ COMMA # ?t)) r = csv_record (file_lines ?t) ?r"
    using record_comma [of s "cr_fields r" r' ?t] by simp
  then show ?case using 3(2) [of ?r] by simp
qed simp

text \<open>A row at the start of a record; a first field that is empty is followed by a comma or quoted.\<close>

lemma record_row:
  "csv_record (file_lines ((if fs = [[]] then [QUOTE, QUOTE] else join [COMMA] (map csv_field fs)) @ LF # t)) csv_start =
    Inr (Some fs, file_lines t)"
proof -
  consider "fs = []" | "fs = [[]]" | "fs \<noteq> []" "hd fs \<noteq> []" | u us where "fs = [] # u # us"
    by (metis list.collapse)
  then show ?thesis
  proof cases
    case 1
    then show ?thesis by (simp add: record_newline csv_char_def csv_start_def del: file_lines.simps)
  next
    case 2
    then show ?thesis
      by (simp add: record_char record_newline csv_char_def csv_start_def save_field_def del: file_lines.simps)
  next
    case 3
    then show ?thesis using record_fields [of fs csv_start t] by (auto simp: csv_start_def)
  next
    case 4
    let ?t = "join [COMMA] (map csv_field (u # us)) @ LF # t"
    have "csv_record (file_lines (COMMA # ?t)) csv_start = csv_record (file_lines ?t) \<lparr>cr_state = StartField, cr_field = [], cr_fields = [[]]\<rparr>"
      by (simp add: record_char csv_char_def csv_start_def save_field_def del: file_lines.simps)
    then show ?thesis using record_fields [of "u # us" "\<lparr>cr_state = StartField, cr_field = [], cr_fields = [[]]\<rparr>" t]
      by (simp add: 4 csv_field_def needs_quotes_def)
  qed
qed

lemma no_cr_row:
  assumes "\<forall>s \<in> set fs. CR \<notin> set s"
  shows "CR \<notin> set (if fs = [[]] then [QUOTE, QUOTE] else join [COMMA] (map csv_field fs))"
proof -
  have "CR \<notin> set (csv_field s)" if "CR \<notin> set s" for s using that by (auto simp: csv_field_def double_quotes_def)
  then have "CR \<notin> set (join [COMMA] (map csv_field fs))"
    using assms by (induction fs rule: induct_list012) auto
  then show ?thesis by simp
qed

lemma csv_rows_file:
  assumes "\<forall>row \<in> set rows. \<forall>s \<in> set row. CR \<notin> set s"
  shows "csv_read (csv_file rows) = Inr rows"
  using assms
proof (induction rows)
  case Nil
  show ?case by (simp add: csv_read_def csv_file_def csv_rows.simps [of "[]"] csv_start_def)
next
  case (Cons row rows)
  let ?x = "if row = [[]] then [QUOTE, QUOTE] else join [COMMA] (map csv_field row)"
  let ?t = "universal_newlines (csv_file rows)"
  have "CR \<notin> set ?x" by (rule no_cr_row) (use Cons.prems in simp)
  then have "universal_newlines (csv_file (row # rows)) = ?x @ LF # ?t"
    by (simp add: csv_file_def csv_row_def newlines_plain newlines_crlf)
  then have "csv_read (csv_file (row # rows)) = csv_rows (file_lines (?x @ LF # ?t))" by (simp only: csv_read_def)
  also have "\<dots> = py_bind (csv_rows (file_lines ?t)) (\<lambda>rows. Inr (row # rows))"
    by (subst csv_rows.simps) (simp only: record_row sum.case prod.case option.case)
  finally show ?case using Cons by (simp add: csv_read_def)
qed

end
