(* ===== verification/Plot_Results.thy ===== *)
theory Plot_Results
  imports Scenarios
begin

unbundle bit_operations_syntax

text \<open>
  \<^verbatim>\<open>scripts/plot_results.py\<close>: what the comparison plots show.  Modelled are the recomputed oracle run, the
  stopping distance integrated from a log, and the DTC timeline; the logs are read
  in \<open>Log_Files\<close>, the drawing is in \<open>Figures\<close>.  The recomputed run is the offline simulation's oracle run.
\<close>

section \<open>The oracle run, recomputed\<close>

record oracle_log =
  ol_t :: "pyfloat list"
  ol_v :: "pyfloat list"
  ol_omega :: "pyfloat list"
  ol_slip :: "pyfloat list"
  ol_brake_cmd :: "pyfloat list"

record plot_run =
  pr_veh :: vehicle
  pr_ctrl :: oracle_abs
  pr_cmd :: pyfloat
  pr_log :: oracle_log

definition plot_control :: "int \<Rightarrow> int \<Rightarrow> plot_run \<Rightarrow> plot_run py" where
  "plot_control step_per_ctrl k p =
    (if step_per_ctrl = 0 then Inl ZeroDivisionError
     else if k mod step_per_ctrl = 0
     then let slip = (if ol_slip (pr_log p) \<noteq> [] then last (ol_slip (pr_log p)) else f0);
              (cmd, ctrl) = oracle_step slip (vs_v (vh_state (pr_veh p))) (flit 100 1) (pr_ctrl p)
          in Inr (p\<lparr>pr_cmd := cmd, pr_ctrl := ctrl\<rparr>)
     else Inr p)"

definition plot_tick :: "libm \<Rightarrow> pyfloat \<Rightarrow> int \<Rightarrow> int \<Rightarrow> plot_run \<Rightarrow> plot_run py" where
  "plot_tick lm dt step_per_ctrl k p =
     py_bind (plot_control step_per_ctrl k p) (\<lambda>p.
     py_bind (vehicle_step lm (pr_veh p) (pr_cmd p) dt) (\<lambda>(out, veh).
     let lg = pr_log p in
     Inr (p\<lparr>pr_veh := veh, pr_log := lg\<lparr>
       ol_t := ol_t lg @ [vs_t (vh_state veh)],
       ol_v := ol_v lg @ [vs_v (vh_state veh)],
       ol_omega := ol_omega lg @ [vs_omega (vh_state veh)],
       ol_slip := ol_slip lg @ [so_slip out],
       ol_brake_cmd := ol_brake_cmd lg @ [so_brake_pressure out]\<rparr>\<rparr>)))"

fun plot_loop :: "libm \<Rightarrow> pyfloat \<Rightarrow> int \<Rightarrow> int list \<Rightarrow> plot_run \<Rightarrow> plot_run py" where
  "plot_loop lm dt step_per_ctrl [] p = Inr p"
| "plot_loop lm dt step_per_ctrl (k # ks) p = (if stopped (pr_veh p) then Inr p
     else py_bind (plot_tick lm dt step_per_ctrl k p) (plot_loop lm dt step_per_ctrl ks))"

definition run_python_oracle :: "libm \<Rightarrow> pyfloat \<Rightarrow> pyfloat \<Rightarrow> oracle_log py" where
  "run_python_oracle lm duration_s dt =
     py_bind (PacejkaTire ''dry_asphalt'') (\<lambda>tire.
     py_bind (Vehicle VehicleParams tire (flit 2778 100)) (\<lambda>veh.
     py_bind (fdiv (flit 10 1000) dt) (\<lambda>q. py_bind (py_int_round q) (\<lambda>step_per_ctrl.
     py_bind (fdiv duration_s dt) (\<lambda>q2. py_bind (py_int_round q2) (\<lambda>n.
     py_bind (plot_loop lm dt step_per_ctrl [0..n - 1]
       \<lparr>pr_veh = veh, pr_ctrl = OracleABS_default, pr_cmd = f0,
        pr_log = \<lparr>ol_t = [], ol_v = [], ol_omega = [], ol_slip = [], ol_brake_cmd = []\<rparr>\<rparr>)
       (\<lambda>p. Inr (pr_log p))))))))"

section \<open>Distance and DTCs of a log\<close>

text \<open>The trapezoid rule over a log's times and speeds; the built-in \<^verbatim>\<open>sum\<close> is a parameter.\<close>

definition integrate_distance :: "(pyfloat list \<Rightarrow> pyfloat) \<Rightarrow> pyfloat list \<Rightarrow> pyfloat list \<Rightarrow> pyfloat py" where
  "integrate_distance py_sum t v = (if 2 \<le> length t \<and> length v < length t then Inl IndexError
     else Inr (py_sum (map (\<lambda>i. fmul (fmul (flit 5 10) (fadd (v ! i) (v ! (i + 1)))) (fsub (t ! (i + 1)) (t ! i)))
       [0..<length t - 1])))"

text \<open>The bars of the summary plot: red for a scenario that latched.\<close>

definition bar_colour :: "int list \<Rightarrow> string" where
  "bar_colour states = (if \<exists>s \<in> set states. s = ECU_FAULT_LATCHED then ''tab:red'' else ''tab:green'')"

definition plot_DTC_NAMES :: "(int \<times> string) list" where
  "plot_DTC_NAMES = [(DTC_SENSOR_STUCK, ''STUCK''), (DTC_SENSOR_NOISE, ''NOISE''), (DTC_COMM_TIMEOUT, ''COMM_TIMEOUT''),
     (DTC_COMM_CRC, ''COMM_CRC''), (DTC_SENSOR_RANGE, ''SENSOR_RANGE''), (DTC_PLAUSIBILITY, ''PLAUSIBILITY'')]"

text \<open>The curves of the DTC timeline: one for each DTC that was raised, with its label.\<close>

definition dtc_curves :: "int list \<Rightarrow> (string \<times> int list) list" where
  "dtc_curves dtcs = filter (\<lambda>(name, bits). \<exists>b \<in> set bits. b \<noteq> 0)
     (map (\<lambda>(bit_value, name). (name, map (\<lambda>d. if d AND bit_value \<noteq> 0 then 1 else 0) dtcs)) plot_DTC_NAMES)"

section \<open>Properties\<close>

text \<open>The simulation and the recomputed run, sample by sample.\<close>

definition plot_same :: "sim_state \<Rightarrow> plot_run \<Rightarrow> bool" where
  "plot_same s p \<longleftrightarrow> ss_veh s = pr_veh p \<and> ss_controller s = Some (pr_ctrl p) \<and> ss_brake_cmd s = pr_cmd p \<and>
     vh_params (pr_veh p) = VehicleParams \<and> sl_t (ss_log s) = ol_t (pr_log p) \<and> sl_v (ss_log s) = ol_v (pr_log p) \<and>
     sl_omega_R (ss_log s) = map (\<lambda>w. fmul w (wheel_radius VehicleParams)) (ol_omega (pr_log p)) \<and>
     sl_slip (ss_log s) = ol_slip (pr_log p) \<and> sl_brake_cmd (ss_log s) = ol_brake_cmd (pr_log p) \<and>
     length (ol_v (pr_log p)) = length (ol_t (pr_log p)) \<and> length (ol_omega (pr_log p)) = length (ol_t (pr_log p)) \<and>
     length (ol_slip (pr_log p)) = length (ol_t (pr_log p)) \<and> length (ol_brake_cmd (pr_log p)) = length (ol_t (pr_log p))"

lemma vehicle_step_params: "vehicle_step lm veh bp dt = Inr (out, veh') \<Longrightarrow> vh_params veh' = vh_params veh"
  by (auto simp: vehicle_step_def Let_def py_bind_Inr_iff)

lemma plot_same_tick:
  assumes "plot_same s p"
  shows "case sim_tick lm 10 k s of Inl e \<Rightarrow> plot_tick lm DT_PLANT 10 k p = Inl e
    | Inr s' \<Rightarrow> \<exists>p'. plot_tick lm DT_PLANT 10 k p = Inr p' \<and> plot_same s' p'"
proof -
  obtain p1 where p1: "plot_control 10 k p = Inr p1" "plot_same (sim_control 10 k s) p1"
  proof (cases "k mod 10 = 0")
    case True
    obtain cmd ctrl where "oracle_step (if ol_slip (pr_log p) \<noteq> [] then last (ol_slip (pr_log p)) else f0)
      (vs_v (vh_state (pr_veh p))) DRIVER_PEDAL_BAR (pr_ctrl p) = (cmd, ctrl)" by force
    then show thesis using assms True
      by (cases "ol_slip (pr_log p) = []"; intro that [of "p\<lparr>pr_cmd := cmd, pr_ctrl := ctrl\<rparr>"])
        (simp_all add: plot_control_def sim_control_def plot_same_def loop_controller_def DRIVER_PEDAL_BAR_def)
  next
    case False
    then show thesis using assms by (intro that [of p]) (simp_all add: plot_control_def sim_control_def)
  qed
  show ?thesis
  proof (cases "vehicle_step lm (pr_veh p1) (pr_cmd p1) DT_PLANT")
    case (Inl e)
    with p1 show ?thesis by (simp add: sim_tick_def plot_tick_def plot_same_def Let_def)
  next
    case (Inr r)
    obtain out veh where r: "r = (out, veh)" by force
    have "vh_params veh = VehicleParams"
      using vehicle_step_params Inr r p1(2) by (auto simp: plot_same_def)
    with p1 Inr r show ?thesis
      by (simp add: sim_tick_def plot_tick_def plot_same_def Let_def log_sample_def)
  qed
qed

lemma plot_same_loop:
  "plot_same s p \<Longrightarrow> case sim_loop lm 10 ks s of Inl e \<Rightarrow> plot_loop lm DT_PLANT 10 ks p = Inl e
    | Inr s' \<Rightarrow> \<exists>p'. plot_loop lm DT_PLANT 10 ks p = Inr p' \<and>
        (plot_same s' p' \<or> (\<exists>s1. plot_same s1 p' \<and> ss_log s' = log_sample (ss_veh s1) f0 f0 (ss_brake_cmd s1) (ss_log s1)))"
proof (induction ks arbitrary: s p)
  case (Cons k ks)
  note t = plot_same_tick [OF Cons.prems, of lm k]
  have v: "ss_veh s = pr_veh p" using Cons.prems by (simp add: plot_same_def)
  show ?case
  proof (cases "stopped (pr_veh p)")
    case True
    then show ?thesis using v Cons.prems by auto
  next
    case False
    show ?thesis
    proof (cases "sim_tick lm 10 k s")
      case (Inl e)
      then show ?thesis using t v False by simp
    next
      case (Inr s1)
      then obtain p1 where p1: "plot_tick lm DT_PLANT 10 k p = Inr p1" "plot_same s1 p1" using t by auto
      have e: "plot_loop lm DT_PLANT 10 (k # ks) p = plot_loop lm DT_PLANT 10 ks p1" using False p1(1) by simp
      have "sim_loop lm 10 (k # ks) s = sim_loop lm 10 ks s1" using False v Inr by simp
      then show ?thesis unfolding e using Cons.IH [OF p1(2)] by simp
    qed
  qed
qed simp

text \<open>The run that the plots show as the Python oracle is the offline simulation's oracle run on dry asphalt:
  the same exception, or the same times, speeds, wheel speeds (times the radius), slips and commands,
  up to the one padding sample that the simulation appends after the stop.\<close>

theorem python_oracle_is_run_oracle:
  "case run_oracle lm ''dry_asphalt'' of
     Inl e \<Rightarrow> run_python_oracle lm SIM_DURATION DT_PLANT = Inl e
   | Inr lg \<Rightarrow> \<exists>pl n. run_python_oracle lm SIM_DURATION DT_PLANT = Inr pl \<and> length (sl_t lg) \<in> {n, n + 1} \<and>
       ol_t pl = take n (sl_t lg) \<and> ol_v pl = take n (sl_v lg) \<and>
       map (\<lambda>w. fmul w (wheel_radius VehicleParams)) (ol_omega pl) = take n (sl_omega_R lg) \<and>
       ol_slip pl = take n (sl_slip lg) \<and> ol_brake_cmd pl = take n (sl_brake_cmd lg)"
proof -
  obtain tire where t: "PacejkaTire ''dry_asphalt'' = Inr tire" using PacejkaTire_dry by blast
  have v0: "fwithin 0 128 INITIAL_SPEED" unfolding INITIAL_SPEED_def by (rule fwithin_weaken [OF v0_within]) simp_all
  from Vehicle_ok [OF t v0] obtain veh where
    v: "Vehicle VehicleParams tire INITIAL_SPEED = Inr veh" "vh_params veh = VehicleParams" by blast
  let ?s = "\<lparr>ss_veh = veh, ss_controller = Some OracleABS_default, ss_brake_cmd = f0, ss_log = empty_log ''oracle''\<rparr>"
  let ?p = "\<lparr>pr_veh = veh, pr_ctrl = OracleABS_default, pr_cmd = f0,
    pr_log = \<lparr>ol_t = [], ol_v = [], ol_omega = [], ol_slip = [], ol_brake_cmd = []\<rparr>\<rparr>"
  have sim: "run_oracle lm ''dry_asphalt'' = py_bind (sim_loop lm 10 (map int [0..<6000]) ?s) (\<lambda>s. Inr (ss_log s))"
    using run_cases(2) [OF t v(1)] by (simp add: run_loop_eq)
  obtain q r where "fdiv DT_CONTROL DT_PLANT = Inr q" "py_int_round q = Inr 10"
    "fdiv SIM_DURATION DT_PLANT = Inr r" "py_int_round r = Inr 6000"
    using loop_steps by (auto simp: py_bind_Inr_iff)
  moreover have "map int [0..<6000] = [0..6000 - 1]" using map_int_upt [of 6000] by simp
  ultimately have plot: "run_python_oracle lm SIM_DURATION DT_PLANT =
      py_bind (plot_loop lm DT_PLANT 10 (map int [0..<6000]) ?p) (\<lambda>p. Inr (pr_log p))"
    using t v(1) by (simp add: run_python_oracle_def DT_CONTROL_def INITIAL_SPEED_def)
  have start: "plot_same ?s ?p" using v(2) by (simp add: plot_same_def empty_log_def)
  note l = plot_same_loop [OF start, of lm "map int [0..<6000]"]
  show ?thesis
  proof (cases "sim_loop lm 10 (map int [0..<6000]) ?s")
    case (Inl e)
    then show ?thesis using l unfolding sim plot by simp
  next
    case (Inr s')
    then obtain p' where p': "plot_loop lm DT_PLANT 10 (map int [0..<6000]) ?p = Inr p'"
      "plot_same s' p' \<or> (\<exists>s1. plot_same s1 p' \<and> ss_log s' = log_sample (ss_veh s1) f0 f0 (ss_brake_cmd s1) (ss_log s1))"
      using l by auto
    show ?thesis unfolding sim plot Inr p'(1) py_bind_simps sum.case
      using p'(2)
      by (intro exI [of _ "pr_log p'"] exI [of _ "length (ol_t (pr_log p'))"])
        (auto simp: plot_same_def log_sample_def)
  qed
qed

text \<open>The DTC timeline and the printed summary agree: the curves of a log carry exactly the labels that the
  summary lists for the union of its DTCs, in the same order.\<close>

theorem timeline_matches_summary:
  "map fst (dtc_curves (sr_dtc r)) = dtc_labels (dtc_union r)"
proof -
  have "(\<exists>b \<in> set (map (\<lambda>d. if d AND m \<noteq> 0 then 1 else 0 :: int) (sr_dtc r)). b \<noteq> 0) \<longleftrightarrow> dtc_union r AND m \<noteq> 0" for m
    using foldl_or_zero [of 0 "sr_dtc r" m] unfolding set_map bex_simps by (auto simp: dtc_union_def)
  then have "(\<lambda>(name, bits). \<exists>b \<in> set bits. b \<noteq> 0) \<circ>
      (\<lambda>(m, name). (name, map (\<lambda>d. if d AND m \<noteq> 0 then 1 else 0 :: int) (sr_dtc r))) =
    (\<lambda>(m, name :: string). dtc_union r AND m \<noteq> 0)" by (simp add: fun_eq_iff)
  then show ?thesis
    by (simp add: dtc_curves_def dtc_labels_def plot_DTC_NAMES_def [folded DTC_NAMES_def] filter_map comp_def case_prod_beta')
qed

end
