(* ===== verification/Log_Files.thy ===== *)
theory Log_Files
  imports Csv Sil_Test Plot_Results
begin

text \<open>
  The CSV logs: \<^verbatim>\<open>SimLog.write_csv\<close>, \<^verbatim>\<open>ScenarioResult.to_csv\<close> and \<^verbatim>\<open>SilRun.to_csv\<close> write them,
  \<^verbatim>\<open>load_csv\<close> of \<^verbatim>\<open>plot_results.py\<close> reads them back.  A file is its text; creating directories and opening files are
  left out.
\<close>

section \<open>Writing the logs\<close>

text \<open>\<^verbatim>\<open>zip\<close> stops at the shortest list.\<close>

fun shortest :: "nat list \<Rightarrow> nat" where
  "shortest [n] = n"
| "shortest (n # ns) = min n (shortest ns)"
| "shortest [] = 0"

definition scenario_row :: "scenario_result \<Rightarrow> nat \<Rightarrow> string list" where
  "scenario_row r i = [py_repr_float (sr_t r ! i), py_repr_float (sr_v r ! i), py_repr_float (sr_omega r ! i),
     py_repr_float (sr_slip r ! i), py_repr_float (sr_brake_cmd r ! i), py_str_int (sr_state r ! i), py_str_int (sr_dtc r ! i),
     join '';'' (sr_active_faults r ! i)]"

definition scenario_to_csv :: "scenario_result \<Rightarrow> string" where
  "scenario_to_csv r = csv_file ([''t'', ''v'', ''omega'', ''slip'', ''brake_cmd'', ''state'', ''dtc'', ''active_faults''] #
     map (scenario_row r) [0..<shortest [length (sr_t r), length (sr_v r), length (sr_omega r), length (sr_slip r),
       length (sr_brake_cmd r), length (sr_state r), length (sr_dtc r), length (sr_active_faults r)]])"

definition sim_row :: "sim_log \<Rightarrow> nat \<Rightarrow> string list" where
  "sim_row lg i = [py_repr_float (sl_t lg ! i), py_repr_float (sl_v lg ! i), py_repr_float (sl_omega_R lg ! i),
     py_repr_float (sl_slip lg ! i), py_repr_float (sl_mu lg ! i), py_repr_float (sl_brake_cmd lg ! i), py_repr_float (sl_x lg ! i)]"

definition sim_write_csv :: "sim_log \<Rightarrow> string" where
  "sim_write_csv lg = csv_file ([''t'', ''v'', ''omega_R'', ''slip'', ''mu'', ''brake_cmd'', ''x''] #
     map (sim_row lg) [0..<shortest [length (sl_t lg), length (sl_v lg), length (sl_omega_R lg), length (sl_slip lg),
       length (sl_mu lg), length (sl_brake_cmd lg), length (sl_x lg)]])"

definition sil_row :: "sil_run \<Rightarrow> nat \<Rightarrow> string list" where
  "sil_row r i = [py_repr_float (sb_ts r ! i), py_repr_float (sb_vs r ! i), py_repr_float (sb_omegas r ! i),
     py_repr_float (sb_slips r ! i), py_repr_float (sb_brakes r ! i), py_str_int (sb_states r ! i), py_str_int (sb_dtcs r ! i)]"

definition sil_to_csv :: "sil_run \<Rightarrow> string" where
  "sil_to_csv r = csv_file ([''t'', ''v'', ''omega'', ''slip'', ''brake_cmd'', ''state'', ''dtc''] #
     map (sil_row r) [0..<shortest [length (sb_ts r), length (sb_vs r), length (sb_omegas r), length (sb_slips r),
       length (sb_brakes r), length (sb_states r), length (sb_dtcs r)]])"

section \<open>Reading a log\<close>

datatype column = Cells "cell list" | Floats "pyfloat list" | Ints "int list"

type_synonym columns = "(string option \<times> column) list"

text \<open>\<^verbatim>\<open>cols.setdefault(k, []).append(v)\<close> over the items of a row.\<close>

definition append_cell :: "string option \<Rightarrow> cell \<Rightarrow> columns \<Rightarrow> columns" where
  "append_cell k v cols = (case map_of cols k of
     Some (Cells vs) \<Rightarrow> AList.update k (Cells (vs @ [v])) cols
   | _ \<Rightarrow> AList.update k (Cells [v]) cols)"

definition add_row :: "columns \<Rightarrow> dict_row \<Rightarrow> columns" where
  "add_row cols row = foldl (\<lambda>cols (k, v). append_cell k v cols) cols row"

fun cell_float :: "cell \<Rightarrow> pyfloat py" where
  "cell_float (Text s) = py_float_of_str s"
| "cell_float Missing = Inl TypeError"
| "cell_float (Extra ss) = Inl TypeError"

fun cell_int :: "cell \<Rightarrow> int py" where
  "cell_int (Text s) = py_int_of_str s"
| "cell_int Missing = Inl TypeError"
| "cell_int (Extra ss) = Inl TypeError"

fun py_map :: "('a \<Rightarrow> 'b py) \<Rightarrow> 'a list \<Rightarrow> 'b list py" where
  "py_map f [] = Inr []"
| "py_map f (x # xs) = py_bind (f x) (\<lambda>y. py_bind (py_map f xs) (\<lambda>ys. Inr (y # ys)))"

definition convert :: "(cell list \<Rightarrow> column py) \<Rightarrow> string \<Rightarrow> columns \<Rightarrow> columns py" where
  "convert f k cols = (case map_of cols (Some k) of
     Some (Cells cs) \<Rightarrow> py_bind (f cs) (\<lambda>c. Inr (AList.update (Some k) c cols))
   | _ \<Rightarrow> Inr cols)"

fun convert_all :: "(cell list \<Rightarrow> column py) \<Rightarrow> string list \<Rightarrow> columns \<Rightarrow> columns py" where
  "convert_all f [] cols = Inr cols"
| "convert_all f (k # ks) cols = py_bind (convert f k cols) (convert_all f ks)"

definition to_floats :: "cell list \<Rightarrow> column py" where
  "to_floats cs = py_bind (py_map cell_float cs) (\<lambda>xs. Inr (Floats xs))"

definition to_ints :: "cell list \<Rightarrow> column py" where
  "to_ints cs = py_bind (py_map cell_int cs) (\<lambda>xs. Inr (Ints xs))"

definition load_csv :: "string \<Rightarrow> columns py" where
  "load_csv text = py_bind (dict_rows text) (\<lambda>rows.
     py_bind (convert_all to_floats [''t'', ''v'', ''omega'', ''slip'', ''brake_cmd''] (foldl add_row [] rows))
       (convert_all to_ints [''state'', ''dtc'']))"

section \<open>Lemmas\<close>

lemma py_map_Inr: "\<forall>x \<in> set xs. f x = Inr (g x) \<Longrightarrow> py_map f xs = Inr (map g xs)"
  by (induction xs) simp_all

context text_form
begin

lemma column_read:
  assumes "\<And>s. cell_read (Text s) = read_value s" "\<forall>x \<in> set xs. ok x" "length xs = n"
  shows "py_map cell_read (map (\<lambda>i. Text (show_value (xs ! i))) [0..<n]) = Inr xs"
proof -
  have "py_map cell_read (map (\<lambda>x. Text (show_value x)) xs) = Inr xs"
    using assms(1,2) read_show by (induction xs) simp_all
  moreover have "map (\<lambda>i. Text (show_value (xs ! i))) [0..<n] = map (\<lambda>x. Text (show_value x)) xs"
    using assms(3) by (intro nth_equalityI) simp_all
  ultimately show ?thesis by simp
qed

end

lemma floats_read:
  assumes "\<forall>x \<in> set xs. pyf x" "length xs = n"
  shows "to_floats (map (\<lambda>i. Text (py_repr_float (xs ! i))) [0..<n]) = Inr (Floats xs)"
  using float_text.column_read [of cell_float xs n] assms by (simp add: to_floats_def)

lemma ints_read:
  assumes "\<forall>i \<in> set xs. 0 \<le> i \<and> i < 65536" "length xs = n"
  shows "to_ints (map (\<lambda>i. Text (py_str_int (xs ! i))) [0..<n]) = Inr (Ints xs)"
  using int_text.column_read [of cell_int xs n] assms u16_short by (simp add: to_ints_def)

text \<open>The columns of a scenario log from its rows.\<close>

lemma add_scenario_row:
  "add_row [(Some ''t'', Cells xa), (Some ''v'', Cells xb), (Some ''omega'', Cells xc), (Some ''slip'', Cells xd), (Some ''brake_cmd'', Cells xe), (Some ''state'', Cells xf), (Some ''dtc'', Cells xg), (Some ''active_faults'', Cells xh)]
    [(Some ''t'', Text (a i)), (Some ''v'', Text (b i)), (Some ''omega'', Text (c i)),
      (Some ''slip'', Text (d i)), (Some ''brake_cmd'', Text (e i)), (Some ''state'', Text (f i)), (Some ''dtc'', Text (g i)),
      (Some ''active_faults'', Text (h i))] =
   [(Some ''t'', Cells (xa @ [Text (a i)])), (Some ''v'', Cells (xb @ [Text (b i)])), (Some ''omega'', Cells (xc @ [Text (c i)])), (Some ''slip'', Cells (xd @ [Text (d i)])), (Some ''brake_cmd'', Cells (xe @ [Text (e i)])), (Some ''state'', Cells (xf @ [Text (f i)])), (Some ''dtc'', Cells (xg @ [Text (g i)])), (Some ''active_faults'', Cells (xh @ [Text (h i)]))]"
  by (simp add: add_row_def append_cell_def)

lemma scenario_columns:
  assumes "is \<noteq> []"
  shows "foldl add_row [] (map (\<lambda>i. [(Some ''t'', Text (a i)), (Some ''v'', Text (b i)), (Some ''omega'', Text (c i)),
      (Some ''slip'', Text (d i)), (Some ''brake_cmd'', Text (e i)), (Some ''state'', Text (f i)), (Some ''dtc'', Text (g i)),
      (Some ''active_faults'', Text (h i))]) is) =
   [(Some ''t'', Cells (map (\<lambda>i. Text (a i)) is)), (Some ''v'', Cells (map (\<lambda>i. Text (b i)) is)), (Some ''omega'', Cells (map (\<lambda>i. Text (c i)) is)), (Some ''slip'', Cells (map (\<lambda>i. Text (d i)) is)), (Some ''brake_cmd'', Cells (map (\<lambda>i. Text (e i)) is)), (Some ''state'', Cells (map (\<lambda>i. Text (f i)) is)), (Some ''dtc'', Cells (map (\<lambda>i. Text (g i)) is)), (Some ''active_faults'', Cells (map (\<lambda>i. Text (h i)) is))]"
  using assms
proof (induction "is" rule: rev_nonempty_induct)
  case (single i)
  show ?case by (simp add: add_row_def append_cell_def)
next
  case (snoc i "is")
  show ?case using add_scenario_row by (simp only: map_append foldl_append snoc list.map foldl.simps)
qed

definition one_line_names :: "string list list \<Rightarrow> bool" where
  "one_line_names nss \<longleftrightarrow> (\<forall>ns \<in> set nss. \<forall>s \<in> set ns. CR \<notin> set s)"

lemma join_one_line: "CR \<notin> set sep \<Longrightarrow> \<forall>s \<in> set ss. CR \<notin> set s \<Longrightarrow> CR \<notin> set (join sep ss)"
  by (induction sep ss rule: join.induct) auto

definition log_in_scope :: "nat \<Rightarrow> scenario_result \<Rightarrow> bool" where
  "log_in_scope n r \<longleftrightarrow> length (sr_t r) = n \<and> length (sr_v r) = n \<and> length (sr_omega r) = n \<and> length (sr_slip r) = n \<and>
     length (sr_brake_cmd r) = n \<and> length (sr_state r) = n \<and> length (sr_dtc r) = n \<and> length (sr_active_faults r) = n \<and>
     (\<forall>x \<in> set (sr_t r) \<union> set (sr_v r) \<union> set (sr_omega r) \<union> set (sr_slip r) \<union> set (sr_brake_cmd r). pyf x) \<and>
     (\<forall>i \<in> set (sr_state r) \<union> set (sr_dtc r). 0 \<le> i \<and> i < 65536) \<and> one_line_names (sr_active_faults r)"

lemma scenario_read:
  assumes "log_in_scope n r"
  shows "csv_read (scenario_to_csv r) = Inr ([''t'', ''v'', ''omega'', ''slip'', ''brake_cmd'', ''state'', ''dtc'', ''active_faults''] #
    map (scenario_row r) [0..<n])"
proof -
  have f: "CR \<notin> set (py_repr_float x)" "CR \<notin> set (py_str_int i)" for x i
    using float_one_line digits_one_line by (simp_all add: py_str_int_def)
  have n: "CR \<notin> set (join '';'' (sr_active_faults r ! i))" if "i < n" for i
    using that assms by (intro join_one_line) (auto simp: log_in_scope_def one_line_names_def)
  have "\<forall>s \<in> set (scenario_row r i). CR \<notin> set s" if "i < n" for i using f n [OF that] by (simp add: scenario_row_def)
  moreover have "scenario_to_csv r = csv_file ([''t'', ''v'', ''omega'', ''slip'', ''brake_cmd'', ''state'', ''dtc'', ''active_faults''] #
    map (scenario_row r) [0..<n])" using assms by (simp add: scenario_to_csv_def log_in_scope_def)
  ultimately show ?thesis by (simp only:) (intro csv_rows_file; auto)
qed

lemma scenario_dict_row:
  "dict_row [''t'', ''v'', ''omega'', ''slip'', ''brake_cmd'', ''state'', ''dtc'', ''active_faults''] (scenario_row r i) =
    [(Some ''t'', Text (py_repr_float (sr_t r ! i))), (Some ''v'', Text (py_repr_float (sr_v r ! i))),
     (Some ''omega'', Text (py_repr_float (sr_omega r ! i))), (Some ''slip'', Text (py_repr_float (sr_slip r ! i))),
     (Some ''brake_cmd'', Text (py_repr_float (sr_brake_cmd r ! i))), (Some ''state'', Text (py_str_int (sr_state r ! i))),
     (Some ''dtc'', Text (py_str_int (sr_dtc r ! i))), (Some ''active_faults'', Text (join '';'' (sr_active_faults r ! i)))]"
  by (simp add: dict_row_def scenario_row_def)

lemma scenario_loads:
  assumes "log_in_scope n r" "0 < n"
  shows "load_csv (scenario_to_csv r) = Inr
    [(Some ''t'', Floats (sr_t r)), (Some ''v'', Floats (sr_v r)), (Some ''omega'', Floats (sr_omega r)),
     (Some ''slip'', Floats (sr_slip r)), (Some ''brake_cmd'', Floats (sr_brake_cmd r)), (Some ''state'', Ints (sr_state r)),
     (Some ''dtc'', Ints (sr_dtc r)), (Some ''active_faults'', Cells (map (\<lambda>ns. Text (join '';'' ns)) (sr_active_faults r)))]"
proof -
  have n: "[0..<n] \<noteq> []" using assms(2) by simp
  have a: "map (\<lambda>i. Text (join '';'' (sr_active_faults r ! i))) [0..<n] = map (\<lambda>ns. Text (join '';'' ns)) (sr_active_faults r)"
    using assms(1) by (intro nth_equalityI) (simp_all add: log_in_scope_def)
  have ne: "filter (\<lambda>row. row \<noteq> []) (map (scenario_row r) [0..<n]) = map (scenario_row r) [0..<n]"
    by (intro filter_True) (simp add: scenario_row_def)
  have rows: "dict_rows (scenario_to_csv r) = Inr (map (\<lambda>i. dict_row
      [''t'', ''v'', ''omega'', ''slip'', ''brake_cmd'', ''state'', ''dtc'', ''active_faults''] (scenario_row r i)) [0..<n])"
    unfolding dict_rows_def scenario_read [OF assms(1)] by (simp add: ne comp_def)
  have "\<forall>x \<in> set (sr_t r). pyf x" "\<forall>x \<in> set (sr_v r). pyf x" "\<forall>x \<in> set (sr_omega r). pyf x" "\<forall>x \<in> set (sr_slip r). pyf x"
    "\<forall>x \<in> set (sr_brake_cmd r). pyf x" "\<forall>i \<in> set (sr_state r). 0 \<le> i \<and> i < 65536" "\<forall>i \<in> set (sr_dtc r). 0 \<le> i \<and> i < 65536"
    "length (sr_t r) = n" "length (sr_v r) = n" "length (sr_omega r) = n" "length (sr_slip r) = n" "length (sr_brake_cmd r) = n"
    "length (sr_state r) = n" "length (sr_dtc r) = n"
    using assms(1) by (simp_all add: log_in_scope_def)
  note fl = floats_read [OF this(1,8)] floats_read [OF this(2,9)] floats_read [OF this(3,10)] floats_read [OF this(4,11)]
    floats_read [OF this(5,12)] ints_read [OF this(6,13)] ints_read [OF this(7,14)]
  show ?thesis
    unfolding load_csv_def rows py_bind_simps scenario_dict_row scenario_columns [OF n]
    by (simp add: convert_def fl a)
qed

end
