(* ===== verification/Log_Properties.thy ===== *)
theory Log_Properties
  imports Log_Files Harness_Properties
begin

text \<open>
  The log of a scenario survives the disk: whatever the run, what \<^verbatim>\<open>load_csv\<close> reads back from the file is what was
  recorded.  The invariant is that every recorded value is one the file can hold.
\<close>

section \<open>The values of a run\<close>

lemma actuator_unpack_bounds:
  assumes "actuator_unpack bs = Inr a"
  shows "0 \<le> af_ecu_status a" "af_ecu_status a < 65536" "0 \<le> af_dtc_code a" "af_dtc_code a < 65536"
proof -
  have "length bs = 12" using assms by (simp add: actuator_unpack_def ACTUATOR_SIZE_def split: if_splits)
  then show "0 \<le> af_ecu_status a" "af_ecu_status a < 65536" "0 \<le> af_dtc_code a" "af_dtc_code a < 65536"
    using assms le_int_bounds [of "take 2 (drop 8 bs)"] le_int_bounds [of "drop 10 bs"]
    by (auto simp: actuator_unpack_def ACTUATOR_SIZE_def)
qed

text \<open>The faults keep their names.\<close>

lemma apply_to_sensor_name: "apply_to_sensor gauss f frame t = (out, f') \<Longrightarrow> ft_name f' = ft_name f"
  by (auto simp: apply_to_sensor_def stuck_apply_def noisy_apply_def range_apply_def comm_loss_apply_def Let_def
      split: fault_kind.splits if_splits)

lemma filter_sensor_names: "map ft_name (snd (filter_sensor gauss t fs out)) = map ft_name fs"
  by (induction gauss t fs out rule: filter_sensor.induct) (auto split: prod.splits dest: apply_to_sensor_name)

lemma mutate_wire_name: "mutate_wire f n off c w t = Inr (w', f') \<Longrightarrow> ft_name f' = ft_name f"
  by (auto simp: mutate_wire_def Let_def py_bind_Inr_iff split: if_splits)

lemma filter_wire_names: "filter_wire t fs w = Inr (w', fs') \<Longrightarrow> map ft_name fs' = map ft_name fs"
proof (induction fs arbitrary: w w' fs')
  case (Cons f fs)
  obtain w1 f1 fs1 where 1: "(case ft_kind f of CrcCorruptionFault n off c \<Rightarrow> mutate_wire f n off c w t | _ \<Rightarrow> Inr (w, f)) = Inr (w1, f1)"
    "filter_wire t fs w1 = Inr (w', fs1)" "fs' = f1 # fs1"
    using Cons.prems by (auto simp: py_bind_Inr_iff)
  have "ft_name f1 = ft_name f" using 1(1) mutate_wire_name by (cases "ft_kind f") auto
  with Cons.IH [OF 1(2)] 1(3) show ?case by simp
qed simp

lemma apply_in_plant_name: "apply_in_plant f tg r tire t = Inr (tire', f') \<Longrightarrow> ft_name f' = ft_name f"
  by (auto simp: apply_in_plant_def Let_def py_bind_Inr_iff split: if_splits option.splits)

lemma environment_names: "apply_environment t fs tire = Inr (tire', fs') \<Longrightarrow> map ft_name fs' = map ft_name fs"
proof (induction fs arbitrary: tire fs')
  case (Cons f fs)
  obtain tire1 f1 fs1 where 1: "(case ft_kind f of IcePatchFault tg r \<Rightarrow> apply_in_plant f tg r tire t | _ \<Rightarrow> Inr (tire, f)) = Inr (tire1, f1)"
    "apply_environment t fs tire1 = Inr (tire', fs1)" "fs' = f1 # fs1"
    using Cons.prems by (auto simp: py_bind_Inr_iff)
  have "ft_name f1 = ft_name f" using 1(1) apply_in_plant_name by (cases "ft_kind f") auto
  with Cons.IH [OF 1(2)] 1(3) show ?case by simp
qed simp

section \<open>The invariant\<close>

definition values_ok :: "scenario_result \<Rightarrow> bool" where
  "values_ok r \<longleftrightarrow> (\<forall>x \<in> set (sr_t r) \<union> set (sr_brake_cmd r). pyf x) \<and>
     (\<forall>i \<in> set (sr_state r) \<union> set (sr_dtc r). 0 \<le> i \<and> i < 65536) \<and> one_line_names (sr_active_faults r)"

definition names_ok :: "fault_injector \<Rightarrow> bool" where
  "names_ok fs \<longleftrightarrow> (\<forall>f \<in> set fs. CR \<notin> set (ft_name f))"

definition recordable :: "bench \<Rightarrow> bool" where
  "recordable b \<longleftrightarrow> values_ok (bn_result b) \<and> names_ok (bn_faults b)"

lemma names_ok_names: "names_ok fs \<longleftrightarrow> (\<forall>s \<in> set (map ft_name fs). CR \<notin> set s)"
  by (simp add: names_ok_def)

lemma names_ok_map: "map ft_name fs = map ft_name fs' \<Longrightarrow> names_ok fs \<Longrightarrow> names_ok fs'"
  by (simp add: names_ok_names del: set_map)

lemma sense_recordable:
  assumes "tick_sense gauss env k t b = Inr (fr, b')" "recordable b"
  shows "recordable b'"
proof -
  obtain tire fs ms where e: "apply_environment t (bn_faults b) (vh_tire (bn_veh b)) = Inr (tire, fs)" "now_ms (be_clock env k) = Inr ms"
    using assms(1) by (auto simp: tick_sense_def py_bind_Inr_iff)
  have "\<exists>raw. bn_faults b' = snd (filter_sensor gauss t fs raw) \<and> bn_result b' = bn_result b"
    using assms(1) e by (auto simp: tick_sense_def Let_def split: prod.splits) (metis snd_conv)
  then obtain raw where b': "bn_faults b' = snd (filter_sensor gauss t fs raw)" "bn_result b' = bn_result b" by blast
  have "map ft_name (bn_faults b) = map ft_name (bn_faults b')"
    unfolding b' filter_sensor_names environment_names [OF e(1)] ..
  from names_ok_map [OF this] assms(2) b'(2) show ?thesis by (simp add: recordable_def)
qed

lemma send_recordable:
  assumes "tick_send env k t fr b = Inr (go, b')" "recordable b"
  shows "recordable b'"
proof (cases fr)
  case None
  with assms show ?thesis by (simp add: tick_send_def)
next
  case (Some frame)
  obtain p w w' fs where w: "sensor_pack frame = Inr p" "encode_frame TYPE_SENSOR p = Inr w"
    "filter_wire t (bn_faults b) w = Inr (w', fs)" using assms(1) Some by (auto simp: tick_send_def py_bind_Inr_iff)
  have b': "bn_faults b' = fs" "bn_result b' = bn_result b"
    using assms(1) Some w by (auto simp: tick_send_def Let_def split: sum.splits if_splits)
  have "map ft_name (bn_faults b) = map ft_name (bn_faults b')" unfolding b' filter_wire_names [OF w(3)] ..
  from names_ok_map [OF this] assms(2) b'(2) show ?thesis by (simp add: recordable_def)
qed

lemma receive_recordable:
  assumes "tick_receive env k b = Some (Inr (a, b'))" "bench_ok n b"
  shows "0 \<le> af_ecu_status a" "af_ecu_status a < 65536" "0 \<le> af_dtc_code a" "af_dtc_code a < 65536"
proof -
  obtain r link evs where v: "recv_actuator (bn_recv b) (bn_link b) = Some (r, link, evs)"
    using assms(1) by (auto simp: tick_receive_def split: option.splits)
  then obtain x where x: "r = Inr x" using assms(1) by (cases r) (auto simp: tick_receive_def)
  have "(0 \<le> af_ecu_status a \<and> af_ecu_status a < 65536) \<and> 0 \<le> af_dtc_code a \<and> af_dtc_code a < 65536"
  proof (cases x)
    case None
    with v x assms show ?thesis
      by (auto simp: tick_receive_def Let_def py_bind_Inr_iff ECU_FAULT_DEGRADED_def DTC_COMM_TIMEOUT_def)
  next
    case (Some c)
    then obtain bs where "actuator_unpack bs = Inr c" using recv_actuator_unpack v unfolding x Some by blast
    from actuator_unpack_bounds [OF this] v x Some assms show ?thesis by (auto simp: tick_receive_def Let_def)
  qed
  then show "0 \<le> af_ecu_status a" "af_ecu_status a < 65536" "0 \<le> af_dtc_code a" "af_dtc_code a < 65536" by simp_all
qed

lemma plant_recordable:
  assumes "libm_ok lm" "bench_ok n b" "recordable b" "tick_plant lm t a b = Inr b'" "pyf (af_brake_command a)"
    "0 \<le> af_ecu_status a" "af_ecu_status a < 65536" "0 \<le> af_dtc_code a" "af_dtc_code a < 65536"
  shows "recordable b'"
proof -
  have "bench_ok (Suc n) b'" using tick_plant_ok [OF assms(1,2), of t a] assms(4) by auto
  then have "pyf (vs_t (vh_state (bn_veh b')))" by (simp add: bench_ok_def vehicle_ok_def)
  moreover obtain veh s where v: "b' = b\<lparr>bn_veh := veh, bn_result := tick_log veh s a (active_names (bn_faults b) t) (bn_result b)\<rparr>"
    using assms(4) by (auto simp: tick_plant_def py_bind_Inr_iff)
  moreover have "\<forall>s \<in> set (active_names (bn_faults b) t). CR \<notin> set s"
    using assms(3) by (auto simp: recordable_def names_ok_def active_names_def)
  ultimately show ?thesis using assms(3,5-9)
    by (auto simp: recordable_def values_ok_def one_line_names_def tick_log_def)
qed

lemma tick_recordable:
  assumes lm: "libm_ok lm" and ok: "bench_ok n b" and rec: "recordable b"
    and t: "bench_tick lm gauss env k b = Some (Inr (go, b'))" and nan: "NaN \<notin> set (sr_brake_cmd (bn_result b'))"
  shows "recordable b'"
  using t
proof (cases rule: bench_tick_parts)
  case (1 fr b0)
  then show ?thesis using sense_recordable send_recordable rec by blast
next
  case (2 fr b0 b1 a b2)
  note s0 = tick_sense_ok [OF 2(1) ok]
  note s1 = tick_send_ok [OF 2(2) conjunct1 [OF s0]]
  note s2 = tick_receive_ok [OF 2(3) conjunct1 [OF s1]]
  have "af_brake_command a \<in> set (sr_brake_cmd (bn_result b'))"
    using 2(4) by (auto simp: tick_plant_def py_bind_Inr_iff tick_log_def)
  then have b2: "bench_ok n b2" using s2 nan by auto
  have "recordable b1" using send_recordable [OF 2(2) sense_recordable [OF 2(1) rec]] .
  then have r2: "recordable b2" using s2 by (simp add: recordable_def)
  from plant_recordable [OF lm b2 r2 2(4) _ receive_recordable [OF 2(3) conjunct1 [OF s1]]] s2
  show ?thesis by blast
qed

lemma run_recordable:
  assumes "libm_ok lm" "fwithin 0 128 (sc_v0_mps cfg)"
    and run: "run_scenario lm gauss env lsn acc evs cfg injector = Some (Inr r)"
    and "NaN \<notin> set (sr_brake_cmd r)" "names_ok injector"
  shows "\<exists>n. log_in_scope n r"
  using run
proof (cases rule: run_scenario_parts)
  case (1 tire veh link q n_ticks b)
  have nan: "NaN \<notin> set (sr_brake_cmd (bn_result b))" using assms(4) by (simp add: 1(9))
  let ?b0 = "\<lparr>bn_veh = veh, bn_link = link, bn_faults = injector, bn_last_brake = f0,
      bn_result = ScenarioResult cfg, bn_recv = evs\<rparr>"
  have rec: "recordable ?b0" using assms(5) by (simp add: recordable_def values_ok_def one_line_names_def ScenarioResult_def)
  have "\<exists>m \<ge> 0. m \<le> 0 + length [0..n_ticks - 1] \<and> bench_ok m b \<and> recordable b"
    by (rule bench_loop_invariant [of lm b recordable gauss env, OF assms(1) nan _ start_ok [OF 1(1) assms(2) 1(2)] rec 1(8)])
      (erule (3) tick_recordable [OF assms(1)])
  then obtain m where "bench_ok m b" "recordable b" by blast
  then have "result_ok m (bn_result b)" "values_ok (bn_result b)" by (simp_all add: bench_ok_def recordable_def)
  then have "log_in_scope m r" unfolding 1(9) log_in_scope_def result_ok_def values_ok_def using fwithinD(3) by auto
  then show ?thesis ..
qed

section \<open>The log read back\<close>

lemma empty_log_loads:
  assumes "log_in_scope 0 r"
  shows "load_csv (scenario_to_csv r) = Inr []"
  unfolding load_csv_def dict_rows_def scenario_read [OF assms] by (simp add: convert_def)

text \<open>C35: The log of any scenario run can be saved and read back.  Whatever faults are injected (their names hold no
  carriage return), whatever the clock and the sockets do and whatever bytes arrive: if a scenario returns a result in which every
  command was a number, \<^verbatim>\<open>load_csv\<close> of the text that \<^verbatim>\<open>to_csv\<close> writes succeeds and returns the eight recorded
  series, every float bit for bit, and the names of the active faults joined by semicolons; for a run of no tick it returns the
  empty dictionary.\<close>

theorem scenario_log_loads:
  assumes "libm_ok lm" and "fwithin 0 128 (sc_v0_mps cfg)"
    and "run_scenario lm gauss env lsn acc evs cfg injector = Some (Inr r)"
    and "NaN \<notin> set (sr_brake_cmd r)"
    and "\<forall>f \<in> set injector. CR \<notin> set (ft_name f)"
  shows "load_csv (scenario_to_csv r) = Inr (if sr_t r = [] then [] else
    [(Some ''t'', Floats (sr_t r)), (Some ''v'', Floats (sr_v r)), (Some ''omega'', Floats (sr_omega r)),
     (Some ''slip'', Floats (sr_slip r)), (Some ''brake_cmd'', Floats (sr_brake_cmd r)), (Some ''state'', Ints (sr_state r)),
     (Some ''dtc'', Ints (sr_dtc r)), (Some ''active_faults'', Cells (map (\<lambda>ns. Text (join '';'' ns)) (sr_active_faults r)))])"
proof -
  obtain n where n: "log_in_scope n r" using run_recordable [OF assms(1-4)] assms(5) unfolding names_ok_def by blast
  then have "length (sr_t r) = n" by (simp add: log_in_scope_def)
  then show ?thesis using n empty_log_loads scenario_loads by (cases "n = 0") auto
qed

theorem scenario_log_loads_witness:
  "\<exists>r. run_scenario bhaskara (\<lambda>n s. f0) still_env Bound ClientConnected [RecvTimeout]
      ((ScenarioConfig ''s'')\<lparr>sc_duration_s := flit 1 100\<rparr>) [lost_fault] = Some (Inr r) \<and>
    load_csv (scenario_to_csv r) \<noteq> Inr []"
proof -
  obtain r where r: "run_scenario bhaskara (\<lambda>n s. f0) still_env Bound ClientConnected [RecvTimeout]
      ((ScenarioConfig ''s'')\<lparr>sc_duration_s := flit 1 100\<rparr>) [lost_fault] = Some (Inr r)" "sr_brake_cmd r = [f0]" "sr_t r \<noteq> []"
    using one_tick_run by blast
  have n: "\<forall>f \<in> set [lost_fault]. CR \<notin> set (ft_name f)" by (simp add: lost_fault_def)
  have "NaN \<notin> set (sr_brake_cmd r)" by (simp add: r(2))
  from scenario_log_loads [OF bhaskara_ok one_tick_speed r(1) this n] r(1,3) show ?thesis by auto
qed

end
