(* ===== verification/Figures.thy ===== *)
theory Figures
  imports Log_Files
begin

unbundle bit_operations_syntax

text \<open>
  The figures of \<^verbatim>\<open>plot_results.py\<close> and \<^verbatim>\<open>simulate.py\<close>, as the list of calls the code makes on matplotlib, in
  order: what data goes to which axis, with which label and options.  What matplotlib makes of the calls, and the
  printed lines, are left out.  Files are a map from names to texts; the built-in \<^verbatim>\<open>sum\<close> is a parameter.  Strings are
  UTF-8.
\<close>

section \<open>Calls\<close>

text \<open>The calls, with the index of the axis where there is one.  Areas are drawn from 0 to the given values; a
  \<open>BarNote\<close> stands in the middle above a bar.\<close>

type_synonym options = "(string \<times> string) list"

datatype draw =
    Subplots nat options
  | Curve nat column column options
  | FillBetween nat column "int list" options
  | Bars "string list" "pyfloat list" "string list"
  | BarNote nat string options
  | Note nat string string string options
  | AxisCall nat string "string list" options
  | FigureCall string "string list" options

definition EM_DASH :: string where "EM_DASH = [CHR 0xE2, CHR 0x80, CHR 0x94]"

definition grid :: "nat \<Rightarrow> draw" where "grid i = AxisCall i ''grid'' [''True''] [(''alpha'', ''0.3'')]"

definition target_zone :: "nat \<Rightarrow> string \<Rightarrow> draw" where
  "target_zone i label = AxisCall i ''axhspan'' [''0.10'', ''0.20''] [(''color'', ''gray''), (''alpha'', ''0.15''), (''label'', label)]"

definition upper_right :: "nat \<Rightarrow> draw" where "upper_right i = AxisCall i ''legend'' [] [(''loc'', ''upper right'')]"

definition finish :: "draw list" where
  "finish = [FigureCall ''tight_layout'' [] [], FigureCall ''savefig'' [''out''] [(''dpi'', ''110'')]]"

text \<open>\<^verbatim>\<open>f"{x:.1f}"\<close>: rounded half to even to one decimal.\<close>

fun format_f1 :: "pyfloat \<Rightarrow> string" where
  "format_f1 NaN = ''nan''"
| "format_f1 (Infin s) = (if s then ''-inf'' else ''inf'')"
| "format_f1 (Fin s m e) = (let n = half_even (m * 2 ^ nat e * 10) (2 ^ nat (- e)) in
     (if s then ''-'' else []) @ digits (nat (n div 10)) @ ''.'' @ digits (nat (n mod 10)))"

section \<open>Logs\<close>

definition read_log :: "(string \<Rightarrow> string option) \<Rightarrow> string \<Rightarrow> columns py" where
  "read_log files name = (case files (name @ ''.csv'') of None \<Rightarrow> Inl OSError | Some text \<Rightarrow> load_csv text)"

definition column_of :: "string \<Rightarrow> columns \<Rightarrow> column py" where
  "column_of k cols = (case map_of cols (Some k) of None \<Rightarrow> Inl KeyError | Some c \<Rightarrow> Inr c)"

definition floats_of :: "string \<Rightarrow> columns \<Rightarrow> pyfloat list py" where
  "floats_of k cols = py_bind (column_of k cols) (\<lambda>c. case c of Floats xs \<Rightarrow> Inr xs | _ \<Rightarrow> Inl TypeError)"

definition ints_of :: "string \<Rightarrow> columns \<Rightarrow> int list py" where
  "ints_of k cols = py_bind (column_of k cols) (\<lambda>c. case c of Ints xs \<Rightarrow> Inr xs | _ \<Rightarrow> Inl TypeError)"

text \<open>The distance of a log; the speeds are looked up only if there is a step.\<close>

definition log_distance :: "(pyfloat list \<Rightarrow> pyfloat) \<Rightarrow> columns \<Rightarrow> pyfloat py" where
  "log_distance py_sum trace = py_bind (floats_of ''t'' trace) (\<lambda>t.
     if length t < 2 then Inr (py_sum [])
     else py_bind (floats_of ''v'' trace) (\<lambda>v. integrate_distance py_sum t v))"

section \<open>Oracle against C\<close>

definition curve_of :: "nat \<Rightarrow> columns \<Rightarrow> string \<Rightarrow> options \<Rightarrow> draw py" where
  "curve_of i trace k opts = py_bind (column_of ''t'' trace) (\<lambda>t. py_bind (column_of k trace) (\<lambda>y. Inr (Curve i t y opts)))"

definition plot_oracle_vs_sil :: "libm \<Rightarrow> (pyfloat list \<Rightarrow> pyfloat) \<Rightarrow> (string \<Rightarrow> string option) \<Rightarrow> draw list py" where
  "plot_oracle_vs_sil lm py_sum files =
     py_bind (run_python_oracle lm (flit 6 1) (flit 1 1000)) (\<lambda>oracle.
     py_bind (read_log files ''s1_nominal'') (\<lambda>sil.
     py_bind (curve_of 0 sil ''v'' [(''label'', ''SIL (C)''), (''color'', ''tab:orange'')]) (\<lambda>c0.
     py_bind (curve_of 1 sil ''slip'' [(''label'', ''SIL''), (''color'', ''tab:orange'')]) (\<lambda>c1.
     py_bind (curve_of 2 sil ''brake_cmd'' [(''label'', ''SIL''), (''color'', ''tab:orange'')]) (\<lambda>c2.
     py_bind (integrate_distance py_sum (ol_t oracle) (ol_v oracle)) (\<lambda>d_oracle.
     py_bind (log_distance py_sum sil) (\<lambda>d_sil.
     Inr ([Subplots 3 [(''figsize'', ''(10, 9)''), (''sharex'', ''True'')],
       Curve 0 (Floats (ol_t oracle)) (Floats (ol_v oracle)) [(''label'', ''oracle (Python)''), (''color'', ''tab:blue'')], c0,
       AxisCall 0 ''set_ylabel'' [''vehicle speed (m/s)''] [],
       AxisCall 0 ''set_title'' [''Python oracle vs end-to-end C SIL '' @ EM_DASH @ '' dry asphalt, panic brake''] [],
       grid 0, AxisCall 0 ''legend'' [] [],
       Curve 1 (Floats (ol_t oracle)) (Floats (ol_slip oracle)) [(''label'', ''oracle''), (''color'', ''tab:blue'')], c1,
       target_zone 1 ''target zone'',
       AxisCall 1 ''set_ylabel'' [''slip ratio''] [],
       AxisCall 1 ''set_title'' [''Slip '' @ EM_DASH @ '' both controllers stay around the target zone''] [],
       grid 1, upper_right 1,
       Curve 2 (Floats (ol_t oracle)) (Floats (ol_brake_cmd oracle)) [(''label'', ''oracle''), (''color'', ''tab:blue'')], c2,
       AxisCall 2 ''set_xlabel'' [''time (s)''] [], AxisCall 2 ''set_ylabel'' [''brake (bar)''] [],
       AxisCall 2 ''set_title'' [''Bang-bang command '' @ EM_DASH @ '' identical algorithm in two languages''] [],
       grid 2, AxisCall 2 ''legend'' [] [],
       Note 0 ''0.02'' ''0.05'' (''oracle: '' @ format_f1 d_oracle @ '' m'' @ [LF] @ ''SIL:    '' @ format_f1 d_sil @ '' m'')
         [(''transform'', ''axes[0].transAxes''), (''fontsize'', ''10''), (''family'', ''monospace''),
          (''verticalalignment'', ''bottom''), (''bbox'', ''white, alpha 0.8'')]] @ finish))))))))"

section \<open>Summary of the scenarios\<close>

definition SCENARIOS :: "string list" where
  "SCENARIOS = [''s1_nominal'', ''s2_ice_patch'', ''s3_stuck_sensor'', ''s4_comm_loss'', ''s5_crc_corruption'', ''s6_noisy_sensor'']"

definition SCEN_LABELS :: "string list" where
  "SCEN_LABELS = [''Nominal'', ''Ice patch'', ''Stuck sensor'', ''Comm loss 200ms'', ''CRC corruption'', ''Noisy sensor'']"

definition scenario_bar :: "(pyfloat list \<Rightarrow> pyfloat) \<Rightarrow> (string \<Rightarrow> string option) \<Rightarrow> string \<Rightarrow> (pyfloat \<times> string) py" where
  "scenario_bar py_sum files s =
     py_bind (read_log files s) (\<lambda>trace.
     py_bind (log_distance py_sum trace) (\<lambda>d.
     py_bind (ints_of ''state'' trace) (\<lambda>states. Inr (d, bar_colour states))))"

definition plot_scenarios_summary :: "(pyfloat list \<Rightarrow> pyfloat) \<Rightarrow> (string \<Rightarrow> string option) \<Rightarrow> draw list py" where
  "plot_scenarios_summary py_sum files =
     py_bind (py_map (scenario_bar py_sum files) SCENARIOS) (\<lambda>bars.
     Inr ([Subplots 1 [(''figsize'', ''(10, 5)'')], Bars SCEN_LABELS (map fst bars) (map snd bars),
       AxisCall 0 ''axhline'' [''60.0''] [(''color'', ''gray''), (''linestyle'', ''--''), (''alpha'', ''0.5''),
         (''label'', ''no-ABS baseline (~60 m)'')],
       AxisCall 0 ''axhline'' [''50.0''] [(''color'', ''green''), (''linestyle'', ''--''), (''alpha'', ''0.5''),
         (''label'', ''nominal-ABS target (~50 m)'')]] @
       map (\<lambda>(i, d). BarNote i (format_f1 d @ '' m'') [(''ha'', ''center''), (''fontsize'', ''10'')])
         (enumerate 0 (map fst bars)) @
       [AxisCall 0 ''set_ylabel'' [''stopping distance (m)''] [],
        AxisCall 0 ''set_title'' [''Stopping distance per scenario '' @ EM_DASH @ '' red = FAULT_LATCHED reached''] [],
        AxisCall 0 ''legend'' [] [(''loc'', ''upper left'')],
        AxisCall 0 ''grid'' [''True''] [(''alpha'', ''0.3''), (''axis'', ''y'')],
        FigureCall ''xticks'' [] [(''rotation'', ''10'')]] @ finish))"

section \<open>Timeline of the DTCs\<close>

text \<open>\<open>has_data\<close> is matplotlib's answer after the calls made on the axis.\<close>

definition timeline_axis :: "(draw list \<Rightarrow> bool) \<Rightarrow> (string \<Rightarrow> string option) \<Rightarrow> nat \<times> string \<times> string \<Rightarrow> draw list py" where
  "timeline_axis has_data files = (\<lambda>(i, s, label).
     py_bind (read_log files s) (\<lambda>trace.
     py_bind (ints_of ''dtc'' trace) (\<lambda>dtcs.
     py_bind (py_map (\<lambda>(name, bits). py_bind (column_of ''t'' trace) (\<lambda>t.
         Inr (FillBetween i t bits [(''step'', ''post''), (''alpha'', ''0.6''), (''label'', name)]))) (dtc_curves dtcs)) (\<lambda>fills.
     let calls = fills @
       [AxisCall i ''set_ylim'' [''0'', ''1.2''] [], AxisCall i ''set_yticks'' [''[]''] [],
        AxisCall i ''set_ylabel'' [label] [(''fontsize'', ''9''), (''rotation'', ''0''), (''ha'', ''right''), (''va'', ''center'')],
        AxisCall i ''grid'' [''True''] [(''alpha'', ''0.2''), (''axis'', ''x'')]]
     in Inr (calls @ (if has_data calls then [AxisCall i ''legend'' [] [(''loc'', ''upper right''), (''fontsize'', ''7'')]] else []))))))"

definition plot_dtc_timeline :: "(draw list \<Rightarrow> bool) \<Rightarrow> (string \<Rightarrow> string option) \<Rightarrow> draw list py" where
  "plot_dtc_timeline has_data files =
     py_bind (py_map (timeline_axis has_data files) (enumerate 0 (zip SCENARIOS SCEN_LABELS))) (\<lambda>axes.
     Inr ([Subplots (length SCENARIOS) [(''figsize'', ''(11, 1.8 * len(SCENARIOS))''), (''sharex'', ''False'')]] @ concat axes @
       [AxisCall (length SCENARIOS - 1) ''set_xlabel'' [''time (s)''] [],
        FigureCall ''suptitle'' [''DTC bitfield over time '' @ EM_DASH @ '' per scenario''] [(''fontsize'', ''12'')]] @ finish))"

text \<open>\<^verbatim>\<open>main\<close>: the three figures, then 0.\<close>

definition plot_main :: "(draw list \<Rightarrow> bool) \<Rightarrow> libm \<Rightarrow> (pyfloat list \<Rightarrow> pyfloat) \<Rightarrow> (string \<Rightarrow> string option) \<Rightarrow> (int \<times> (string \<times> draw list) list) py" where
  "plot_main has_data lm py_sum files =
     py_bind (plot_oracle_vs_sil lm py_sum files) (\<lambda>f1.
     py_bind (plot_scenarios_summary py_sum files) (\<lambda>f2.
     py_bind (plot_dtc_timeline has_data files) (\<lambda>f3.
     Inr (0, [(''oracle_vs_c_sil.png'', f1), (''scenarios_summary.png'', f2), (''dtc_timeline.png'', f3)]))))"

section \<open>The offline simulation\<close>

definition log_curves :: "sim_log \<Rightarrow> draw list" where
  "log_curves lg =
    (let c = (case map_of [(''no_abs'', ''tab:red''), (''oracle'', ''tab:green'')] (sl_scenario lg) of Some c \<Rightarrow> c | None \<Rightarrow> ''tab:blue'') in
     [Curve 0 (Floats (sl_t lg)) (Floats (sl_v lg)) [(''label'', sl_scenario lg @ '' '' @ EM_DASH @ '' v''), (''color'', c)],
      Curve 0 (Floats (sl_t lg)) (Floats (sl_omega_R lg))
        [(''label'', sl_scenario lg @ '' '' @ EM_DASH @ '' '' @ [CHR 0xCF, CHR 0x89, CHR 0xC2, CHR 0xB7] @ ''R''), (''color'', c),
         (''linestyle'', ''--''), (''alpha'', ''0.7'')],
      Curve 1 (Floats (sl_t lg)) (Floats (sl_slip lg)) [(''label'', sl_scenario lg), (''color'', c)],
      Curve 2 (Floats (sl_t lg)) (Floats (sl_brake_cmd lg)) [(''label'', sl_scenario lg), (''color'', c)]])"

definition plot_logs :: "sim_log list \<Rightarrow> draw list" where
  "plot_logs logs = [Subplots 3 [(''figsize'', ''(10, 9)''), (''sharex'', ''True'')]] @ concat (map log_curves logs) @
     [AxisCall 0 ''set_ylabel'' [''speed (m/s)''] [], AxisCall 0 ''set_title'' [''Vehicle and wheel speed''] [], grid 0, upper_right 0,
      AxisCall 1 ''set_ylabel'' [''slip ratio''] [], AxisCall 1 ''set_title'' [''Slip '' @ EM_DASH @ '' target zone shaded''] [],
      target_zone 1 ''ABS target'', grid 1, upper_right 1,
      AxisCall 2 ''set_ylabel'' [''brake pressure (bar)''] [], AxisCall 2 ''set_xlabel'' [''time (s)''] [],
      AxisCall 2 ''set_title'' [''Brake command''] [], grid 2, upper_right 2] @ finish"

text \<open>The files \<^verbatim>\<open>main\<close> writes for its logs: the CSV files where \<^verbatim>\<open>--csv-out\<close> is given, and the figure.\<close>

definition csv_outputs :: "bool \<Rightarrow> string \<Rightarrow> sim_log list \<Rightarrow> (string \<times> string) list" where
  "csv_outputs csv_out surface logs = (if csv_out
     then map (\<lambda>lg. (sl_scenario lg @ ''_'' @ surface @ ''.csv'', sim_write_csv lg)) logs else [])"

definition figure_outputs :: "bool \<Rightarrow> string \<Rightarrow> sim_log list \<Rightarrow> (string \<times> draw list) list" where
  "figure_outputs no_plot surface logs = (if no_plot then [] else [(''plant_validation_'' @ surface @ ''.png'', plot_logs logs)])"

section \<open>Properties\<close>

text \<open>The files of a directory in which each scenario has saved its log.\<close>

definition saved :: "(string \<Rightarrow> scenario_result) \<Rightarrow> string \<Rightarrow> string option" where
  "saved result name = (if name \<in> set (map (\<lambda>s. s @ ''.csv'') SCENARIOS)
     then Some (scenario_to_csv (result (take (length name - 4) name))) else None)"

lemma saved_log:
  assumes "s \<in> set SCENARIOS" "log_in_scope n (result s)" "0 < n"
  shows "read_log (saved result) s = Inr
    [(Some ''t'', Floats (sr_t (result s))), (Some ''v'', Floats (sr_v (result s))), (Some ''omega'', Floats (sr_omega (result s))),
     (Some ''slip'', Floats (sr_slip (result s))), (Some ''brake_cmd'', Floats (sr_brake_cmd (result s))),
     (Some ''state'', Ints (sr_state (result s))), (Some ''dtc'', Ints (sr_dtc (result s))),
     (Some ''active_faults'', Cells (map (\<lambda>ns. Text (join '';'' ns)) (sr_active_faults (result s))))]"
proof -
  have "saved result (s @ ''.csv'') = Some (scenario_to_csv (result s))" using assms(1) by (auto simp: saved_def)
  then show ?thesis using scenario_loads [OF assms(2,3)] by (simp add: read_log_def)
qed

lemma saved_bar:
  assumes "s \<in> set SCENARIOS" "log_in_scope n (result s)" "2 \<le> n"
  shows "integrate_distance py_sum (sr_t (result s)) (sr_v (result s)) =
      Inr (py_sum (map (\<lambda>i. fmul (fmul (flit 5 10) (fadd (sr_v (result s) ! i) (sr_v (result s) ! (i + 1))))
        (fsub (sr_t (result s) ! (i + 1)) (sr_t (result s) ! i))) [0..<n - 1]))"
    "scenario_bar py_sum (saved result) s = Inr (projr (integrate_distance py_sum (sr_t (result s)) (sr_v (result s))),
      bar_colour (sr_state (result s)))"
proof -
  have l: "length (sr_t (result s)) = n" "length (sr_v (result s)) = n" using assms(2) by (simp_all add: log_in_scope_def)
  then show d: "integrate_distance py_sum (sr_t (result s)) (sr_v (result s)) =
      Inr (py_sum (map (\<lambda>i. fmul (fmul (flit 5 10) (fadd (sr_v (result s) ! i) (sr_v (result s) ! (i + 1))))
        (fsub (sr_t (result s) ! (i + 1)) (sr_t (result s) ! i))) [0..<n - 1]))"
    by (simp add: integrate_distance_def)
  have "0 < n" using assms(3) by simp
  from saved_log [of s n result, OF assms(1,2) this] show "scenario_bar py_sum (saved result) s =
      Inr (projr (integrate_distance py_sum (sr_t (result s)) (sr_v (result s))), bar_colour (sr_state (result s)))"
    using assms(3) d l by (simp add: scenario_bar_def log_distance_def floats_of_def ints_of_def column_of_def)
qed

text \<open>The data of the areas drawn on an axis.\<close>

fun area :: "nat \<Rightarrow> draw \<Rightarrow> (column \<times> int list \<times> string option) list" where
  "area i (FillBetween j t bits opts) = (if i = j then [(t, bits, map_of opts ''label'')] else [])"
| "area i _ = []"

definition areas :: "nat \<Rightarrow> draw list \<Rightarrow> (column \<times> int list \<times> string option) list" where
  "areas i calls = concat (map (area i) calls)"

lemma areas_simps [simp]:
  "areas i [] = []" "areas i (c # cs) = area i c @ areas i cs" "areas i (cs @ cs') = areas i cs @ areas i cs'"
  by (simp_all add: areas_def)

lemma areas_fills:
  "areas i (map (\<lambda>(name, bits). FillBetween j t bits [(''step'', ''post''), (''alpha'', ''0.6''), (''label'', name)]) cs) =
    (if i = j then map (\<lambda>(name, bits). (t, bits, Some name)) cs else [])"
  by (induction cs) auto

lemma saved_timeline:
  assumes "s \<in> set SCENARIOS" "log_in_scope n (result s)" "0 < n"
  shows "\<exists>calls. timeline_axis has_data (saved result) (j, s, label) = Inr calls \<and>
    (\<forall>i. areas i calls = (if i = j
      then map (\<lambda>(name, bits). (Floats (sr_t (result s)), bits, Some name)) (dtc_curves (sr_dtc (result s))) else []))"
proof -
  have m: "py_map (\<lambda>(name, bits). py_bind (Inr t) (\<lambda>t.
      Inr (FillBetween j t bits [(''step'', ''post''), (''alpha'', ''0.6''), (''label'', name)]))) cs =
    Inr (map (\<lambda>(name, bits). FillBetween j t bits [(''step'', ''post''), (''alpha'', ''0.6''), (''label'', name)]) cs)" for t cs
    by (intro py_map_Inr) auto
  show ?thesis unfolding timeline_axis_def prod.case saved_log [of s n result, OF assms] py_bind_simps
    by (simp add: ints_of_def column_of_def m [unfolded py_bind_simps] areas_fills Let_def)
qed

lemma summary_of_saved:
  assumes "\<forall>s \<in> set SCENARIOS. \<exists>n \<ge> 2. log_in_scope n (result s)"
  shows "\<exists>calls. plot_scenarios_summary py_sum (saved result) = Inr calls \<and>
    calls ! 1 = Bars SCEN_LABELS
      (map (\<lambda>s. py_sum (map (\<lambda>i. fmul (fmul (flit 5 10) (fadd (sr_v (result s) ! i) (sr_v (result s) ! (i + 1))))
         (fsub (sr_t (result s) ! (i + 1)) (sr_t (result s) ! i))) [0..<length (sr_t (result s)) - 1])) SCENARIOS)
      (map (\<lambda>s. if ECU_FAULT_LATCHED \<in> states_visited (result s) then ''tab:red'' else ''tab:green'') SCENARIOS)"
proof -
  define d where "d = (\<lambda>s. py_sum (map (\<lambda>i. fmul (fmul (flit 5 10) (fadd (sr_v (result s) ! i) (sr_v (result s) ! (i + 1))))
    (fsub (sr_t (result s) ! (i + 1)) (sr_t (result s) ! i))) [0..<length (sr_t (result s)) - 1]))"
  define c where "c = (\<lambda>s. if ECU_FAULT_LATCHED \<in> states_visited (result s) then ''tab:red'' else ''tab:green'')"
  have bar: "scenario_bar py_sum (saved result) s = Inr (d s, c s)" if s: "s \<in> set SCENARIOS" for s
  proof -
    obtain n where n: "2 \<le> n" "log_in_scope n (result s)" using assms s by blast
    then have "length (sr_t (result s)) = n" by (simp add: log_in_scope_def)
    then show ?thesis using saved_bar [of s n result, OF s n(2,1)]
      by (simp add: d_def c_def states_visited_def bar_colour_def)
  qed
  have "py_map (scenario_bar py_sum (saved result)) SCENARIOS = Inr (map (\<lambda>s. (d s, c s)) SCENARIOS)"
    by (rule py_map_Inr) (use bar in blast)
  then show ?thesis unfolding d_def c_def by (simp add: plot_scenarios_summary_def comp_def)
qed

lemma timeline_of_saved:
  assumes "\<forall>s \<in> set SCENARIOS. \<exists>n \<ge> 2. log_in_scope n (result s)"
  shows "\<exists>calls. plot_dtc_timeline has_data (saved result) = Inr calls \<and> (\<forall>i < length SCENARIOS.
    areas i calls = map (\<lambda>(name, bits). (Floats (sr_t (result (SCENARIOS ! i))), bits, Some name))
      (dtc_curves (sr_dtc (result (SCENARIOS ! i)))))"
proof -
  let ?A = "\<lambda>s. map (\<lambda>(name, bits). (Floats (sr_t (result s)), bits, Some name)) (dtc_curves (sr_dtc (result s)))"
  have "\<forall>x. \<exists>calls. fst (snd x) \<in> set SCENARIOS \<longrightarrow> timeline_axis has_data (saved result) x = Inr calls \<and>
      (\<forall>i. areas i calls = (if i = fst x then ?A (fst (snd x)) else []))"
  proof
    fix x :: "nat \<times> string \<times> string"
    obtain j s label where x: "x = (j, s, label)" by (cases x)
    show "\<exists>calls. fst (snd x) \<in> set SCENARIOS \<longrightarrow> timeline_axis has_data (saved result) x = Inr calls \<and>
      (\<forall>i. areas i calls = (if i = fst x then ?A (fst (snd x)) else []))"
    proof (cases "s \<in> set SCENARIOS")
      case True
      then obtain n where "2 \<le> n" "log_in_scope n (result s)" using assms by blast
      with True saved_timeline [of s n result has_data j label] show ?thesis unfolding x by auto
    qed (simp add: x)
  qed
  from choice [OF this] obtain g where g: "\<And>x. fst (snd x) \<in> set SCENARIOS \<Longrightarrow> timeline_axis has_data (saved result) x = Inr (g x)"
    "\<And>x i. fst (snd x) \<in> set SCENARIOS \<Longrightarrow> areas i (g x) = (if i = fst x then ?A (fst (snd x)) else [])" by blast
  have "py_map (timeline_axis has_data (saved result)) (enumerate 0 (zip SCENARIOS SCEN_LABELS)) =
      Inr (map g (enumerate 0 (zip SCENARIOS SCEN_LABELS)))"
    by (intro py_map_Inr ballI g(1)) (auto simp: SCENARIOS_def SCEN_LABELS_def)
  moreover have "areas i (concat (map g (enumerate 0 (zip SCENARIOS SCEN_LABELS)))) = ?A (SCENARIOS ! i)"
    if "i < length SCENARIOS" for i
  proof -
    have "i \<in> {0, 1, 2, 3, 4, 5}" using that by (auto simp: SCENARIOS_def)
    then show ?thesis by (auto simp: SCENARIOS_def SCEN_LABELS_def g(2))
  qed
  ultimately show ?thesis by (simp add: plot_dtc_timeline_def finish_def)
qed

text \<open>C36: The figures show what the scenarios recorded.  When the log of each scenario is on disk as \<^verbatim>\<open>to_csv\<close>
  wrote it (at least two samples, all values floats and 16 bit codes), the summary draws for each scenario a bar of
  the trapezoid sum of the recorded speeds over the recorded times, in red exactly if some recorded state was \<^verbatim>\<open>FAULT_LATCHED\<close>; and the
  timeline draws on the axis of each scenario, over the recorded times, one area for each DTC that the run ever
  raised, in the order and with the labels that the printed summary of the run lists.\<close>

theorem figures_show_records:
  assumes "\<forall>s \<in> set SCENARIOS. \<exists>n \<ge> 2. log_in_scope n (result s)"
  shows "(\<exists>calls. plot_scenarios_summary py_sum (saved result) = Inr calls \<and>
      calls ! 1 = Bars SCEN_LABELS
        (map (\<lambda>s. py_sum (map (\<lambda>i. fmul (fmul (flit 5 10) (fadd (sr_v (result s) ! i) (sr_v (result s) ! (i + 1))))
           (fsub (sr_t (result s) ! (i + 1)) (sr_t (result s) ! i))) [0..<length (sr_t (result s)) - 1])) SCENARIOS)
        (map (\<lambda>s. if ECU_FAULT_LATCHED \<in> states_visited (result s) then ''tab:red'' else ''tab:green'') SCENARIOS)) \<and>
    (\<exists>calls. plot_dtc_timeline has_data (saved result) = Inr calls \<and>
      (\<forall>i < length SCENARIOS. let r = result (SCENARIOS ! i) in
        areas i calls = map (\<lambda>(name, bits). (Floats (sr_t r), bits, Some name)) (dtc_curves (sr_dtc r)) \<and>
        map fst (dtc_curves (sr_dtc r)) = dtc_labels (dtc_union r)))"
  using summary_of_saved [OF assms, of py_sum] timeline_of_saved [OF assms, of has_data]
  by (simp add: Let_def timeline_matches_summary)

definition two_samples :: "string \<Rightarrow> scenario_result" where
  "two_samples s = \<lparr>sr_config = ScenarioConfig s, sr_t = [f0, f0], sr_v = [f0, f0], sr_omega = [f0, f0], sr_slip = [f0, f0],
     sr_brake_cmd = [f0, f0], sr_state = [ECU_MONITOR, ECU_FAULT_LATCHED], sr_dtc = [0, DTC_COMM_TIMEOUT],
     sr_active_faults = [[], [''comm_loss'']], sr_last_pos = f0\<rparr>"

theorem figures_show_records_witness:
  "\<exists>calls. plot_scenarios_summary (foldl fadd f0) (saved two_samples) = Inr calls \<and>
    (\<exists>heights. calls ! 1 = Bars SCEN_LABELS heights (replicate 6 ''tab:red''))"
proof -
  have "log_in_scope 2 (two_samples s)" for s
    by (simp add: log_in_scope_def two_samples_def one_line_names_def ECU_MONITOR_def ECU_FAULT_LATCHED_def DTC_COMM_TIMEOUT_def
      fwithinD(3) [OF fwithin_f0])
  then have "\<forall>s \<in> set SCENARIOS. \<exists>n \<ge> 2. log_in_scope n (two_samples s)" by blast
  note figures = conjunct1 [OF figures_show_records [OF this, of "foldl fadd f0" "\<lambda>_. True"]]
  have "map (\<lambda>s. if ECU_FAULT_LATCHED \<in> states_visited (two_samples s) then ''tab:red'' else ''tab:green'') SCENARIOS =
      replicate 6 ''tab:red''" by (simp add: states_visited_def two_samples_def SCENARIOS_def numeral_eq_Suc)
  from figures [unfolded this] show ?thesis by (elim exE conjE) (intro exI conjI, assumption, assumption)
qed

end
