(* ===== verification/Protocol_Tests.thy ===== *)
theory Protocol_Tests
  imports Decoder Number_Text
begin

unbundle bit_operations_syntax

text \<open>
  \<^verbatim>\<open>tests/test_protocol.py\<close> as a program on the model of \<^verbatim>\<open>plant/protocol.py\<close>: each test method is the
  list of the outcomes of its assertions, or the exception it raises.  All of them pass.
\<close>

section \<open>Assertions\<close>

text \<open>\<^verbatim>\<open>round(x, n)\<close> and \<^verbatim>\<open>assertAlmostEqual\<close> of the standard library.\<close>

fun py_round :: "pyfloat \<Rightarrow> nat \<Rightarrow> pyfloat" where
  "py_round (Fin s m e) n = dec_float s (half_even (m * 2 ^ nat e * 10 ^ n) (2 ^ nat (- e))) (- int n)"
| "py_round x n = x"

definition almost_equal :: "pyfloat \<Rightarrow> pyfloat \<Rightarrow> nat \<Rightarrow> bool" where
  "almost_equal x y places \<longleftrightarrow> feq x y \<or> feq (py_round (fabs (fsub x y)) places) f0"

text \<open>The frame \<^verbatim>\<open>P.SensorFrame(k, k, k, k, 0)\<close>.\<close>

definition uniform_frame :: "int \<Rightarrow> sensor_frame" where
  "uniform_frame k = \<lparr>sf_timestamp_ms = k, sf_v_vehicle = flit k 1, sf_omega_wheel = flit k 1,
     sf_brake_pressure = flit k 1, sf_fault_flags = 0\<rparr>"

text \<open>A test passes when it raises nothing and no assertion fails.\<close>

fun test_ok :: "bool list py \<Rightarrow> bool" where
  "test_ok (Inl e) = False"
| "test_ok (Inr outcomes) = list_all id outcomes"

section \<open>The tests\<close>

definition test_kat_check_vector :: "bool list py" where
  "test_kat_check_vector =
     Inr [crc16_ccitt (map (\<lambda>c. of_nat (of_char c)) ''123456789'') = 0x29B1]"

definition test_empty_input :: "bool list py" where
  "test_empty_input =
     Inr [crc16_ccitt [] = 0xFFFF]"

definition test_single_byte_known_vectors :: "bool list py" where
  "test_single_byte_known_vectors =
     Inr [crc16_ccitt [0x00] = 0xE1F0, crc16_ccitt [0xFF] = 0xFF00]"

definition test_sensor_size_pinned :: "bool list py" where
  "test_sensor_size_pinned =
     Inr [SENSOR_SIZE = 18]"

definition test_actuator_size_pinned :: "bool list py" where
  "test_actuator_size_pinned =
     Inr [ACTUATOR_SIZE = 12]"

definition test_sensor_roundtrip :: "bool list py" where
  "test_sensor_roundtrip =
     py_bind (sensor_pack \<lparr>sf_timestamp_ms = 12345, sf_v_vehicle = flit 2778 100, sf_omega_wheel = flit 926 10,
       sf_brake_pressure = flit 425 10, sf_fault_flags = FF_INJECTED_NOISE\<rparr>) (\<lambda>raw.
     py_bind (sensor_unpack raw) (\<lambda>g.
     Inr [length raw = SENSOR_SIZE, sf_timestamp_ms g = 12345, almost_equal (sf_v_vehicle g) (flit 2778 100) 4,
       almost_equal (sf_omega_wheel g) (flit 926 10) 4, almost_equal (sf_brake_pressure g) (flit 425 10) 4,
       sf_fault_flags g = FF_INJECTED_NOISE]))"

definition test_actuator_roundtrip :: "bool list py" where
  "test_actuator_roundtrip =
     py_bind (actuator_pack \<lparr>af_timestamp_ms = 42, af_brake_command = flit 855 10, af_ecu_status = ECU_ACTIVE,
       af_dtc_code = DTC_SENSOR_NOISE OR DTC_COMM_CRC\<rparr>) (\<lambda>raw.
     py_bind (actuator_unpack raw) (\<lambda>b.
     Inr [length raw = ACTUATOR_SIZE, af_timestamp_ms b = 42, almost_equal (af_brake_command b) (flit 855 10) 4,
       af_ecu_status b = ECU_ACTIVE, af_dtc_code b = DTC_SENSOR_NOISE OR DTC_COMM_CRC]))"

definition test_little_endian_byte_order :: "bool list py" where
  "test_little_endian_byte_order =
     py_bind (sensor_pack \<lparr>sf_timestamp_ms = 0x12345678, sf_v_vehicle = flit 0 1, sf_omega_wheel = flit 0 1,
       sf_brake_pressure = flit 0 1, sf_fault_flags = 0\<rparr>) (\<lambda>raw.
     Inr [raw ! 0 = 0x78, raw ! 3 = 0x12])"

definition test_encode_decode_roundtrip :: "bool list py" where
  "test_encode_decode_roundtrip =
     py_bind (sensor_pack \<lparr>sf_timestamp_ms = 123, sf_v_vehicle = flit 25 1, sf_omega_wheel = flit 80 1,
       sf_brake_pressure = flit 50 1, sf_fault_flags = 0\<rparr>) (\<lambda>payload.
     py_bind (encode_frame TYPE_SENSOR payload) (\<lambda>wire.
     let frames = fst (drain (feed wire FrameDecoder)) in
     case frames of [] \<Rightarrow> Inr [False] | fr # _ \<Rightarrow>
     py_bind (sensor_unpack (fr_payload fr)) (\<lambda>g.
     Inr [length wire = OVERHEAD + SENSOR_SIZE, length frames = 1, fr_frame_type fr = TYPE_SENSOR,
       sf_timestamp_ms g = 123])))"

definition test_resync_after_garbage_prefix :: "bool list py" where
  "test_resync_after_garbage_prefix =
     py_bind (sensor_pack (uniform_frame 1)) (\<lambda>payload.
     py_bind (encode_frame TYPE_SENSOR payload) (\<lambda>wire.
     let (frames, dec) = drain (feed ([0xDE, 0xAD, 0xBE, 0xEF, 0xAA, 0xAA, 0xAA] @ wire) FrameDecoder) in
     Inr [length frames = 1, 0 < dc_bytes_dropped dec]))"

definition test_chunked_feed :: "bool list py" where
  "test_chunked_feed =
     py_bind (actuator_pack \<lparr>af_timestamp_ms = 99, af_brake_command = flit 125 10, af_ecu_status = ECU_MONITOR,
       af_dtc_code = 0\<rparr>) (\<lambda>payload.
     py_bind (encode_frame TYPE_ACTUATOR payload) (\<lambda>wire.
     Inr [length (fst (drain (foldl (\<lambda>dec byte. feed [byte] dec) FrameDecoder wire))) = 1]))"

definition test_crc_mismatch_is_counted_and_resynced :: "bool list py" where
  "test_crc_mismatch_is_counted_and_resynced =
     py_bind (sensor_pack (uniform_frame 1)) (\<lambda>payload.
     py_bind (encode_frame TYPE_SENSOR payload) (\<lambda>wire.
     py_bind (sensor_pack (uniform_frame 2)) (\<lambda>payload'.
     py_bind (encode_frame TYPE_SENSOR payload') (\<lambda>clean.
     let wire = butlast wire @ [last wire XOR 0xFF];
         (frames, dec) = drain (feed (wire @ clean) FrameDecoder) in
     case frames of [] \<Rightarrow> Inr [False] | fr # _ \<Rightarrow>
     py_bind (sensor_unpack (fr_payload fr)) (\<lambda>g.
     Inr [dc_errors_crc dec = 1, length frames = 1, sf_timestamp_ms g = 2])))))"

definition test_oversize_length_field_rejected :: "bool list py" where
  "test_oversize_length_field_rejected =
     (let bad = le_bytes 2 MAGIC @ le_bytes 1 TYPE_SENSOR @ le_bytes 2 0xFFFF @ replicate 8 0;
         dec = snd (drain (feed bad FrameDecoder)) in
     Inr [dc_errors_size dec = 1])"

definition test_protocol :: "bool list py list" where
  "test_protocol = [test_kat_check_vector,
     test_empty_input,
     test_single_byte_known_vectors,
     test_sensor_size_pinned,
     test_actuator_size_pinned,
     test_sensor_roundtrip,
     test_actuator_roundtrip,
     test_little_endian_byte_order,
     test_encode_decode_roundtrip,
     test_resync_after_garbage_prefix,
     test_chunked_feed,
     test_crc_mismatch_is_counted_and_resynced,
     test_oversize_length_field_rejected]"

section \<open>They pass\<close>

lemma test_kat_check_vector_ok: "test_ok test_kat_check_vector"
  unfolding test_kat_check_vector_def by code_simp

lemma test_empty_input_ok: "test_ok test_empty_input"
  unfolding test_empty_input_def by code_simp

lemma test_single_byte_known_vectors_ok: "test_ok test_single_byte_known_vectors"
  unfolding test_single_byte_known_vectors_def by code_simp

lemma test_sensor_size_pinned_ok: "test_ok test_sensor_size_pinned"
  unfolding test_sensor_size_pinned_def by code_simp

lemma test_actuator_size_pinned_ok: "test_ok test_actuator_size_pinned"
  unfolding test_actuator_size_pinned_def by code_simp

lemma test_sensor_roundtrip_ok: "test_ok test_sensor_roundtrip"
  unfolding test_sensor_roundtrip_def by code_simp

lemma test_actuator_roundtrip_ok: "test_ok test_actuator_roundtrip"
  unfolding test_actuator_roundtrip_def by code_simp

lemma test_little_endian_byte_order_ok: "test_ok test_little_endian_byte_order"
  unfolding test_little_endian_byte_order_def by code_simp

lemma test_encode_decode_roundtrip_ok: "test_ok test_encode_decode_roundtrip"
  unfolding test_encode_decode_roundtrip_def by code_simp

lemma test_resync_after_garbage_prefix_ok: "test_ok test_resync_after_garbage_prefix"
  unfolding test_resync_after_garbage_prefix_def uniform_frame_def by code_simp

lemma test_chunked_feed_ok: "test_ok test_chunked_feed"
  unfolding test_chunked_feed_def by code_simp

lemma test_crc_mismatch_is_counted_and_resynced_ok: "test_ok test_crc_mismatch_is_counted_and_resynced"
  unfolding test_crc_mismatch_is_counted_and_resynced_def uniform_frame_def by code_simp

lemma test_oversize_length_field_rejected_ok: "test_ok test_oversize_length_field_rejected"
proof -
  let ?b = "[0x55, 0xAA, 1, 0xFF, 0xFF, 0, 0, 0, 0, 0, 0, 0, 0] :: bytes"
  let ?d = "FrameDecoder\<lparr>dc_errors_size := 1, dc_buf := drop 2 ?b\<rparr>"
  have bytes: "le_bytes 2 MAGIC @ le_bytes 1 TYPE_SENSOR @ le_bytes 2 0xFFFF @ replicate 8 0 = ?b" by code_simp
  have "le16 0xFF 0xFF = 65535" by code_simp
  then have "try_frame (feed ?b FrameDecoder) = (None, ?d)"
    by (simp add: try_frame_def feed_def FrameDecoder_def protocol_consts)
  then have "try_one (feed ?b FrameDecoder) = try_one ?d"
    by (subst try_one.simps) (simp add: try_step_def feed_def FrameDecoder_def MAGIC_def)
  then have "drain (feed ?b FrameDecoder) = drain ?d"
    by (simp only: drain.simps [of "feed ?b FrameDecoder"] drain.simps [of ?d])
  moreover have "dc_errors_size (snd (drain ?d)) = 1" by code_simp
  ultimately show ?thesis unfolding test_oversize_length_field_rejected_def by (simp only: bytes Let_def) simp
qed

lemma protocol_tests_pass: "list_all test_ok test_protocol"
  by (simp add: test_protocol_def test_kat_check_vector_ok
    test_empty_input_ok
    test_single_byte_known_vectors_ok
    test_sensor_size_pinned_ok
    test_actuator_size_pinned_ok
    test_sensor_roundtrip_ok
    test_actuator_roundtrip_ok
    test_little_endian_byte_order_ok
    test_encode_decode_roundtrip_ok
    test_resync_after_garbage_prefix_ok
    test_chunked_feed_ok
    test_crc_mismatch_is_counted_and_resynced_ok
    test_oversize_length_field_rejected_ok)

end
