(* ===== verification/Unit_Tests.thy ===== *)
theory Unit_Tests
  imports Ecu_Controller Ecu_Diagnostic_Properties
begin

unbundle bit_operations_syntax

text \<open>
  The repository's unit tests of the ECU, \<^verbatim>\<open>controller/tests/test_abs_state.c\<close>, \<^verbatim>\<open>test_abs_controller.c\<close>,
  \<^verbatim>\<open>test_diagnostic.c\<close> and \<^verbatim>\<open>test_crc.c\<close>, as programs on the model: each test is the list of the outcomes of its
  expectations, a \<^verbatim>\<open>main\<close> gives the exit code.  What they print is left out.
\<close>

section \<open>Shared\<close>

definition mk_sensors :: "pyfloat \<Rightarrow> pyfloat \<Rightarrow> pyfloat \<Rightarrow> sensors_data" where
  "mk_sensors v omega pbar = \<lparr>sd_timestamp_ms = 0, sd_rx_time_ms = 0, sd_v_vehicle = v, sd_omega_wheel = omega,
     sd_brake_pressure = pbar, sd_fault_flags = 0, sd_valid = True\<rparr>"

definition expect_near :: "pyfloat \<Rightarrow> pyfloat \<Rightarrow> pyfloat \<Rightarrow> bool" where
  "expect_near actual expected tol \<longleftrightarrow> \<not> flt tol (fabs (csub actual expected))"

definition tests_exit :: "bool list list \<Rightarrow> int" where
  "tests_exit tests = (if \<exists>t \<in> set tests. False \<in> set t then 1 else 0)"

text \<open>The states after the calls of \<^verbatim>\<open>abs_state_update\<close> with the given samples.\<close>

fun state_updates :: "abs_state_ctx \<Rightarrow> (sensors_data \<times> pyfloat \<times> dtc) list \<Rightarrow> abs_state_ctx" where
  "state_updates ctx [] = ctx"
| "state_updates ctx ((s, slip, d) # xs) = state_updates (the (snd (abs_state_update (Some ctx) (Some s) slip d))) xs"

abbreviation moving_sample :: sensors_data where "moving_sample \<equiv> mk_sensors (clit 20 1) (clit 66 1) (clit 80 1)"

section \<open>The state machine\<close>

definition test_init_to_monitor_when_moving :: "bool list" where
  "test_init_to_monitor_when_moving = [st_current (state_updates abs_state_init [(mk_sensors (clit 20 1) (clit 66 1) (clit 0 1), clit 0 1, 0)]) = S_MONITOR]"

definition test_init_to_standby_when_stopped :: "bool list" where
  "test_init_to_standby_when_stopped = [st_current (state_updates abs_state_init [(mk_sensors (clit 0 1) (clit 0 1) (clit 0 1), clit 0 1, 0)]) = S_STANDBY]"

definition test_standby_to_monitor_when_braking :: "bool list" where
  "test_standby_to_monitor_when_braking = [st_current (state_updates abs_state_init [(mk_sensors (clit 0 1) (clit 0 1) (clit 0 1), clit 0 1, 0),
     (mk_sensors (clit 15 1) (clit 50 1) (clit 60 1), clit 5 100, 0)]) = S_MONITOR]"

definition test_monitor_to_active_when_slip_high :: "bool list" where
  "test_monitor_to_active_when_slip_high = [st_current (state_updates abs_state_init [(moving_sample, clit 5 100, 0),
     (moving_sample, clit 25 100, 0)]) = S_ACTIVE]"

definition test_active_to_monitor_when_slip_low :: "bool list" where
  "test_active_to_monitor_when_slip_low = [st_current (state_updates abs_state_init [(moving_sample, clit 5 100, 0),
     (moving_sample, clit 30 100, 0), (moving_sample, clit 8 100, 0)]) = S_MONITOR]"

definition test_monitor_to_standby_when_stops :: "bool list" where
  "test_monitor_to_standby_when_stops = [st_current (state_updates abs_state_init [(moving_sample, clit 5 100, 0),
     (mk_sensors (clit 5 10) (clit 0 1) (clit 50 1), clit 0 1, 0)]) = S_STANDBY]"

definition test_dtc_forces_degraded :: "bool list" where
  "test_dtc_forces_degraded = [st_current (state_updates abs_state_init [(moving_sample, clit 30 100, 0),
     (moving_sample, clit 30 100, C_DTC_SENSOR_NOISE)]) = S_FAULT_DEGRADED]"

definition test_persistent_dtc_latches :: "bool list" where
  "test_persistent_dtc_latches = (let ctx = state_updates abs_state_init ((moving_sample, clit 30 100, 0) #
         replicate (unat ABS_FAULT_LATCH_THRESHOLD) (moving_sample, clit 30 100, C_DTC_PLAUSIBILITY));
       ctx' = state_updates ctx [(moving_sample, clit 30 100, 0)]
     in [st_current ctx = S_FAULT_LATCHED, st_current ctx' = S_FAULT_LATCHED])"

definition test_degraded_recovers_to_monitor :: "bool list" where
  "test_degraded_recovers_to_monitor = [st_current (state_updates abs_state_init [(moving_sample, clit 30 100, 0),
     (moving_sample, clit 30 100, C_DTC_SENSOR_NOISE), (moving_sample, clit 30 100, 0)]) = S_MONITOR]"

definition test_invalid_sensors_are_a_fault :: "bool list" where
  "test_invalid_sensors_are_a_fault = [st_current (state_updates abs_state_init [(moving_sample, clit 5 100, 0),
     (moving_sample\<lparr>sd_valid := False\<rparr>, clit 0 1, 0)]) = S_FAULT_DEGRADED]"

definition test_abs_state :: int where
  "test_abs_state = tests_exit [test_init_to_monitor_when_moving,
     test_init_to_standby_when_stopped,
     test_standby_to_monitor_when_braking,
     test_monitor_to_active_when_slip_high,
     test_active_to_monitor_when_slip_low,
     test_monitor_to_standby_when_stops,
     test_dtc_forces_degraded,
     test_persistent_dtc_latches,
     test_degraded_recovers_to_monitor,
     test_invalid_sensors_are_a_fault]"

section \<open>The controller\<close>

definition test_slip_free_wheel :: "bool list" where
  "test_slip_free_wheel =
     [expect_near (abs_controller_slip (clit 20 1) (cdiv (clit 20 1) (clit 30 100)) (clit 30 100)) (clit 0 1) (clit 1 100000)]"

definition test_slip_locked_wheel :: "bool list" where
  "test_slip_locked_wheel =
     [expect_near (abs_controller_slip (clit 20 1) (clit 0 1) (clit 30 100)) (clit 1 1) (clit 1 100000)]"

definition test_slip_protected_at_zero_speed :: "bool list" where
  "test_slip_protected_at_zero_speed =
     [expect_near (abs_controller_slip_protected (clit 5 10) (clit 0 1) (clit 30 100) (clit 1 1)) (clit 0 1) (clit 1 1000000)]"

definition test_slip_protected_clamps_to_unit_interval :: "bool list" where
  "test_slip_protected_clamps_to_unit_interval =
     [expect_near (abs_controller_slip_protected (clit 20 1) (clit 80 1) (clit 30 100) (clit 1 1)) (clit 0 1) (clit 1 1000000), 
     expect_near (abs_controller_slip_protected (clit 20 1) (clit (- 100) 1) (clit 30 100) (clit 1 1)) (clit 1 1) (clit 1 1000000)]"

definition test_bangbang_release_when_slip_high :: "bool list" where
  "test_bangbang_release_when_slip_high =
     [expect_near (fst (abs_controller_compute (Some abs_controller_init) S_MONITOR (Some (mk_sensors (clit 20 1) (clit 50 1) (clit 100 1))) (clit 30 100) (clit 100 1))) (clit 0 1) (clit 1 1000000)]"

definition test_bangbang_reapply_when_slip_low :: "bool list" where
  "test_bangbang_reapply_when_slip_low =
     [expect_near (fst (abs_controller_compute (Some abs_controller_init) S_MONITOR (Some (mk_sensors (clit 20 1) (clit 66 1) (clit 100 1))) (clit 5 100) (clit 100 1))) (clit 100 1) (clit 1 1000000)]"

definition test_bangbang_hysteresis_holds :: "bool list" where
  "test_bangbang_hysteresis_holds =
     (let s = mk_sensors (clit 20 1) (clit 60 1) (clit 100 1);
         (c1, ctx) = abs_controller_compute (Some abs_controller_init) S_MONITOR (Some s) (clit 25 100) (clit 100 1);
         (c2, ctx) = abs_controller_compute ctx S_MONITOR (Some s) (clit 15 100) (clit 100 1);
         (c3, ctx) = abs_controller_compute ctx S_MONITOR (Some s) (clit 5 100) (clit 100 1);
         (c4, ctx) = abs_controller_compute ctx S_MONITOR (Some s) (clit 15 100) (clit 100 1)
     in [expect_near c2 (clit 0 1) (clit 1 1000000), expect_near c3 (clit 100 1) (clit 1 1000000),
         expect_near c4 (clit 100 1) (clit 1 1000000)])"

definition test_degraded_state_passes_driver_through :: "bool list" where
  "test_degraded_state_passes_driver_through =
     [expect_near (fst (abs_controller_compute (Some abs_controller_init) S_FAULT_DEGRADED (Some (mk_sensors (clit 20 1) (clit 60 1) (clit 100 1))) (clit 30 100) (clit 100 1))) (clit 100 1) (clit 1 1000000)]"

definition test_latched_state_passes_driver_through :: "bool list" where
  "test_latched_state_passes_driver_through =
     [expect_near (fst (abs_controller_compute (Some abs_controller_init) S_FAULT_LATCHED (Some (mk_sensors (clit 20 1) (clit 60 1) (clit 100 1))) (clit 30 100) (clit 80 1))) (clit 80 1) (clit 1 1000000)]"

definition test_low_speed_bypasses :: "bool list" where
  "test_low_speed_bypasses =
     [expect_near (fst (abs_controller_compute (Some abs_controller_init) S_MONITOR (Some (mk_sensors (clit 5 10) (clit 0 1) (clit 100 1))) (clit 30 100) (clit 100 1))) (clit 100 1) (clit 1 1000000)]"

definition test_standby_passes_driver_through :: "bool list" where
  "test_standby_passes_driver_through =
     [expect_near (fst (abs_controller_compute (Some abs_controller_init) S_STANDBY (Some (mk_sensors (clit 20 1) (clit 60 1) (clit 0 1))) (clit 30 100) (clit 100 1))) (clit 100 1) (clit 1 1000000)]"

definition test_abs_controller :: int where
  "test_abs_controller = tests_exit [test_slip_free_wheel,
     test_slip_locked_wheel,
     test_slip_protected_at_zero_speed,
     test_slip_protected_clamps_to_unit_interval,
     test_bangbang_release_when_slip_high,
     test_bangbang_reapply_when_slip_low,
     test_bangbang_hysteresis_holds,
     test_degraded_state_passes_driver_through,
     test_latched_state_passes_driver_through,
     test_low_speed_bypasses,
     test_standby_passes_driver_through]"

section \<open>The diagnostics\<close>

text \<open>A detector called on a list of arguments: its last answer and the context.\<close>

definition calls :: "(diagnostic_ctx \<Rightarrow> 'a \<Rightarrow> bool \<times> diagnostic_ctx) \<Rightarrow> 'a list \<Rightarrow> bool \<times> diagnostic_ctx" where
  "calls f xs = foldl (\<lambda>(b, ctx) x. f ctx x) (False, diagnostic_init) xs"

abbreviation stuck_call :: "diagnostic_ctx \<Rightarrow> pyfloat \<times> pyfloat \<Rightarrow> bool \<times> diagnostic_ctx" where
  "stuck_call \<equiv> \<lambda>ctx (omega, v). diagnostic_is_stuck ctx omega v"

abbreviation implausible_call :: "diagnostic_ctx \<Rightarrow> pyfloat \<Rightarrow> bool \<times> diagnostic_ctx" where
  "implausible_call \<equiv> \<lambda>ctx rim. diagnostic_implausible ctx (clit 20 1) (cdiv rim (clit 30 100)) (clit 30 100)"

definition test_stuck_after_threshold :: "bool list" where
  "test_stuck_after_threshold =
     [fst (calls stuck_call (replicate (unat DIAG_STUCK_THRESHOLD_CYCLES + 2) (clit 42 1, clit 20 1)))]"

definition test_stuck_resets_on_omega_change :: "bool list" where
  "test_stuck_resets_on_omega_change =
     [\<not> fst (calls stuck_call (replicate 5 (clit 42 1, clit 20 1) @ [(clit 42001 1000, clit 20 1)]))]"

definition test_stuck_ignored_when_vehicle_stopped :: "bool list" where
  "test_stuck_ignored_when_vehicle_stopped =
     [\<not> fst (calls stuck_call (replicate (unat DIAG_STUCK_THRESHOLD_CYCLES * 2) (clit 0 1, clit 0 1)))]"

definition test_stuck_below_threshold_does_not_fire :: "bool list" where
  "test_stuck_below_threshold_does_not_fire =
     [\<not> fst (calls stuck_call (replicate (unat DIAG_STUCK_THRESHOLD_CYCLES - 1) (clit 30 1, clit 15 1)))]"

definition test_noise_quiet_signal :: "bool list" where
  "test_noise_quiet_signal =
     [\<not> fst (calls diagnostic_is_noisy (map (\<lambda>i. cadd (clit 50 1) (cmul (clit 1 100) (clit (int i) 1))) [0..<40]))]"

definition test_noise_ignores_bangbang_oscillation :: "bool list" where
  "test_noise_ignores_bangbang_oscillation =
     [\<not> fst (calls diagnostic_is_noisy (map (\<lambda>i. let phase = i mod 20 in
        if phase < 10 then cadd (clit 40 1) (cmul (clit 2 1) (clit (int phase) 1))
        else csub (clit 60 1) (cmul (clit 2 1) (clit (int (phase - 10)) 1))) [0..<80]))]"

definition test_noise_detects_high_freq_jitter :: "bool list" where
  "test_noise_detects_high_freq_jitter =
     [fst (calls diagnostic_is_noisy (map (\<lambda>i. if odd i then clit 55 1 else clit 45 1) [0..<40]))]"

definition test_range_rejects_negative_omega :: "bool list" where
  "test_range_rejects_negative_omega =
     [diagnostic_out_of_range (clit 20 1) (clit (- 10) 1)]"

definition test_range_rejects_huge_v :: "bool list" where
  "test_range_rejects_huge_v =
     [diagnostic_out_of_range (clit 200 1) (clit 50 1)]"

definition test_range_rejects_nan :: "bool list" where
  "test_range_rejects_nan =
     [diagnostic_out_of_range (clit 20 1) NaN]"

definition test_range_accepts_nominal :: "bool list" where
  "test_range_accepts_nominal =
     [\<not> diagnostic_out_of_range (clit 20 1) (clit 66 1)]"

definition test_plausibility_detects_omega_gt_v :: "bool list" where
  "test_plausibility_detects_omega_gt_v =
     [fst (calls implausible_call (replicate (unat DIAG_PLAUSIBILITY_CYCLES + 1) (clit 25 1)))]"

definition test_plausibility_resets_on_normal :: "bool list" where
  "test_plausibility_resets_on_normal =
     [\<not> fst (calls implausible_call (replicate (unat DIAG_PLAUSIBILITY_CYCLES + 1) (clit 25 1) @ [clit 18 1]))]"

definition test_orchestrator_healthy_returns_none :: "bool list" where
  "test_orchestrator_healthy_returns_none =
     [fst (diagnostic_check (Some diagnostic_init) (Some (mk_sensors (clit 20 1) (clit 66 1) (clit 0 1))) (clit 30 100) 0 0) =
      C_DTC_NONE]"

definition test_orchestrator_invalid_sensor_only_comm :: "bool list" where
  "test_orchestrator_invalid_sensor_only_comm =
     [fst (diagnostic_check (Some diagnostic_init) (Some ((mk_sensors (clit 20 1) (clit 66 1) (clit 0 1))\<lparr>sd_valid := False\<rparr>))
      (clit 30 100) 10 0) = C_DTC_COMM_TIMEOUT]"

definition test_orchestrator_range_short_circuits :: "bool list" where
  "test_orchestrator_range_short_circuits =
     [fst (diagnostic_check (Some diagnostic_init) (Some (mk_sensors (clit 20 1) (clit (- 50) 1) (clit 0 1))) (clit 30 100) 0 0) =
      C_DTC_SENSOR_RANGE]"

definition test_orchestrator_stuck_after_run :: "bool list" where
  "test_orchestrator_stuck_after_run =
     [fst (foldl (\<lambda>(d, ctx) i. diagnostic_check ctx
        (Some (mk_sensors (csub (clit 20 1) (cmul (clit 1 2) (clit (int i) 1))) (clit 66 1) (clit 0 1))) (clit 30 100) 0 0)
      (0, Some diagnostic_init) [0..<unat DIAG_STUCK_THRESHOLD_CYCLES + 2]) AND C_DTC_SENSOR_STUCK \<noteq> 0]"

definition test_diagnostic :: int where
  "test_diagnostic = tests_exit [test_stuck_after_threshold,
     test_stuck_resets_on_omega_change,
     test_stuck_ignored_when_vehicle_stopped,
     test_stuck_below_threshold_does_not_fire,
     test_noise_quiet_signal,
     test_noise_ignores_bangbang_oscillation,
     test_noise_detects_high_freq_jitter,
     test_range_rejects_negative_omega,
     test_range_rejects_huge_v,
     test_range_rejects_nan,
     test_range_accepts_nominal,
     test_plausibility_detects_omega_gt_v,
     test_plausibility_resets_on_normal,
     test_orchestrator_healthy_returns_none,
     test_orchestrator_invalid_sensor_only_comm,
     test_orchestrator_range_short_circuits,
     test_orchestrator_stuck_after_run]"

section \<open>The CRC\<close>

definition test_crc :: int where
  "test_crc = tests_exit [[c_crc16_ccitt (map (\<lambda>c. of_nat (of_char c)) ''123456789'') = 0x29B1, c_crc16_ccitt [] = 0xFFFF,
     c_crc16_ccitt [0x00] = 0xE1F0, c_crc16_ccitt [0xFF] = 0xFF00]]"

section \<open>They pass\<close>

text \<open>A verdict on noise depends on the last twenty samples only.\<close>

lemma calls_noisy:
  assumes "19 \<le> length xs"
  shows "fst (calls diagnostic_is_noisy (xs @ [omega])) = noise_verdict (drop (length xs - 19) (xs @ [omega]))"
proof -
  have "snd (calls diagnostic_is_noisy xs) = noise_ctxs diagnostic_init xs"
    by (induction xs rule: rev_induct) (simp_all add: calls_def noise_ctxs_def split_def)
  then have "fst (calls diagnostic_is_noisy (xs @ [omega])) = fst (diagnostic_is_noisy (noise_ctxs diagnostic_init xs) omega)"
    by (simp add: calls_def split_def)
  with noise_verdict_last [OF assms] show ?thesis by simp
qed

lemma calls_noisy_signal:
  "fst (calls diagnostic_is_noisy (map f [0..<Suc (n + 19)])) = noise_verdict (map f [n..<n + 20])"
proof -
  have split: "map f [m..<Suc (n + 19)] = map f [m..<n + 19] @ [f (n + 19)]" if "m \<le> n" for m
    using that by (simp only: upt_Suc trans_le_add1 if_True map_append list.map)
  have "n + 20 = Suc (n + 19)" by simp
  with calls_noisy [of "map f [0..<n + 19]" "f (n + 19)"] split [of 0] split [of n] show ?thesis
    by (simp only: length_map length_upt) (simp add: drop_map del: upt_Suc)
qed

lemma test_init_to_monitor_when_moving_passes: "list_all id test_init_to_monitor_when_moving"
  unfolding test_init_to_monitor_when_moving_def mk_sensors_def expect_near_def by code_simp

lemma test_init_to_standby_when_stopped_passes: "list_all id test_init_to_standby_when_stopped"
  unfolding test_init_to_standby_when_stopped_def mk_sensors_def expect_near_def by code_simp

lemma test_standby_to_monitor_when_braking_passes: "list_all id test_standby_to_monitor_when_braking"
  unfolding test_standby_to_monitor_when_braking_def mk_sensors_def expect_near_def by code_simp

lemma test_monitor_to_active_when_slip_high_passes: "list_all id test_monitor_to_active_when_slip_high"
  unfolding test_monitor_to_active_when_slip_high_def mk_sensors_def expect_near_def by code_simp

lemma test_active_to_monitor_when_slip_low_passes: "list_all id test_active_to_monitor_when_slip_low"
  unfolding test_active_to_monitor_when_slip_low_def mk_sensors_def expect_near_def by code_simp

lemma test_monitor_to_standby_when_stops_passes: "list_all id test_monitor_to_standby_when_stops"
  unfolding test_monitor_to_standby_when_stops_def mk_sensors_def expect_near_def by code_simp

lemma test_dtc_forces_degraded_passes: "list_all id test_dtc_forces_degraded"
  unfolding test_dtc_forces_degraded_def mk_sensors_def expect_near_def by code_simp

lemma test_persistent_dtc_latches_passes: "list_all id test_persistent_dtc_latches"
  unfolding test_persistent_dtc_latches_def mk_sensors_def expect_near_def by code_simp

lemma test_degraded_recovers_to_monitor_passes: "list_all id test_degraded_recovers_to_monitor"
  unfolding test_degraded_recovers_to_monitor_def mk_sensors_def expect_near_def by code_simp

lemma test_invalid_sensors_are_a_fault_passes: "list_all id test_invalid_sensors_are_a_fault"
  unfolding test_invalid_sensors_are_a_fault_def mk_sensors_def expect_near_def by code_simp

lemma test_slip_free_wheel_passes: "list_all id test_slip_free_wheel"
  unfolding test_slip_free_wheel_def mk_sensors_def expect_near_def by code_simp

lemma test_slip_locked_wheel_passes: "list_all id test_slip_locked_wheel"
  unfolding test_slip_locked_wheel_def mk_sensors_def expect_near_def by code_simp

lemma test_slip_protected_at_zero_speed_passes: "list_all id test_slip_protected_at_zero_speed"
  unfolding test_slip_protected_at_zero_speed_def mk_sensors_def expect_near_def by code_simp

lemma test_slip_protected_clamps_to_unit_interval_passes: "list_all id test_slip_protected_clamps_to_unit_interval"
  unfolding test_slip_protected_clamps_to_unit_interval_def mk_sensors_def expect_near_def by code_simp

lemma test_bangbang_release_when_slip_high_passes: "list_all id test_bangbang_release_when_slip_high"
  unfolding test_bangbang_release_when_slip_high_def mk_sensors_def expect_near_def by code_simp

lemma test_bangbang_reapply_when_slip_low_passes: "list_all id test_bangbang_reapply_when_slip_low"
  unfolding test_bangbang_reapply_when_slip_low_def mk_sensors_def expect_near_def by code_simp

lemma test_bangbang_hysteresis_holds_passes: "list_all id test_bangbang_hysteresis_holds"
  unfolding test_bangbang_hysteresis_holds_def mk_sensors_def expect_near_def by code_simp

lemma test_degraded_state_passes_driver_through_passes: "list_all id test_degraded_state_passes_driver_through"
  unfolding test_degraded_state_passes_driver_through_def mk_sensors_def expect_near_def by code_simp

lemma test_latched_state_passes_driver_through_passes: "list_all id test_latched_state_passes_driver_through"
  unfolding test_latched_state_passes_driver_through_def mk_sensors_def expect_near_def by code_simp

lemma test_low_speed_bypasses_passes: "list_all id test_low_speed_bypasses"
  unfolding test_low_speed_bypasses_def mk_sensors_def expect_near_def by code_simp

lemma test_standby_passes_driver_through_passes: "list_all id test_standby_passes_driver_through"
  unfolding test_standby_passes_driver_through_def mk_sensors_def expect_near_def by code_simp

lemma test_stuck_after_threshold_passes: "list_all id test_stuck_after_threshold"
  unfolding test_stuck_after_threshold_def mk_sensors_def expect_near_def calls_def by code_simp

lemma test_stuck_resets_on_omega_change_passes: "list_all id test_stuck_resets_on_omega_change"
  unfolding test_stuck_resets_on_omega_change_def mk_sensors_def expect_near_def calls_def by code_simp

lemma test_stuck_ignored_when_vehicle_stopped_passes: "list_all id test_stuck_ignored_when_vehicle_stopped"
  unfolding test_stuck_ignored_when_vehicle_stopped_def mk_sensors_def expect_near_def calls_def by code_simp

lemma test_stuck_below_threshold_does_not_fire_passes: "list_all id test_stuck_below_threshold_does_not_fire"
  unfolding test_stuck_below_threshold_does_not_fire_def mk_sensors_def expect_near_def calls_def by code_simp

lemma test_noise_quiet_signal_passes: "list_all id test_noise_quiet_signal"
proof -
  have n: "[0..<40] = [0..<Suc (20 + 19)]" by simp
  show ?thesis unfolding test_noise_quiet_signal_def n calls_noisy_signal by code_simp
qed

lemma test_noise_ignores_bangbang_oscillation_passes: "list_all id test_noise_ignores_bangbang_oscillation"
proof -
  have n: "[0..<80] = [0..<Suc (60 + 19)]" by simp
  show ?thesis unfolding test_noise_ignores_bangbang_oscillation_def n calls_noisy_signal by code_simp
qed

lemma test_noise_detects_high_freq_jitter_passes: "list_all id test_noise_detects_high_freq_jitter"
proof -
  have n: "[0..<40] = [0..<Suc (20 + 19)]" by simp
  show ?thesis unfolding test_noise_detects_high_freq_jitter_def n calls_noisy_signal by code_simp
qed

lemma test_range_rejects_negative_omega_passes: "list_all id test_range_rejects_negative_omega"
  unfolding test_range_rejects_negative_omega_def mk_sensors_def expect_near_def calls_def by code_simp

lemma test_range_rejects_huge_v_passes: "list_all id test_range_rejects_huge_v"
  unfolding test_range_rejects_huge_v_def mk_sensors_def expect_near_def calls_def by code_simp

lemma test_range_rejects_nan_passes: "list_all id test_range_rejects_nan"
  unfolding test_range_rejects_nan_def mk_sensors_def expect_near_def calls_def by code_simp

lemma test_range_accepts_nominal_passes: "list_all id test_range_accepts_nominal"
  unfolding test_range_accepts_nominal_def mk_sensors_def expect_near_def calls_def by code_simp

lemma test_plausibility_detects_omega_gt_v_passes: "list_all id test_plausibility_detects_omega_gt_v"
  unfolding test_plausibility_detects_omega_gt_v_def mk_sensors_def expect_near_def calls_def by code_simp

lemma test_plausibility_resets_on_normal_passes: "list_all id test_plausibility_resets_on_normal"
  unfolding test_plausibility_resets_on_normal_def mk_sensors_def expect_near_def calls_def by code_simp

lemma test_orchestrator_healthy_returns_none_passes: "list_all id test_orchestrator_healthy_returns_none"
  unfolding test_orchestrator_healthy_returns_none_def mk_sensors_def expect_near_def calls_def by code_simp

lemma test_orchestrator_invalid_sensor_only_comm_passes: "list_all id test_orchestrator_invalid_sensor_only_comm"
  unfolding test_orchestrator_invalid_sensor_only_comm_def mk_sensors_def expect_near_def calls_def by code_simp

lemma test_orchestrator_range_short_circuits_passes: "list_all id test_orchestrator_range_short_circuits"
  unfolding test_orchestrator_range_short_circuits_def mk_sensors_def expect_near_def calls_def by code_simp

lemma test_orchestrator_stuck_after_run_passes: "list_all id test_orchestrator_stuck_after_run"
  unfolding test_orchestrator_stuck_after_run_def mk_sensors_def expect_near_def calls_def by code_simp

lemma tests_exit_zero: "tests_exit tests = 0 \<longleftrightarrow> list_all (list_all id) tests"
proof -
  have "(False \<in> set t) = (\<not> list_all id t)" for t by (induction t) auto
  then show ?thesis by (simp only: tests_exit_def list_all_iff [where P = "list_all id"]) simp
qed

lemma unit_tests_pass: "test_abs_state = 0 \<and> test_abs_controller = 0 \<and> test_diagnostic = 0 \<and> test_crc = 0"
proof (intro conjI)
  show "test_abs_state = 0"
    by (simp add: test_abs_state_def tests_exit_zero test_init_to_monitor_when_moving_passes
      test_init_to_standby_when_stopped_passes
      test_standby_to_monitor_when_braking_passes
      test_monitor_to_active_when_slip_high_passes
      test_active_to_monitor_when_slip_low_passes
      test_monitor_to_standby_when_stops_passes
      test_dtc_forces_degraded_passes
      test_persistent_dtc_latches_passes
      test_degraded_recovers_to_monitor_passes
      test_invalid_sensors_are_a_fault_passes)
  show "test_abs_controller = 0"
    by (simp add: test_abs_controller_def tests_exit_zero test_slip_free_wheel_passes
      test_slip_locked_wheel_passes
      test_slip_protected_at_zero_speed_passes
      test_slip_protected_clamps_to_unit_interval_passes
      test_bangbang_release_when_slip_high_passes
      test_bangbang_reapply_when_slip_low_passes
      test_bangbang_hysteresis_holds_passes
      test_degraded_state_passes_driver_through_passes
      test_latched_state_passes_driver_through_passes
      test_low_speed_bypasses_passes
      test_standby_passes_driver_through_passes)
  show "test_diagnostic = 0"
    by (simp add: test_diagnostic_def tests_exit_zero test_stuck_after_threshold_passes
      test_stuck_resets_on_omega_change_passes
      test_stuck_ignored_when_vehicle_stopped_passes
      test_stuck_below_threshold_does_not_fire_passes
      test_noise_quiet_signal_passes
      test_noise_ignores_bangbang_oscillation_passes
      test_noise_detects_high_freq_jitter_passes
      test_range_rejects_negative_omega_passes
      test_range_rejects_huge_v_passes
      test_range_rejects_nan_passes
      test_range_accepts_nominal_passes
      test_plausibility_detects_omega_gt_v_passes
      test_plausibility_resets_on_normal_passes
      test_orchestrator_healthy_returns_none_passes
      test_orchestrator_invalid_sensor_only_comm_passes
      test_orchestrator_range_short_circuits_passes
      test_orchestrator_stuck_after_run_passes)
  show "test_crc = 0" by code_simp
qed

end
