(* ===== verification/Spec2Isabelle.thy ===== *)
theory Spec2Isabelle
  imports Decoder_Accounting Fault_Properties Sil_Properties Ecu_Termination Echo_Client
    Scenario_Properties Comm_Loss Log_Properties Figures Protocol_Tests Unit_Tests
begin

text \<open>
  Verification of the ABS software-in-the-loop bench: a Python plant (\<^verbatim>\<open>plant/\<close>, \<^verbatim>\<open>scripts/\<close>) that simulates a
  braking quarter car, and a C ECU (\<^verbatim>\<open>controller/src/\<close>) that modulates its brake.  Every 10 ms the plant sends a
  sensor frame over TCP and waits for an actuator frame; ten 1 ms integration steps follow.

  \<^bold>\<open>How code becomes definitions.\<close>  A Python function that can raise returns \<open>py_error + 'a\<close> (\<open>Inl\<close> the
  exception), a call that can hang \<open>option\<close> of that (\<open>None\<close>: it waits for an event that does not come).  Objects
  are records, passed and returned; a prefix per record names its fields.  Python integers are \<open>int\<close>, C integers words of
  their width, so counters wrap.  Floats are bit-exact: \<open>Floats\<close> defines binary64 and binary32 arithmetic
  with rounding to nearest even on integers; C expressions are evaluated in binary32 throughout (no extended
  precision and no fused multiply-add), and the bytes of a C struct are those of a little-endian machine.  NaN is one value.
  Printed lines are left out, except those of a scenario's summary.

  \<^bold>\<open>The outside world\<close> is an argument: the mathematics library (\<open>libm\<close>: \<^verbatim>\<open>math.sin\<close> and \<^verbatim>\<open>math.atan\<close>, whose documented
  range is \<open>libm_ok\<close>, met by the executable approximation \<open>bhaskara\<close>), the seeded Gaussian generator (\<open>gauss\<close>), the
  built-in \<^verbatim>\<open>sum\<close> on floats and the \<^verbatim>\<open>statistics\<close> module, the clock readings and send outcomes of each tick
  (\<open>bench_env\<close>, \<open>milestone_env\<close>, \<open>os_tick\<close>), and the coming answers of \<^verbatim>\<open>recv\<close> and \<^verbatim>\<open>poll\<close> (lists of events).

  \<^bold>\<open>The plant.\<close>
  \<^item> \<open>Crc\<close>, \<open>Protocol\<close>, \<open>Codec\<close>, \<open>Decoder\<close> (\<^verbatim>\<open>plant/protocol.py\<close>, \<^verbatim>\<open>drivers/crc.c\<close>): the two CRC routines are equal and
    detect any change of one byte; both payloads obey the interface \<open>codec\<close> (round trips up to the precision of the
    wire); \<open>encode_frame\<close>; the stream decoder, with its recursion followed to the end (\<open>try_one\<close>) and with a bounded stack
    (\<open>try_one_stack\<close>, \<open>drain_stack\<close>, whose fuel is the number of Python frames left; \<open>recursion_depth\<close> says how much is
    enough).  \<open>try_one\<close> and \<open>drain\<close> are the code wherever Python's recursion limit is not reached: always for reads of
    256 bytes, not for a long run of magic pairs fed at once, which raises \<^verbatim>\<open>RecursionError\<close>.
  \<^item> \<open>Stream_Decoding\<close>, \<open>Decoder_Accounting\<close>: encoded frames come out in order whatever the chunks and the garbage
    between them, corrupted frames are skipped and counted, every byte is accounted for; how a stream is cut does not matter as far as
    the stack suffices.
  \<^item> \<open>Tire\<close>, \<open>Vehicle\<close> (\<^verbatim>\<open>tire.py\<close>, \<^verbatim>\<open>vehicle.py\<close>): the Pacejka curve and the integration step; the invariant
    \<open>vehicle_ok\<close> bounds every field and is kept for any brake pressure that is not NaN.
  \<^item> \<open>Oracle\<close> (\<^verbatim>\<open>oracle_abs.py\<close>): the reference controller refines an abstract hysteresis; it and the C controller are
    interpretations of the interface \<open>brake_controller\<close>, in which the memory of a controller is shown to be no more than its
    last decision, for whole runs.
  \<^item> \<open>Simulate\<close> (\<^verbatim>\<open>simulate.py\<close>): the offline run ends within its 6000 steps with every logged value in range (\<open>tracked\<close> follows
    speed, wheel, time and position step by step); the command is constant within a control period.
  \<^item> \<open>Faults\<close>, \<open>Fault_Properties\<close> (\<^verbatim>\<open>fault_injector.py\<close>): the six faults and their composition.
  \<^item> \<open>Link\<close> (\<^verbatim>\<open>socket_server.py\<close>): the server side of the link.

  \<^bold>\<open>The scripts.\<close>
  \<^item> \<open>Harness\<close>, \<open>Harness_Properties\<close> (\<^verbatim>\<open>scenarios/harness.py\<close>): one tick (\<open>bench_tick\<close>) and the run; the plant stays in range
    whatever the ECU, the faults and the bytes do, as long as no command is NaN; one NaN command ruins the run for good.
  \<^item> \<open>Scenarios\<close>, \<open>Scenario_Properties\<close> (\<^verbatim>\<open>s1_nominal.py\<close> to \<^verbatim>\<open>s6_noisy_sensor.py\<close>): configurations, faults and checks;
    no scenario passes without an ECU.
  \<^item> \<open>Sil_Test\<close>, \<open>Sil_Properties\<close> (\<^verbatim>\<open>sil_brake_test.py\<close>): the same co-simulation written again; lockstep with the harness, and where
    the two part: after a timeout of the ECU the harness goes on.
  \<^item> \<open>Number_Text\<close>, \<open>Number_Text_Properties\<close>, \<open>Csv\<close>: what the scripts use of \<^verbatim>\<open>str\<close>, \<^verbatim>\<open>int\<close>, \<^verbatim>\<open>float\<close> and the
    \<^verbatim>\<open>csv\<close> module: the shortest decimal that reads back as the same float (interface \<open>text_form\<close>), quoting, and the
    reader's state machine; reading inverts writing for fields without carriage returns.
  \<^item> \<open>Log_Files\<close>, \<open>Log_Properties\<close> (\<^verbatim>\<open>to_csv\<close>, \<^verbatim>\<open>write_csv\<close>, \<^verbatim>\<open>load_csv\<close>): the log of any scenario run is read back as it
    was recorded.
  \<^item> \<open>Plot_Results\<close>, \<open>Figures\<close> (\<^verbatim>\<open>plot_results.py\<close>, \<^verbatim>\<open>plot_logs\<close> of \<^verbatim>\<open>simulate.py\<close>): the run recomputed for the plots is the
    offline oracle run; the figures, as lists of calls on matplotlib, show what the scenarios recorded.
  \<^item> \<open>Milestone\<close> (\<^verbatim>\<open>milestone_w1.py\<close>): the echo test and its verdict.

  \<^bold>\<open>The ECU.\<close>
  \<^item> \<open>Ecu_Driver\<close>, \<open>Ecu_Driver_Properties\<close> (\<^verbatim>\<open>drivers/socket_drv.c\<close>, \<^verbatim>\<open>hal/\<close>): framing, extraction, receive loop.  Step by
    step the C extraction agrees with the Python decoder (relation \<open>agree\<close>) except on actuator headers; frames
    cross the link in both directions.
  \<^item> \<open>Ecu_State\<close>, \<open>Ecu_State_Properties\<close> (\<^verbatim>\<open>app/abs_state.c\<close>): every step is an arrow of the documented diagram
    (\<open>mode_edge\<close>), and the mode is latched exactly after ten faulty samples in a row.
  \<^item> \<open>Ecu_Controller\<close> (\<^verbatim>\<open>app/abs_controller.c\<close>): refines the Python controller with the C thresholds; its command is the last
    decision over any run, and its slip is the exact one up to \<open>3 / 2 ^ 23\<close>.
  \<^item> \<open>Ecu_Diagnostic\<close>, \<open>Ecu_Diagnostic_Properties\<close> (\<^verbatim>\<open>app/diagnostic.c\<close>): the detectors, over whole histories.
  \<^item> \<open>Ecu_Main\<close>, \<open>Ecu_Main_Properties\<close> (\<^verbatim>\<open>main.c\<close>, \<^verbatim>\<open>utils/time_utils.h\<close>): a cycle (\<open>ecu_control\<close> without, \<open>ecu_tick\<close> with
    input and output) and the loop.

  \<^item> \<open>Ecu_Termination\<close>: the duration, the jitter statistics, and that a run with a duration of at least 10 ms ends; a shorter one
    is truncated to no limit at all.

  \<^bold>\<open>The closed loop.\<close>  \<open>Closed_Loop\<close> joins the tick of the harness (\<open>bench_tick\<close>) with the cycle of the ECU (\<open>ecu_tick\<close>): the
  bytes that one sends are, in arbitrary chunks and behind what was not yet read, what the other receives.
  \<open>Both_Programs\<close> takes such a run apart again: it is a run of each program, on the events of its own side.  Under any
  faults the brake never exceeds the driver's request and the plant stays in range.  \<open>Comm_Loss\<close>: while frames are
  only lost, every tick is answered and the log is that of the ECU's control (\<open>logged\<close>), so that its
  properties hold of the joint run: no DTC of the link without a loss, FAULT_LATCHED after fifteen lost ticks; and
  scenario 4 against the C code passes its checks on the fault reaction.  \<open>Echo_Client\<close> (\<^verbatim>\<open>tests/ping_client.c\<close>): the
  client of the milestone test, and the test run against it.

  \<^bold>\<open>The unit tests\<close> of the repository are programs too: \<open>Protocol_Tests\<close> (\<^verbatim>\<open>tests/test_protocol.py\<close>) and \<open>Unit_Tests\<close>
  (\<^verbatim>\<open>controller/tests/test_*.c\<close>) run them on the model, where all of them pass.

  \<^bold>\<open>Bounds.\<close>  Statements on C counters ask for histories below \<open>2 ^ 32\<close> cycles (497 days), where no counter
  wraps.  The functions that are not structurally recursive shorten the receive buffer in every round.  The
  events \<open>Chunk []\<close> of \<^verbatim>\<open>recv\<close> and \<open>ReadBytes []\<close> of \<^verbatim>\<open>read\<close> do not stand for a call that returned nothing, which
  is the end of the connection and has events of its own (\<open>PeerClosed\<close>, \<open>ReadClosed\<close>); the loops skip them.

  \<^bold>\<open>Not modelled.\<close>  Argument parsers, printing, the file system (a file is its text) and what matplotlib draws; the
  field size limit of the \<^verbatim>\<open>csv\<close> module; opening sockets, which is an event; the ECU's log line and printed summary;
  what the unit tests print.  The sign and payload of NaN are not modelled, so nothing is said of NaN bit patterns on the wire.
\<close>

end
